(* ===== verification/Kernel_Prelude.thy ===== *)
theory Kernel_Prelude
  imports Main "HOL-Library.Word" "HOL-Library.Monad_Syntax"
begin

unbundle bit_operations_syntax

text \<open>
  Shared vocabulary of the development: 32-bit unsigned arithmetic of the configured kernel
  (\<^verbatim>\<open>lagunaf_defconfig\<close>, ARM without LPAE: \<^verbatim>\<open>phys_addr_t\<close>, \<^verbatim>\<open>unsigned long\<close> and \<^verbatim>\<open>resource_size_t\<close>
  are 32 bits wide), the alignment macros of \<^verbatim>\<open>include/linux/kernel.h\<close>, and the generic lemmas on
  lists, intervals and options that the component theories use.

  An unsigned C value of 32 bits is an integer \<open>x\<close> with \<open>is_u32 x\<close>; every operation that can wrap
  is written with its reduction modulo \<open>2 ^ 32\<close> (\<open>u32_add\<close>, \<open>u32_sub\<close>, \<open>u32_mul\<close>).  Code on which the
  kernel may stop returns an \<open>'a kres\<close>: \<^verbatim>\<open>BUG_ON\<close>, \<^verbatim>\<open>panic\<close>, or, for a model with a recursion
  budget, the budget running out.
\<close>

named_theorems u32_simps \<open>32-bit operations that do not wrap\<close>

text \<open>The bytes of a string literal.\<close>

definition ascii :: "string \<Rightarrow> 8 word list" where
  "ascii s = map of_char s"

section \<open>Results of code that may stop the kernel\<close>

datatype halt = BUG | PANIC | BUDGET

type_synonym 'a kres = "halt + 'a"

definition bindK :: "'a kres \<Rightarrow> ('a \<Rightarrow> 'b kres) \<Rightarrow> 'b kres" where
  "bindK x f = (case x of Inl h \<Rightarrow> Inl h | Inr v \<Rightarrow> f v)"

text \<open>A loop whose \<^verbatim>\<open>BUG_ON\<close> is modelled by \<^const>\<open>None\<close>.\<close>

definition or_bug :: "'a option \<Rightarrow> 'a kres" where
  "or_bug x = (case x of None \<Rightarrow> Inl BUG | Some v \<Rightarrow> Inr v)"

lemma bindK_simps [simp]: "bindK (Inl h) f = Inl h" "bindK (Inr v) f = f v"
  by (simp_all add: bindK_def)

lemma or_bug_simps [simp]: "or_bug None = Inl BUG" "or_bug (Some v) = Inr v"
  by (simp_all add: or_bug_def)

lemma bindK_eq_Inr [simp]: "bindK x f = Inr y \<longleftrightarrow> (\<exists>v. x = Inr v \<and> f v = Inr y)"
  by (cases x) auto

lemma bindK_eq_Inl: "bindK x f = Inl h \<longleftrightarrow> x = Inl h \<or> (\<exists>v. x = Inr v \<and> f v = Inl h)"
  by (cases x) auto

lemma or_bug_eq_Inr [simp]: "or_bug x = Inr v \<longleftrightarrow> x = Some v"
  by (cases x) auto

section \<open>Error numbers\<close>

text \<open>The values of \<^verbatim>\<open>include/uapi/asm-generic/errno-base.h\<close> and \<^verbatim>\<open>errno.h\<close>; code returns them negated.\<close>

definition EPERM :: int where "EPERM = 1"
definition ENOENT :: int where "ENOENT = 2"
definition EIO :: int where "EIO = 5"
definition ECHILD :: int where "ECHILD = 10"
definition EAGAIN :: int where "EAGAIN = 11"
definition ENOMEM :: int where "ENOMEM = 12"
definition EACCES :: int where "EACCES = 13"
definition EFAULT :: int where "EFAULT = 14"
definition EBUSY :: int where "EBUSY = 16"
definition EEXIST :: int where "EEXIST = 17"
definition ENOTDIR :: int where "ENOTDIR = 20"
definition EISDIR :: int where "EISDIR = 21"
definition EINVAL :: int where "EINVAL = 22"
definition ETXTBSY :: int where "ETXTBSY = 26"
definition EFBIG :: int where "EFBIG = 27"
definition EROFS :: int where "EROFS = 30"
definition ERANGE :: int where "ERANGE = 34"
definition ENODATA :: int where "ENODATA = 61"
definition EOVERFLOW :: int where "EOVERFLOW = 75"
definition EOPNOTSUPP :: int where "EOPNOTSUPP = 95"

lemmas errno_defs = EPERM_def ENOENT_def EIO_def ECHILD_def EAGAIN_def ENOMEM_def EACCES_def EFAULT_def EBUSY_def EEXIST_def
  ENOTDIR_def EISDIR_def EINVAL_def ETXTBSY_def EFBIG_def EROFS_def ERANGE_def ENODATA_def EOVERFLOW_def EOPNOTSUPP_def

section \<open>32-bit unsigned arithmetic\<close>

definition U32_MAX :: int where
  "U32_MAX = 4294967295"

definition is_u32 :: "int \<Rightarrow> bool" where
  "is_u32 x \<longleftrightarrow> 0 \<le> x \<and> x \<le> U32_MAX"

definition u32_add :: "int \<Rightarrow> int \<Rightarrow> int" where
  "u32_add a b = (a + b) mod 4294967296"

definition u32_sub :: "int \<Rightarrow> int \<Rightarrow> int" where
  "u32_sub a b = (a - b) mod 4294967296"

definition u32_mul :: "int \<Rightarrow> int \<Rightarrow> int" where
  "u32_mul a b = (a * b) mod 4294967296"

lemma is_u32_mod: "is_u32 (x mod 4294967296)"
  using pos_mod_bound [of 4294967296 x] by (simp add: is_u32_def U32_MAX_def)

lemma u32_add_bounds [simp, intro]: "is_u32 (u32_add a b)"
  unfolding u32_add_def by (rule is_u32_mod)

lemma u32_sub_bounds [simp, intro]: "is_u32 (u32_sub a b)"
  unfolding u32_sub_def by (rule is_u32_mod)

lemma u32_mul_bounds [simp, intro]: "is_u32 (u32_mul a b)"
  unfolding u32_mul_def by (rule is_u32_mod)

lemma u32_add_nowrap [u32_simps]: "0 \<le> a + b \<Longrightarrow> a + b \<le> U32_MAX \<Longrightarrow> u32_add a b = a + b"
  by (simp add: u32_add_def U32_MAX_def)

lemma u32_sub_nowrap [u32_simps]: "b \<le> a \<Longrightarrow> a - b \<le> U32_MAX \<Longrightarrow> u32_sub a b = a - b"
  by (simp add: u32_sub_def U32_MAX_def)

lemma u32_mul_nowrap [u32_simps]: "0 \<le> a * b \<Longrightarrow> a * b \<le> U32_MAX \<Longrightarrow> u32_mul a b = a * b"
  by (simp add: u32_mul_def U32_MAX_def)

section \<open>Alignment macros\<close>

text \<open>
  \<^verbatim>\<open>round_up\<close>, \<^verbatim>\<open>round_down\<close>, \<^verbatim>\<open>clamp\<close> (\<^verbatim>\<open>include/linux/kernel.h\<close>) and \<^verbatim>\<open>ALIGN\<close>
  (\<^verbatim>\<open>include/uapi/linux/kernel.h\<close>) at type \<^verbatim>\<open>phys_addr_t\<close>: the bit operations of the macros,
  reduced to 32 bits.
\<close>

definition round_up :: "int \<Rightarrow> int \<Rightarrow> int" where
  "round_up x y = (((x - 1) OR (y - 1)) + 1) mod 4294967296"

definition round_down :: "int \<Rightarrow> int \<Rightarrow> int" where
  "round_down x y = (x AND NOT (y - 1)) mod 4294967296"

definition ALIGN :: "int \<Rightarrow> int \<Rightarrow> int" where
  "ALIGN x a = ((x + (a - 1)) AND NOT (a - 1)) mod 4294967296"

definition clamp :: "int \<Rightarrow> int \<Rightarrow> int \<Rightarrow> int" where
  "clamp val lo hi = min (max val lo) hi"

text \<open>For an alignment that is a power of two the macros are multiples of it, on the side they say.\<close>

lemma and_not_mask_int: "(x::int) AND NOT (2 ^ k - 1) = x - x mod 2 ^ k"
proof -
  have "x AND NOT (mask k) = push_bit k (drop_bit k x)"
    by (auto simp: bit_eq_iff bit_simps)
  also have "\<dots> = x div 2 ^ k * 2 ^ k"
    by (simp add: push_bit_eq_mult drop_bit_eq_div)
  also have "\<dots> = x - x mod 2 ^ k"
    by (simp add: minus_mod_eq_div_mult)
  finally show ?thesis by (simp add: mask_eq_exp_minus_1)
qed

lemma or_mask_int: "(x::int) OR (2 ^ k - 1) = x - x mod 2 ^ k + (2 ^ k - 1)"
proof -
  have "x OR mask k = (x AND NOT (mask k)) OR mask k"
    by (auto simp: bit_eq_iff bit_simps)
  also have "\<dots> = (x AND NOT (mask k)) + mask k"
    by (rule disjunctive_add [symmetric]) (auto simp: bit_simps)
  finally show ?thesis by (simp add: mask_eq_exp_minus_1 and_not_mask_int)
qed

lemma mod_4294967296_id: "0 \<le> x \<Longrightarrow> x \<le> U32_MAX \<Longrightarrow> x mod 4294967296 = x"
  by (simp add: U32_MAX_def)

lemma round_down_pow2:
  assumes "is_u32 x" and "y = 2 ^ k"
  shows "round_down x y = x - x mod y"
proof -
  have "x mod 2 ^ k \<le> x" and "0 \<le> x mod 2 ^ k"
    using assms(1) by (auto simp: is_u32_def zmod_le_nonneg_dividend)
  then have "(x - x mod 2 ^ k) mod 4294967296 = x - x mod 2 ^ k"
    using assms(1) unfolding is_u32_def by (intro mod_4294967296_id; linarith)
  then show ?thesis
    using assms(2) by (simp add: round_down_def and_not_mask_int)
qed

lemma round_up_pow2:
  assumes "1 \<le> x" and "y = 2 ^ k" and "x + (y - 1) \<le> U32_MAX"
  shows "round_up x y = x - 1 - (x - 1) mod y + y"
proof -
  have "(x - 1) mod 2 ^ k \<le> x - 1" and "0 \<le> (x - 1) mod 2 ^ k" and "(0::int) < 2 ^ k"
    using zmod_le_nonneg_dividend [of "x - 1" "2 ^ k"] assms(1) by simp_all
  then have "(x - 1 - (x - 1) mod 2 ^ k + 2 ^ k) mod 4294967296 = x - 1 - (x - 1) mod 2 ^ k + 2 ^ k"
    using assms by (intro mod_4294967296_id; linarith)
  then show ?thesis
    using assms(2) by (simp add: round_up_def or_mask_int algebra_simps)
qed

end
