(* ===== verification/Avb_Hash.thy ===== *)
theory Avb_Hash
  imports Kernel_Prelude
begin

text \<open>
  The hash functions of libavb, \<^verbatim>\<open>lib/libavb/avb_sha256.c\<close> and \<^verbatim>\<open>avb_sha512.c\<close>, in the build without unrolled loops.  The two
  context structures of \<^verbatim>\<open>avb_sha.h\<close> differ in the width of the words and the sizes of the arrays only, so they are one record.  The data
  of an update is the list of its bytes, so its length is that of the list; the lengths in a context keep their 32 bits.
\<close>

unbundle bit_operations_syntax

record 'w avb_sha_ctx =
  ctx_h :: "'w list"
  tot_len :: "32 word"
  ctx_len :: "32 word"
  ctx_block :: "8 word list"
  ctx_buf :: "8 word list"

type_synonym AvbSHA256Ctx = "32 word avb_sha_ctx"
type_synonym AvbSHA512Ctx = "64 word avb_sha_ctx"

section \<open>Macros\<close>

definition ROTR32 :: "nat \<Rightarrow> 32 word \<Rightarrow> 32 word" where
  "ROTR32 n x = drop_bit n x OR push_bit (32 - n) x"

definition ROTR64 :: "nat \<Rightarrow> 64 word \<Rightarrow> 64 word" where
  "ROTR64 n x = drop_bit n x OR push_bit (64 - n) x"

definition CH :: "'a::len word \<Rightarrow> 'a word \<Rightarrow> 'a word \<Rightarrow> 'a word" where
  "CH x y z = (x AND y) XOR (NOT x AND z)"

definition MAJ :: "'a::len word \<Rightarrow> 'a word \<Rightarrow> 'a word \<Rightarrow> 'a word" where
  "MAJ x y z = (x AND y) XOR (x AND z) XOR (y AND z)"

definition SHA256_F1 :: "32 word \<Rightarrow> 32 word" where "SHA256_F1 x = ROTR32 2 x XOR ROTR32 13 x XOR ROTR32 22 x"
definition SHA256_F2 :: "32 word \<Rightarrow> 32 word" where "SHA256_F2 x = ROTR32 6 x XOR ROTR32 11 x XOR ROTR32 25 x"
definition SHA256_F3 :: "32 word \<Rightarrow> 32 word" where "SHA256_F3 x = ROTR32 7 x XOR ROTR32 18 x XOR drop_bit 3 x"
definition SHA256_F4 :: "32 word \<Rightarrow> 32 word" where "SHA256_F4 x = ROTR32 17 x XOR ROTR32 19 x XOR drop_bit 10 x"

definition SHA512_F1 :: "64 word \<Rightarrow> 64 word" where "SHA512_F1 x = ROTR64 28 x XOR ROTR64 34 x XOR ROTR64 39 x"
definition SHA512_F2 :: "64 word \<Rightarrow> 64 word" where "SHA512_F2 x = ROTR64 14 x XOR ROTR64 18 x XOR ROTR64 41 x"
definition SHA512_F3 :: "64 word \<Rightarrow> 64 word" where "SHA512_F3 x = ROTR64 1 x XOR ROTR64 8 x XOR drop_bit 7 x"
definition SHA512_F4 :: "64 word \<Rightarrow> 64 word" where "SHA512_F4 x = ROTR64 19 x XOR ROTR64 61 x XOR drop_bit 6 x"

text \<open>The bytes of a word, the most significant one first, and back.\<close>

definition UNPACK32 :: "32 word \<Rightarrow> 8 word list" where
  "UNPACK32 x = [ucast (drop_bit 24 x), ucast (drop_bit 16 x), ucast (drop_bit 8 x), ucast x]"

definition PACK32 :: "8 word list \<Rightarrow> 32 word" where
  "PACK32 s = ucast (s ! 3) OR push_bit 8 (ucast (s ! 2)) OR push_bit 16 (ucast (s ! 1)) OR push_bit 24 (ucast (s ! 0))"

definition UNPACK64 :: "64 word \<Rightarrow> 8 word list" where
  "UNPACK64 x = [ucast (drop_bit 56 x), ucast (drop_bit 48 x), ucast (drop_bit 40 x), ucast (drop_bit 32 x),
     ucast (drop_bit 24 x), ucast (drop_bit 16 x), ucast (drop_bit 8 x), ucast x]"

definition PACK64 :: "8 word list \<Rightarrow> 64 word" where
  "PACK64 s = ucast (s ! 7) OR push_bit 8 (ucast (s ! 6)) OR push_bit 16 (ucast (s ! 5)) OR push_bit 24 (ucast (s ! 4)) OR
     push_bit 32 (ucast (s ! 3)) OR push_bit 40 (ucast (s ! 2)) OR push_bit 48 (ucast (s ! 1)) OR push_bit 56 (ucast (s ! 0))"

text \<open>\<^verbatim>\<open>memcpy\<close> into an array.\<close>

definition store :: "8 word list \<Rightarrow> nat \<Rightarrow> 8 word list \<Rightarrow> 8 word list" where
  "store dest i src = take i dest @ src @ drop (i + length src) dest"

section \<open>SHA-256\<close>

definition sha256_h0 :: "32 word list" where
  "sha256_h0 =
     [0x6a09e667, 0xbb67ae85, 0x3c6ef372, 0xa54ff53a, 0x510e527f, 0x9b05688c, 0x1f83d9ab, 0x5be0cd19]"

text \<open>The constants of the rounds, in the rows of the source.\<close>

definition sha256_k :: "32 word list" where
  "sha256_k = concat
     [[0x428a2f98, 0x71374491, 0xb5c0fbcf, 0xe9b5dba5, 0x3956c25b, 0x59f111f1],
      [0x923f82a4, 0xab1c5ed5, 0xd807aa98, 0x12835b01, 0x243185be, 0x550c7dc3],
      [0x72be5d74, 0x80deb1fe, 0x9bdc06a7, 0xc19bf174, 0xe49b69c1, 0xefbe4786],
      [0x0fc19dc6, 0x240ca1cc, 0x2de92c6f, 0x4a7484aa, 0x5cb0a9dc, 0x76f988da],
      [0x983e5152, 0xa831c66d, 0xb00327c8, 0xbf597fc7, 0xc6e00bf3, 0xd5a79147],
      [0x06ca6351, 0x14292967, 0x27b70a85, 0x2e1b2138, 0x4d2c6dfc, 0x53380d13],
      [0x650a7354, 0x766a0abb, 0x81c2c92e, 0x92722c85, 0xa2bfe8a1, 0xa81a664b],
      [0xc24b8b70, 0xc76c51a3, 0xd192e819, 0xd6990624, 0xf40e3585, 0x106aa070],
      [0x19a4c116, 0x1e376c08, 0x2748774c, 0x34b0bcb5, 0x391c0cb3, 0x4ed8aa4a],
      [0x5b9cca4f, 0x682e6ff3, 0x748f82ee, 0x78a5636f, 0x84c87814, 0x8cc70208],
      [0x90befffa, 0xa4506ceb, 0xbef9a3f7, 0xc67178f2]]"

definition AVB_SHA256_BLOCK_SIZE :: nat where "AVB_SHA256_BLOCK_SIZE = 64"

definition avb_sha256_init :: "AvbSHA256Ctx \<Rightarrow> AvbSHA256Ctx" where
  "avb_sha256_init ctx = ctx\<lparr>ctx_h := sha256_h0, ctx_len := 0, tot_len := 0\<rparr>"

text \<open>The body of the loop of \<^verbatim>\<open>SHA256_transform\<close> on one block: the schedule \<^verbatim>\<open>w\<close>, filled in order, and the rounds on \<^verbatim>\<open>wv\<close>.\<close>

definition SHA256_SCR :: "nat \<Rightarrow> 32 word list \<Rightarrow> 32 word list" where
  "SHA256_SCR i w = w @ [SHA256_F4 (w ! (i - 2)) + w ! (i - 7) + SHA256_F3 (w ! (i - 15)) + w ! (i - 16)]"

definition sha256_round :: "32 word list \<Rightarrow> nat \<Rightarrow> 32 word list \<Rightarrow> 32 word list" where
  "sha256_round w j wv =
     (let t1 = wv ! 7 + SHA256_F2 (wv ! 4) + CH (wv ! 4) (wv ! 5) (wv ! 6) + sha256_k ! j + w ! j;
          t2 = SHA256_F1 (wv ! 0) + MAJ (wv ! 0) (wv ! 1) (wv ! 2)
      in [t1 + t2, wv ! 0, wv ! 1, wv ! 2, wv ! 3 + t1, wv ! 4, wv ! 5, wv ! 6])"

definition sha256_block :: "32 word list \<Rightarrow> 8 word list \<Rightarrow> 32 word list" where
  "sha256_block h sub_block =
     (let w = fold SHA256_SCR [16..<64] (map (\<lambda>j. PACK32 (drop (4 * j) sub_block)) [0..<16]);
          wv = fold (sha256_round w) [0..<64] h
      in map2 (+) h wv)"

definition SHA256_transform :: "8 word list \<Rightarrow> nat \<Rightarrow> AvbSHA256Ctx \<Rightarrow> AvbSHA256Ctx" where
  "SHA256_transform message block_nb ctx =
     fold (\<lambda>i ctx. ctx\<lparr>ctx_h := sha256_block (ctx_h ctx) (take 64 (drop (64 * i) message))\<rparr>) [0..<block_nb] ctx"

definition avb_sha256_update :: "AvbSHA256Ctx \<Rightarrow> 8 word list \<Rightarrow> AvbSHA256Ctx" where
  "avb_sha256_update ctx data =
     (let len = word_of_nat (length data);
          tmp_len = word_of_nat AVB_SHA256_BLOCK_SIZE - ctx_len ctx;
          rem_len = (if len < tmp_len then len else tmp_len);
          ctx1 = ctx\<lparr>ctx_block := store (ctx_block ctx) (unat (ctx_len ctx)) (take (unat rem_len) data)\<rparr>
      in
      if ctx_len ctx + len < word_of_nat AVB_SHA256_BLOCK_SIZE then ctx1\<lparr>ctx_len := ctx_len ctx + len\<rparr>
      else
        let new_len = len - rem_len;
            block_nb = new_len div word_of_nat AVB_SHA256_BLOCK_SIZE;
            shifted_data = drop (unat rem_len) data;
            ctx2 = SHA256_transform shifted_data (unat block_nb) (SHA256_transform (ctx_block ctx1) 1 ctx1);
            rem_len' = new_len mod word_of_nat AVB_SHA256_BLOCK_SIZE
        in ctx2\<lparr>ctx_block := store (ctx_block ctx2) 0 (take (unat rem_len') (drop (unat (push_bit 6 block_nb)) shifted_data)),
                ctx_len := rem_len', tot_len := tot_len ctx2 + push_bit 6 (block_nb + 1)\<rparr>)"

definition avb_sha256_final :: "AvbSHA256Ctx \<Rightarrow> AvbSHA256Ctx" where
  "avb_sha256_final ctx =
     (let block_nb = (if AVB_SHA256_BLOCK_SIZE - 9 < unat (ctx_len ctx) mod AVB_SHA256_BLOCK_SIZE then 2 else 1);
          len_b = push_bit 3 (tot_len ctx + ctx_len ctx);
          pm_len = 64 * block_nb;
          block1 = store (ctx_block ctx) (unat (ctx_len ctx)) (replicate (pm_len - unat (ctx_len ctx)) 0);
          block2 = block1[unat (ctx_len ctx) := 0x80];
          block3 = store block2 (pm_len - 4) (UNPACK32 len_b);
          ctx1 = SHA256_transform block3 block_nb (ctx\<lparr>ctx_block := block3\<rparr>)
      in ctx1\<lparr>ctx_buf := concat (map UNPACK32 (ctx_h ctx1))\<rparr>)"

section \<open>SHA-512\<close>

definition sha512_h0 :: "64 word list" where
  "sha512_h0 =
     [0x6a09e667f3bcc908, 0xbb67ae8584caa73b, 0x3c6ef372fe94f82b, 0xa54ff53a5f1d36f1,
      0x510e527fade682d1, 0x9b05688c2b3e6c1f, 0x1f83d9abfb41bd6b, 0x5be0cd19137e2179]"

definition sha512_k :: "64 word list" where
  "sha512_k = concat
     [[0x428a2f98d728ae22, 0x7137449123ef65cd, 0xb5c0fbcfec4d3b2f],
      [0xe9b5dba58189dbbc, 0x3956c25bf348b538, 0x59f111f1b605d019],
      [0x923f82a4af194f9b, 0xab1c5ed5da6d8118, 0xd807aa98a3030242],
      [0x12835b0145706fbe, 0x243185be4ee4b28c, 0x550c7dc3d5ffb4e2],
      [0x72be5d74f27b896f, 0x80deb1fe3b1696b1, 0x9bdc06a725c71235],
      [0xc19bf174cf692694, 0xe49b69c19ef14ad2, 0xefbe4786384f25e3],
      [0x0fc19dc68b8cd5b5, 0x240ca1cc77ac9c65, 0x2de92c6f592b0275],
      [0x4a7484aa6ea6e483, 0x5cb0a9dcbd41fbd4, 0x76f988da831153b5],
      [0x983e5152ee66dfab, 0xa831c66d2db43210, 0xb00327c898fb213f],
      [0xbf597fc7beef0ee4, 0xc6e00bf33da88fc2, 0xd5a79147930aa725],
      [0x06ca6351e003826f, 0x142929670a0e6e70, 0x27b70a8546d22ffc],
      [0x2e1b21385c26c926, 0x4d2c6dfc5ac42aed, 0x53380d139d95b3df],
      [0x650a73548baf63de, 0x766a0abb3c77b2a8, 0x81c2c92e47edaee6],
      [0x92722c851482353b, 0xa2bfe8a14cf10364, 0xa81a664bbc423001],
      [0xc24b8b70d0f89791, 0xc76c51a30654be30, 0xd192e819d6ef5218],
      [0xd69906245565a910, 0xf40e35855771202a, 0x106aa07032bbd1b8],
      [0x19a4c116b8d2d0c8, 0x1e376c085141ab53, 0x2748774cdf8eeb99],
      [0x34b0bcb5e19b48a8, 0x391c0cb3c5c95a63, 0x4ed8aa4ae3418acb],
      [0x5b9cca4f7763e373, 0x682e6ff3d6b2b8a3, 0x748f82ee5defb2fc],
      [0x78a5636f43172f60, 0x84c87814a1f0ab72, 0x8cc702081a6439ec],
      [0x90befffa23631e28, 0xa4506cebde82bde9, 0xbef9a3f7b2c67915],
      [0xc67178f2e372532b, 0xca273eceea26619c, 0xd186b8c721c0c207],
      [0xeada7dd6cde0eb1e, 0xf57d4f7fee6ed178, 0x06f067aa72176fba],
      [0x0a637dc5a2c898a6, 0x113f9804bef90dae, 0x1b710b35131c471b],
      [0x28db77f523047d84, 0x32caab7b40c72493, 0x3c9ebe0a15c9bebc],
      [0x431d67c49c100d4c, 0x4cc5d4becb3e42b6, 0x597f299cfc657e2a],
      [0x5fcb6fab3ad6faec, 0x6c44198c4a475817]]"

definition AVB_SHA512_BLOCK_SIZE :: nat where "AVB_SHA512_BLOCK_SIZE = 128"

definition avb_sha512_init :: "AvbSHA512Ctx \<Rightarrow> AvbSHA512Ctx" where
  "avb_sha512_init ctx = ctx\<lparr>ctx_h := sha512_h0, ctx_len := 0, tot_len := 0\<rparr>"

definition SHA512_SCR :: "nat \<Rightarrow> 64 word list \<Rightarrow> 64 word list" where
  "SHA512_SCR i w = w @ [SHA512_F4 (w ! (i - 2)) + w ! (i - 7) + SHA512_F3 (w ! (i - 15)) + w ! (i - 16)]"

definition sha512_round :: "64 word list \<Rightarrow> nat \<Rightarrow> 64 word list \<Rightarrow> 64 word list" where
  "sha512_round w j wv =
     (let t1 = wv ! 7 + SHA512_F2 (wv ! 4) + CH (wv ! 4) (wv ! 5) (wv ! 6) + sha512_k ! j + w ! j;
          t2 = SHA512_F1 (wv ! 0) + MAJ (wv ! 0) (wv ! 1) (wv ! 2)
      in [t1 + t2, wv ! 0, wv ! 1, wv ! 2, wv ! 3 + t1, wv ! 4, wv ! 5, wv ! 6])"

definition sha512_block :: "64 word list \<Rightarrow> 8 word list \<Rightarrow> 64 word list" where
  "sha512_block h sub_block =
     (let w = fold SHA512_SCR [16..<80] (map (\<lambda>j. PACK64 (drop (8 * j) sub_block)) [0..<16]);
          wv = fold (sha512_round w) [0..<80] h
      in map2 (+) h wv)"

definition SHA512_transform :: "8 word list \<Rightarrow> nat \<Rightarrow> AvbSHA512Ctx \<Rightarrow> AvbSHA512Ctx" where
  "SHA512_transform message block_nb ctx =
     fold (\<lambda>i ctx. ctx\<lparr>ctx_h := sha512_block (ctx_h ctx) (take 128 (drop (128 * i) message))\<rparr>) [0..<block_nb] ctx"

definition avb_sha512_update :: "AvbSHA512Ctx \<Rightarrow> 8 word list \<Rightarrow> AvbSHA512Ctx" where
  "avb_sha512_update ctx data =
     (let len = word_of_nat (length data);
          tmp_len = word_of_nat AVB_SHA512_BLOCK_SIZE - ctx_len ctx;
          rem_len = (if len < tmp_len then len else tmp_len);
          ctx1 = ctx\<lparr>ctx_block := store (ctx_block ctx) (unat (ctx_len ctx)) (take (unat rem_len) data)\<rparr>
      in
      if ctx_len ctx + len < word_of_nat AVB_SHA512_BLOCK_SIZE then ctx1\<lparr>ctx_len := ctx_len ctx + len\<rparr>
      else
        let new_len = len - rem_len;
            block_nb = new_len div word_of_nat AVB_SHA512_BLOCK_SIZE;
            shifted_data = drop (unat rem_len) data;
            ctx2 = SHA512_transform shifted_data (unat block_nb) (SHA512_transform (ctx_block ctx1) 1 ctx1);
            rem_len' = new_len mod word_of_nat AVB_SHA512_BLOCK_SIZE
        in ctx2\<lparr>ctx_block := store (ctx_block ctx2) 0 (take (unat rem_len') (drop (unat (push_bit 7 block_nb)) shifted_data)),
                ctx_len := rem_len', tot_len := tot_len ctx2 + push_bit 7 (block_nb + 1)\<rparr>)"

definition avb_sha512_final :: "AvbSHA512Ctx \<Rightarrow> AvbSHA512Ctx" where
  "avb_sha512_final ctx =
     (let block_nb = (if AVB_SHA512_BLOCK_SIZE - 17 < unat (ctx_len ctx) mod AVB_SHA512_BLOCK_SIZE then 2 else 1);
          len_b = push_bit 3 (tot_len ctx + ctx_len ctx);
          pm_len = 128 * block_nb;
          block1 = store (ctx_block ctx) (unat (ctx_len ctx)) (replicate (pm_len - unat (ctx_len ctx)) 0);
          block2 = block1[unat (ctx_len ctx) := 0x80];
          block3 = store block2 (pm_len - 4) (UNPACK32 len_b);
          ctx1 = SHA512_transform block3 block_nb (ctx\<lparr>ctx_block := block3\<rparr>)
      in ctx1\<lparr>ctx_buf := concat (map UNPACK64 (ctx_h ctx1))\<rparr>)"

end
