(* ===== verification/Avb_Rsa.thy ===== *)
theory Avb_Rsa
  imports Avb_Hash
begin

text \<open>
  The RSA verification of libavb, \<^verbatim>\<open>lib/libavb/avb_rsa.c\<close>, with the byte order functions and the comparison of \<^verbatim>\<open>avb_util.c\<close>.
  The arrays of 32-bit words are lists, the least significant word first, and a loop over arrays of one length is a recursion over the
  lists; no two of the arrays the code passes to a function overlap where it writes to one of them.  Memory is a function from
  addresses to bytes.  The allocator is a function \<open>alloc\<close> that says whether the request with a given number succeeds.
\<close>

unbundle bit_operations_syntax

type_synonym avb_mem = "64 word \<Rightarrow> 8 word"

definition load :: "avb_mem \<Rightarrow> 64 word \<Rightarrow> nat \<Rightarrow> 8 word list" where
  "load m p n = map (\<lambda>i. m (p + word_of_nat i)) [0..<n]"

section \<open>Byte order and comparison\<close>

text \<open>The argument is the list of the bytes of the word in memory.\<close>

definition avb_be32toh :: "8 word list \<Rightarrow> 32 word" where
  "avb_be32toh d = push_bit 24 (ucast (d ! 0)) OR push_bit 16 (ucast (d ! 1)) OR push_bit 8 (ucast (d ! 2)) OR ucast (d ! 3)"

definition avb_be64toh :: "8 word list \<Rightarrow> 64 word" where
  "avb_be64toh d = push_bit 56 (ucast (d ! 0)) OR push_bit 48 (ucast (d ! 1)) OR push_bit 40 (ucast (d ! 2)) OR
     push_bit 32 (ucast (d ! 3)) OR push_bit 24 (ucast (d ! 4)) OR push_bit 16 (ucast (d ! 5)) OR push_bit 8 (ucast (d ! 6)) OR
     ucast (d ! 7)"

fun memcmp_loop :: "8 word \<Rightarrow> 8 word list \<Rightarrow> 8 word list \<Rightarrow> 8 word" where
  "memcmp_loop result (x # s1) (y # s2) = memcmp_loop (result OR (x XOR y)) s1 s2"
| "memcmp_loop result _ _ = result"

definition avb_safe_memcmp :: "8 word list \<Rightarrow> 8 word list \<Rightarrow> nat \<Rightarrow> int" where
  "avb_safe_memcmp s1 s2 n = (if n = 0 then 0 else if memcmp_loop 0 (take n s1) (take n s2) \<noteq> 0 then 1 else 0)"

section \<open>Keys\<close>

record IAvbKey =
  key_len :: nat
  n0inv :: "32 word"
  key_n :: "32 word list"
  key_rr :: "32 word list"

record AvbRSAPublicKeyHeader =
  key_num_bits :: "32 word"
  hdr_n0inv :: "32 word"

definition avb_rsa_public_key_header_validate_and_byteswap :: "8 word list \<Rightarrow> AvbRSAPublicKeyHeader" where
  "avb_rsa_public_key_header_validate_and_byteswap src =
     \<lparr>key_num_bits = avb_be32toh src, hdr_n0inv = avb_be32toh (drop 4 src)\<rparr>"

definition key_words :: "avb_mem \<Rightarrow> 64 word \<Rightarrow> nat \<Rightarrow> 32 word list" where
  "key_words m n len = map (\<lambda>i. avb_be32toh (load m (n + word_of_nat (4 * (len - i - 1))) 4)) [0..<len]"

definition iavb_parse_key_data :: "bool \<Rightarrow> avb_mem \<Rightarrow> 64 word \<Rightarrow> 64 word \<Rightarrow> IAvbKey option" where
  "iavb_parse_key_data ok m data data_len =
     (let h = avb_rsa_public_key_header_validate_and_byteswap (load m data 8) in
      if \<not> (key_num_bits h = 2048 \<or> key_num_bits h = 4096 \<or> key_num_bits h = 8192) then None
      else
        let num_bytes = ucast (key_num_bits h div 8);
            expected_length = 8 + ucast (2 * key_num_bits h div 8);
            len = unat (key_num_bits h div 32)
        in
        if data_len \<noteq> expected_length then None
        else if \<not> ok then None
        else Some \<lparr>key_len = len, n0inv = hdr_n0inv h, key_n = key_words m (data + 8) len,
                   key_rr = key_words m (data + 8 + num_bytes) len\<rparr>)"

section \<open>Arithmetic on arrays\<close>

text \<open>\<^verbatim>\<open>subM\<close>: the borrow is a signed number of 64 bits.\<close>

fun sub_loop :: "64 word \<Rightarrow> 32 word list \<Rightarrow> 32 word list \<Rightarrow> 32 word list" where
  "sub_loop A (x # a) (y # n) =
     (let A' = A + (ucast x - ucast y) in ucast A' # sub_loop (signed_drop_bit 32 A') a n)"
| "sub_loop A a n = a"

definition subM :: "IAvbKey \<Rightarrow> 32 word list \<Rightarrow> 32 word list" where
  "subM key a = sub_loop 0 a (key_n key)"

text \<open>\<^verbatim>\<open>geM\<close>: the pairs of words, the most significant ones first.\<close>

fun ge_loop :: "(32 word \<times> 32 word) list \<Rightarrow> bool" where
  "ge_loop [] = True"
| "ge_loop ((x, y) # r) = (if x < y then False else if x > y then True else ge_loop r)"

definition geM :: "IAvbKey \<Rightarrow> 32 word list \<Rightarrow> bool" where
  "geM key a = ge_loop (rev (zip a (key_n key)))"

text \<open>The loop of \<^verbatim>\<open>montMulAdd\<close> from the second words on, with the words it stores and the last values of \<^verbatim>\<open>A\<close> and \<^verbatim>\<open>B\<close>.\<close>

fun mont_loop ::
  "32 word \<Rightarrow> 32 word \<Rightarrow> 64 word \<Rightarrow> 64 word \<Rightarrow> 32 word list \<Rightarrow> 32 word list \<Rightarrow> 32 word list \<Rightarrow> 32 word list \<times> 64 word \<times> 64 word" where
  "mont_loop a d0 A B (c # cs) (b # bs) (n # ns) =
     (let A' = drop_bit 32 A + ucast a * ucast b + ucast c;
          B' = drop_bit 32 B + ucast d0 * ucast n + ucast (ucast A' :: 32 word)
      in case mont_loop a d0 A' B' cs bs ns of (out, A1, B1) \<Rightarrow> (ucast B' # out, A1, B1))"
| "mont_loop a d0 A B _ _ _ = ([], A, B)"

definition montMulAdd :: "IAvbKey \<Rightarrow> 32 word list \<Rightarrow> 32 word \<Rightarrow> 32 word list \<Rightarrow> 32 word list" where
  "montMulAdd key c a b =
     (let A = ucast a * ucast (b ! 0) + ucast (c ! 0);
          d0 = ucast A * n0inv key;
          B = ucast d0 * ucast (key_n key ! 0) + ucast (ucast A :: 32 word)
      in case mont_loop a d0 A B (tl c) (tl b) (tl (key_n key)) of
           (out, A1, B1) \<Rightarrow>
             let A2 = drop_bit 32 A1 + drop_bit 32 B1;
                 c' = out @ [ucast A2]
             in if drop_bit 32 A2 \<noteq> 0 then subM key c' else c')"

definition montMul :: "IAvbKey \<Rightarrow> 32 word list \<Rightarrow> 32 word list \<Rightarrow> 32 word list" where
  "montMul key a b = fold (\<lambda>x c. montMulAdd key c x b) a (replicate (key_len key) 0)"

text \<open>\<^verbatim>\<open>modpowF4\<close>: nothing is done, and nothing is said about it, when one of the three arrays cannot be allocated.\<close>

definition modpowF4 :: "bool \<Rightarrow> IAvbKey \<Rightarrow> 8 word list \<Rightarrow> 8 word list" where
  "modpowF4 ok key inout =
     (if \<not> ok then inout
      else
        let len = key_len key;
            a = map (\<lambda>i. let k = (len - 1 - i) * 4 in
                  push_bit 24 (ucast (inout ! k)) OR push_bit 16 (ucast (inout ! (k + 1))) OR
                  push_bit 8 (ucast (inout ! (k + 2))) OR ucast (inout ! (k + 3))) [0..<len];
            aR = ((\<lambda>aR. let aaR = montMul key aR aR in montMul key aaR aaR) ^^ 8) (montMul key a (key_rr key));
            aaa = montMul key aR a;
            aaa' = (if geM key aaa then subM key aaa else aaa)
        in concat (map UNPACK32 (rev aaa')) @ drop (4 * len) inout)"

section \<open>Verification\<close>

definition avb_rsa_verify ::
  "(nat \<Rightarrow> bool) \<Rightarrow> avb_mem \<Rightarrow> 64 word \<Rightarrow> 64 word \<Rightarrow> 64 word \<Rightarrow> 64 word \<Rightarrow> 64 word \<Rightarrow> 64 word \<Rightarrow> 8 word list option \<Rightarrow> bool" where
  "avb_rsa_verify alloc m key key_num_bytes sig sig_num_bytes hash hash_num_bytes padding =
     (if key = 0 \<or> sig = 0 \<or> hash = 0 \<or> padding = None then False
      else
        case iavb_parse_key_data (alloc 0) m key key_num_bytes of
          None \<Rightarrow> False
        | Some parsed_key \<Rightarrow>
            let pad = the padding; padding_num_bytes = word_of_nat (length pad) in
            if sig_num_bytes \<noteq> word_of_nat (key_len parsed_key) * 4 then False
            else if padding_num_bytes \<noteq> sig_num_bytes - hash_num_bytes then False
            else if \<not> alloc 1 then False
            else
              let buf = modpowF4 (alloc 2 \<and> alloc 3 \<and> alloc 4) parsed_key (load m sig (unat sig_num_bytes)) in
              if avb_safe_memcmp buf pad (length pad) \<noteq> 0 then False
              else if avb_safe_memcmp (drop (length pad) buf) (load m hash (unat hash_num_bytes)) (unat hash_num_bytes) \<noteq> 0 then False
              else True)"

end
