(* ===== verification/Avb_Vbmeta.thy ===== *)
theory Avb_Vbmeta
  imports Avb_Rsa
begin

text \<open>
  The check of a vbmeta image, \<^verbatim>\<open>lib/libavb/avb_vbmeta_image.c\<close>, with the algorithms of \<^verbatim>\<open>avb_crypto.c\<close> and the additions of
  \<^verbatim>\<open>avb_util.c\<close>.  Pointers and sizes have 64 bits.  The contexts of the hash functions are variables on the stack, so their contents
  before the call are arguments.
\<close>

unbundle bit_operations_syntax

section \<open>Additions with a test for overflow\<close>

definition avb_safe_add_to :: "64 word \<Rightarrow> 64 word \<Rightarrow> 64 word \<times> bool" where
  "avb_safe_add_to v value_to_add = (let v' = v + value_to_add in (v', \<not> v' < v))"

definition avb_safe_add :: "64 word \<Rightarrow> 64 word \<Rightarrow> 64 word \<times> bool" where
  "avb_safe_add a b = avb_safe_add_to a b"

section \<open>The header\<close>

record AvbVBMetaImageHeader =
  required_libavb_version_major :: "32 word"
  required_libavb_version_minor :: "32 word"
  authentication_data_block_size :: "64 word"
  auxiliary_data_block_size :: "64 word"
  algorithm_type :: "32 word"
  hash_offset :: "64 word"
  hash_size :: "64 word"
  signature_offset :: "64 word"
  signature_size :: "64 word"
  public_key_offset :: "64 word"
  public_key_size :: "64 word"
  public_key_metadata_offset :: "64 word"
  public_key_metadata_size :: "64 word"
  descriptors_offset :: "64 word"
  descriptors_size :: "64 word"
  rollback_index :: "64 word"
  vbmeta_flags :: "32 word"
  release_string :: "8 word list"

definition AVB_VBMETA_IMAGE_HEADER_SIZE :: nat where "AVB_VBMETA_IMAGE_HEADER_SIZE = 256"
definition AVB_MAGIC :: "8 word list" where "AVB_MAGIC = [0x41, 0x56, 0x42, 0x30]"
definition AVB_MAGIC_LEN :: nat where "AVB_MAGIC_LEN = 4"
definition AVB_RELEASE_STRING_SIZE :: nat where "AVB_RELEASE_STRING_SIZE = 48"
definition AVB_VERSION_MAJOR :: "32 word" where "AVB_VERSION_MAJOR = 1"
definition AVB_VERSION_MINOR :: "32 word" where "AVB_VERSION_MINOR = 1"

definition avb_vbmeta_image_header_to_host_byte_order :: "8 word list \<Rightarrow> AvbVBMetaImageHeader" where
  "avb_vbmeta_image_header_to_host_byte_order src =
     \<lparr>required_libavb_version_major = avb_be32toh (drop 4 src),
      required_libavb_version_minor = avb_be32toh (drop 8 src),
      authentication_data_block_size = avb_be64toh (drop 12 src),
      auxiliary_data_block_size = avb_be64toh (drop 20 src),
      algorithm_type = avb_be32toh (drop 28 src),
      hash_offset = avb_be64toh (drop 32 src),
      hash_size = avb_be64toh (drop 40 src),
      signature_offset = avb_be64toh (drop 48 src),
      signature_size = avb_be64toh (drop 56 src),
      public_key_offset = avb_be64toh (drop 64 src),
      public_key_size = avb_be64toh (drop 72 src),
      public_key_metadata_offset = avb_be64toh (drop 80 src),
      public_key_metadata_size = avb_be64toh (drop 88 src),
      descriptors_offset = avb_be64toh (drop 96 src),
      descriptors_size = avb_be64toh (drop 104 src),
      rollback_index = avb_be64toh (drop 112 src),
      vbmeta_flags = avb_be32toh (drop 120 src),
      release_string = take AVB_RELEASE_STRING_SIZE (drop 128 src)\<rparr>"

section \<open>Algorithms\<close>

definition AVB_SHA256_DIGEST_SIZE :: nat where "AVB_SHA256_DIGEST_SIZE = 32"
definition AVB_SHA512_DIGEST_SIZE :: nat where "AVB_SHA512_DIGEST_SIZE = 64"

text \<open>The padding of PKCS1-v1.5 for a key of the given number of bytes, behind it the digest.  Its last part is a DER sequence: the
  algorithm, an object identifier with null parameters, and the tag and length of the digest.\<close>

definition sha256_id :: "8 word list" where
  "sha256_id = [0x30, 0x31] @ [0x30, 0x0d] @ [0x06, 0x09] @ [0x60, 0x86, 0x48, 0x01, 0x65] @ [0x03, 0x04, 0x02, 0x01] @ [0x05, 0x00] @ [0x04, 0x20]"

definition sha512_id :: "8 word list" where
  "sha512_id = [0x30, 0x51] @ [0x30, 0x0d] @ [0x06, 0x09] @ [0x60, 0x86, 0x48, 0x01, 0x65] @ [0x03, 0x04, 0x02, 0x03] @ [0x05, 0x00] @ [0x04, 0x40]"

definition padding_RSA2048_SHA256 :: "8 word list" where
  "padding_RSA2048_SHA256 = [0x00, 0x01] @ replicate 202 0xff @ [0x00] @ sha256_id"

definition padding_RSA4096_SHA256 :: "8 word list" where
  "padding_RSA4096_SHA256 = [0x00, 0x01] @ replicate 458 0xff @ [0x00] @ sha256_id"

definition padding_RSA8192_SHA256 :: "8 word list" where
  "padding_RSA8192_SHA256 = [0x00, 0x01] @ replicate 970 0xff @ [0x00] @ sha256_id"

definition padding_RSA2048_SHA512 :: "8 word list" where
  "padding_RSA2048_SHA512 = [0x00, 0x01] @ replicate 170 0xff @ [0x00] @ sha512_id"

definition padding_RSA4096_SHA512 :: "8 word list" where
  "padding_RSA4096_SHA512 = [0x00, 0x01] @ replicate 426 0xff @ [0x00] @ sha512_id"

definition padding_RSA8192_SHA512 :: "8 word list" where
  "padding_RSA8192_SHA512 = [0x00, 0x01] @ replicate 938 0xff @ [0x00] @ sha512_id"

record AvbAlgorithmData =
  alg_padding :: "8 word list option"
  alg_hash_len :: nat

definition algorithm_data :: "AvbAlgorithmData list" where
  "algorithm_data =
     [\<lparr>alg_padding = None, alg_hash_len = 0\<rparr>,
      \<lparr>alg_padding = Some padding_RSA2048_SHA256, alg_hash_len = AVB_SHA256_DIGEST_SIZE\<rparr>,
      \<lparr>alg_padding = Some padding_RSA4096_SHA256, alg_hash_len = AVB_SHA256_DIGEST_SIZE\<rparr>,
      \<lparr>alg_padding = Some padding_RSA8192_SHA256, alg_hash_len = AVB_SHA256_DIGEST_SIZE\<rparr>,
      \<lparr>alg_padding = Some padding_RSA2048_SHA512, alg_hash_len = AVB_SHA512_DIGEST_SIZE\<rparr>,
      \<lparr>alg_padding = Some padding_RSA4096_SHA512, alg_hash_len = AVB_SHA512_DIGEST_SIZE\<rparr>,
      \<lparr>alg_padding = Some padding_RSA8192_SHA512, alg_hash_len = AVB_SHA512_DIGEST_SIZE\<rparr>]"

definition avb_get_algorithm_data :: "32 word \<Rightarrow> AvbAlgorithmData option" where
  "avb_get_algorithm_data algorithm =
     (if unat algorithm < length algorithm_data then Some (algorithm_data ! unat algorithm) else None)"

section \<open>The check\<close>

datatype AvbVBMetaVerifyResult = AVB_VBMETA_VERIFY_RESULT_OK | AVB_VBMETA_VERIFY_RESULT_OK_NOT_SIGNED
  | AVB_VBMETA_VERIFY_RESULT_INVALID_VBMETA_HEADER | AVB_VBMETA_VERIFY_RESULT_UNSUPPORTED_VERSION
  | AVB_VBMETA_VERIFY_RESULT_HASH_MISMATCH | AVB_VBMETA_VERIFY_RESULT_SIGNATURE_MISMATCH

text \<open>The tests of the header behind the magic, in their order: \<^const>\<open>None\<close> when all pass.\<close>

definition header_result :: "AvbVBMetaImageHeader \<Rightarrow> 64 word \<Rightarrow> 64 word \<Rightarrow> AvbVBMetaVerifyResult option" where
  "header_result h data data_len =
     (if required_libavb_version_major h \<noteq> AVB_VERSION_MAJOR \<or> required_libavb_version_minor h > AVB_VERSION_MINOR
      then Some AVB_VBMETA_VERIFY_RESULT_UNSUPPORTED_VERSION
      else if release_string h ! (AVB_RELEASE_STRING_SIZE - 1) \<noteq> 0 then Some AVB_VBMETA_VERIFY_RESULT_INVALID_VBMETA_HEADER
      else if authentication_data_block_size h AND 0x3f \<noteq> 0 \<or> auxiliary_data_block_size h AND 0x3f \<noteq> 0
      then Some AVB_VBMETA_VERIFY_RESULT_INVALID_VBMETA_HEADER
      else
        case avb_safe_add_to (word_of_nat AVB_VBMETA_IMAGE_HEADER_SIZE) (authentication_data_block_size h) of (total1, ok1) \<Rightarrow>
        case avb_safe_add_to total1 (auxiliary_data_block_size h) of (block_total, ok2) \<Rightarrow>
        if \<not> ok1 \<or> \<not> ok2 then Some AVB_VBMETA_VERIFY_RESULT_INVALID_VBMETA_HEADER
        else if block_total > data_len then Some AVB_VBMETA_VERIFY_RESULT_INVALID_VBMETA_HEADER
        else if \<not> snd (avb_safe_add data data_len) then Some AVB_VBMETA_VERIFY_RESULT_INVALID_VBMETA_HEADER
        else
          case avb_safe_add (hash_offset h) (hash_size h) of (hash_end, ok3) \<Rightarrow>
          if \<not> ok3 \<or> hash_end > authentication_data_block_size h then Some AVB_VBMETA_VERIFY_RESULT_INVALID_VBMETA_HEADER
          else
            case avb_safe_add (signature_offset h) (signature_size h) of (signature_end, ok4) \<Rightarrow>
            if \<not> ok4 \<or> signature_end > authentication_data_block_size h then Some AVB_VBMETA_VERIFY_RESULT_INVALID_VBMETA_HEADER
            else
              case avb_safe_add (public_key_offset h) (public_key_size h) of (pubkey_end, ok5) \<Rightarrow>
              if \<not> ok5 \<or> pubkey_end > auxiliary_data_block_size h then Some AVB_VBMETA_VERIFY_RESULT_INVALID_VBMETA_HEADER
              else
                case avb_safe_add (public_key_metadata_offset h) (public_key_metadata_size h) of (pubkey_md_end, ok6) \<Rightarrow>
                if public_key_metadata_size h > 0 \<and> (\<not> ok6 \<or> pubkey_md_end > auxiliary_data_block_size h)
                then Some AVB_VBMETA_VERIFY_RESULT_INVALID_VBMETA_HEADER
                else None)"

text \<open>The hash over the header block and the auxiliary block; the updates take the low 32 bits of the size.\<close>

definition vbmeta_hash ::
  "AvbSHA256Ctx \<Rightarrow> AvbSHA512Ctx \<Rightarrow> avb_mem \<Rightarrow> 32 word \<Rightarrow> 64 word \<Rightarrow> 64 word \<Rightarrow> 64 word \<Rightarrow> 8 word list option" where
  "vbmeta_hash c256 c512 m alg header_block auxiliary_block aux_size =
     (let hdr = load m header_block AVB_VBMETA_IMAGE_HEADER_SIZE;
          aux = load m auxiliary_block (unat (ucast aux_size :: 32 word))
      in if alg \<in> {1, 2, 3} then
           Some (ctx_buf (avb_sha256_final (avb_sha256_update (avb_sha256_update (avb_sha256_init c256) hdr) aux)))
         else if alg \<in> {4, 5, 6} then
           Some (ctx_buf (avb_sha512_final (avb_sha512_update (avb_sha512_update (avb_sha512_init c512) hdr) aux)))
         else None)"

text \<open>The result with the public key and its length, where the code returns them.\<close>

definition avb_vbmeta_image_verify ::
  "(nat \<Rightarrow> bool) \<Rightarrow> AvbSHA256Ctx \<Rightarrow> AvbSHA512Ctx \<Rightarrow> avb_mem \<Rightarrow> 64 word \<Rightarrow> 64 word \<Rightarrow>
   AvbVBMetaVerifyResult \<times> 64 word \<times> 64 word" where
  "avb_vbmeta_image_verify alloc c256 c512 m data data_len =
     (if avb_safe_memcmp (load m data AVB_MAGIC_LEN) AVB_MAGIC AVB_MAGIC_LEN \<noteq> 0
      then (AVB_VBMETA_VERIFY_RESULT_INVALID_VBMETA_HEADER, 0, 0)
      else if data_len < word_of_nat AVB_VBMETA_IMAGE_HEADER_SIZE then (AVB_VBMETA_VERIFY_RESULT_INVALID_VBMETA_HEADER, 0, 0)
      else
        let h = avb_vbmeta_image_header_to_host_byte_order (load m data AVB_VBMETA_IMAGE_HEADER_SIZE) in
        case header_result h data data_len of
          Some ret \<Rightarrow> (ret, 0, 0)
        | None \<Rightarrow>
            if algorithm_type h = 0 then (AVB_VBMETA_VERIFY_RESULT_OK_NOT_SIGNED, 0, 0)
            else
              case avb_get_algorithm_data (algorithm_type h) of
                None \<Rightarrow> (AVB_VBMETA_VERIFY_RESULT_INVALID_VBMETA_HEADER, 0, 0)
              | Some algorithm \<Rightarrow>
                  if hash_size h \<noteq> word_of_nat (alg_hash_len algorithm) then (AVB_VBMETA_VERIFY_RESULT_INVALID_VBMETA_HEADER, 0, 0)
                  else
                    let authentication_block = data + word_of_nat AVB_VBMETA_IMAGE_HEADER_SIZE;
                        auxiliary_block = authentication_block + authentication_data_block_size h
                    in
                    case vbmeta_hash c256 c512 m (algorithm_type h) data auxiliary_block (auxiliary_data_block_size h) of
                      None \<Rightarrow> (AVB_VBMETA_VERIFY_RESULT_INVALID_VBMETA_HEADER, 0, 0)
                    | Some computed_hash \<Rightarrow>
                        if avb_safe_memcmp (load m (authentication_block + hash_offset h) (unat (hash_size h))) computed_hash
                             (unat (hash_size h)) \<noteq> 0
                        then (AVB_VBMETA_VERIFY_RESULT_HASH_MISMATCH, 0, 0)
                        else if \<not> avb_rsa_verify alloc m (auxiliary_block + public_key_offset h) (public_key_size h)
                                  (authentication_block + signature_offset h) (signature_size h)
                                  (authentication_block + hash_offset h) (hash_size h) (alg_padding algorithm)
                        then (AVB_VBMETA_VERIFY_RESULT_SIGNATURE_MISMATCH, 0, 0)
                        else if public_key_size h > 0
                        then (AVB_VBMETA_VERIFY_RESULT_OK, auxiliary_block + public_key_offset h, public_key_size h)
                        else (AVB_VBMETA_VERIFY_RESULT_OK, 0, 0))"

end
