(* ===== verification/Avb_Hash_Facts.thy ===== *)
theory Avb_Hash_Facts
  imports Avb_Hash
begin

text \<open>
  The hash functions of libavb on data that comes in pieces.  The padded message of the standard is written down independently, and a
  context is said to have absorbed a message; a locale has the laws of an update for any block size.
\<close>

unbundle bit_operations_syntax

section \<open>Blocks\<close>

definition blocks :: "nat \<Rightarrow> 8 word list \<Rightarrow> 8 word list list" where
  "blocks B m = map (\<lambda>i. take B (drop (B * i) m)) [0..<length m div B]"

lemma blocks_Nil [simp]: "blocks B [] = []"
  by (simp add: blocks_def)

lemma blocks_short: "length m < B \<Longrightarrow> blocks B m = []"
  by (simp add: blocks_def)

lemma blocks_one: "0 < B \<Longrightarrow> length m = B \<Longrightarrow> blocks B m = [m]"
  by (simp add: blocks_def)

lemma blocks_append:
  assumes "0 < B" and "length a = B * q"
  shows "blocks B (a @ b) = blocks B a @ blocks B b"
proof -
  have len: "length (a @ b) div B = q + length b div B" and qa: "length a div B = q"
    using assms by simp_all
  have 1: "take B (drop (B * i) (a @ b)) = take B (drop (B * i) a)" if "i < q" for i
  proof -
    have "B * Suc i \<le> B * q" using that by (intro mult_le_mono2) simp
    then show ?thesis using assms(2) by simp
  qed
  have 2: "take B (drop (B * (i + q)) (a @ b)) = take B (drop (B * i) b)" for i
    using assms(2) by (simp add: algebra_simps)
  have "[0..<q + length b div B] = [0..<q] @ [q..<q + length b div B]"
    by (rule upt_add_eq_append) simp
  moreover have "[q..<q + length b div B] = map (\<lambda>i. i + q) [0..<length b div B]"
    by (simp only: map_add_upt add.commute)
  ultimately have upt: "[0..<q + length b div B] = [0..<q] @ map (\<lambda>i. i + q) [0..<length b div B]"
    by (rule trans [OF _ arg_cong])
  have "map (\<lambda>i. take B (drop (B * i) (a @ b))) [0..<q] = map (\<lambda>i. take B (drop (B * i) a)) [0..<q]"
    by (rule map_cong [OF refl]) (simp add: 1 del: drop_append take_append)
  then show ?thesis
    unfolding blocks_def len qa upt by (simp add: 2 o_def del: drop_append take_append)
qed

definition full :: "nat \<Rightarrow> 8 word list \<Rightarrow> 8 word list" where
  "full B m = take (B * (length m div B)) m"

definition rest :: "nat \<Rightarrow> 8 word list \<Rightarrow> 8 word list" where
  "rest B m = drop (B * (length m div B)) m"

lemma full_rest: "full B m @ rest B m = m"
  by (simp add: full_def rest_def)

lemma length_full: "length (full B m) = B * (length m div B)"
  by (simp add: full_def)

lemma length_rest: "length (rest B m) = length m mod B"
  by (simp add: rest_def minus_mult_div_eq_mod)

lemma take_rest: "take (length m mod B) (drop (B * (length m div B)) m) = rest B m"
  using length_rest [of B m] by (simp add: rest_def)

lemma blocks_full: "0 < B \<Longrightarrow> blocks B m = blocks B (full B m)"
  using blocks_append [OF _ length_full, of B m "rest B m"] blocks_short [of "rest B m" B]
  by (simp add: full_rest length_rest)

lemma blocks_rest:
  assumes "0 < B"
  shows "blocks B (m @ d) = blocks B m @ blocks B (rest B m @ d)"
  using blocks_append [OF assms length_full, of m "rest B m @ d"] blocks_full [OF assms, of m]
  by (simp flip: append_assoc add: full_rest)

lemma rest_rest:
  assumes "0 < B"
  shows "rest B (m @ d) = rest B (rest B m @ d)"
proof -
  have "length (m @ d) div B = length m div B + length (rest B m @ d) div B"
    using assms div_mult_self1 [of B "length m mod B + length d" "length m div B"]
    by (simp add: length_rest)
  then show ?thesis
    unfolding rest_def [of B "m @ d"] by (subst (2) full_rest [of B m, symmetric])
      (simp add: rest_def [of B "rest B m @ d"] length_full add_mult_distrib2)
qed

section \<open>The padded message\<close>

text \<open>The length in bits of a message, in \<open>L\<close> bytes, the most significant one first.\<close>

definition be_bytes :: "nat \<Rightarrow> nat \<Rightarrow> 8 word list" where
  "be_bytes L n = map (\<lambda>i. word_of_nat (n div 256 ^ (L - 1 - i))) [0..<L]"

text \<open>A one bit, as few zeros as fill the last block, and the length.\<close>

definition sha_pad :: "nat \<Rightarrow> nat \<Rightarrow> 8 word list \<Rightarrow> 8 word list" where
  "sha_pad B L m =
     m @ 0x80 # replicate (nat ((int B - int L - 1 - int (length m)) mod int B)) 0 @ be_bytes L (8 * length m)"

definition sha256 :: "8 word list \<Rightarrow> 8 word list" where
  "sha256 m = concat (map UNPACK32 (foldl sha256_block sha256_h0 (blocks 64 (sha_pad 64 8 m))))"

definition sha512 :: "8 word list \<Rightarrow> 8 word list" where
  "sha512 m = concat (map UNPACK64 (foldl sha512_block sha512_h0 (blocks 128 (sha_pad 128 16 m))))"

section \<open>Data in pieces\<close>

definition absorbed ::
  "nat \<Rightarrow> ('w list \<Rightarrow> 8 word list \<Rightarrow> 'w list) \<Rightarrow> 'w list \<Rightarrow> 'w avb_sha_ctx \<Rightarrow> 8 word list \<Rightarrow> bool" where
  "absorbed B compress h0 c m \<longleftrightarrow>
     ctx_h c = foldl compress h0 (blocks B m) \<and> unat (ctx_len c) = length m mod B \<and>
     take (length m mod B) (ctx_block c) = rest B m \<and> length (ctx_block c) = 2 * B \<and>
     tot_len c = word_of_nat (B * (length m div B))"

lemma length_store: "i + length src \<le> length dest \<Longrightarrow> length (store dest i src) = length dest"
  by (simp add: store_def)

lemma take_store: "i \<le> length dest \<Longrightarrow> take (i + length src) (store dest i src) = take i dest @ src"
  by (simp add: store_def)

lemma store_append: "length y = length src \<Longrightarrow> i = length x \<Longrightarrow> store (x @ y @ z) i src = x @ src @ z"
  by (simp add: store_def)

lemma take_store0: "take (length src) (store dest 0 src) = src"
  by (simp add: store_def)

locale block_hash =
  fixes B :: nat and compress :: "'w list \<Rightarrow> 8 word list \<Rightarrow> 'w list" and upd :: "'w avb_sha_ctx \<Rightarrow> 8 word list \<Rightarrow> 'w avb_sha_ctx"
  assumes block_size: "0 < B" "B < 65536"
    and update_short: "unat (ctx_len c) + length d < B \<Longrightarrow>
      upd c d = c\<lparr>ctx_block := store (ctx_block c) (unat (ctx_len c)) d, ctx_len := ctx_len c + word_of_nat (length d)\<rparr>"
    and update_long: "unat (ctx_len c) < B \<Longrightarrow> B \<le> unat (ctx_len c) + length d \<Longrightarrow> length d < 2 ^ 32 - B \<Longrightarrow>
      r = B - unat (ctx_len c) \<Longrightarrow> b = store (ctx_block c) (unat (ctx_len c)) (take r d) \<Longrightarrow>
      ctx_h (upd c d) = foldl compress (compress (ctx_h c) (take B b)) (blocks B (drop r d)) \<and>
      ctx_block (upd c d) = store b 0 (rest B (drop r d)) \<and>
      unat (ctx_len (upd c d)) = length (drop r d) mod B \<and>
      tot_len (upd c d) = tot_len c + word_of_nat (B * (length (drop r d) div B + 1))"
begin

lemma absorbed_short:
  assumes c: "absorbed B compress h0 c m" and short: "length m mod B + length d < B"
  shows "absorbed B compress h0 (upd c d) (m @ d)"
proof -
  have len: "unat (ctx_len c) = length m mod B" and blk: "length m mod B \<le> length (ctx_block c)"
    using c mod_less_divisor [OF block_size(1), of "length m"] by (auto simp: absorbed_def)
  have u: "upd c d = c\<lparr>ctx_block := store (ctx_block c) (length m mod B) d, ctx_len := ctx_len c + word_of_nat (length d)\<rparr>"
    using update_short [of c d] short by (simp add: len)
  have l: "unat (ctx_len c + word_of_nat (length d)) = length m mod B + length d"
    using len short block_size(2) by (simp add: unat_word_ariths unat_of_nat)
  have mods: "length (m @ d) mod B = length m mod B + length d" "length (m @ d) div B = length m div B"
    using short mod_add_left_eq [of "length m" B "length d"] div_add1_eq [of "length m" "length d" B] by simp_all
  have b: "blocks B (m @ d) = blocks B m"
    using short by (simp add: blocks_rest [OF block_size(1), of m d] blocks_short length_rest)
  have r: "rest B (m @ d) = rest B m @ d"
    using rest_rest [OF block_size(1), of m d] short by (simp add: rest_def [of B "rest B m @ d"] length_rest)
  show ?thesis
    using c short l blk take_store [OF blk, of d] unfolding absorbed_def u b r mods
    by (simp add: length_store)
qed

lemma absorbed_long:
  assumes c: "absorbed B compress h0 c m" and long: "B \<le> length m mod B + length d" and bound: "length d < 2 ^ 32 - B"
  shows "absorbed B compress h0 (upd c d) (m @ d)"
proof -
  define r where "r = B - length m mod B"
  define b where "b = store (ctx_block c) (length m mod B) (take r d)"
  define e where "e = drop r d"
  have len: "unat (ctx_len c) = length m mod B" and lb: "length (ctx_block c) = 2 * B" and lt: "length m mod B < B"
    and tk: "take (length m mod B) (ctx_block c) = rest B m"
    using c mod_less_divisor [OF block_size(1), of "length m"] by (auto simp: absorbed_def)
  have rd: "length (take r d) = r" and dd: "d = take r d @ e" using long by (auto simp: r_def e_def)
  have one: "length (rest B m @ take r d) = B" using rd lt by (simp add: length_rest r_def)
  have tb: "take B b = rest B m @ take r d"
    using take_store [of "length m mod B" "ctx_block c" "take r d"] lt lb rd by (simp add: b_def tk r_def)
  have bl: "length b = 2 * B" using lt lb rd unfolding b_def by (subst length_store) (auto simp: r_def)
  have "blocks B (rest B m @ d) = blocks B ((rest B m @ take r d) @ e)" by (subst dd) simp
  also have "\<dots> = (rest B m @ take r d) # blocks B e"
    using blocks_append [of B "rest B m @ take r d" 1 e] blocks_one [of B] one block_size(1) by simp
  finally have bs: "blocks B (m @ d) = blocks B m @ (rest B m @ take r d) # blocks B e"
    by (simp add: blocks_rest [OF block_size(1), of m d])
  have "length m = B * (length m div B) + length m mod B" by simp
  then have cut: "B * (length m div B + 1) = length m + r"
    using lt unfolding r_def distrib_left mult_1_right by linarith
  then have total: "length (m @ d) = B * (length m div B + 1) + length e"
    using long by (simp add: e_def r_def)
  have mods: "length (m @ d) mod B = length e mod B" "length (m @ d) div B = length m div B + 1 + length e div B"
    unfolding total using block_size(1) by (simp_all only: mod_mult_self4 div_mult_self4 neq0_conv)
  have "rest B (m @ d) = drop (B * (length e div B)) (drop (B * (length m div B + 1)) (m @ d))"
    by (simp only: rest_def mods(2) drop_drop distrib_left ac_simps)
  moreover have "drop (B * (length m div B + 1)) (m @ d) = e"
    unfolding cut by (simp add: e_def)
  ultimately have re: "rest B (m @ d) = rest B e" by (simp only: rest_def [of B e])
  have u: "ctx_h (upd c d) = foldl compress (compress (ctx_h c) (take B b)) (blocks B e) \<and> ctx_block (upd c d) = store b 0 (rest B e) \<and>
      unat (ctx_len (upd c d)) = length e mod B \<and> tot_len (upd c d) = tot_len c + word_of_nat (B * (length e div B + 1))"
    using update_long [of c d r b] len lt long bound by (simp add: r_def b_def e_def)
  have "length (store b 0 (rest B e)) = 2 * B"
    using bl mod_less_divisor [OF block_size(1), of "length e"] by (subst length_store) (auto simp: length_rest)
  then show ?thesis
    using c u take_store0 [of "rest B e" b] unfolding absorbed_def bs mods re tb
    by (simp add: length_rest algebra_simps)
qed

lemma absorbed_update:
  assumes "absorbed B compress h0 c m" and "length d < 2 ^ 32 - B"
  shows "absorbed B compress h0 (upd c d) (m @ d)"
  using absorbed_short [OF assms(1)] absorbed_long [OF assms(1) _ assms(2)] by (cases "length m mod B + length d < B") auto

lemma absorbed_pieces:
  assumes "absorbed B compress h0 c m" and "\<forall>d \<in> set ds. length d < 2 ^ 32 - B"
  shows "absorbed B compress h0 (foldl upd c ds) (m @ concat ds)"
  using assms
proof (induction ds arbitrary: c m)
  case Nil
  then show ?case by simp
next
  case (Cons d ds)
  then show ?case using absorbed_update [of h0 c m d] Cons.IH [of "upd c d" "m @ d"] by simp
qed

end

section \<open>The two functions\<close>

lemma piece_fits:
  fixes l :: "32 word"
  assumes "unat l + n < B" and "B < 65536"
  shows "word_of_nat n < word_of_nat B - l" and "l + word_of_nat n < word_of_nat B" and "unat (word_of_nat n :: 32 word) = n"
proof -
  have n: "unat (word_of_nat n :: 32 word) = n" and b: "unat (word_of_nat B :: 32 word) = B"
    using assms by (simp_all add: unat_of_nat)
  show "unat (word_of_nat n :: 32 word) = n" by (rule n)
  have "unat (word_of_nat B - l) = B - unat l"
    using assms b by (subst unat_sub) (auto simp: word_le_nat_alt)
  then show "word_of_nat n < word_of_nat B - l" using assms n by (simp add: word_less_nat_alt)
  show "l + word_of_nat n < word_of_nat B"
    using assms n b by (simp add: word_less_nat_alt unat_word_ariths)
qed

lemma piece_overflows:
  fixes l :: "32 word"
  assumes "unat l < B" and "B \<le> unat l + n" and "n < 2 ^ 32 - B" and "B = 2 ^ k" and "B < 65536"
  defines "t \<equiv> word_of_nat B - l" and "new \<equiv> word_of_nat n - (word_of_nat B - l)"
  shows "unat t = B - unat l" and "\<not> word_of_nat n < t" and "\<not> l + word_of_nat n < word_of_nat B"
    and "unat (new div word_of_nat B) = (n - (B - unat l)) div B" and "unat (new mod word_of_nat B) = (n - (B - unat l)) mod B"
    and "unat (push_bit k (new div word_of_nat B)) = B * ((n - (B - unat l)) div B)"
    and "push_bit k (new div word_of_nat B + 1) = word_of_nat (B * ((n - (B - unat l)) div B + 1))"
proof -
  have n: "unat (word_of_nat n :: 32 word) = n" and b: "unat (word_of_nat B :: 32 word) = B"
    using assms(3,5) by (simp_all add: unat_of_nat)
  show t: "unat t = B - unat l"
    unfolding t_def using assms(1) b by (subst unat_sub) (auto simp: word_le_nat_alt)
  show "\<not> word_of_nat n < t" using assms(2) n t by (simp add: word_less_nat_alt)
  have "unat (l + word_of_nat n) = unat l + n" using assms(1,3) n by (simp add: unat_word_ariths)
  then show "\<not> l + word_of_nat n < word_of_nat B" using assms(2) b by (simp add: word_less_nat_alt)
  have new: "unat new = n - (B - unat l)"
    unfolding new_def using assms(2) n t [unfolded t_def] by (subst unat_sub) (auto simp: word_le_nat_alt)
  show d: "unat (new div word_of_nat B) = (n - (B - unat l)) div B" and "unat (new mod word_of_nat B) = (n - (B - unat l)) mod B"
    using new b by (simp_all add: unat_div unat_mod)
  have eq: "new div word_of_nat B = word_of_nat ((n - (B - unat l)) div B)" unfolding d [symmetric] by simp
  have "B * ((n - (B - unat l)) div B) < 2 ^ 32"
    using assms(3) by (intro le_less_trans [OF times_div_less_eq_dividend]) auto
  moreover have push: "push_bit k (x :: 32 word) = x * word_of_nat B" for x
    using assms(4) by (simp add: push_bit_eq_mult mult.commute)
  ultimately show "unat (push_bit k (new div word_of_nat B)) = B * ((n - (B - unat l)) div B)"
    unfolding push eq by (simp add: unat_of_nat mult.commute flip: of_nat_mult)
  show "push_bit k (new div word_of_nat B + 1) = word_of_nat (B * ((n - (B - unat l)) div B + 1))"
    unfolding push eq by (simp add: algebra_simps)
qed

lemma SHA256_transform_eq:
  "SHA256_transform message n ctx = ctx\<lparr>ctx_h := foldl sha256_block (ctx_h ctx) (map (\<lambda>i. take 64 (drop (64 * i) message)) [0..<n])\<rparr>"
  unfolding SHA256_transform_def by (induction n) simp_all

lemma SHA512_transform_eq:
  "SHA512_transform message n ctx = ctx\<lparr>ctx_h := foldl sha512_block (ctx_h ctx) (map (\<lambda>i. take 128 (drop (128 * i) message)) [0..<n])\<rparr>"
  unfolding SHA512_transform_def by (induction n) simp_all

interpretation h256: block_hash 64 sha256_block avb_sha256_update
proof
  fix c :: AvbSHA256Ctx and d :: "8 word list" and r b
  show "(0::nat) < 64" "(64::nat) < 65536" by simp_all
  show "avb_sha256_update c d = c\<lparr>ctx_block := store (ctx_block c) (unat (ctx_len c)) d, ctx_len := ctx_len c + word_of_nat (length d)\<rparr>"
    if "unat (ctx_len c) + length d < 64"
  proof -
    note fits = piece_fits [OF that, simplified]
    show ?thesis by (simp only: avb_sha256_update_def AVB_SHA256_BLOCK_SIZE_def Let_def fits if_True of_nat_numeral) simp
  qed
  assume a: "unat (ctx_len c) < 64" "64 \<le> unat (ctx_len c) + length d" "length d < 2 ^ 32 - 64"
    and r: "r = 64 - unat (ctx_len c)" and b: "b = store (ctx_block c) (unat (ctx_len c)) (take r d)"
  have size: "(64::nat) = 2 ^ 6" "(64::nat) < 65536" by simp_all
  note over = piece_overflows [OF a size, folded r length_drop]
  have "avb_sha256_update c d = c\<lparr>ctx_h := foldl sha256_block (sha256_block (ctx_h c) (take 64 b)) (blocks 64 (drop r d)),
      tot_len := tot_len c + word_of_nat (64 * (length (drop r d) div 64 + 1)),
      ctx_len := (word_of_nat (length d) - (word_of_nat 64 - ctx_len c)) mod word_of_nat 64,
      ctx_block := store b 0 (rest 64 (drop r d))\<rparr>"
    unfolding avb_sha256_update_def AVB_SHA256_BLOCK_SIZE_def Let_def b
    by (simp only: over if_False SHA256_transform_eq) (simp add: blocks_def take_rest del: drop_drop length_drop)
  then show "ctx_h (avb_sha256_update c d) = foldl sha256_block (sha256_block (ctx_h c) (take 64 b)) (blocks 64 (drop r d)) \<and>
      ctx_block (avb_sha256_update c d) = store b 0 (rest 64 (drop r d)) \<and>
      unat (ctx_len (avb_sha256_update c d)) = length (drop r d) mod 64 \<and>
      tot_len (avb_sha256_update c d) = tot_len c + word_of_nat (64 * (length (drop r d) div 64 + 1))"
    using over(5) by simp
qed

interpretation h512: block_hash 128 sha512_block avb_sha512_update
proof
  fix c :: AvbSHA512Ctx and d :: "8 word list" and r b
  show "(0::nat) < 128" "(128::nat) < 65536" by simp_all
  show "avb_sha512_update c d = c\<lparr>ctx_block := store (ctx_block c) (unat (ctx_len c)) d, ctx_len := ctx_len c + word_of_nat (length d)\<rparr>"
    if "unat (ctx_len c) + length d < 128"
  proof -
    note fits = piece_fits [OF that, simplified]
    show ?thesis by (simp only: avb_sha512_update_def AVB_SHA512_BLOCK_SIZE_def Let_def fits if_True of_nat_numeral) simp
  qed
  assume a: "unat (ctx_len c) < 128" "128 \<le> unat (ctx_len c) + length d" "length d < 2 ^ 32 - 128"
    and r: "r = 128 - unat (ctx_len c)" and b: "b = store (ctx_block c) (unat (ctx_len c)) (take r d)"
  have size: "(128::nat) = 2 ^ 7" "(128::nat) < 65536" by simp_all
  note over = piece_overflows [OF a size, folded r length_drop]
  have "avb_sha512_update c d = c\<lparr>ctx_h := foldl sha512_block (sha512_block (ctx_h c) (take 128 b)) (blocks 128 (drop r d)),
      tot_len := tot_len c + word_of_nat (128 * (length (drop r d) div 128 + 1)),
      ctx_len := (word_of_nat (length d) - (word_of_nat 128 - ctx_len c)) mod word_of_nat 128,
      ctx_block := store b 0 (rest 128 (drop r d))\<rparr>"
    unfolding avb_sha512_update_def AVB_SHA512_BLOCK_SIZE_def Let_def b
    by (simp only: over if_False SHA512_transform_eq) (simp add: blocks_def take_rest del: drop_drop length_drop)
  then show "ctx_h (avb_sha512_update c d) = foldl sha512_block (sha512_block (ctx_h c) (take 128 b)) (blocks 128 (drop r d)) \<and>
      ctx_block (avb_sha512_update c d) = store b 0 (rest 128 (drop r d)) \<and>
      unat (ctx_len (avb_sha512_update c d)) = length (drop r d) mod 128 \<and>
      tot_len (avb_sha512_update c d) = tot_len c + word_of_nat (128 * (length (drop r d) div 128 + 1))"
    using over(5) by simp
qed

section \<open>The digest\<close>

lemma be_bytes_32:
  assumes "n < 2 ^ 32"
  shows "be_bytes (k + 4) n = replicate k 0 @ UNPACK32 (word_of_nat n)"
proof -
  have z: "n div 256 ^ (k + 4 - 1 - i) = 0" if "i < k" for i
  proof -
    have "(256::nat) ^ 4 \<le> 256 ^ (k + 4 - 1 - i)" using that by (intro power_increasing) auto
    then show ?thesis using assms by simp
  qed
  have "[0..<k + 4] = [0..<k] @ [k, k + 1, k + 2, k + 3]" by (simp add: numeral_eq_Suc)
  moreover have "map (\<lambda>i. word_of_nat (n div 256 ^ (k + 4 - 1 - i)) :: 8 word) [0..<k] = replicate k 0"
    using z by (intro nth_equalityI) (simp_all del: One_nat_def)
  moreover have byte: "word_of_nat (n div 256 ^ j) = (ucast (drop_bit (8 * j) (word_of_nat n :: 32 word)) :: 8 word)" if "j < 4" for j
  proof -
    have "n div 256 ^ j = drop_bit (8 * j) n" by (simp add: power_mult drop_bit_eq_div)
    then show ?thesis using that by (intro bit_word_eqI) (simp add: bit_simps)
  qed
  ultimately show ?thesis using byte [of 3] byte [of 2] byte [of 1] byte [of 0] by (simp add: be_bytes_def UNPACK32_def)
qed

lemma blocks_prefix:
  assumes "0 < B" and "B * n \<le> length xs"
  shows "map (\<lambda>i. take B (drop (B * i) xs)) [0..<n] = blocks B (take (B * n) xs)"
proof -
  have "take B (drop (B * i) (take (B * n) xs)) = take B (drop (B * i) xs)" if "i < n" for i
  proof -
    have "B * Suc i \<le> B * n" using that by (intro mult_le_mono2) simp
    then show ?thesis by (simp add: drop_take min_def)
  qed
  then show ?thesis using assms by (auto simp: blocks_def min_absorb2 intro!: map_cong)
qed

text \<open>The block a digest ends with.\<close>

lemma padded_block:
  assumes c: "absorbed B compress h0 c m" and sizes: "4 \<le> L" "L + 1 < B" "B < 65536" and short: "8 * length m < 2 ^ 32"
    and l: "l = unat (ctx_len c)" and n: "n = (if B - (L + 1) < l mod B then 2 else 1)"
    and b: "b = store ((store (ctx_block c) l (replicate (B * n - l) 0))[l := 0x80]) (B * n - 4) (UNPACK32 (push_bit 3 (tot_len c + ctx_len c)))"
  shows "length b = 2 * B" and "blocks B (sha_pad B L m) = blocks B m @ blocks B (take (B * n) b)"
proof -
  have lm: "l = length m mod B" "l < B" and lb: "length (ctx_block c) = 2 * B" and tk: "take l (ctx_block c) = rest B m"
    using c l sizes by (auto simp: absorbed_def)
  have fit: "l + (L + 1) \<le> B * n" "B * n \<le> 2 * B"
    using n lm(2) sizes(2) by (auto split: if_splits)
  have lr: "length (rest B m) = l" using lm(1) by (simp add: length_rest)
  define z where "z = B * n - l - 1 - L"
  have "length m = B * (length m div B) + unat (ctx_len c)" using lm(1) l by simp
  then have "word_of_nat (length m) = word_of_nat (B * (length m div B)) + (word_of_nat (unat (ctx_len c)) :: 32 word)"
    by (metis of_nat_add)
  then have w: "word_of_nat (length m) = tot_len c + ctx_len c" using c by (simp add: absorbed_def)
  have "store (ctx_block c) l (replicate (B * n - l) 0) = rest B m @ replicate (B * n - l) 0 @ drop (B * n) (ctx_block c)"
    using fit tk by (simp add: store_def)
  moreover have "replicate (B * n - l) (0 :: 8 word) = 0 # replicate (z + L) 0"
    using fit by (simp add: z_def flip: replicate_Suc)
  ultimately have "(store (ctx_block c) l (replicate (B * n - l) 0))[l := 0x80] =
      rest B m @ 0x80 # replicate (z + L) 0 @ drop (B * n) (ctx_block c)"
    using lm by (simp add: list_update_append length_rest)
  also have "replicate (z + L) (0 :: 8 word) = replicate (z + (L - 4)) 0 @ replicate 4 0"
    using sizes(1) by (simp flip: replicate_add)
  finally have arr: "(store (ctx_block c) l (replicate (B * n - l) 0))[l := 0x80] =
      (rest B m @ 0x80 # replicate (z + (L - 4)) 0) @ replicate 4 0 @ drop (B * n) (ctx_block c)" by simp
  have b1: "b = (rest B m @ 0x80 # replicate (z + (L - 4)) 0) @ UNPACK32 (push_bit 3 (tot_len c + ctx_len c)) @ drop (B * n) (ctx_block c)"
    unfolding b arr using fit sizes lm by (intro store_append) (simp_all add: length_rest z_def UNPACK32_def)
  define P where "P = rest B m @ 0x80 # replicate (z + (L - 4)) 0 @ UNPACK32 (push_bit 3 (tot_len c + ctx_len c))"
  have bP: "b = P @ drop (B * n) (ctx_block c)" using b1 by (simp add: P_def)
  have lP: "length P = B * n" using fit lr sizes by (simp add: P_def z_def UNPACK32_def)
  show "length b = 2 * B" using fit lb unfolding bP by (simp add: lP)
  have "push_bit 3 (tot_len c + ctx_len c) = word_of_nat (8 * length m)"
    unfolding w [symmetric] by (simp add: push_bit_eq_mult)
  then have be: "be_bytes L (8 * length m) = replicate (L - 4) 0 @ UNPACK32 (push_bit 3 (tot_len c + ctx_len c))"
    using be_bytes_32 [OF short, of "L - 4"] sizes(1) by simp
  have "(int B - int L - 1 - int (length m)) mod int B = (int B - int L - 1 - int l) mod int B"
    unfolding lm(1) zmod_int by (rule mod_diff_right_eq [symmetric])
  moreover have "(int B - int L - 1 - int l) mod int B = int z"
  proof (cases "B - (L + 1) < l")
    case True
    then have "int z = (int B - int L - 1 - int l) + int B" using n lm(2) sizes by (simp add: z_def)
    moreover from this have "0 \<le> int z" "int z < int B" using True sizes(2) by linarith+
    ultimately show ?thesis by (metis mod_add_self2 mod_pos_pos_trivial)
  next
    case False
    then have "int z = int B - int L - 1 - int l" using n lm(2) sizes by (simp add: z_def)
    moreover from this have "0 \<le> int z" "int z < int B" by linarith+
    ultimately show ?thesis by (metis mod_pos_pos_trivial)
  qed
  ultimately have "sha_pad B L m = m @ 0x80 # replicate (z + (L - 4)) 0 @ UNPACK32 (push_bit 3 (tot_len c + ctx_len c))"
    by (simp add: sha_pad_def be replicate_add)
  moreover have "take (B * n) b = P" unfolding bP using lP by simp
  ultimately show "blocks B (sha_pad B L m) = blocks B m @ blocks B (take (B * n) b)"
    using blocks_rest [of B m "0x80 # replicate (z + (L - 4)) 0 @ UNPACK32 (push_bit 3 (tot_len c + ctx_len c))"] sizes
    by (simp add: P_def)
qed

lemma sha256_final:
  assumes c: "absorbed 64 sha256_block sha256_h0 c m" and short: "8 * length m < 2 ^ 32"
  shows "ctx_buf (avb_sha256_final c) = sha256 m"
proof -
  define l where "l = unat (ctx_len c)"
  define n where "n = (if 64 - (8 + 1) < l mod 64 then 2 else 1 :: nat)"
  define b where "b = store ((store (ctx_block c) l (replicate (64 * n - l) 0))[l := 0x80]) (64 * n - 4) (UNPACK32 (push_bit 3 (tot_len c + ctx_len c)))"
  have pad: "length b = 2 * 64" "blocks 64 (sha_pad 64 8 m) = blocks 64 m @ blocks 64 (take (64 * n) b)"
    by (rule padded_block [OF c _ _ _ short l_def n_def b_def]; simp)+
  have "ctx_buf (avb_sha256_final c) = concat (map UNPACK32 (ctx_h (SHA256_transform b n (c\<lparr>ctx_block := b\<rparr>))))"
    by (simp add: avb_sha256_final_def AVB_SHA256_BLOCK_SIZE_def Let_def l_def n_def b_def)
  also have "ctx_h (SHA256_transform b n (c\<lparr>ctx_block := b\<rparr>)) = foldl sha256_block (ctx_h c) (blocks 64 (take (64 * n) b))"
    using pad(1) by (simp add: SHA256_transform_eq blocks_prefix n_def)
  finally show ?thesis using c pad(2) by (simp add: sha256_def absorbed_def)
qed

lemma sha512_final:
  assumes c: "absorbed 128 sha512_block sha512_h0 c m" and short: "8 * length m < 2 ^ 32"
  shows "ctx_buf (avb_sha512_final c) = sha512 m"
proof -
  define l where "l = unat (ctx_len c)"
  define n where "n = (if 128 - (16 + 1) < l mod 128 then 2 else 1 :: nat)"
  define b where "b = store ((store (ctx_block c) l (replicate (128 * n - l) 0))[l := 0x80]) (128 * n - 4) (UNPACK32 (push_bit 3 (tot_len c + ctx_len c)))"
  have pad: "length b = 2 * 128" "blocks 128 (sha_pad 128 16 m) = blocks 128 m @ blocks 128 (take (128 * n) b)"
    by (rule padded_block [OF c _ _ _ short l_def n_def b_def]; simp)+
  have "ctx_buf (avb_sha512_final c) = concat (map UNPACK64 (ctx_h (SHA512_transform b n (c\<lparr>ctx_block := b\<rparr>))))"
    by (simp add: avb_sha512_final_def AVB_SHA512_BLOCK_SIZE_def Let_def l_def n_def b_def)
  also have "ctx_h (SHA512_transform b n (c\<lparr>ctx_block := b\<rparr>)) = foldl sha512_block (ctx_h c) (blocks 128 (take (128 * n) b))"
    using pad(1) by (simp add: SHA512_transform_eq blocks_prefix n_def)
  finally show ?thesis using c pad(2) by (simp add: sha512_def absorbed_def)
qed

lemma absorbed_init:
  "length (ctx_block ctx) = 128 \<Longrightarrow> absorbed 64 sha256_block sha256_h0 (avb_sha256_init ctx) []"
  "length (ctx_block ctx') = 256 \<Longrightarrow> absorbed 128 sha512_block sha512_h0 (avb_sha512_init ctx') []"
  by (simp_all add: absorbed_def avb_sha256_init_def avb_sha512_init_def rest_def)

lemma sha256_pieces:
  assumes "length (ctx_block ctx) = 128" and "8 * length (concat ds) < 2 ^ 32"
  shows "ctx_buf (avb_sha256_final (foldl avb_sha256_update (avb_sha256_init ctx) ds)) = sha256 (concat ds)"
proof -
  have "length d < 2 ^ 32 - 64" if "d \<in> set ds" for d
    using that assms(2) member_le_sum_list [of "length d" "map length ds"] by (simp add: length_concat)
  then show ?thesis
    using h256.absorbed_pieces [OF absorbed_init(1) [OF assms(1)], of ds] sha256_final assms(2) by simp
qed

lemma sha512_pieces:
  assumes "length (ctx_block ctx) = 256" and "8 * length (concat ds) < 2 ^ 32"
  shows "ctx_buf (avb_sha512_final (foldl avb_sha512_update (avb_sha512_init ctx) ds)) = sha512 (concat ds)"
proof -
  have "length d < 2 ^ 32 - 128" if "d \<in> set ds" for d
    using that assms(2) member_le_sum_list [of "length d" "map length ds"] by (simp add: length_concat)
  then show ?thesis
    using h512.absorbed_pieces [OF absorbed_init(2) [OF assms(1)], of ds] sha512_final assms(2) by simp
qed

section \<open>Length of a digest\<close>

lemma length_rounds:
  "length h = 8 \<Longrightarrow> length (fold (sha256_round w) js h) = 8" "length h' = 8 \<Longrightarrow> length (fold (sha512_round w') js' h') = 8"
  by (induction js arbitrary: h, simp_all add: sha256_round_def Let_def) (induction js' arbitrary: h', simp_all add: sha512_round_def Let_def)

lemma length_folds:
  "length h = 8 \<Longrightarrow> length (foldl sha256_block h bs) = 8" "length h' = 8 \<Longrightarrow> length (foldl sha512_block h' bs) = 8"
  by (induction bs arbitrary: h h') (simp_all add: sha256_block_def sha512_block_def Let_def length_rounds)

lemma length_digest:
  "length (concat (map UNPACK32 xs)) = 4 * length xs" "length (concat (map UNPACK64 ys)) = 8 * length ys"
  by (induction xs, simp_all add: UNPACK32_def) (induction ys, simp_all add: UNPACK64_def)

lemma length_sha256: "length (sha256 m) = 32"
  using length_folds(1) [of sha256_h0] by (simp add: sha256_def length_digest sha256_h0_def)

lemma length_sha512: "length (sha512 m) = 64"
  using length_folds(2) [of sha512_h0] by (simp add: sha512_def length_digest sha512_h0_def)

end
