(* ===== verification/Avb_Rsa_Facts.thy ===== *)
theory Avb_Rsa_Facts
  imports Avb_Rsa Avb_Hash_Facts
begin

text \<open>
  The arithmetic of \<open>Avb_Rsa\<close> on the numbers the arrays stand for: subtraction, comparison, Montgomery multiplication, and the
  exponentiation as the power of the standard.
\<close>

unbundle bit_operations_syntax

section \<open>Arrays as numbers\<close>

primrec val :: "32 word list \<Rightarrow> int" where
  "val [] = 0"
| "val (x # xs) = uint x + 2 ^ 32 * val xs"

definition radix :: "nat \<Rightarrow> int" where
  "radix len = 2 ^ (32 * len)"

lemma radix_Suc: "radix (Suc len) = 2 ^ 32 * radix len"
  by (simp add: radix_def power_add)

lemma radix_0 [simp]: "radix 0 = 1"
  by (simp add: radix_def)

lemma radix_pos [simp]: "0 < radix len"
  by (simp add: radix_def)

lemma uint_bound: "0 \<le> uint (x :: 32 word)" "uint (x :: 32 word) < 2 ^ 32"
  using uint_lt2p [of x] by simp_all

lemma val_bounds: "0 \<le> val xs" "val xs < radix (length xs)"
proof (induction xs)
  case (Cons x xs)
  { case 1 show ?case using Cons uint_bound [of x] by simp }
  { case 2 show ?case using Cons uint_bound [of x] by (simp add: radix_Suc) }
qed simp_all

lemma val_append: "val (xs @ ys) = val xs + radix (length xs) * val ys"
  by (induction xs) (simp_all add: radix_Suc algebra_simps)

lemma val_replicate [simp]: "val (replicate n 0) = 0"
  by (induction n) simp_all

section \<open>Subtraction and comparison\<close>

lemma borrow_step:
  fixes x y :: "32 word" and A :: "64 word"
  assumes "sint A \<in> {- 1, 0}" and "A' = A + (ucast x - ucast y)" and "d = sint A + uint x - uint y"
  shows "uint (ucast A' :: 32 word) = d mod 2 ^ 32" and "sint (signed_drop_bit 32 A') = d div 2 ^ 32" and "d div 2 ^ 32 \<in> {- 1, 0}"
proof -
  have "- 1 \<le> sint A" "sint A \<le> 0" using assms(1) by auto
  then have d: "- (2 ^ 32) \<le> d" "d < 2 ^ 32"
    unfolding assms(3) using uint_bound [of x] uint_bound [of y] by linarith+
  have A': "A' = word_of_int d" unfolding assms(2,3) by simp
  have s: "sint A' = d" unfolding A' using d by (simp add: sint_sbintrunc' signed_take_bit_int_eq_self_iff)
  show "uint (ucast A' :: 32 word) = d mod 2 ^ 32"
    unfolding A' by (simp add: unsigned_ucast_eq take_bit_eq_mod uint_word_of_int mod_mod_cancel)
  show "sint (signed_drop_bit 32 A') = d div 2 ^ 32" by (simp add: sint_signed_drop_bit_eq s drop_bit_eq_div)
  show "d div 2 ^ 32 \<in> {- 1, 0}"
  proof (cases "0 \<le> d")
    case True
    then show ?thesis using d by (simp add: div_pos_pos_trivial)
  next
    case False
    then have "(d + 2 ^ 32) div 2 ^ 32 = 0" using d by (intro div_pos_pos_trivial) auto
    then show ?thesis using div_add_self2 [of "2 ^ 32" d] by simp
  qed
qed

lemma sub_loop:
  "length a = length n \<Longrightarrow> sint A \<in> {- 1, 0} \<Longrightarrow>
   val (sub_loop A a n) = (val a - val n + sint A) mod radix (length n) \<and> length (sub_loop A a n) = length n"
proof (induction A a n rule: sub_loop.induct)
  case (1 A x a y n)
  define A' where "A' = A + (ucast x - ucast y)"
  define d where "d = sint A + uint x - uint y"
  note st = borrow_step [OF 1(3) A'_def d_def]
  have IH: "val (sub_loop (signed_drop_bit 32 A') a n) = (val a - val n + d div 2 ^ 32) mod radix (length n)"
    "length (sub_loop (signed_drop_bit 32 A') a n) = length n"
    using 1(1) [OF A'_def] 1(2) st(2,3) by simp_all
  have eq: "val (x # a) - val (y # n) + sint A = d + 2 ^ 32 * (val a - val n)" by (simp add: d_def algebra_simps)
  have q: "(val (x # a) - val (y # n) + sint A) div 2 ^ 32 = val a - val n + d div 2 ^ 32"
    and r: "(val (x # a) - val (y # n) + sint A) mod 2 ^ 32 = d mod 2 ^ 32" unfolding eq by (simp_all only: mod_mult_self2 div_mult_self2) simp_all
  have "(val (x # a) - val (y # n) + sint A) mod radix (length (y # n)) =
      2 ^ 32 * ((val a - val n + d div 2 ^ 32) mod radix (length n)) + d mod 2 ^ 32"
    using zmod_zmult2_eq [of "radix (length n)" "val (x # a) - val (y # n) + sint A" "2 ^ 32"]
    unfolding q r by (simp add: radix_Suc less_imp_le)
  then show ?case
    using IH st(1) by (simp add: A'_def [symmetric] Let_def)
qed auto

lemma subM:
  assumes "length a = length (key_n key)"
  shows "val (subM key a) = (val a - val (key_n key)) mod radix (length a)" and "length (subM key a) = length a"
  using sub_loop [OF assms, of 0] assms by (simp_all add: subM_def)

lemma digits_less:
  fixes x y a b K :: int
  assumes "0 \<le> x" "x < K" "0 \<le> y" "y < K"
  shows "x + K * a < y + K * b \<longleftrightarrow> a < b \<or> a = b \<and> x < y"
proof -
  have less: "x' + K * a' < y' + K * b'" if "a' < b'" "x' < K" "0 \<le> y'" for a' b' x' y' :: int
  proof -
    have "K * (a' + 1) \<le> K * b'" using that(1) assms(1,2) by (intro mult_left_mono) auto
    then show ?thesis using that by (simp add: distrib_left)
  qed
  show ?thesis using less [of a b x y] less [of b a y x] assms by (cases a b rule: linorder_cases) auto
qed

lemma ge_loop:
  "length a = length n \<Longrightarrow> ge_loop (rev (zip a n) @ r) = (if val a = val n then ge_loop r else val a > val n)"
proof (induction a n arbitrary: r rule: list_induct2)
  case (Cons x a y n)
  note less = digits_less [OF uint_bound uint_bound, of x "val a" y "val n"] digits_less [OF uint_bound uint_bound, of y "val n" x "val a"]
  show ?case using Cons.IH [of "(x, y) # r"] less by (auto simp: word_less_def word_uint_eq_iff)
qed simp

lemma geM: "length a = length (key_n key) \<Longrightarrow> geM key a \<longleftrightarrow> val (key_n key) \<le> val a"
  using ge_loop [of a "key_n key" "[]"] by (auto simp: geM_def)

section \<open>Montgomery multiplication\<close>

lemma uint_wide: "uint (ucast (x :: 32 word) :: 64 word) = uint x"
  by (rule uint_up_ucast) (simp add: is_up)

lemma uint_high: "uint (drop_bit 32 (A :: 64 word)) = uint A div 2 ^ 32"
  by (simp add: drop_bit_eq_div uint_div)

lemma split_word64: "uint (A :: 64 word) = uint (ucast A :: 32 word) + 2 ^ 32 * uint (drop_bit 32 A)"
  by (simp add: unsigned_ucast_eq take_bit_eq_mod uint_high)

lemma hi_bound: "0 \<le> uint (drop_bit 32 (A :: 64 word))" "uint (drop_bit 32 (A :: 64 word)) < 2 ^ 32"
  using uint_lt2p [of A] uint_ge_0 [of A] unfolding uint_high by (simp_all add: pos_imp_zdiv_nonneg_iff)

lemma mul_add_word:
  fixes a b :: "32 word" and A :: "64 word"
  assumes "uint u < 2 ^ 32" "uint v < 2 ^ 32"
  shows "uint (u + ucast a * ucast b + v :: 64 word) = uint u + uint a * uint b + uint v"
proof -
  have "uint a * uint b \<le> (2 ^ 32 - 1) * (2 ^ 32 - 1)"
    using uint_bound [of a] uint_bound [of b] by (intro mult_mono) auto
  then have "uint u + uint a * uint b + uint v < 2 ^ 64" "0 \<le> uint a * uint b" using assms by simp_all
  then show ?thesis by (simp add: uint_word_ariths uint_wide mod_simps)
qed

lemma mont_loop:
  "length cs = length ns \<Longrightarrow> length bs = length ns \<Longrightarrow> mont_loop a d0 A B cs bs ns = (out, A1, B1) \<Longrightarrow>
   length out = length ns \<and>
   val out + radix (length ns) * (uint (drop_bit 32 A1) + uint (drop_bit 32 B1)) =
     uint (drop_bit 32 A) + uint (drop_bit 32 B) + uint a * val bs + val cs + uint d0 * val ns"
proof (induction a d0 A B cs bs ns arbitrary: out rule: mont_loop.induct)
  case (1 a d0 A B c cs b bs n ns)
  define A' where "A' = drop_bit 32 A + ucast a * ucast b + ucast c"
  define B' where "B' = drop_bit 32 B + ucast d0 * ucast n + ucast (ucast A' :: 32 word)"
  have uA: "uint A' = uint (drop_bit 32 A) + uint a * uint b + uint c"
    unfolding A'_def using hi_bound [of A] uint_bound [of c] by (subst mul_add_word) (simp_all add: uint_wide)
  have uB: "uint B' = uint (drop_bit 32 B) + uint d0 * uint n + uint (ucast A' :: 32 word)"
    unfolding B'_def using hi_bound [of B] uint_bound [of "ucast A' :: 32 word"] by (subst mul_add_word) (simp_all add: uint_wide)
  obtain out' where out': "mont_loop a d0 A' B' cs bs ns = (out', A1, B1)" "out = ucast B' # out'"
    using 1(4) by (auto simp: Let_def simp flip: A'_def B'_def split: prod.splits)
  have IH: "length out' = length ns"
    "val out' + radix (length ns) * (uint (drop_bit 32 A1) + uint (drop_bit 32 B1)) =
     uint (drop_bit 32 A') + uint (drop_bit 32 B') + uint a * val bs + val cs + uint d0 * val ns"
    using 1(1) [OF A'_def B'_def _ _ out'(1)] 1(2,3) by simp_all
  have "val out + radix (length (n # ns)) * (uint (drop_bit 32 A1) + uint (drop_bit 32 B1)) =
      uint (ucast B' :: 32 word) + 2 ^ 32 * (val out' + radix (length ns) * (uint (drop_bit 32 A1) + uint (drop_bit 32 B1)))"
    by (simp add: out'(2) radix_Suc algebra_simps)
  also have "\<dots> = uint B' + 2 ^ 32 * uint (drop_bit 32 A') + 2 ^ 32 * (uint a * val bs + val cs + uint d0 * val ns)"
    unfolding IH(2) split_word64 [of B'] by (simp add: algebra_simps)
  also have "\<dots> = uint (drop_bit 32 A) + uint (drop_bit 32 B) + uint a * val (b # bs) + val (c # cs) + uint d0 * val (n # ns)"
    using uA uB split_word64 [of A'] by (simp add: algebra_simps)
  finally show ?case using IH(1) out'(2) by simp
qed auto

text \<open>A key whose helper values belong to its modulus.\<close>

definition mont_key :: "IAvbKey \<Rightarrow> bool" where
  "mont_key k \<longleftrightarrow> 0 < key_len k \<and> length (key_n k) = key_len k \<and> key_n k ! 0 * n0inv k = - 1"

lemma uint_low: "uint (ucast (A :: 64 word) :: 32 word) = uint A mod 2 ^ 32"
  by (simp add: unsigned_ucast_eq take_bit_eq_mod)

lemma mont_low:
  fixes n0 :: "32 word"
  assumes "n0 * v = - 1"
  shows "(ucast (ucast (x * v) * ucast n0 + ucast x :: 64 word) :: 32 word) = 0"
proof -
  have "uint (ucast (ucast (x * v) * ucast n0 + ucast x :: 64 word) :: 32 word) = uint (x * v * n0 + x)"
    using mod_add_cong [OF mod_mult_cong [OF mod_mod_trivial refl] refl, of "uint x * uint v" "2 ^ 32" "uint n0" "uint x"]
    by (simp add: uint_low uint_word_ariths uint_wide mod_mod_cancel mod_simps)
  moreover have "x * v * n0 + x = x * (n0 * v) + x" by (simp add: algebra_simps)
  ultimately show ?thesis using assms by (simp add: word_uint_eq_iff)
qed

lemma montMulAdd_sum:
  assumes k: "mont_key key" and "length c = key_len key" "length b = key_len key"
  obtains d0 :: "32 word" and out and A2 :: "64 word" where "length out = key_len key - 1"
    and "montMulAdd key c a b = (if drop_bit 32 A2 \<noteq> 0 then subM key (out @ [ucast A2]) else out @ [ucast A2])"
    and "2 ^ 32 * (val out + radix (key_len key - 1) * uint A2) = val c + uint a * val b + uint d0 * val (key_n key)"
proof -
  obtain n0 ns b0 bs c0 cs where l: "key_n key = n0 # ns" "b = b0 # bs" "c = c0 # cs"
    using assms by (metis length_0_conv list.exhaust mont_key_def not_gr_zero)
  have len: "length cs = length ns" "length bs = length ns" "key_len key = Suc (length ns)"
    using assms l by (auto simp: mont_key_def)
  define A :: "64 word" where "A = ucast a * ucast b0 + ucast c0"
  define d0 where "d0 = ucast A * n0inv key"
  define B :: "64 word" where "B = ucast d0 * ucast n0 + ucast (ucast A :: 32 word)"
  obtain out A1 B1 where ml: "mont_loop a d0 A B cs bs ns = (out, A1, B1)" by (metis prod.exhaust)
  define A2 where "A2 = drop_bit 32 A1 + drop_bit 32 B1"
  have uA: "uint A = uint a * uint b0 + uint c0"
    unfolding A_def using mul_add_word [of 0 "ucast c0" a b0] uint_bound [of c0] by (simp add: uint_wide)
  have uB: "uint B = uint d0 * uint n0 + uint (ucast A :: 32 word)"
    unfolding B_def using mul_add_word [of 0 "ucast (ucast A :: 32 word)" d0 n0] uint_bound [of "ucast A :: 32 word"] by (simp add: uint_wide)
  have "ucast B = (0 :: 32 word)" using k l(1) unfolding B_def d0_def by (intro mont_low) (simp add: mont_key_def)
  then have low: "uint B = 2 ^ 32 * uint (drop_bit 32 B)" using split_word64 [of B] by simp
  have uA2: "uint A2 = uint (drop_bit 32 A1) + uint (drop_bit 32 B1)"
    unfolding A2_def using hi_bound [of A1] hi_bound [of B1] by (simp add: uint_word_ariths)
  note sum = mont_loop [OF len(1,2) ml]
  have "2 ^ 32 * (val out + radix (length ns) * uint A2) = val c + uint a * val b + uint d0 * val (key_n key)"
    using sum uA uB low split_word64 [of A] unfolding uA2 l by (simp add: algebra_simps)
  then show ?thesis
    using that [of out A2 d0] sum len(3) ml
    by (simp add: montMulAdd_def l A_def [symmetric] d0_def [symmetric] B_def [symmetric] A2_def [symmetric] Let_def)
qed

text \<open>One step multiplies with a word and divides by \<open>2 ^ 32\<close>, modulo the modulus.\<close>

lemma montMulAdd:
  assumes k: "mont_key key" and lc: "length c = key_len key" and lb: "length b = key_len key"
  shows "length (montMulAdd key c a b) = key_len key"
    and "(2 ^ 32 * val (montMulAdd key c a b)) mod val (key_n key) = (val c + uint a * val b) mod val (key_n key)"
proof -
  define N where "N = val (key_n key)"
  define R where "R = radix (key_len key)"
  obtain d0 :: "32 word" and out and A2 :: "64 word" where out: "length out = key_len key - 1"
    and res: "montMulAdd key c a b = (if drop_bit 32 A2 \<noteq> 0 then subM key (out @ [ucast A2]) else out @ [ucast A2])"
    and sum: "2 ^ 32 * (val out + radix (key_len key - 1) * uint A2) = val c + uint a * val b + uint d0 * N"
    using montMulAdd_sum [OF k lc lb, of a] unfolding N_def by metis
  have kl: "key_len key = Suc (key_len key - 1)" and ln: "length (key_n key) = key_len key" using k by (simp_all add: mont_key_def)
  have lo: "length (out @ [ucast A2 :: 32 word]) = length (key_n key)" using out kl ln by simp
  have N: "0 \<le> N" "N < R" and c: "val c < R" and b: "val b < R" "0 \<le> val b"
    using val_bounds [of "key_n key"] val_bounds [of c] val_bounds [of b] ln lc lb by (simp_all add: N_def R_def)
  show "length (montMulAdd key c a b) = key_len key" using res subM(2) [OF lo] lo ln by simp
  define S where "S = val out + radix (key_len key - 1) * uint A2"
  have R: "R = 2 ^ 32 * radix (key_len key - 1)" unfolding R_def using radix_Suc [of "key_len key - 1"] kl by simp
  have S: "S = val (out @ [ucast A2]) + R * uint (drop_bit 32 A2)"
    unfolding S_def R using split_word64 [of A2] by (simp add: val_append out algebra_simps)
  have "uint a * val b \<le> (2 ^ 32 - 1) * (R - 1)" using uint_bound [of a] b by (intro mult_mono) simp_all
  moreover have "uint d0 * N \<le> (2 ^ 32 - 1) * N" using uint_bound [of d0] N by (intro mult_mono) simp_all
  ultimately have "2 ^ 32 * S < 2 ^ 32 * (R + N)" using sum c N unfolding S_def [symmetric] by (simp add: algebra_simps)
  then have bound: "S < R + N" by simp
  have eq: "val (montMulAdd key c a b) = (if drop_bit 32 A2 \<noteq> 0 then S - N else S)"
  proof (cases "drop_bit 32 A2 = 0")
    case True
    then show ?thesis using res S by simp
  next
    case False
    then have "uint (drop_bit 32 A2) \<noteq> 0" by (simp add: word_uint_eq_iff)
    then have "1 \<le> uint (drop_bit 32 A2)" using hi_bound(1) [of A2] by linarith
    then have "R * 1 \<le> R * uint (drop_bit 32 A2)" by (intro mult_left_mono) (simp_all add: R_def less_imp_le)
    then have "R \<le> S" using S val_bounds(1) [of "out @ [ucast A2]"] by simp
    moreover have "val (subM key (out @ [ucast A2])) = (S - N) mod R"
      using subM(1) [OF lo] S lo ln mod_mult_self2 [of "val (out @ [ucast A2]) - N" R "uint (drop_bit 32 A2)"]
      by (simp add: N_def R_def algebra_simps)
    ultimately show ?thesis using False res bound N by simp
  qed
  define e where "e = (if drop_bit 32 A2 \<noteq> 0 then uint d0 - 2 ^ 32 else uint d0)"
  have "2 ^ 32 * val (montMulAdd key c a b) = val c + uint a * val b + e * N"
    using sum unfolding eq e_def S_def [symmetric] by (simp add: algebra_simps)
  then show "(2 ^ 32 * val (montMulAdd key c a b)) mod val (key_n key) = (val c + uint a * val b) mod val (key_n key)"
    unfolding N_def [symmetric] by (simp only: mod_mult_self1)
qed

lemma mod_eq_mult: "x mod n = y mod n \<Longrightarrow> (k * x) mod n = (k * y) mod (n :: int)"
  by (metis mod_mult_right_eq)

lemma mod_eq_add: "x mod n = y mod n \<Longrightarrow> (x + k) mod n = (y + k) mod (n :: int)"
  by (metis mod_add_left_eq)

lemma montMul_loop:
  assumes k: "mont_key key" and lb: "length b = key_len key" and lc: "length c = key_len key"
    and c: "(radix i * val c) mod val (key_n key) = (w * val b) mod val (key_n key)"
  shows "length (fold (\<lambda>x c. montMulAdd key c x b) a c) = key_len key \<and>
    (radix (i + length a) * val (fold (\<lambda>x c. montMulAdd key c x b) a c)) mod val (key_n key) =
      ((w + radix i * val a) * val b) mod val (key_n key)"
  using lc c
proof (induction a arbitrary: c i w)
  case Nil
  then show ?case by simp
next
  case (Cons x a)
  define N where "N = val (key_n key)"
  define d where "d = montMulAdd key c x b"
  have d: "length d = key_len key" "(2 ^ 32 * val d) mod N = (val c + uint x * val b) mod N"
    using montMulAdd [OF k Cons.prems(1) lb, of x] by (simp_all add: d_def N_def)
  have "(radix (Suc i) * val d) mod N = (radix i * (2 ^ 32 * val d)) mod N" by (simp add: radix_Suc algebra_simps)
  also have "\<dots> = (radix i * val c + radix i * uint x * val b) mod N"
    using mod_eq_mult [OF d(2), of "radix i"] by (simp add: algebra_simps)
  also have "\<dots> = (w * val b + radix i * uint x * val b) mod N"
    using mod_eq_add [OF Cons.prems(2)] by (simp add: N_def)
  finally have "(radix (Suc i) * val d) mod N = ((w + radix i * uint x) * val b) mod N" by (simp add: algebra_simps)
  then show ?case using Cons.IH [OF d(1), of "Suc i" "w + radix i * uint x"] unfolding N_def
    by (simp add: d_def radix_Suc algebra_simps)
qed

lemma montMul:
  assumes "mont_key key" and "length a = key_len key" and "length b = key_len key"
  shows "length (montMul key a b) = key_len key"
    and "(radix (key_len key) * val (montMul key a b)) mod val (key_n key) = (val a * val b) mod val (key_n key)"
  using montMul_loop [OF assms(1,3), of "replicate (key_len key) 0" 0 0 a] assms(2) by (simp_all add: montMul_def)

section \<open>Exponentiation\<close>

lemma odd_modulus: "mont_key key \<Longrightarrow> coprime (val (key_n key)) (radix i)"
proof -
  assume k: "mont_key key"
  then obtain n0 ns where n: "key_n key = n0 # ns" by (cases "key_n key") (auto simp: mont_key_def)
  have "uint (n0 * n0inv key) = 2 ^ 32 - 1" using k n by (simp add: mont_key_def unsigned_minus_1_eq_mask mask_eq_exp_minus_1)
  then have "(uint n0 * uint (n0inv key)) mod 2 ^ 32 = 2 ^ 32 - 1" by (simp add: uint_word_ariths)
  then have "odd ((uint n0 * uint (n0inv key)) mod 2 ^ 32)" by simp
  then have "odd (uint n0)" using dvd_mod_iff [of "2 :: int" "2 ^ 32" "uint n0 * uint (n0inv key)"] by simp
  then show ?thesis by (simp add: n radix_def coprime_power_right_iff)
qed

lemma cancel_radix:
  assumes "mont_key key" and "(radix i * x) mod val (key_n key) = (radix i * y) mod val (key_n key)"
  shows "x mod val (key_n key) = y mod val (key_n key)"
  using assms odd_modulus [OF assms(1), of i] 
  by (simp add: mod_eq_dvd_iff coprime_dvd_mult_right_iff flip: right_diff_distrib)


text \<open>Keys for which the arithmetic of the code is that of RSA: the square of the radix belongs to the modulus as well, and the
  modulus has as many bits as the key claims.\<close>

definition rsa_key :: "IAvbKey \<Rightarrow> bool" where
  "rsa_key k \<longleftrightarrow> mont_key k \<and> length (key_rr k) = key_len k \<and>
     val (key_rr k) mod val (key_n k) = (radix (key_len k) * radix (key_len k)) mod val (key_n k) \<and>
     radix (key_len k) \<le> 2 * val (key_n k)"

text \<open>An array that stands for the product of a number with the radix.\<close>

definition mont_form :: "IAvbKey \<Rightarrow> 32 word list \<Rightarrow> int \<Rightarrow> bool" where
  "mont_form key xs x \<longleftrightarrow> length xs = key_len key \<and> val xs mod val (key_n key) = (radix (key_len key) * x) mod val (key_n key)"

lemma mod_mult_both: "x mod n = x' mod n \<Longrightarrow> y mod n = y' mod n \<Longrightarrow> (x * y) mod n = (x' * y') mod (n :: int)"
  by (rule mod_mult_cong)

lemma mont_form_mult:
  assumes k: "mont_key key" and "mont_form key xs x" "mont_form key ys y"
  shows "mont_form key (montMul key xs ys) (x * y)"
proof -
  note m = montMul [OF k, of xs ys]
  define R where "R = radix (key_len key)"
  have "(R * val (montMul key xs ys)) mod val (key_n key) = (val xs * val ys) mod val (key_n key)"
    using m(2) assms(2,3) by (simp add: mont_form_def R_def)
  also have "\<dots> = ((R * x) * (R * y)) mod val (key_n key)"
    using assms(2,3) by (intro mod_mult_both) (simp_all add: mont_form_def R_def)
  also have "\<dots> = (R * (R * (x * y))) mod val (key_n key)" by (simp add: algebra_simps)
  finally have "val (montMul key xs ys) mod val (key_n key) = (R * (x * y)) mod val (key_n key)"
    unfolding R_def by (rule cancel_radix [OF k])
  then show ?thesis using m(1) assms(2,3) by (simp add: mont_form_def R_def)
qed

lemma mont_form_squares:
  assumes k: "mont_key key" and x: "mont_form key xs x"
  shows "mont_form key (((\<lambda>aR. let aaR = montMul key aR aR in montMul key aaR aaR) ^^ i) xs) (x ^ (4 ^ i))"
proof (induction i)
  case (Suc i)
  have "x ^ (4 ^ Suc i) = x ^ (4 ^ i) * x ^ (4 ^ i) * (x ^ (4 ^ i) * x ^ (4 ^ i))"
    by (simp only: power_Suc2 power_mult power4_eq_xxxx mult.assoc)
  then show ?case
    using mont_form_mult [OF k mont_form_mult [OF k Suc Suc] mont_form_mult [OF k Suc Suc]] by (simp add: Let_def)
qed (simp add: x)

lemma mont_power:
  assumes k: "rsa_key key" and a: "length a = key_len key"
  defines "aR \<equiv> ((\<lambda>aR. let aaR = montMul key aR aR in montMul key aaR aaR) ^^ 8) (montMul key a (key_rr key))"
  shows "length (montMul key aR a) = key_len key" and "val (montMul key aR a) mod val (key_n key) = (val a ^ 65537) mod val (key_n key)"
proof -
  define R where "R = radix (key_len key)"
  define N where "N = val (key_n key)"
  have mk: "mont_key key" and rr: "length (key_rr key) = key_len key" "val (key_rr key) mod N = (R * R) mod N"
    using k by (simp_all add: rsa_key_def R_def N_def)
  note first = montMul [OF mk a rr(1)]
  have "(R * val (montMul key a (key_rr key))) mod N = (val a * val (key_rr key)) mod N" using first(2) by (simp add: R_def N_def)
  also have "\<dots> = (val a * (R * R)) mod N" using rr(2) by (intro mod_mult_both) simp_all
  finally have "(R * val (montMul key a (key_rr key))) mod N = (R * (R * val a)) mod N" by (simp add: algebra_simps)
  then have "val (montMul key a (key_rr key)) mod N = (R * val a) mod N" unfolding R_def N_def by (rule cancel_radix [OF mk])
  then have "mont_form key (montMul key a (key_rr key)) (val a)" using first(1) by (simp add: mont_form_def R_def N_def)
  note squares = mont_form_squares [OF mk this, of 8]
  have "(4 :: nat) ^ 8 = 65536" "(65537 :: nat) = Suc 65536" by simp_all
  note numbers = this
  have f: "mont_form key aR (val a ^ 65536)" unfolding aR_def by (rule squares [unfolded numbers(1)])
  have la: "length aR = key_len key" using f by (simp add: mont_form_def)
  note last = montMul [OF mk la a]
  show "length (montMul key aR a) = key_len key" by (rule last(1))
  have "(R * val (montMul key aR a)) mod N = (val aR * val a) mod N" using last(2) by (simp add: R_def N_def)
  also have "\<dots> = ((R * val a ^ 65536) * val a) mod N" using f by (intro mod_mult_both) (simp_all add: mont_form_def R_def N_def)
  also have "(R * val a ^ 65536) * val a = R * val a ^ 65537"
    by (simp only: numbers(2) power_Suc2 mult.assoc)
  finally show "val (montMul key aR a) mod val (key_n key) = (val a ^ 65537) mod val (key_n key)"
    unfolding R_def N_def by (rule cancel_radix [OF mk])
qed


section \<open>Bytes as numbers\<close>

primrec bval :: "8 word list \<Rightarrow> int" where
  "bval [] = 0"
| "bval (b # bs) = uint b * 256 ^ length bs + bval bs"

lemma byte_bound: "0 \<le> uint (b :: 8 word)" "uint (b :: 8 word) < 256"
  using uint_lt2p [of b] by simp_all

lemma bval_append: "bval (xs @ ys) = bval xs * 256 ^ length ys + bval ys"
  by (induction xs) (simp_all add: power_add algebra_simps)

lemma bval_bounds: "0 \<le> bval bs" "bval bs < 256 ^ length bs"
proof (induction bs)
  case (Cons b bs)
  { case 1 show ?case using Cons byte_bound [of b] by simp }
  { case 2
    have "uint b * 256 ^ length bs \<le> 255 * 256 ^ length bs" using byte_bound [of b] by (intro mult_right_mono) simp_all
    then show ?case using Cons.IH unfolding bval.simps list.size(4) One_nat_def add_Suc_right add_0_right power_Suc by linarith }
qed simp_all

lemma bval_inject: "length xs = length ys \<Longrightarrow> bval xs = bval ys \<longleftrightarrow> xs = ys"
proof (induction xs ys rule: list_induct2)
  case (Cons x xs y ys)
  define K :: int where "K = 256 ^ length ys"
  have K: "bval xs < K" "bval ys < K" using bval_bounds(2) [of xs] bval_bounds(2) [of ys] Cons.hyps by (simp_all add: K_def)
  note less = digits_less [OF bval_bounds(1) K(1) bval_bounds(1) K(2), of "uint x" "uint y"]
    digits_less [OF bval_bounds(1) K(2) bval_bounds(1) K(1), of "uint y" "uint x"]
  have "uint x = uint y \<and> bval xs = bval ys" if "bval (x # xs) = bval (y # ys)"
  proof -
    have "bval xs + K * uint x = bval ys + K * uint y" using that Cons.hyps by (simp add: K_def algebra_simps)
    then show ?thesis using less by auto
  qed
  then show ?case using Cons.IH by (auto simp: word_uint_eq_iff)
qed simp

lemma or_low: "0 \<le> y \<Longrightarrow> y < 2 ^ n \<Longrightarrow> push_bit n x OR y = push_bit n x + (y :: int)"
proof -
  assume y: "0 \<le> y" "y < 2 ^ n"
  have "\<not> bit y k" if "n \<le> k" for k
    using that y by (metis bit_take_bit_iff linorder_not_less take_bit_int_eq_self)
  then show ?thesis by (intro disjunctive_add [symmetric]) (auto simp: bit_push_bit_iff)
qed

lemma uint_push_byte: "n \<le> 24 \<Longrightarrow> uint (push_bit n (ucast (b :: 8 word)) :: 32 word) = push_bit n (uint b)"
proof -
  assume n: "n \<le> 24"
  have "uint b * 2 ^ n \<le> 255 * 2 ^ n" using byte_bound [of b] by (intro mult_right_mono) simp_all
  moreover have "(2 :: int) ^ n \<le> 16777216" using power_increasing [OF n, of "2 :: int"] by simp
  ultimately have "uint b * 2 ^ n < 4294967296" by linarith
  moreover have "uint (ucast b :: 32 word) = uint b" by (rule uint_up_ucast) (simp add: is_up)
  moreover have "uint (push_bit n (ucast b :: 32 word)) = take_bit 32 (push_bit n (uint (ucast b :: 32 word)))"
    by (simp only: unsigned_push_bit_eq) simp
  ultimately show ?thesis by (simp add: push_bit_eq_mult take_bit_int_eq_self_iff)
qed

lemma uint_be32:
  "uint (push_bit 24 (ucast b0) OR push_bit 16 (ucast b1) OR push_bit 8 (ucast b2) OR ucast b3 :: 32 word) = bval [b0, b1, b2, b3]"
proof -
  note b = byte_bound [of b1] byte_bound [of b2] byte_bound [of b3]
  have "uint (push_bit 24 (ucast b0) OR push_bit 16 (ucast b1) OR push_bit 8 (ucast b2) OR ucast b3 :: 32 word) =
      push_bit 24 (uint b0) OR (push_bit 16 (uint b1) OR (push_bit 8 (uint b2) OR uint b3))"
    using uint_push_byte [of 24 b0] uint_push_byte [of 16 b1] uint_push_byte [of 8 b2] uint_push_byte [of 0 b3]
    by (simp add: unsigned_or_eq or.assoc)
  also have "push_bit 8 (uint b2) OR uint b3 = push_bit 8 (uint b2) + uint b3" using b by (intro or_low) simp_all
  also have "push_bit 16 (uint b1) OR (push_bit 8 (uint b2) + uint b3) = push_bit 16 (uint b1) + (push_bit 8 (uint b2) + uint b3)"
    using b by (intro or_low) (simp_all add: push_bit_eq_mult)
  also have "push_bit 24 (uint b0) OR (push_bit 16 (uint b1) + (push_bit 8 (uint b2) + uint b3)) =
      push_bit 24 (uint b0) + (push_bit 16 (uint b1) + (push_bit 8 (uint b2) + uint b3))"
    using b by (intro or_low) (simp_all add: push_bit_eq_mult)
  finally show ?thesis by (simp add: push_bit_eq_mult)
qed

lemma bval_UNPACK32: "bval (UNPACK32 x) = uint x"
proof -
  have byte: "uint (ucast (drop_bit n x) :: 8 word) = uint x div 2 ^ n mod 256" for n
    unfolding unsigned_ucast_eq unsigned_drop_bit_eq using uint_bound [of x] by (simp add: take_bit_eq_mod drop_bit_eq_div)
  define u where "u = uint x"
  have "0 \<le> u" "u < 2 ^ 32" using uint_bound [of x] by (simp_all add: u_def)
  define v where "v = u div 256"
  define w where "w = v div 256"
  have d: "u div 2 ^ 8 = v" "u div 2 ^ 16 = w" "u div 2 ^ 24 = w div 256"
    unfolding v_def w_def by (simp_all flip: zdiv_zmult2_eq)
  have top: "w div 256 mod 256 = w div 256"
    using \<open>0 \<le> u\<close> \<open>u < 2 ^ 32\<close> unfolding d(3) [symmetric] by (intro mod_pos_pos_trivial) (simp_all add: pos_imp_zdiv_nonneg_iff)
  have "u = v * 256 + u mod 256" "v = w * 256 + v mod 256" "w = w div 256 * 256 + w mod 256" by (simp_all add: v_def w_def)
  then have "u = w div 256 * 16777216 + (w mod 256 * 65536 + (v mod 256 * 256 + u mod 256))" by linarith
  moreover have "bval (UNPACK32 x) = w div 256 * 16777216 + (w mod 256 * 65536 + (v mod 256 * 256 + u mod 256))"
    using byte [of 24] byte [of 16] byte [of 8] byte [of 0] unfolding u_def [symmetric] d top by (simp add: UNPACK32_def)
  ultimately show ?thesis unfolding u_def by (rule trans [OF _ sym, rotated])
qed

lemma length_UNPACK32 [simp]: "length (UNPACK32 x) = 4"
  by (simp add: UNPACK32_def)

text \<open>The array of words of a number in bytes, and the bytes of an array.\<close>

definition be_words :: "nat \<Rightarrow> 8 word list \<Rightarrow> 32 word list" where
  "be_words len s = map (\<lambda>i. let k = (len - 1 - i) * 4 in
     push_bit 24 (ucast (s ! k)) OR push_bit 16 (ucast (s ! (k + 1))) OR push_bit 8 (ucast (s ! (k + 2))) OR ucast (s ! (k + 3))) [0..<len]"

lemma length_be_words [simp]: "length (be_words len s) = len"
  by (simp add: be_words_def)

lemma be_words_Suc:
  "be_words (Suc len) (b0 # b1 # b2 # b3 # s) =
   be_words len s @ [push_bit 24 (ucast b0) OR push_bit 16 (ucast b1) OR push_bit 8 (ucast b2) OR ucast b3]"
proof -
  have nth: "(b0 # b1 # b2 # b3 # s) ! ((Suc len - 1 - i) * 4 + j) = s ! ((len - 1 - i) * 4 + j)" if "i < len" for i j
  proof -
    have "(Suc len - 1 - i) * 4 + j = Suc (Suc (Suc (Suc ((len - 1 - i) * 4 + j))))" using that by simp
    then show ?thesis by (simp only: nth_Cons_Suc)
  qed
  have "map (\<lambda>i. let k = (Suc len - 1 - i) * 4 in push_bit 24 (ucast ((b0 # b1 # b2 # b3 # s) ! k)) OR
      push_bit 16 (ucast ((b0 # b1 # b2 # b3 # s) ! (k + 1))) OR push_bit 8 (ucast ((b0 # b1 # b2 # b3 # s) ! (k + 2))) OR
      ucast ((b0 # b1 # b2 # b3 # s) ! (k + 3))) [0..<len] = (be_words len s :: 32 word list)"
    unfolding be_words_def Let_def
    by (rule map_cong [OF refl]) (simp only: nth nth [of _ 0, unfolded add_0_right] set_upt atLeastLessThan_iff)
  then show ?thesis by (simp add: be_words_def)
qed

lemma val_be_words: "length s = 4 * len \<Longrightarrow> val (be_words len s) = bval s"
proof (induction len arbitrary: s)
  case 0
  then show ?case by (simp add: be_words_def)
next
  case (Suc len)
  then obtain b0 b1 b2 b3 r where s: "s = b0 # b1 # b2 # b3 # r" "length r = 4 * len"
    by (auto simp: length_Suc_conv numeral_eq_Suc)
  have "bval s = bval [b0, b1, b2, b3] * 256 ^ (4 * len) + bval r"
    using bval_append [of "[b0, b1, b2, b3]" r] s by simp
  moreover have "(256 :: int) ^ (4 * len) = radix len" by (simp add: radix_def power_mult)
  ultimately show ?case using Suc.IH [OF s(2)] by (simp add: s(1) be_words_Suc val_append uint_be32 del: bval.simps)
qed

lemma bval_bytes: "bval (concat (map UNPACK32 (rev xs))) = val xs" "length (concat (map UNPACK32 (rev xs))) = 4 * length xs"
proof (induction xs)
  case (Cons x xs)
  { case 1 show ?case using Cons by (simp add: bval_append bval_UNPACK32) }
  { case 2 show ?case using Cons by simp }
qed simp_all

section \<open>Exponentiation of bytes\<close>

lemma modpowF4_value:
  assumes k: "rsa_key key" and s: "length s = 4 * key_len key"
  shows "bval (modpowF4 True key s) = bval s ^ 65537 mod val (key_n key)" and "length (modpowF4 True key s) = length s"
proof -
  define F where "F = (\<lambda>aR. let aaR = montMul key aR aR in montMul key aaR aaR) ^^ 8"
  define aaa where "aaa = montMul key (F (montMul key (be_words (key_len key) s) (key_rr key))) (be_words (key_len key) s)"
  define out where "out = (if geM key aaa then subM key aaa else aaa)"
  define N where "N = val (key_n key)"
  have aaa: "length aaa = key_len key" "val aaa mod N = bval s ^ 65537 mod N"
    using mont_power [OF k length_be_words, of s] unfolding val_be_words [OF s] aaa_def F_def N_def by (simp_all only:)
  have ln: "length aaa = length (key_n key)" and R: "radix (key_len key) \<le> 2 * N" using k aaa(1) by (simp_all add: rsa_key_def mont_key_def N_def)
  have b: "0 \<le> val aaa" "val aaa < 2 * N" "N < radix (key_len key)"
    using val_bounds [of aaa] val_bounds(2) [of "key_n key"] R aaa(1) ln by (simp_all add: N_def)
  have "val out = val aaa mod N \<and> length out = key_len key"
  proof (cases "N \<le> val aaa")
    case True
    have "(val aaa - N) mod radix (key_len key) = val aaa - N" using b True by (intro mod_pos_pos_trivial) simp_all
    moreover have "(val aaa - N) mod N = val aaa - N" using b True by (intro mod_pos_pos_trivial) simp_all
    then have "val aaa mod N = val aaa - N" by (simp only: minus_mod_self2)
    ultimately show ?thesis using True geM [OF ln] subM [OF ln] aaa(1) by (simp add: out_def N_def)
  next
    case False
    then show ?thesis using geM [OF ln] b aaa(1) by (simp add: out_def N_def)
  qed
  moreover have "modpowF4 True key s = concat (map UNPACK32 (rev out)) @ drop (4 * key_len key) s"
    unfolding modpowF4_def F_def [symmetric] unfolding out_def aaa_def be_words_def Let_def by (simp only: not_True_eq_False if_False)
  ultimately show "bval (modpowF4 True key s) = bval s ^ 65537 mod val (key_n key)" and "length (modpowF4 True key s) = length s"
    using bval_bytes [of out] aaa(2) s by (simp_all add: N_def)
qed


section \<open>Verification\<close>

lemma memcmp_loop: "length s1 = length s2 \<Longrightarrow> memcmp_loop r s1 s2 = 0 \<longleftrightarrow> r = 0 \<and> s1 = s2"
proof (induction r s1 s2 rule: memcmp_loop.induct)
  case (1 r x s1 y s2)
  have "x XOR y = 0 \<longleftrightarrow> x = y" by (auto simp: bit_eq_iff bit_simps)
  then show ?case using 1 by (auto simp: or_eq_0_iff)
qed auto

lemma safe_memcmp: "n \<le> length s1 \<Longrightarrow> n \<le> length s2 \<Longrightarrow> avb_safe_memcmp s1 s2 n = 0 \<longleftrightarrow> take n s1 = take n s2"
  by (simp add: avb_safe_memcmp_def memcmp_loop)

lemma length_load [simp]: "length (load m p n) = n"
  by (simp add: load_def)

lemma parsed_key:
  assumes "iavb_parse_key_data ok m data data_len = Some k"
  shows "key_len k \<in> {64, 128, 256}" and "length (key_n k) = key_len k" and "length (key_rr k) = key_len k"
  using assms by (auto simp: iavb_parse_key_data_def Let_def key_words_def split: if_splits)

lemma key_bytes:
  assumes "iavb_parse_key_data ok m data data_len = Some k"
  shows "sig_num_bytes = word_of_nat (key_len k) * 4 \<longleftrightarrow> unat (sig_num_bytes :: 64 word) = 4 * key_len k"
proof -
  have "unat (word_of_nat (key_len k) * 4 :: 64 word) = 4 * key_len k" using parsed_key(1) [OF assms] by auto
  then show ?thesis using word_unat_eq_iff [of sig_num_bytes "word_of_nat (key_len k) * 4"] by simp
qed

text \<open>What a signature must satisfy: its power is the padded hash; without memory for the power, the signature itself is.\<close>

definition signature_of :: "(nat \<Rightarrow> bool) \<Rightarrow> IAvbKey \<Rightarrow> 8 word list \<Rightarrow> 8 word list \<Rightarrow> bool" where
  "signature_of alloc k s em \<longleftrightarrow>
     (if alloc 2 \<and> alloc 3 \<and> alloc 4 then bval s ^ 65537 mod val (key_n k) = bval em else s = em)"

lemma rsa_verify:
  assumes ptr: "key \<noteq> 0" "sig \<noteq> 0" "hash \<noteq> 0" and parse: "iavb_parse_key_data (alloc 0) m key key_num_bytes = Some k" and k: "rsa_key k"
    and sizes: "unat hash_num_bytes + length pad = unat sig_num_bytes"
  shows "avb_rsa_verify alloc m key key_num_bytes sig sig_num_bytes hash hash_num_bytes (Some pad) \<longleftrightarrow>
    unat sig_num_bytes = 4 * key_len k \<and> alloc 1 \<and>
    signature_of alloc k (load m sig (unat sig_num_bytes)) (pad @ load m hash (unat hash_num_bytes))"
proof (cases "unat sig_num_bytes = 4 * key_len k \<and> alloc 1")
  case True
  define s where "s = load m sig (unat sig_num_bytes)"
  define d where "d = load m hash (unat hash_num_bytes)"
  define ok where "ok = (alloc 2 \<and> alloc 3 \<and> alloc 4)"
  define buf where "buf = modpowF4 ok k s"
  have ls: "length s = 4 * key_len k" using True by (simp add: s_def)
  have lb: "length buf = length pad + length d"
    using True sizes modpowF4_value(2) [OF k ls] ls unfolding buf_def by (cases ok) (auto simp: d_def modpowF4_def)
  have w: "sig_num_bytes = word_of_nat (key_len k) * 4" using True key_bytes [OF parse] by simp
  have p: "word_of_nat (length pad) = sig_num_bytes - hash_num_bytes"
    using arg_cong [OF sizes, of "word_of_nat :: nat \<Rightarrow> 64 word"] by (simp add: eq_diff_eq add.commute)
  have "avb_rsa_verify alloc m key key_num_bytes sig sig_num_bytes hash hash_num_bytes (Some pad) \<longleftrightarrow>
      avb_safe_memcmp buf pad (length pad) = 0 \<and> avb_safe_memcmp (drop (length pad) buf) d (length d) = 0"
    using ptr True parse w p unfolding avb_rsa_verify_def Let_def buf_def ok_def s_def d_def by simp
  also have "\<dots> \<longleftrightarrow> buf = pad @ d" using lb by (auto simp: safe_memcmp) (metis append_take_drop_id)
  also have "\<dots> \<longleftrightarrow> signature_of alloc k s (pad @ d)"
  proof (cases ok)
    case True
    then show ?thesis
      using modpowF4_value(1) [OF k ls] bval_inject [of buf "pad @ d"] lb by (simp add: signature_of_def ok_def buf_def)
  next
    case False
    then show ?thesis by (auto simp: signature_of_def ok_def buf_def modpowF4_def)
  qed
  finally show ?thesis using True by (simp add: s_def d_def)
next
  case False
  show ?thesis using False ptr parse key_bytes [OF parse, of sig_num_bytes] by (auto simp: avb_rsa_verify_def Let_def)
qed


lemma rsa_verify_sizes:
  assumes "avb_rsa_verify alloc m key key_num_bytes sig sig_num_bytes hash hash_num_bytes (Some pad)"
    and "unat hash_num_bytes + length pad < 2 ^ 64"
  shows "unat hash_num_bytes + length pad = unat sig_num_bytes" and "\<exists>k. iavb_parse_key_data (alloc 0) m key key_num_bytes = Some k"
proof -
  have "word_of_nat (length pad) = sig_num_bytes - hash_num_bytes" and ex: "\<exists>k. iavb_parse_key_data (alloc 0) m key key_num_bytes = Some k"
    using assms(1) by (auto simp: avb_rsa_verify_def Let_def split: if_splits option.splits)
  then have "sig_num_bytes = hash_num_bytes + word_of_nat (length pad)" by simp
  then show "unat hash_num_bytes + length pad = unat sig_num_bytes"
    using assms(2) by (simp add: unat_word_ariths unat_of_nat)
  show "\<exists>k. iavb_parse_key_data (alloc 0) m key key_num_bytes = Some k" by (rule ex)
qed

end
