(* ===== verification/Avb_Vbmeta_Facts.thy ===== *)
theory Avb_Vbmeta_Facts
  imports Avb_Vbmeta Avb_Rsa_Facts
begin

text \<open>
  What an accepted vbmeta image is: the header describes parts that lie inside the image, computed with numbers that do not wrap, and
  the signature over the header and the auxiliary block is one of the key the image carries.
\<close>

unbundle bit_operations_syntax

section \<open>The header\<close>

lemma u64: "unat (x :: 64 word) < 18446744073709551616"
  using unsigned_less [of x] by simp

lemma safe_add_to: "snd (avb_safe_add_to a b) \<longleftrightarrow> unat a + unat b < 2 ^ 64"
  "unat a + unat b < 2 ^ 64 \<Longrightarrow> unat (fst (avb_safe_add_to a b)) = unat a + unat b"
proof -
  show w: "unat (fst (avb_safe_add_to a b)) = unat a + unat b" if "unat a + unat b < 2 ^ 64"
    using that by (simp add: avb_safe_add_to_def Let_def unat_word_ariths)
  show "snd (avb_safe_add_to a b) \<longleftrightarrow> unat a + unat b < 2 ^ 64"
  proof (cases "unat a + unat b < 2 ^ 64")
    case True
    then show ?thesis using w by (simp add: avb_safe_add_to_def Let_def word_less_nat_alt)
  next
    case False
    then have "unat (a + b) = unat a + unat b - 2 ^ 64"
      using u64 [of a] u64 [of b] by (simp add: unat_word_ariths mod_if)
    then have "unat (a + b) < unat a" using False u64 [of b] by simp
    then show ?thesis using False by (simp add: avb_safe_add_to_def Let_def word_less_nat_alt)
  qed
qed

lemma multiple_of_64: "(x :: 64 word) AND 0x3f = 0 \<longleftrightarrow> 64 dvd unat x"
proof -
  have "x AND 0x3f = take_bit 6 x" by (simp add: take_bit_eq_mask mask_eq_exp_minus_1)
  then have "unat (x AND 0x3f) = unat x mod 64" by (simp only: unsigned_take_bit_eq) (simp add: take_bit_eq_mod)
  then show ?thesis by (metis dvd_eq_mod_eq_0 unat_eq_0)
qed

definition inside :: "64 word \<Rightarrow> 64 word \<Rightarrow> 64 word \<Rightarrow> bool" where
  "inside off sz block \<longleftrightarrow> unat off + unat sz \<le> unat block"

definition header_ok :: "AvbVBMetaImageHeader \<Rightarrow> 64 word \<Rightarrow> 64 word \<Rightarrow> bool" where
  "header_ok h data data_len \<longleftrightarrow>
     required_libavb_version_major h = AVB_VERSION_MAJOR \<and> required_libavb_version_minor h \<le> AVB_VERSION_MINOR \<and>
     release_string h ! (AVB_RELEASE_STRING_SIZE - 1) = 0 \<and>
     64 dvd unat (authentication_data_block_size h) \<and> 64 dvd unat (auxiliary_data_block_size h) \<and>
     256 + unat (authentication_data_block_size h) + unat (auxiliary_data_block_size h) \<le> unat data_len \<and>
     unat data + unat data_len < 2 ^ 64 \<and>
     inside (hash_offset h) (hash_size h) (authentication_data_block_size h) \<and>
     inside (signature_offset h) (signature_size h) (authentication_data_block_size h) \<and>
     inside (public_key_offset h) (public_key_size h) (auxiliary_data_block_size h) \<and>
     (public_key_metadata_size h \<noteq> 0 \<longrightarrow>
       inside (public_key_metadata_offset h) (public_key_metadata_size h) (auxiliary_data_block_size h))"

lemma inside_test: "(\<not> snd (avb_safe_add a b) \<or> fst (avb_safe_add a b) > c) \<longleftrightarrow> \<not> inside a b c"
  using safe_add_to [of a b] u64 [of c] by (auto simp: avb_safe_add_def inside_def word_less_nat_alt)

lemma stop_None: "(if c then Some x else y) = None \<longleftrightarrow> \<not> c \<and> y = None"
  by simp

lemma header_result: "header_result h data data_len = None \<longleftrightarrow> header_ok h data data_len"
proof -
  let ?t1 = "avb_safe_add_to (word_of_nat AVB_VBMETA_IMAGE_HEADER_SIZE) (authentication_data_block_size h)"
  let ?t2 = "avb_safe_add_to (fst ?t1) (auxiliary_data_block_size h)"
  have "unat (word_of_nat AVB_VBMETA_IMAGE_HEADER_SIZE :: 64 word) = 256" by (simp add: AVB_VBMETA_IMAGE_HEADER_SIZE_def)
  then have total: "(snd ?t1 \<and> snd ?t2 \<and> fst ?t2 \<le> data_len) \<longleftrightarrow>
      256 + unat (authentication_data_block_size h) + unat (auxiliary_data_block_size h) \<le> unat data_len"
    using safe_add_to [of "word_of_nat AVB_VBMETA_IMAGE_HEADER_SIZE" "authentication_data_block_size h"]
      safe_add_to [of "fst ?t1" "auxiliary_data_block_size h"] u64 [of data_len] by (auto simp: word_le_nat_alt)
  have wrap: "snd (avb_safe_add data data_len) \<longleftrightarrow> unat data + unat data_len < 2 ^ 64"
    by (simp add: avb_safe_add_def safe_add_to)
  show ?thesis
  proof (cases "snd ?t1 \<and> snd ?t2 \<and> fst ?t2 \<le> data_len")
    case True
    then show ?thesis
      unfolding header_result_def header_ok_def case_prod_beta inside_test stop_None multiple_of_64 wrap total [symmetric] word_gt_0
      by (simp only: not_less de_Morgan_disj de_Morgan_conj not_not simp_thms) (auto simp: not_le)
  next
    case False
    then have "header_result h data data_len \<noteq> None"
      unfolding header_result_def case_prod_beta stop_None by (auto simp: not_less)
    then show ?thesis using False total by (simp add: header_ok_def)
  qed
qed

section \<open>The image\<close>

text \<open>The parts of an image, by its header.\<close>

definition vbmeta_header :: "avb_mem \<Rightarrow> 64 word \<Rightarrow> AvbVBMetaImageHeader" where
  "vbmeta_header m data = avb_vbmeta_image_header_to_host_byte_order (load m data 256)"

definition auth_block :: "64 word \<Rightarrow> 64 word" where
  "auth_block data = data + 256"

definition aux_block :: "avb_mem \<Rightarrow> 64 word \<Rightarrow> 64 word" where
  "aux_block m data = data + 256 + authentication_data_block_size (vbmeta_header m data)"

definition signed_bytes :: "avb_mem \<Rightarrow> 64 word \<Rightarrow> 8 word list" where
  "signed_bytes m data = load m data 256 @ load m (aux_block m data) (unat (auxiliary_data_block_size (vbmeta_header m data)))"

definition stored_hash :: "avb_mem \<Rightarrow> 64 word \<Rightarrow> 8 word list" where
  "stored_hash m data =
     load m (auth_block data + hash_offset (vbmeta_header m data)) (unat (hash_size (vbmeta_header m data)))"

definition stored_signature :: "avb_mem \<Rightarrow> 64 word \<Rightarrow> 8 word list" where
  "stored_signature m data =
     load m (auth_block data + signature_offset (vbmeta_header m data)) (unat (signature_size (vbmeta_header m data)))"

definition image_key :: "(nat \<Rightarrow> bool) \<Rightarrow> avb_mem \<Rightarrow> 64 word \<Rightarrow> IAvbKey option" where
  "image_key alloc m data =
     iavb_parse_key_data (alloc 0) m (aux_block m data + public_key_offset (vbmeta_header m data)) (public_key_size (vbmeta_header m data))"

definition well_formed :: "avb_mem \<Rightarrow> 64 word \<Rightarrow> 64 word \<Rightarrow> bool" where
  "well_formed m data data_len \<longleftrightarrow>
     load m data 4 = AVB_MAGIC \<and> 256 \<le> unat data_len \<and> header_ok (vbmeta_header m data) data data_len"

text \<open>The digest an algorithm takes over the signed bytes, and the padding in front of it.\<close>

definition alg_digest :: "32 word \<Rightarrow> 8 word list \<Rightarrow> 8 word list" where
  "alg_digest alg bs = (if alg \<in> {1, 2, 3} then sha256 bs else sha512 bs)"

definition alg_pad :: "32 word \<Rightarrow> 8 word list" where
  "alg_pad alg =
     (if alg = 1 then padding_RSA2048_SHA256 else if alg = 2 then padding_RSA4096_SHA256 else if alg = 3 then padding_RSA8192_SHA256
      else if alg = 4 then padding_RSA2048_SHA512 else if alg = 5 then padding_RSA4096_SHA512 else padding_RSA8192_SHA512)"

definition alg_len :: "32 word \<Rightarrow> nat" where
  "alg_len alg = (if alg \<in> {1, 2, 3} then 32 else 64)"

lemma algorithm:
  "avb_get_algorithm_data alg =
     (if alg = 0 then Some \<lparr>alg_padding = None, alg_hash_len = 0\<rparr>
      else if alg \<in> {1, 2, 3, 4, 5, 6} then Some \<lparr>alg_padding = Some (alg_pad alg), alg_hash_len = alg_len alg\<rparr>
      else None)"
proof (cases "unat alg < 7")
  case True
  then have "unat alg \<in> {0, 1, 2, 3, 4, 5, 6}" by auto
  then have "alg = 0 \<or> alg = 1 \<or> alg = 2 \<or> alg = 3 \<or> alg = 4 \<or> alg = 5 \<or> alg = 6"
    by (auto simp: word_unat_eq_iff)
  then show ?thesis
    by (elim disjE) (simp_all add: avb_get_algorithm_data_def algorithm_data_def alg_pad_def alg_len_def
      AVB_SHA256_DIGEST_SIZE_def AVB_SHA512_DIGEST_SIZE_def)
next
  case False
  then have "alg \<notin> {0, 1, 2, 3, 4, 5, 6}" by auto
  then show ?thesis using False by (simp add: avb_get_algorithm_data_def algorithm_data_def)
qed

lemma length_alg_pad: "length (alg_pad alg) \<le> 1024"
  by (simp add: alg_pad_def padding_RSA2048_SHA256_def padding_RSA4096_SHA256_def padding_RSA8192_SHA256_def
    padding_RSA2048_SHA512_def padding_RSA4096_SHA512_def padding_RSA8192_SHA512_def sha256_id_def sha512_id_def)

lemma length_alg_digest: "length (alg_digest alg bs) = alg_len alg"
proof -
  have "length (sha256 bs) = 32" "length (sha512 bs) = 64" by (rule length_sha256, rule length_sha512)
  then show ?thesis by (simp add: alg_digest_def alg_len_def)
qed

lemma vbmeta_hash:
  assumes "length (ctx_block c256) = 128" "length (ctx_block c512) = 256" and "256 + unat sz < 2 ^ 29" and "alg \<in> {1, 2, 3, 4, 5, 6}"
  shows "vbmeta_hash c256 c512 m alg hdr aux sz = Some (alg_digest alg (load m hdr 256 @ load m aux (unat sz)))"
proof -
  have "unat (ucast sz :: 32 word) = unat sz" using assms(3) by (simp add: unsigned_ucast_eq take_bit_nat_eq_self)
  then show ?thesis
    using sha256_pieces [OF assms(1), of "[load m hdr 256, load m aux (unat sz)]"]
      sha512_pieces [OF assms(2), of "[load m hdr 256, load m aux (unat sz)]"] assms(3,4)
    by (auto simp: vbmeta_hash_def alg_digest_def AVB_VBMETA_IMAGE_HEADER_SIZE_def)
qed

lemma block_pointers:
  assumes "header_ok h data data_len"
  shows "data + 256 + hash_offset h \<noteq> 0" "data + 256 + signature_offset h \<noteq> 0"
    "data + 256 + authentication_data_block_size h + public_key_offset h \<noteq> 0"
proof -
  have *: "data + 256 + a + b \<noteq> 0" if "unat data + 256 + unat a + unat b < 2 ^ 64" for a b :: "64 word"
  proof -
    have "unat (data + 256 + a + b) = unat data + 256 + unat a + unat b" using that by (simp add: unat_word_ariths)
    then show ?thesis by (metis add_gr_0 less_irrefl unat_0 zero_less_numeral)
  qed
  show "data + 256 + hash_offset h \<noteq> 0" "data + 256 + signature_offset h \<noteq> 0"
    "data + 256 + authentication_data_block_size h + public_key_offset h \<noteq> 0"
    using assms * [of "hash_offset h" 0] * [of "signature_offset h" 0] * [of "authentication_data_block_size h" "public_key_offset h"]
    by (simp_all add: header_ok_def inside_def)
qed

text \<open>A signed image: the stored hash is that of the signed bytes, and the stored signature is one of the padded hash.\<close>

definition signed_image :: "(nat \<Rightarrow> bool) \<Rightarrow> avb_mem \<Rightarrow> 64 word \<Rightarrow> bool" where
  "signed_image alloc m data \<longleftrightarrow>
     (let alg = algorithm_type (vbmeta_header m data) in
      alg \<in> {1, 2, 3, 4, 5, 6} \<and> stored_hash m data = alg_digest alg (signed_bytes m data) \<and>
      (\<exists>k. image_key alloc m data = Some k \<and> alloc 1 \<and>
         length (stored_signature m data) = 4 * key_len k \<and> length (alg_pad alg @ stored_hash m data) = 4 * key_len k \<and>
         signature_of alloc k (stored_signature m data) (alg_pad alg @ stored_hash m data)))"

lemma header_result_not_ok:
  "header_result h data data_len \<noteq> Some AVB_VBMETA_VERIFY_RESULT_OK" "header_result h data data_len \<noteq> Some AVB_VBMETA_VERIFY_RESULT_OK_NOT_SIGNED"
  by (simp_all add: header_result_def case_prod_beta)

lemma vbmeta_verify_eq:
  "avb_vbmeta_image_verify alloc c256 c512 m data data_len =
     (if \<not> well_formed m data data_len
      then (if load m data 4 = AVB_MAGIC \<and> 256 \<le> unat data_len then the (header_result (vbmeta_header m data) data data_len)
            else AVB_VBMETA_VERIFY_RESULT_INVALID_VBMETA_HEADER, 0, 0)
      else
        let h = vbmeta_header m data; alg = algorithm_type h in
        if alg = 0 then (AVB_VBMETA_VERIFY_RESULT_OK_NOT_SIGNED, 0, 0)
        else if alg \<notin> {1, 2, 3, 4, 5, 6} \<or> unat (hash_size h) \<noteq> alg_len alg then (AVB_VBMETA_VERIFY_RESULT_INVALID_VBMETA_HEADER, 0, 0)
        else
          case vbmeta_hash c256 c512 m alg data (aux_block m data) (auxiliary_data_block_size h) of
            None \<Rightarrow> (AVB_VBMETA_VERIFY_RESULT_INVALID_VBMETA_HEADER, 0, 0)
          | Some computed_hash \<Rightarrow>
              if avb_safe_memcmp (stored_hash m data) computed_hash (unat (hash_size h)) \<noteq> 0 then (AVB_VBMETA_VERIFY_RESULT_HASH_MISMATCH, 0, 0)
              else if \<not> avb_rsa_verify alloc m (aux_block m data + public_key_offset h) (public_key_size h)
                        (auth_block data + signature_offset h) (signature_size h) (auth_block data + hash_offset h) (hash_size h)
                        (Some (alg_pad alg))
              then (AVB_VBMETA_VERIFY_RESULT_SIGNATURE_MISMATCH, 0, 0)
              else if public_key_size h \<noteq> 0 then (AVB_VBMETA_VERIFY_RESULT_OK, aux_block m data + public_key_offset h, public_key_size h)
              else (AVB_VBMETA_VERIFY_RESULT_OK, 0, 0))"
proof -
  have magic: "avb_safe_memcmp (load m data AVB_MAGIC_LEN) AVB_MAGIC AVB_MAGIC_LEN = 0 \<longleftrightarrow> load m data 4 = AVB_MAGIC"
    by (simp add: safe_memcmp AVB_MAGIC_LEN_def AVB_MAGIC_def)
  have len: "data_len < word_of_nat AVB_VBMETA_IMAGE_HEADER_SIZE \<longleftrightarrow> \<not> 256 \<le> unat data_len"
    by (simp add: AVB_VBMETA_IMAGE_HEADER_SIZE_def word_less_nat_alt not_le)
  define h where "h = vbmeta_header m data"
  have hdr: "avb_vbmeta_image_header_to_host_byte_order (load m data AVB_VBMETA_IMAGE_HEADER_SIZE) = h"
    by (simp add: h_def vbmeta_header_def AVB_VBMETA_IMAGE_HEADER_SIZE_def)
  have hs: "hash_size h = word_of_nat (alg_len alg) \<longleftrightarrow> unat (hash_size h) = alg_len alg" for alg
    by (auto simp: word_unat_eq_iff alg_len_def)
  have blocks: "data + word_of_nat AVB_VBMETA_IMAGE_HEADER_SIZE = auth_block data" "auth_block data + authentication_data_block_size h = aux_block m data"
    by (simp_all add: auth_block_def aux_block_def h_def AVB_VBMETA_IMAGE_HEADER_SIZE_def)
  show ?thesis
  proof (cases "well_formed m data data_len")
    case True
    then have pass: "load m data 4 = AVB_MAGIC" "256 \<le> unat data_len" "header_result h data data_len = None"
      by (simp_all add: well_formed_def header_result h_def)
    have stored: "load m (auth_block data + hash_offset h) (unat (hash_size h)) = stored_hash m data" by (simp add: stored_hash_def h_def)
    define alg where "alg = algorithm_type h"
    consider "alg = 0" | "alg \<notin> {0, 1, 2, 3, 4, 5, 6}" | "alg \<in> {1, 2, 3, 4, 5, 6}" by auto
    then show ?thesis
    proof cases
      case 3
      then have a: "avb_get_algorithm_data alg = Some \<lparr>alg_padding = Some (alg_pad alg), alg_hash_len = alg_len alg\<rparr>" "alg \<noteq> 0"
        by (auto simp: algorithm)
      show ?thesis
        using True pass 3 a(2) magic len
        unfolding avb_vbmeta_image_verify_def hdr Let_def blocks stored h_def [symmetric] alg_def [symmetric] a(1) word_gt_0
        by (simp add: hs)
    qed (use True pass magic len in \<open>simp_all add: avb_vbmeta_image_verify_def hdr Let_def algorithm flip: h_def alg_def\<close>)
  next
    case False
    then show ?thesis
      using magic len header_result [of h data data_len] unfolding avb_vbmeta_image_verify_def hdr Let_def
      by (auto simp: well_formed_def h_def [symmetric] split: option.splits)
  qed
qed

lemma vbmeta_verify_ok:
  assumes ctx: "length (ctx_block c256) = 128" "length (ctx_block c512) = 256" and short: "unat data_len < 2 ^ 29"
    and keys: "\<And>k. image_key alloc m data = Some k \<Longrightarrow> rsa_key k"
  shows "fst (avb_vbmeta_image_verify alloc c256 c512 m data data_len) = AVB_VBMETA_VERIFY_RESULT_OK \<longleftrightarrow>
    well_formed m data data_len \<and> signed_image alloc m data"
proof (cases "well_formed m data data_len")
  case True
  define h where "h = vbmeta_header m data"
  define alg where "alg = algorithm_type h"
  have ok: "header_ok h data data_len" using True by (simp add: well_formed_def h_def)
  have sz: "256 + unat (auxiliary_data_block_size h) < 2 ^ 29" using ok short by (simp add: header_ok_def)
  have lh: "length (stored_hash m data) = unat (hash_size h)" by (simp add: stored_hash_def h_def)
  show ?thesis
  proof (cases "alg \<in> {1, 2, 3, 4, 5, 6} \<and> unat (hash_size h) = alg_len alg")
    case a: True
    have hash: "vbmeta_hash c256 c512 m alg data (aux_block m data) (auxiliary_data_block_size h) = Some (alg_digest alg (signed_bytes m data))"
      using vbmeta_hash [OF ctx sz a [THEN conjunct1], of m data "aux_block m data"] by (simp add: signed_bytes_def h_def)
    have alg0: "(alg = 0) = False" "(alg \<notin> {1, 2, 3, 4, 5, 6} \<or> unat (hash_size h) \<noteq> alg_len alg) = False" using a by auto
    have cmp: "avb_safe_memcmp (stored_hash m data) (alg_digest alg (signed_bytes m data)) (unat (hash_size h)) = 0 \<longleftrightarrow>
        stored_hash m data = alg_digest alg (signed_bytes m data)"
      using a lh length_alg_digest [of alg "signed_bytes m data"] by (simp add: safe_memcmp)
    define v where "v = avb_rsa_verify alloc m (aux_block m data + public_key_offset h) (public_key_size h)
        (auth_block data + signature_offset h) (signature_size h) (auth_block data + hash_offset h) (hash_size h) (Some (alg_pad alg))"
    have "fst (avb_vbmeta_image_verify alloc c256 c512 m data data_len) = AVB_VBMETA_VERIFY_RESULT_OK \<longleftrightarrow>
        stored_hash m data = alg_digest alg (signed_bytes m data) \<and> v"
      unfolding vbmeta_verify_eq Let_def h_def [symmetric] unfolding alg_def [symmetric] unfolding hash alg0 v_def [symmetric]
      using True cmp by simp
    moreover have "v \<longleftrightarrow> (\<exists>k. image_key alloc m data = Some k \<and> alloc 1 \<and> length (stored_signature m data) = 4 * key_len k \<and>
        length (alg_pad alg @ stored_hash m data) = 4 * key_len k \<and>
        signature_of alloc k (stored_signature m data) (alg_pad alg @ stored_hash m data))"
    proof -
      have ptr: "auth_block data + hash_offset h \<noteq> 0" "auth_block data + signature_offset h \<noteq> 0" "aux_block m data + public_key_offset h \<noteq> 0"
        using block_pointers [OF ok] by (simp_all add: auth_block_def aux_block_def h_def)
      have small: "unat (hash_size h) + length (alg_pad alg) < 2 ^ 64"
        using a length_alg_pad [of alg] by (simp add: alg_len_def split: if_splits)
      have ls: "length (stored_signature m data) = unat (signature_size h)" by (simp add: stored_signature_def h_def)
      have key: "image_key alloc m data = iavb_parse_key_data (alloc 0) m (aux_block m data + public_key_offset h) (public_key_size h)"
        by (simp add: image_key_def h_def)
      show ?thesis
      proof (cases "unat (hash_size h) + length (alg_pad alg) = unat (signature_size h)")
        case s: True
        have iff: "v \<longleftrightarrow> unat (signature_size h) = 4 * key_len k \<and> alloc 1 \<and>
            signature_of alloc k (stored_signature m data) (alg_pad alg @ stored_hash m data)" if "image_key alloc m data = Some k" for k
          using rsa_verify [where alloc = alloc, OF ptr(3,2,1) that [unfolded key] keys [OF that] s] by (simp add: v_def stored_signature_def stored_hash_def h_def)
        show ?thesis
        proof (cases "image_key alloc m data")
          case None
          then have "\<not> v" using rsa_verify_sizes(2) [where alloc = alloc, OF _ small] unfolding v_def key by fastforce
          then show ?thesis using None by simp
        next
          case (Some k)
          then show ?thesis using iff [OF Some] s ls lh by auto
        qed
      next
        case s: False
        then have "\<not> v" using rsa_verify_sizes(1) [where alloc = alloc, OF _ small] unfolding v_def by blast
        then show ?thesis using s ls lh by auto
      qed
    qed
    ultimately show ?thesis using True a by (simp add: signed_image_def h_def alg_def Let_def)
  next
    case a: False
    then have "fst (avb_vbmeta_image_verify alloc c256 c512 m data data_len) \<noteq> AVB_VBMETA_VERIFY_RESULT_OK"
      using True unfolding vbmeta_verify_eq by (auto simp: h_def alg_def Let_def)
    moreover have "\<not> signed_image alloc m data"
      using a lh length_alg_digest [of alg "signed_bytes m data"] by (auto simp: signed_image_def h_def alg_def Let_def)
    ultimately show ?thesis by simp
  qed
next
  case False
  then show ?thesis using header_result_not_ok(1) [of "vbmeta_header m data" data data_len] header_result [of "vbmeta_header m data" data data_len]
    unfolding vbmeta_verify_eq by (auto simp: well_formed_def)
qed

lemma vbmeta_verify_key:
  "snd (avb_vbmeta_image_verify alloc c256 c512 m data data_len) =
     (if fst (avb_vbmeta_image_verify alloc c256 c512 m data data_len) = AVB_VBMETA_VERIFY_RESULT_OK
      then (aux_block m data + public_key_offset (vbmeta_header m data), public_key_size (vbmeta_header m data)) else (0, 0))"
proof -
  have "iavb_parse_key_data (alloc 0) m p 0 = None" for p
    by (simp add: iavb_parse_key_data_def Let_def)
  then have empty: "\<not> avb_rsa_verify alloc m p 0 s sn d dn pad" for p s sn d dn pad by (simp add: avb_rsa_verify_def)
  show ?thesis
    using header_result_not_ok(1) [of "vbmeta_header m data" data data_len] header_result [of "vbmeta_header m data" data data_len] empty
    unfolding vbmeta_verify_eq Let_def by (auto simp: well_formed_def split: option.splits if_splits)
qed

end
