(* ===== verification/Avb_Props.thy ===== *)
theory Avb_Props
  imports Avb_Vbmeta_Facts
begin

text \<open>
  The properties of the verification of vbmeta images, with the images and keys that show their assumptions can hold.
\<close>

unbundle bit_operations_syntax

section \<open>A sample image\<close>

text \<open>A memory with some bytes at an address, and what is read from it.\<close>

definition mem_of :: "64 word \<Rightarrow> 8 word list \<Rightarrow> avb_mem" where
  "mem_of base bs a = (let i = unat (a - base) in if i < length bs then bs ! i else 0)"

lemma load_mem_of:
  assumes "k + n \<le> length bs" "length bs < 2 ^ 64"
  shows "load (mem_of base bs) (base + word_of_nat k) n = take n (drop k bs)"
proof (rule nth_equalityI)
  fix i
  assume i: "i < length (load (mem_of base bs) (base + word_of_nat k) n)"
  have n: "i < n" using i by simp
  then have "unat (word_of_nat (k + i) :: 64 word) = k + i" using assms by (simp add: unat_of_nat del: of_nat_add)
  then have "unat (base + word_of_nat k + word_of_nat i - base) = k + i" by (simp add: add.assoc)
  then show "load (mem_of base bs) (base + word_of_nat k) n ! i = take n (drop k bs) ! i"
    using assms n unfolding load_def mem_of_def Let_def by (simp only: nth_map_upt diff_zero add_0) simp
qed (use assms in \<open>simp add: load_def\<close>)

text \<open>A key of 2048 bits, with the modulus \<open>2 ^ 2047 + 1\<close>, as the signing tool writes it.\<close>

definition sample_rsa_key :: IAvbKey where
  "sample_rsa_key = \<lparr>key_len = 64, n0inv = 0xffffffff, key_n = 1 # replicate 62 0 @ [0x80000000], key_rr = 4 # replicate 63 0\<rparr>"

definition sample_key_data :: "8 word list" where
  "sample_key_data = [0, 0, 8, 0, 0xff, 0xff, 0xff, 0xff] @ [0x80] @ replicate 254 0 @ [1] @ replicate 255 0 @ [4]"

lemma length_sample_key_data: "length sample_key_data = 520"
  by (simp add: sample_key_data_def)

lemma sample_rsa_key: "rsa_key sample_rsa_key"
proof -
  define M :: int where "M = 2 ^ 2047"
  have R: "radix 64 = 2 * M" and n: "val (key_n sample_rsa_key) = M + 1"
    by (simp_all add: M_def radix_def sample_rsa_key_def val_append)
  have rr: "val (key_rr sample_rsa_key) = 4" by (simp add: sample_rsa_key_def)
  have "(2 * M) * (2 * M) = 4 + (M + 1) * (4 * M - 4)" by algebra
  then have "val (key_rr sample_rsa_key) mod val (key_n sample_rsa_key) = (radix 64 * radix 64) mod val (key_n sample_rsa_key)"
    unfolding R n rr by simp
  moreover have "radix 64 \<le> 2 * val (key_n sample_rsa_key)" unfolding R n by simp
  ultimately show ?thesis by (simp add: rsa_key_def mont_key_def sample_rsa_key_def)
qed

lemma load_byte: "load m p N = bs \<Longrightarrow> i < N \<Longrightarrow> m (p + word_of_nat i) = bs ! i"
  by (auto simp: load_def)

lemma sample_key_words:
  assumes "\<And>i. i < 520 \<Longrightarrow> m (p + word_of_nat i) = sample_key_data ! i"
  shows "key_words m (p + 8) 64 = 1 # replicate 62 0 @ [0x80000000]" "key_words m (p + 8 + 256) 64 = 4 # replicate 63 0"
proof -
  have at: "avb_be32toh (load m (p + word_of_nat k) 4) = avb_be32toh (map (\<lambda>j. sample_key_data ! (k + j)) [0..<4])" if "k + 4 \<le> 520" for k
  proof -
    have "load m (p + word_of_nat k) 4 = map (\<lambda>j. sample_key_data ! (k + j)) [0..<4]"
      using assms that by (auto simp: load_def add.assoc simp flip: of_nat_add)
    then show ?thesis by simp
  qed
  have zero: "avb_be32toh (map (\<lambda>j. sample_key_data ! (k + j)) [0..<4]) = 0" if "9 \<le> k \<and> k + 4 \<le> 263 \<or> 264 \<le> k \<and> k + 4 \<le> 519" for k
    using that by (auto simp: avb_be32toh_def sample_key_data_def nth_append)
  show "key_words m (p + 8) 64 = 1 # replicate 62 0 @ [0x80000000]"
  proof (rule nth_equalityI)
    fix i
    assume "i < length (key_words m (p + 8) 64)"
    then have i: "i < 64" by (simp add: key_words_def)
    then have "key_words m (p + 8) 64 ! i = avb_be32toh (map (\<lambda>j. sample_key_data ! (8 + 4 * (63 - i) + j)) [0..<4])"
      using at [of "8 + 4 * (63 - i)"] by (simp add: key_words_def add.assoc)
    also have "\<dots> = (1 # replicate 62 0 @ [0x80000000]) ! i"
    proof -
      consider "i = 0" | "i = 63" | "0 < i" "i < 63" using i by linarith
      then show ?thesis
      proof cases
        case 3
        then have "avb_be32toh (map (\<lambda>j. sample_key_data ! (8 + 4 * (63 - i) + j)) [0..<4]) = 0" by (intro zero) auto
        then show ?thesis using 3 by (simp add: nth_append nth_Cons')
      qed (simp_all add: avb_be32toh_def sample_key_data_def nth_append)
    qed
    finally show "key_words m (p + 8) 64 ! i = (1 # replicate 62 0 @ [0x80000000]) ! i" .
  qed (simp add: key_words_def)
  show "key_words m (p + 8 + 256) 64 = 4 # replicate 63 0"
  proof (rule nth_equalityI)
    fix i
    assume "i < length (key_words m (p + 8 + 256) 64)"
    then have i: "i < 64" by (simp add: key_words_def)
    then have "key_words m (p + 8 + 256) 64 ! i = avb_be32toh (map (\<lambda>j. sample_key_data ! (264 + 4 * (63 - i) + j)) [0..<4])"
      using at [of "264 + 4 * (63 - i)"] by (simp add: key_words_def add.assoc)
    also have "\<dots> = (4 # replicate 63 0) ! i"
      by (cases "i = 0") (use i in \<open>simp_all add: zero avb_be32toh_def sample_key_data_def nth_append nth_Cons'\<close>)
    finally show "key_words m (p + 8 + 256) 64 ! i = (4 # replicate 63 0) ! i" .
  qed (simp add: key_words_def)
qed

lemma sample_key_parsed:
  assumes "load m p 520 = sample_key_data"
  shows "iavb_parse_key_data True m p 520 = Some sample_rsa_key"
proof -
  have b: "m (p + word_of_nat i) = sample_key_data ! i" if "i < 520" for i using load_byte [OF assms that] .
  have "load m p 8 = [0, 0, 8, 0, 0xff, 0xff, 0xff, 0xff]"
    using b [of 0] b [of 1] b [of 2] b [of 3] b [of 4] b [of 5] b [of 6] b [of 7]
    by (simp add: load_def upt_rec sample_key_data_def nth_append)
  then have h: "avb_rsa_public_key_header_validate_and_byteswap (load m p 8) = \<lparr>key_num_bits = 2048, hdr_n0inv = 0xffffffff\<rparr>"
    by (simp add: avb_rsa_public_key_header_validate_and_byteswap_def avb_be32toh_def)
  show ?thesis
    using sample_key_words [OF b] by (simp add: iavb_parse_key_data_def h sample_rsa_key_def)
qed

text \<open>An image signed with the key: behind the header a block with a hash and a signature, and one with the key.\<close>

definition sample_header :: "8 word list" where
  "sample_header =
     AVB_MAGIC @ [0, 0, 0, 1] @ [0, 0, 0, 0] @ [0, 0, 0, 0, 0, 0, 1, 0x40] @ [0, 0, 0, 0, 0, 0, 2, 0x40] @ [0, 0, 0, 1] @
     [0, 0, 0, 0, 0, 0, 0, 0] @ [0, 0, 0, 0, 0, 0, 0, 0x20] @ [0, 0, 0, 0, 0, 0, 0, 0x20] @ [0, 0, 0, 0, 0, 0, 1, 0] @
     [0, 0, 0, 0, 0, 0, 0, 0] @ [0, 0, 0, 0, 0, 0, 2, 8] @ replicate 176 0"

definition sample_aux :: "8 word list" where
  "sample_aux = sample_key_data @ replicate 56 0"

definition sample_image :: "8 word list \<Rightarrow> 8 word list \<Rightarrow> 8 word list" where
  "sample_image hash signature = sample_header @ (hash @ signature @ replicate 32 0) @ sample_aux"

lemma length_sample: "length sample_header = 256" "length sample_aux = 576"
  by (simp_all add: sample_header_def sample_aux_def length_sample_key_data AVB_MAGIC_def)

lemma sample_image_parts:
  assumes "length hash = 32" "length signature = 256"
  shows "load (mem_of 0x1000 (sample_image hash signature)) 0x1000 256 = sample_header"
    "load (mem_of 0x1000 (sample_image hash signature)) 0x1000 4 = AVB_MAGIC"
    "load (mem_of 0x1000 (sample_image hash signature)) 0x1100 32 = hash"
    "load (mem_of 0x1000 (sample_image hash signature)) 0x1120 256 = signature"
    "load (mem_of 0x1000 (sample_image hash signature)) 0x1240 576 = sample_aux"
    "load (mem_of 0x1000 (sample_image hash signature)) 0x1240 520 = sample_key_data"
proof -
  let ?b = "sample_image hash signature"
  have len: "length ?b = 1152" using assms by (simp add: sample_image_def length_sample)
  have at: "load (mem_of 0x1000 ?b) (0x1000 + word_of_nat k) n = take n (drop k ?b)" if "k + n \<le> 1152" for k n
    using load_mem_of [of k n ?b "0x1000"] that by (simp add: len)
  show "load (mem_of 0x1000 ?b) 0x1000 256 = sample_header" using at [of 0 256] by (simp add: sample_image_def length_sample)
  show "load (mem_of 0x1000 ?b) 0x1000 4 = AVB_MAGIC" using at [of 0 4] by (simp add: sample_image_def sample_header_def AVB_MAGIC_def)
  show "load (mem_of 0x1000 ?b) 0x1100 32 = hash" using at [of 256 32] assms by (simp add: sample_image_def length_sample)
  show "load (mem_of 0x1000 ?b) 0x1120 256 = signature" using at [of 288 256] assms by (simp add: sample_image_def length_sample)
  show "load (mem_of 0x1000 ?b) 0x1240 576 = sample_aux" using at [of 576 576] assms by (simp add: sample_image_def length_sample)
  show "load (mem_of 0x1000 ?b) 0x1240 520 = sample_key_data"
    using at [of 576 520] assms by (simp add: sample_image_def length_sample sample_aux_def length_sample_key_data)
qed

lemma sample_fields:
  "avb_vbmeta_image_header_to_host_byte_order sample_header =
     \<lparr>required_libavb_version_major = 1, required_libavb_version_minor = 0, authentication_data_block_size = 320,
      auxiliary_data_block_size = 576, algorithm_type = 1, hash_offset = 0, hash_size = 32, signature_offset = 32,
      signature_size = 256, public_key_offset = 0, public_key_size = 520, public_key_metadata_offset = 0,
      public_key_metadata_size = 0, descriptors_offset = 0, descriptors_size = 0, rollback_index = 0, vbmeta_flags = 0,
      release_string = replicate 48 0\<rparr>"
  by (simp add: avb_vbmeta_image_header_to_host_byte_order_def sample_header_def AVB_MAGIC_def avb_be32toh_def avb_be64toh_def
    AVB_RELEASE_STRING_SIZE_def)

lemma sample_image_read:
  assumes "length hash = 32" "length signature = 256"
  defines "m \<equiv> mem_of 0x1000 (sample_image hash signature)"
  shows "well_formed m 0x1000 0x1000" and "signed_bytes m 0x1000 = sample_header @ sample_aux" and "stored_hash m 0x1000 = hash"
    and "stored_signature m 0x1000 = signature" and "algorithm_type (vbmeta_header m 0x1000) = 1"
    and "alloc 0 \<Longrightarrow> image_key alloc m 0x1000 = Some sample_rsa_key"
proof -
  note parts = sample_image_parts [OF assms(1,2), folded m_def]
  have h: "vbmeta_header m 0x1000 = avb_vbmeta_image_header_to_host_byte_order sample_header" by (simp add: vbmeta_header_def parts)
  show "well_formed m 0x1000 0x1000"
    by (simp add: well_formed_def h sample_fields parts header_ok_def inside_def AVB_VERSION_MAJOR_def AVB_VERSION_MINOR_def
      AVB_RELEASE_STRING_SIZE_def)
  show "signed_bytes m 0x1000 = sample_header @ sample_aux" "stored_hash m 0x1000 = hash" "stored_signature m 0x1000 = signature"
      "algorithm_type (vbmeta_header m 0x1000) = 1"
    by (simp_all add: signed_bytes_def stored_hash_def stored_signature_def aux_block_def auth_block_def h sample_fields parts)
  show "image_key alloc m 0x1000 = Some sample_rsa_key" if "alloc 0"
    using sample_key_parsed [OF parts(6)] that by (simp add: image_key_def aux_block_def h sample_fields)
qed

section \<open>Hashes\<close>


definition sample_ctx :: "nat \<Rightarrow> 'w avb_sha_ctx" where
  "sample_ctx n = \<lparr>ctx_h = [], tot_len = 7, ctx_len = 9, ctx_block = replicate n 0xee, ctx_buf = []\<rparr>"


section \<open>Signatures\<close>

text \<open>C9 the exponentiation of libavb, by Montgomery multiplication on arrays of 32-bit words, computes the power with exponent 65537
  modulo the modulus of the key, for every base of the length of the key and every key whose helper values belong to its modulus.\<close>

theorem modpowF4_correct:
  assumes "rsa_key key" and "length s = 4 * key_len key"
  shows "bval (modpowF4 True key s) = bval s ^ 65537 mod val (key_n key) \<and> length (modpowF4 True key s) = length s"
  using modpowF4_value [OF assms] by simp

definition sample_small_key :: IAvbKey where
  "sample_small_key = \<lparr>key_len = 1, n0inv = 0x7fffffff, key_n = [0x80000001], key_rr = [4]\<rparr>"

theorem modpowF4_correct_witness:
  "rsa_key sample_small_key \<and> modpowF4 True sample_small_key [0, 0, 0, 2] = [0, 0, 0, 8]"
proof -
  have k: "rsa_key sample_small_key" by (simp add: rsa_key_def mont_key_def sample_small_key_def radix_def)
  have n: "val (key_n sample_small_key) = 2147483649" by (simp add: sample_small_key_def)
  have e: "65537 = 62 * 1057 + (3 :: nat)" and r: "2 ^ 62 mod 2147483649 = (1 :: int)" by simp_all
  have "((2 :: int) ^ 62) ^ 1057 mod 2147483649 = 1 ^ 1057 mod 2147483649" using power_mod [of "2 ^ 62 :: int" 2147483649 1057] by (simp only: r)
  then have "((2 :: int) ^ 62) ^ 1057 * 2 ^ 3 mod 2147483649 = 1 ^ 1057 * 2 ^ 3 mod 2147483649" by (rule mod_mult_cong) (rule refl)
  also have "\<dots> = 8" by simp
  finally have p: "(2 :: int) ^ 65537 mod 2147483649 = 8" by (simp only: e power_add power_mult)
  have b: "bval [0, 0, 0, 2] = 2" and l: "length [0, 0, 0, 2 :: 8 word] = 4 * key_len sample_small_key" by (simp_all add: sample_small_key_def)
  have "bval (modpowF4 True sample_small_key [0, 0, 0, 2]) = 8 \<and> length (modpowF4 True sample_small_key [0, 0, 0, 2]) = length [0, 0, 0, 2 :: 8 word]"
    using modpowF4_correct [OF k l] unfolding n b p .
  then show ?thesis using k bval_inject [of "modpowF4 True sample_small_key [0, 0, 0, 2]" "[0, 0, 0, 8]"] by simp
qed

text \<open>A signature is accepted exactly when it and the padded hash have the size of the key, the memory for the copy of the signature
  is there, and the power of the signature is the padded hash; where there is no memory for the exponentiation, the signature that is
  accepted is the padded hash itself.\<close>

theorem avb_rsa_verify_exact:
  assumes "key \<noteq> 0" "sig \<noteq> 0" "hash \<noteq> 0" and "iavb_parse_key_data (alloc 0) m key key_num_bytes = Some k" and "rsa_key k"
    and "unat hash_num_bytes + length pad < 2 ^ 64"
  shows "avb_rsa_verify alloc m key key_num_bytes sig sig_num_bytes hash hash_num_bytes (Some pad) \<longleftrightarrow>
    unat sig_num_bytes = 4 * key_len k \<and> unat hash_num_bytes + length pad = 4 * key_len k \<and> alloc 1 \<and>
    (if alloc 2 \<and> alloc 3 \<and> alloc 4
     then bval (load m sig (unat sig_num_bytes)) ^ 65537 mod val (key_n k) = bval (pad @ load m hash (unat hash_num_bytes))
     else load m sig (unat sig_num_bytes) = pad @ load m hash (unat hash_num_bytes))"
proof (cases "unat hash_num_bytes + length pad = unat sig_num_bytes")
  case True
  then show ?thesis using rsa_verify [where alloc = alloc, OF assms(1-5) True] unfolding signature_of_def by auto
next
  case False
  then show ?thesis using rsa_verify_sizes(1) [where alloc = alloc, OF _ assms(6)] by auto
qed

theorem avb_rsa_verify_exact_witness:
  "avb_rsa_verify (\<lambda>_. True) (mem_of 0x1000 (sample_image (replicate 31 0 @ [1]) (replicate 255 0 @ [1])))
     0x1240 520 0x1120 256 0x1100 32 (Some (replicate 224 0))"
proof -
  let ?m = "mem_of 0x1000 (sample_image (replicate 31 0 @ [1]) (replicate 255 0 @ [1]))"
  note parts = sample_image_parts [of "replicate 31 0 @ [1]" "replicate 255 0 @ [1]"]
  have p: "iavb_parse_key_data True ?m 0x1240 520 = Some sample_rsa_key" by (rule sample_key_parsed) (rule parts; simp)
  have z: "bval (replicate j 0 @ [1]) = 1" for j by (induction j) simp_all
  have "val (key_n sample_rsa_key) = 1 + 2 ^ 2047" by (simp add: sample_rsa_key_def val_append radix_def)
  then have n: "1 ^ 65537 mod val (key_n sample_rsa_key) = 1" by simp
  have e: "replicate 224 0 @ replicate 31 (0 :: 8 word) @ [1] = replicate 255 0 @ [1]" by (simp add: replicate_add [symmetric] flip: append_assoc)
  have em: "bval (replicate 224 0 @ replicate 31 0 @ [1]) = 1" by (simp only: e z)
  show ?thesis
    using avb_rsa_verify_exact [where alloc = "\<lambda>_. True" and key = "0x1240" and sig = "0x1120" and hash = "0x1100" and m = ?m and k = sample_rsa_key
        and key_num_bytes = 520 and sig_num_bytes = 256 and hash_num_bytes = 32 and pad = "replicate 224 0", OF _ _ _ p sample_rsa_key] parts(3,4) n z em
    by (simp add: sample_rsa_key_def)
qed

section \<open>Images\<close>



text \<open>C36 where there is no memory for the exponentiation, an image whose signature is the padded hash is accepted: no key is needed to
  write it.\<close>

theorem avb_vbmeta_image_verify_forged:
  assumes "length (ctx_block c256) = 128" and "length (ctx_block c512) = 256" and "unat data_len < 2 ^ 29"
    and "well_formed m data data_len" and "algorithm_type (vbmeta_header m data) \<in> {1, 2, 3, 4, 5, 6}"
    and "image_key alloc m data = Some k" and "rsa_key k" and "alloc 1" and "\<not> (alloc 2 \<and> alloc 3 \<and> alloc 4)"
    and "stored_hash m data = alg_digest (algorithm_type (vbmeta_header m data)) (signed_bytes m data)"
    and "stored_signature m data = alg_pad (algorithm_type (vbmeta_header m data)) @ stored_hash m data"
    and "length (stored_signature m data) = 4 * key_len k"
  shows "fst (avb_vbmeta_image_verify alloc c256 c512 m data data_len) = AVB_VBMETA_VERIFY_RESULT_OK"
proof -
  have "signed_image alloc m data" using assms(5-12) unfolding signed_image_def Let_def signature_of_def by metis
  then show ?thesis using vbmeta_verify_ok [where alloc = alloc and m = m and data = data, OF assms(1-3)] assms(4,6,7) by simp
qed

theorem avb_vbmeta_image_verify_forged_witness:
  "fst (avb_vbmeta_image_verify (\<lambda>i. i \<noteq> 2) (sample_ctx 128) (sample_ctx 256)
     (mem_of 0x1000 (sample_image (sha256 (sample_header @ sample_aux)) (padding_RSA2048_SHA256 @ sha256 (sample_header @ sample_aux))))
     0x1000 0x1000) = AVB_VBMETA_VERIFY_RESULT_OK"
proof -
  let ?d = "sha256 (sample_header @ sample_aux)"
  let ?m = "mem_of 0x1000 (sample_image ?d (padding_RSA2048_SHA256 @ ?d))"
  have len: "length ?d = 32" "length (padding_RSA2048_SHA256 @ ?d) = 256"
    using length_sha256 [of "sample_header @ sample_aux"] by (simp_all add: padding_RSA2048_SHA256_def sha256_id_def)
  note read = sample_image_read [OF len]
  show ?thesis
    by (rule avb_vbmeta_image_verify_forged [where k = sample_rsa_key])
      (use read(1-5) read(6) [of "\<lambda>i. i \<noteq> 2"] len sample_rsa_key in
        \<open>simp_all add: sample_ctx_def alg_digest_def alg_pad_def, simp_all add: sample_rsa_key_def\<close>)
qed

end
