(* ===== verification/Avb_Util.thy ===== *)
theory Avb_Util
  imports Avb_Vbmeta
begin

text \<open>
  The string functions of libavb, \<^verbatim>\<open>lib/libavb/avb_util.c\<close>, and the conversion of numbers of \<^verbatim>\<open>avb_cmdline.c\<close>.  A C string is the list of its
  bytes without the final zero byte.  The requests for memory of a run are numbered: \<open>alloc\<close> says whether the request with a number is
  met, and a function with several of them is given the number of the next one and returns it.
\<close>

unbundle bit_operations_syntax

section \<open>UTF-8\<close>

fun utf8_loop :: "nat \<Rightarrow> 8 word list \<Rightarrow> bool" where
  "utf8_loop num_cc [] \<longleftrightarrow> num_cc = 0"
| "utf8_loop num_cc (c # data) =
     (if num_cc > 0 then
        if c AND (0x80 OR 0x40) = 0x80 then utf8_loop (num_cc - 1) data else False
      else if c < 0x80 then utf8_loop 0 data
      else if c AND (0x80 OR 0x40 OR 0x20) = 0x80 OR 0x40 then utf8_loop 1 data
      else if c AND (0x80 OR 0x40 OR 0x20 OR 0x10) = 0x80 OR 0x40 OR 0x20 then utf8_loop 2 data
      else if c AND (0x80 OR 0x40 OR 0x20 OR 0x10 OR 0x08) = 0x80 OR 0x40 OR 0x20 OR 0x10 then utf8_loop 3 data
      else False)"

definition avb_validate_utf8 :: "8 word list \<Rightarrow> bool" where
  "avb_validate_utf8 data = utf8_loop 0 data"

section \<open>Strings\<close>

text \<open>The bytes of \<^verbatim>\<open>buf\<close> in front of the zero byte, where the function succeeds.\<close>

definition avb_str_concat :: "64 word \<Rightarrow> 8 word list \<Rightarrow> 8 word list \<Rightarrow> 8 word list option" where
  "avb_str_concat buf_size str1 str2 =
     (case avb_safe_add (word_of_nat (length str1)) (word_of_nat (length str2)) of
        (combined_len, ok) \<Rightarrow> if \<not> ok then None else if combined_len > buf_size - 1 then None else Some (str1 @ str2))"

text \<open>The strings a pointer to an array of strings stands for, up to the null pointer.\<close>

fun avb_strv_find_str :: "8 word list list \<Rightarrow> 8 word list \<Rightarrow> 8 word list option" where
  "avb_strv_find_str [] str = None"
| "avb_strv_find_str (s # strings) str =
     (if length s = length str \<and> s = str then Some s else avb_strv_find_str strings str)"

text \<open>\<^verbatim>\<open>avb_strstr\<close>: the inner loop from the second byte of the needle on, and the outer loop.  A pointer into the haystack is the rest of
  it from there.\<close>

fun strstr_match :: "8 word list \<Rightarrow> 8 word list \<Rightarrow> bool" where
  "strstr_match h [] = True"
| "strstr_match [] (d # needle) = False"
| "strstr_match (c # h) (d # needle) = (if c \<noteq> d then False else strstr_match h needle)"

fun avb_strstr :: "8 word list \<Rightarrow> 8 word list \<Rightarrow> 8 word list option" where
  "avb_strstr [] needle = None"
| "avb_strstr (c # h) needle =
     (case needle of
        [] \<Rightarrow> avb_strstr h needle
      | d # rest \<Rightarrow> if c \<noteq> d then avb_strstr h needle else if strstr_match h rest then Some (c # h) else avb_strstr h needle)"

lemma strstr_suffix:
  assumes "avb_strstr h needle = Some s"
  shows "length s \<le> length h" "s \<noteq> []" "needle \<noteq> []" "length s - length needle < length h"
proof -
  show *: "length s \<le> length h" "s \<noteq> []" "needle \<noteq> []"
    using assms by (induction h needle rule: avb_strstr.induct) (auto split: list.splits if_splits)
  show "length s - length needle < length h" using * by (cases needle; cases s) auto
qed

text \<open>\<^verbatim>\<open>avb_replace\<close>: the loop, with the string made so far, the rest behind the last replacement and whether a request has failed.\<close>

function replace_loop ::
  "(nat \<Rightarrow> bool) \<Rightarrow> nat \<Rightarrow> 8 word list option \<Rightarrow> 8 word list \<Rightarrow> 8 word list \<Rightarrow> 8 word list \<Rightarrow> bool \<times> 8 word list option \<times> 8 word list \<times> nat" where
  "replace_loop alloc n ret str search rep =
     (if str = [] then (False, ret, str, n)
      else
        case avb_strstr str search of
          None \<Rightarrow> (False, ret, str, n)
        | Some s \<Rightarrow>
            if \<not> alloc n then (True, ret, str, n + 1)
            else
              let before = take (length str - length s) str;
                  new_str = (case ret of None \<Rightarrow> before @ rep | Some r \<Rightarrow> r @ before @ rep)
              in replace_loop alloc (n + 1) (Some new_str) (drop (length search) s) search rep)"
  by pat_completeness auto
termination
  by (relation "measure (\<lambda>(alloc, n, ret, str, search, rep). length str)") (auto dest: strstr_suffix(4))

definition avb_replace :: "(nat \<Rightarrow> bool) \<Rightarrow> nat \<Rightarrow> 8 word list \<Rightarrow> 8 word list \<Rightarrow> 8 word list \<Rightarrow> 8 word list option \<times> nat" where
  "avb_replace alloc n str search rep =
     (case replace_loop alloc n None str search rep of
        (failed, ret, str_after_last_replace, n') \<Rightarrow>
          if failed then (ret, n')
          else
            case ret of
              None \<Rightarrow> (if alloc n' then Some str_after_last_replace else None, n' + 1)
            | Some r \<Rightarrow> (if alloc n' then Some (r @ str_after_last_replace) else Some r, n' + 1))"

definition avb_strdup :: "bool \<Rightarrow> 8 word list \<Rightarrow> 8 word list option" where
  "avb_strdup ok str = (if ok then Some str else None)"

text \<open>The callers give \<^verbatim>\<open>avb_strdupv\<close> two or three strings, so its limit of 32 strings is not reached.\<close>

definition avb_strdupv :: "bool \<Rightarrow> 8 word list list \<Rightarrow> 8 word list option" where
  "avb_strdupv ok strings = (if ok then Some (concat strings) else None)"

definition avb_uppercase :: "8 word list \<Rightarrow> 8 word list" where
  "avb_uppercase str = map (\<lambda>c. if c \<le> 0x7A \<and> c \<ge> 0x61 then c - 0x20 else c) str"

text \<open>The last \<^verbatim>\<open>/\<close> that is not the last byte ends the directory.\<close>

primrec basename_loop :: "nat \<Rightarrow> 8 word list \<Rightarrow> 8 word list" where
  "basename_loop 0 str = str"
| "basename_loop (Suc n) str = (if str ! n = 0x2f then drop (n + 1) str else basename_loop n str)"

definition avb_basename :: "8 word list \<Rightarrow> 8 word list" where
  "avb_basename str = (if length str \<ge> 2 then basename_loop (length str - 1) str else str)"

section \<open>Numbers\<close>

definition hex_digits :: "8 word list" where
  "hex_digits = [0x30, 0x31, 0x32, 0x33, 0x34, 0x35, 0x36, 0x37, 0x38, 0x39, 0x61, 0x62, 0x63, 0x64, 0x65, 0x66]"

definition avb_bin2hex :: "bool \<Rightarrow> 8 word list \<Rightarrow> 8 word list option" where
  "avb_bin2hex ok data =
     (if ok then Some (concat (map (\<lambda>b. [hex_digits ! unat (drop_bit 4 b), hex_digits ! unat (b AND 0x0f)]) data)) else None)"

definition AVB_MAX_DIGITS_UINT64 :: nat where "AVB_MAX_DIGITS_UINT64 = 32"

text \<open>The digits from the last one on, as many as the first number allows.\<close>

primrec rev_digits :: "nat \<Rightarrow> 64 word \<Rightarrow> 8 word list" where
  "rev_digits 0 v = []"
| "rev_digits (Suc k) v = (ucast (v mod 10) + 0x30) # (if v div 10 = 0 then [] else rev_digits k (v div 10))"

definition uint64_to_base10 :: "64 word \<Rightarrow> 8 word list" where
  "uint64_to_base10 v = rev (rev_digits (AVB_MAX_DIGITS_UINT64 - 1) v)"

end
