(* ===== verification/Avb_Descriptor.thy ===== *)
theory Avb_Descriptor
  imports Avb_Util
begin

text \<open>
  The descriptors of a vbmeta image and the footer of a partition: \<^verbatim>\<open>lib/libavb/avb_descriptor.c\<close>, \<^verbatim>\<open>avb_hash_descriptor.c\<close>,
  \<^verbatim>\<open>avb_hashtree_descriptor.c\<close>, \<^verbatim>\<open>avb_chain_partition_descriptor.c\<close>, \<^verbatim>\<open>avb_kernel_cmdline_descriptor.c\<close>,
  \<^verbatim>\<open>avb_property_descriptor.c\<close> and \<^verbatim>\<open>avb_footer.c\<close>.  The structure a function reads is the list of the bytes at its address, a descriptor is its
  address.  The assertions of libavb are compiled in and end in \<^verbatim>\<open>panic\<close>.  The loop over the descriptors may run forever: \<^const>\<open>None\<close> is that it
  does not return.
\<close>

unbundle bit_operations_syntax

section \<open>The header of a descriptor\<close>

record AvbDescriptor =
  desc_tag :: "64 word"
  num_bytes_following :: "64 word"

definition AVB_DESCRIPTOR_TAG_PROPERTY :: "64 word" where "AVB_DESCRIPTOR_TAG_PROPERTY = 0"
definition AVB_DESCRIPTOR_TAG_HASHTREE :: "64 word" where "AVB_DESCRIPTOR_TAG_HASHTREE = 1"
definition AVB_DESCRIPTOR_TAG_HASH :: "64 word" where "AVB_DESCRIPTOR_TAG_HASH = 2"
definition AVB_DESCRIPTOR_TAG_KERNEL_CMDLINE :: "64 word" where "AVB_DESCRIPTOR_TAG_KERNEL_CMDLINE = 3"
definition AVB_DESCRIPTOR_TAG_CHAIN_PARTITION :: "64 word" where "AVB_DESCRIPTOR_TAG_CHAIN_PARTITION = 4"

definition avb_descriptor_validate_and_byteswap :: "8 word list \<Rightarrow> AvbDescriptor option" where
  "avb_descriptor_validate_and_byteswap src =
     (let dest = \<lparr>desc_tag = avb_be64toh src, num_bytes_following = avb_be64toh (drop 8 src)\<rparr> in
      if num_bytes_following dest AND 0x07 \<noteq> 0 then None else Some dest)"

text \<open>The sum of the sizes of the parts, added one after the other with a test for overflow, against the size of the descriptor.\<close>

fun add_sizes :: "64 word \<Rightarrow> 64 word list \<Rightarrow> 64 word option" where
  "add_sizes expected_size [] = Some expected_size"
| "add_sizes expected_size (x # xs) =
     (case avb_safe_add_to expected_size x of (v, ok) \<Rightarrow> if \<not> ok then None else add_sizes v xs)"

definition payload_fits :: "64 word \<Rightarrow> 64 word list \<Rightarrow> AvbDescriptor \<Rightarrow> bool" where
  "payload_fits expected_size sizes d =
     (case add_sizes expected_size sizes of None \<Rightarrow> False | Some v \<Rightarrow> if v > num_bytes_following d then False else True)"

section \<open>The kinds of descriptors\<close>

record AvbHashDescriptor =
  hd_parent :: AvbDescriptor
  hd_image_size :: "64 word"
  hd_hash_algorithm :: "8 word list"
  hd_partition_name_len :: "32 word"
  hd_salt_len :: "32 word"
  hd_digest_len :: "32 word"
  hd_flags :: "32 word"

definition AvbHashDescriptor_SIZE :: nat where "AvbHashDescriptor_SIZE = 132"
definition AVB_HASH_DESCRIPTOR_FLAGS_DO_NOT_USE_AB :: "32 word" where "AVB_HASH_DESCRIPTOR_FLAGS_DO_NOT_USE_AB = 1"

definition avb_hash_descriptor_validate_and_byteswap :: "8 word list \<Rightarrow> AvbHashDescriptor option" where
  "avb_hash_descriptor_validate_and_byteswap src =
     (case avb_descriptor_validate_and_byteswap src of
        None \<Rightarrow> None
      | Some d \<Rightarrow>
          if desc_tag d \<noteq> AVB_DESCRIPTOR_TAG_HASH then None
          else
            let dest = \<lparr>hd_parent = d, hd_image_size = avb_be64toh (drop 16 src), hd_hash_algorithm = take 32 (drop 24 src),
                  hd_partition_name_len = avb_be32toh (drop 56 src), hd_salt_len = avb_be32toh (drop 60 src),
                  hd_digest_len = avb_be32toh (drop 64 src), hd_flags = avb_be32toh (drop 68 src)\<rparr>
            in if payload_fits (word_of_nat (AvbHashDescriptor_SIZE - 16))
                    [ucast (hd_partition_name_len dest), ucast (hd_salt_len dest), ucast (hd_digest_len dest)] d
               then Some dest else None)"

record AvbHashtreeDescriptor =
  ht_parent :: AvbDescriptor
  ht_dm_verity_version :: "32 word"
  ht_image_size :: "64 word"
  ht_tree_offset :: "64 word"
  ht_tree_size :: "64 word"
  ht_data_block_size :: "32 word"
  ht_hash_block_size :: "32 word"
  ht_fec_num_roots :: "32 word"
  ht_fec_offset :: "64 word"
  ht_fec_size :: "64 word"
  ht_hash_algorithm :: "8 word list"
  ht_partition_name_len :: "32 word"
  ht_salt_len :: "32 word"
  ht_root_digest_len :: "32 word"
  ht_flags :: "32 word"

definition AvbHashtreeDescriptor_SIZE :: nat where "AvbHashtreeDescriptor_SIZE = 180"
definition AVB_HASHTREE_DESCRIPTOR_FLAGS_DO_NOT_USE_AB :: "32 word" where "AVB_HASHTREE_DESCRIPTOR_FLAGS_DO_NOT_USE_AB = 1"

definition avb_hashtree_descriptor_validate_and_byteswap :: "8 word list \<Rightarrow> AvbHashtreeDescriptor option" where
  "avb_hashtree_descriptor_validate_and_byteswap src =
     (case avb_descriptor_validate_and_byteswap src of
        None \<Rightarrow> None
      | Some d \<Rightarrow>
          if desc_tag d \<noteq> AVB_DESCRIPTOR_TAG_HASHTREE then None
          else
            let dest = \<lparr>ht_parent = d, ht_dm_verity_version = avb_be32toh (drop 16 src), ht_image_size = avb_be64toh (drop 20 src),
                  ht_tree_offset = avb_be64toh (drop 28 src), ht_tree_size = avb_be64toh (drop 36 src),
                  ht_data_block_size = avb_be32toh (drop 44 src), ht_hash_block_size = avb_be32toh (drop 48 src),
                  ht_fec_num_roots = avb_be32toh (drop 52 src), ht_fec_offset = avb_be64toh (drop 56 src),
                  ht_fec_size = avb_be64toh (drop 64 src), ht_hash_algorithm = take 32 (drop 72 src),
                  ht_partition_name_len = avb_be32toh (drop 104 src), ht_salt_len = avb_be32toh (drop 108 src),
                  ht_root_digest_len = avb_be32toh (drop 112 src), ht_flags = avb_be32toh (drop 116 src)\<rparr>
            in if payload_fits (word_of_nat (AvbHashtreeDescriptor_SIZE - 16))
                    [ucast (ht_partition_name_len dest), ucast (ht_salt_len dest), ucast (ht_root_digest_len dest)] d
               then Some dest else None)"

record AvbChainPartitionDescriptor =
  cd_parent :: AvbDescriptor
  cd_rollback_index_location :: "32 word"
  cd_partition_name_len :: "32 word"
  cd_public_key_len :: "32 word"

definition AvbChainPartitionDescriptor_SIZE :: nat where "AvbChainPartitionDescriptor_SIZE = 92"

definition avb_chain_partition_descriptor_validate_and_byteswap :: "8 word list \<Rightarrow> AvbChainPartitionDescriptor option" where
  "avb_chain_partition_descriptor_validate_and_byteswap src =
     (case avb_descriptor_validate_and_byteswap src of
        None \<Rightarrow> None
      | Some d \<Rightarrow>
          if desc_tag d \<noteq> AVB_DESCRIPTOR_TAG_CHAIN_PARTITION then None
          else
            let dest = \<lparr>cd_parent = d, cd_rollback_index_location = avb_be32toh (drop 16 src),
                  cd_partition_name_len = avb_be32toh (drop 20 src), cd_public_key_len = avb_be32toh (drop 24 src)\<rparr>
            in if cd_rollback_index_location dest < 1 then None
               else if payload_fits (word_of_nat (AvbChainPartitionDescriptor_SIZE - 16))
                         [ucast (cd_partition_name_len dest), ucast (cd_public_key_len dest)] d
               then Some dest else None)"

record AvbKernelCmdlineDescriptor =
  kc_parent :: AvbDescriptor
  kc_flags :: "32 word"
  kc_kernel_cmdline_length :: "32 word"

definition AvbKernelCmdlineDescriptor_SIZE :: nat where "AvbKernelCmdlineDescriptor_SIZE = 24"

definition avb_kernel_cmdline_descriptor_validate_and_byteswap :: "8 word list \<Rightarrow> AvbKernelCmdlineDescriptor option" where
  "avb_kernel_cmdline_descriptor_validate_and_byteswap src =
     (case avb_descriptor_validate_and_byteswap src of
        None \<Rightarrow> None
      | Some d \<Rightarrow>
          if desc_tag d \<noteq> AVB_DESCRIPTOR_TAG_KERNEL_CMDLINE then None
          else
            let dest = \<lparr>kc_parent = d, kc_flags = avb_be32toh (drop 16 src), kc_kernel_cmdline_length = avb_be32toh (drop 20 src)\<rparr>
            in if payload_fits (word_of_nat (AvbKernelCmdlineDescriptor_SIZE - 16)) [ucast (kc_kernel_cmdline_length dest)] d
               then Some dest else None)"

record AvbPropertyDescriptor =
  pd_parent :: AvbDescriptor
  pd_key_num_bytes :: "64 word"
  pd_value_num_bytes :: "64 word"

definition AvbPropertyDescriptor_SIZE :: nat where "AvbPropertyDescriptor_SIZE = 32"

definition avb_property_descriptor_validate_and_byteswap :: "8 word list \<Rightarrow> AvbPropertyDescriptor option" where
  "avb_property_descriptor_validate_and_byteswap src =
     (case avb_descriptor_validate_and_byteswap src of
        None \<Rightarrow> None
      | Some d \<Rightarrow>
          if desc_tag d \<noteq> AVB_DESCRIPTOR_TAG_PROPERTY then None
          else
            let dest = \<lparr>pd_parent = d, pd_key_num_bytes = avb_be64toh (drop 16 src), pd_value_num_bytes = avb_be64toh (drop 24 src)\<rparr>
            in if payload_fits (word_of_nat (AvbPropertyDescriptor_SIZE - 16 + 2)) [pd_key_num_bytes dest, pd_value_num_bytes dest] d
               then Some dest else None)"

section \<open>The footer\<close>

record AvbFooter =
  footer_magic :: "8 word list"
  footer_version_major :: "32 word"
  footer_version_minor :: "32 word"
  footer_original_image_size :: "64 word"
  footer_vbmeta_offset :: "64 word"
  footer_vbmeta_size :: "64 word"

definition AVB_FOOTER_MAGIC :: "8 word list" where "AVB_FOOTER_MAGIC = [0x41, 0x56, 0x42, 0x66]"
definition AVB_FOOTER_MAGIC_LEN :: nat where "AVB_FOOTER_MAGIC_LEN = 4"
definition AVB_FOOTER_SIZE :: nat where "AVB_FOOTER_SIZE = 64"
definition AVB_FOOTER_VERSION_MAJOR :: "32 word" where "AVB_FOOTER_VERSION_MAJOR = 1"

definition avb_footer_validate_and_byteswap :: "8 word list \<Rightarrow> AvbFooter option" where
  "avb_footer_validate_and_byteswap src =
     (let dest = \<lparr>footer_magic = take AVB_FOOTER_MAGIC_LEN src, footer_version_major = avb_be32toh (drop 4 src),
            footer_version_minor = avb_be32toh (drop 8 src), footer_original_image_size = avb_be64toh (drop 12 src),
            footer_vbmeta_offset = avb_be64toh (drop 20 src), footer_vbmeta_size = avb_be64toh (drop 28 src)\<rparr>
      in if avb_safe_memcmp (footer_magic dest) AVB_FOOTER_MAGIC AVB_FOOTER_MAGIC_LEN \<noteq> 0 then None
         else if footer_version_major dest > AVB_FOOTER_VERSION_MAJOR then None
         else Some dest)"

section \<open>Iteration\<close>

definition avb_aligned :: "64 word \<Rightarrow> bool" where
  "avb_aligned addr \<longleftrightarrow> addr AND 7 = 0"

partial_function (option) foreach_loop ::
  "avb_mem \<Rightarrow> 64 word \<Rightarrow> 64 word \<Rightarrow> (64 word \<Rightarrow> 's \<Rightarrow> bool \<times> 's) \<Rightarrow> 64 word \<Rightarrow> 's \<Rightarrow> (bool \<times> 's) kres option" where
  "foreach_loop m desc_start desc_end f p s =
     (if p < desc_end then
        if \<not> avb_aligned p then Some (Inl PANIC)
        else
          let nb_following = avb_be64toh (load m (p + 8) 8);
              nb_total = 16 + nb_following
          in
          if nb_total AND 7 \<noteq> 0 then Some (Inr (False, s))
          else if nb_total + p < desc_start \<or> nb_total + p > desc_end then Some (Inr (False, s))
          else
            case f p s of
              (go_on, s') \<Rightarrow> if \<not> go_on then Some (Inr (False, s')) else foreach_loop m desc_start desc_end f (p + nb_total) s'
      else Some (Inr (True, s)))"

definition avb_descriptor_foreach ::
  "avb_mem \<Rightarrow> 64 word \<Rightarrow> 64 word \<Rightarrow> (64 word \<Rightarrow> 's \<Rightarrow> bool \<times> 's) \<Rightarrow> 's \<Rightarrow> (bool \<times> 's) kres option" where
  "avb_descriptor_foreach m image_data image_size f s =
     (if image_data = 0 then Some (Inr (False, s))
      else if image_size < word_of_nat AVB_VBMETA_IMAGE_HEADER_SIZE then Some (Inr (False, s))
      else if load m image_data AVB_MAGIC_LEN \<noteq> AVB_MAGIC then Some (Inr (False, s))
      else if \<not> avb_aligned image_data then Some (Inl PANIC)
      else
        let image_end = image_data + image_size;
            desc_start = image_data + word_of_nat AVB_VBMETA_IMAGE_HEADER_SIZE + avb_be64toh (load m (image_data + 12) 8) +
              avb_be64toh (load m (image_data + 96) 8);
            desc_end = desc_start + avb_be64toh (load m (image_data + 104) 8)
        in
        if desc_start < image_data \<or> desc_start > image_end \<or> desc_end < image_data \<or> desc_end > image_end \<or> desc_end < desc_start
        then Some (Inr (False, s))
        else foreach_loop m desc_start desc_end f desc_start s)"

definition count_descriptors :: "64 word \<Rightarrow> 64 word \<Rightarrow> bool \<times> 64 word" where
  "count_descriptors descriptor num_descriptors = (True, num_descriptors + 1)"

text \<open>The array of descriptors as far as it is filled.\<close>

definition set_descriptors :: "64 word \<Rightarrow> 64 word list \<Rightarrow> bool \<times> 64 word list" where
  "set_descriptors descriptor descriptors = (True, descriptors @ [descriptor])"

text \<open>The result is \<^const>\<open>None\<close>, inside, for the null pointer.\<close>

definition avb_descriptor_get_all :: "bool \<Rightarrow> avb_mem \<Rightarrow> 64 word \<Rightarrow> 64 word \<Rightarrow> 64 word list option kres option" where
  "avb_descriptor_get_all ok m image_data image_size =
     (case avb_descriptor_foreach m image_data image_size count_descriptors 0 of
        None \<Rightarrow> None
      | Some (Inl h) \<Rightarrow> Some (Inl h)
      | Some (Inr (_, num_descriptors)) \<Rightarrow>
          if \<not> ok then Some (Inr None)
          else
            case avb_descriptor_foreach m image_data image_size set_descriptors [] of
              None \<Rightarrow> None
            | Some (Inl h) \<Rightarrow> Some (Inl h)
            | Some (Inr (_, descriptors)) \<Rightarrow>
                if word_of_nat (length descriptors) \<noteq> num_descriptors then Some (Inl PANIC) else Some (Inr (Some descriptors)))"

section \<open>Properties of an image\<close>

text \<open>The pointer and the size of the property that was found; they start with what the stack holds.\<close>

definition property_lookup_desc_foreach ::
  "avb_mem \<Rightarrow> 8 word list \<Rightarrow> 64 word \<Rightarrow> 64 word \<times> 64 word \<Rightarrow> bool \<times> 64 word \<times> 64 word" where
  "property_lookup_desc_foreach m key header data =
     (if load m header 8 \<noteq> replicate 8 0 then (True, data)
      else
        case avb_property_descriptor_validate_and_byteswap (load m header AvbPropertyDescriptor_SIZE) of
          None \<Rightarrow> (True, data)
        | Some d \<Rightarrow>
            let key_start = header + word_of_nat AvbPropertyDescriptor_SIZE in
            if m (key_start + pd_key_num_bytes d) \<noteq> 0 then (True, data)
            else if unat (pd_key_num_bytes d) = length key \<and> load m key_start (length key) = key
            then (False, key_start + pd_key_num_bytes d + 1, pd_value_num_bytes d)
            else (True, data))"

definition avb_property_lookup ::
  "64 word \<times> 64 word \<Rightarrow> avb_mem \<Rightarrow> 64 word \<Rightarrow> 64 word \<Rightarrow> 8 word list \<Rightarrow> (64 word \<times> 64 word) kres option" where
  "avb_property_lookup stack m image_data image_size key =
     (case avb_descriptor_foreach m image_data image_size (property_lookup_desc_foreach m key) stack of
        None \<Rightarrow> None
      | Some (Inl h) \<Rightarrow> Some (Inl h)
      | Some (Inr (ret, data)) \<Rightarrow> Some (Inr (if \<not> ret then data else (0, 0))))"

text \<open>The loop over the digits of a number, up to the zero byte; the result is \<^const>\<open>None\<close>, inside, for a byte that is no digit.\<close>

definition digit_of :: "64 word \<Rightarrow> 8 word \<Rightarrow> 64 word option" where
  "digit_of base c =
     (if c \<ge> 0x30 \<and> c \<le> 0x39 then Some (ucast c - 0x30)
      else if base = 16 \<and> c \<ge> 0x61 \<and> c \<le> 0x66 then Some (ucast c - 0x61 + 10)
      else if base = 16 \<and> c \<ge> 0x41 \<and> c \<le> 0x46 then Some (ucast c - 0x41 + 10)
      else None)"

partial_function (option) uint64_loop :: "avb_mem \<Rightarrow> 64 word \<Rightarrow> 64 word \<Rightarrow> 64 word \<Rightarrow> 64 word option option" where
  "uint64_loop m base p parsed_val =
     (if m p = 0 then Some (Some parsed_val)
      else
        case digit_of base (m p) of
          None \<Rightarrow> Some None
        | Some digit \<Rightarrow> uint64_loop m base (p + 1) (parsed_val * base + digit))"

definition avb_property_lookup_uint64 ::
  "64 word \<times> 64 word \<Rightarrow> avb_mem \<Rightarrow> 64 word \<Rightarrow> 64 word \<Rightarrow> 8 word list \<Rightarrow> 64 word option kres option" where
  "avb_property_lookup_uint64 stack m image_data image_size key =
     (case avb_property_lookup stack m image_data image_size key of
        None \<Rightarrow> None
      | Some (Inl h) \<Rightarrow> Some (Inl h)
      | Some (Inr (v, sz)) \<Rightarrow>
          if v = 0 then Some (Inr None)
          else
            let hex = load m v 2 = [0x30, 0x78] in
            map_option Inr (uint64_loop m (if hex then 16 else 10) (if hex then v + 2 else v) 0))"

end
