(* ===== verification/Avb_Cmdline.thy ===== *)
theory Avb_Cmdline
  imports Avb_Descriptor
begin

text \<open>
  The data of a slot verification, \<^verbatim>\<open>include/libavb/avb_slot_verify.h\<close> and \<^verbatim>\<open>avb_ops.h\<close>, and the kernel command line it makes,
  \<^verbatim>\<open>lib/libavb/avb_cmdline.c\<close>.  The operations of the platform are functions of their arguments: what they answer does not change
  during a verification.  The environment also has the memory outside of the buffers of a verification, what the stack holds where
  a hash context and the number of descriptors are put, and the address each request for memory is given, 0 for a request that fails.
\<close>

unbundle bit_operations_syntax

section \<open>Data\<close>

datatype AvbIOResult = AVB_IO_RESULT_OK | AVB_IO_RESULT_ERROR_OOM | AVB_IO_RESULT_ERROR_IO | AVB_IO_RESULT_ERROR_NO_SUCH_PARTITION
  | AVB_IO_RESULT_ERROR_RANGE_OUTSIDE_PARTITION | AVB_IO_RESULT_ERROR_NO_SUCH_VALUE | AVB_IO_RESULT_ERROR_INVALID_VALUE_SIZE
  | AVB_IO_RESULT_ERROR_INSUFFICIENT_SPACE

datatype AvbSlotVerifyResult = AVB_SLOT_VERIFY_RESULT_OK | AVB_SLOT_VERIFY_RESULT_ERROR_OOM | AVB_SLOT_VERIFY_RESULT_ERROR_IO
  | AVB_SLOT_VERIFY_RESULT_ERROR_VERIFICATION | AVB_SLOT_VERIFY_RESULT_ERROR_ROLLBACK_INDEX
  | AVB_SLOT_VERIFY_RESULT_ERROR_PUBLIC_KEY_REJECTED | AVB_SLOT_VERIFY_RESULT_ERROR_INVALID_METADATA
  | AVB_SLOT_VERIFY_RESULT_ERROR_UNSUPPORTED_VERSION | AVB_SLOT_VERIFY_RESULT_ERROR_INVALID_ARGUMENT

datatype AvbHashtreeErrorMode = AVB_HASHTREE_ERROR_MODE_RESTART_AND_INVALIDATE | AVB_HASHTREE_ERROR_MODE_RESTART
  | AVB_HASHTREE_ERROR_MODE_EIO | AVB_HASHTREE_ERROR_MODE_LOGGING

text \<open>A name is \<^const>\<open>None\<close> where its copy could not be allocated.  A vbmeta image is the address of its buffer and the memory it is
  read in.\<close>

record AvbPartitionData =
  pt_partition_name :: "8 word list option"
  pt_data :: "8 word list"
  pt_data_size :: "64 word"
  pt_preloaded :: bool

record AvbVBMetaData =
  vb_partition_name :: "8 word list option"
  vb_mem :: avb_mem
  vb_data :: "64 word"
  vb_size :: "64 word"
  vb_verify_result :: AvbVBMetaVerifyResult

record AvbSlotVerifyData =
  ab_suffix :: "8 word list option"
  vbmeta_images :: "AvbVBMetaData list"
  loaded_partitions :: "AvbPartitionData list"
  cmdline :: "8 word list option"
  rollback_indexes :: "64 word list"

text \<open>The bytes that were read, their number is the one the code is given; the optional operations are \<^const>\<open>None\<close> for a null pointer.\<close>

record AvbOps =
  read_from_partition :: "8 word list \<Rightarrow> 64 word \<Rightarrow> 64 word \<Rightarrow> AvbIOResult \<times> 8 word list"
  get_preloaded_partition :: "(8 word list \<Rightarrow> 64 word \<Rightarrow> AvbIOResult \<times> 64 word \<times> 64 word) option"
  validate_vbmeta_public_key :: "8 word list \<Rightarrow> 8 word list option \<Rightarrow> AvbIOResult \<times> bool"
  read_rollback_index :: "64 word \<Rightarrow> AvbIOResult \<times> 64 word"
  read_is_device_unlocked :: "AvbIOResult \<times> bool"
  get_unique_guid_for_partition :: "8 word list \<Rightarrow> AvbIOResult \<times> 8 word list"
  get_size_of_partition :: "(8 word list \<Rightarrow> AvbIOResult \<times> 64 word) option"
  read_persistent_value :: "(8 word list \<Rightarrow> 64 word \<Rightarrow> AvbIOResult \<times> 8 word list \<times> 64 word) option"

record avb_env =
  av_ops :: AvbOps
  av_mem :: avb_mem
  av_malloc :: "nat \<Rightarrow> 64 word"
  av_sha256 :: AvbSHA256Ctx
  av_sha512 :: AvbSHA512Ctx
  av_stack :: "64 word"

definition av_alloc :: "avb_env \<Rightarrow> nat \<Rightarrow> bool" where
  "av_alloc E n \<longleftrightarrow> av_malloc E n \<noteq> 0"

text \<open>What a verification changes: the slot data, the number of the next request for memory, the additional substitutions and the
  algorithm of the top-level image.\<close>

record avb_state =
  slot_data :: AvbSlotVerifyData
  next_req :: nat
  subst_list :: "(8 word list \<times> 8 word list) list"
  out_algorithm_type :: "32 word"

definition AVB_PART_NAME_MAX_SIZE :: "64 word" where "AVB_PART_NAME_MAX_SIZE = 32"
definition AVB_MAX_NUM_CMDLINE_SUBST :: nat where "AVB_MAX_NUM_CMDLINE_SUBST = 10"
definition AVB_VBMETA_IMAGE_FLAGS_HASHTREE_DISABLED :: "32 word" where "AVB_VBMETA_IMAGE_FLAGS_HASHTREE_DISABLED = 1"
definition AVB_VBMETA_IMAGE_FLAGS_VERIFICATION_DISABLED :: "32 word" where "AVB_VBMETA_IMAGE_FLAGS_VERIFICATION_DISABLED = 2"

section \<open>Substitutions\<close>

fun guid_loop ::
  "avb_env \<Rightarrow> 8 word list \<Rightarrow> (8 word list \<times> 8 word list) list \<Rightarrow> 8 word list \<Rightarrow> nat \<Rightarrow> 8 word list option \<times> nat" where
  "guid_loop E suffix [] ret n = (Some ret, n)"
| "guid_loop E suffix ((part, token) # rest) ret n =
     (case avb_str_concat AVB_PART_NAME_MAX_SIZE part suffix of
        None \<Rightarrow> (None, n)
      | Some part_name \<Rightarrow>
          (case get_unique_guid_for_partition (av_ops E) part_name of
             (io_ret, guid) \<Rightarrow>
               if io_ret \<noteq> AVB_IO_RESULT_OK then (None, n)
               else
                 case avb_replace (av_alloc E) n ret token guid of
                   (None, n') \<Rightarrow> (None, n')
                 | (Some ret', n') \<Rightarrow> guid_loop E suffix rest ret' n'))"

fun subst_loop :: "avb_env \<Rightarrow> (8 word list \<times> 8 word list) list \<Rightarrow> 8 word list \<Rightarrow> nat \<Rightarrow> 8 word list option \<times> nat" where
  "subst_loop E [] ret n = (Some ret, n)"
| "subst_loop E ((token, v) # rest) ret n =
     (case avb_replace (av_alloc E) n ret token v of
        (None, n') \<Rightarrow> (None, n')
      | (Some ret', n') \<Rightarrow> subst_loop E rest ret' n')"

definition avb_sub_cmdline ::
  "avb_env \<Rightarrow> nat \<Rightarrow> 8 word list \<Rightarrow> 8 word list \<Rightarrow> bool \<Rightarrow> (8 word list \<times> 8 word list) list \<Rightarrow> 8 word list option \<times> nat" where
  "avb_sub_cmdline E n cmd suffix using_boot_for_vbmeta substs =
     (case guid_loop E suffix
             [(ascii ''system'', ascii ''PARTUUID=$(ANDROID_SYSTEM_PARTUUID)''),
              (ascii ''boot'', ascii ''PARTUUID=$(ANDROID_BOOT_PARTUUID)''),
              (ascii (if using_boot_for_vbmeta then ''boot'' else ''vbmeta''), ascii ''PARTUUID=$(ANDROID_VBMETA_PARTUUID)'')] cmd n of
        (None, n') \<Rightarrow> (None, n')
      | (Some ret, n') \<Rightarrow> subst_loop E substs ret n')"

definition avb_add_root_digest_substitution ::
  "avb_env \<Rightarrow> 8 word list \<Rightarrow> 8 word list \<Rightarrow> avb_state \<Rightarrow> AvbSlotVerifyResult kres \<times> avb_state" where
  "avb_add_root_digest_substitution E part_name digest s =
     (if \<not> length part_name < unat AVB_PART_NAME_MAX_SIZE \<or> \<not> length digest \<le> AVB_SHA512_DIGEST_SIZE then (Inl PANIC, s)
      else if length (subst_list s) \<ge> AVB_MAX_NUM_CMDLINE_SUBST then (Inr AVB_SLOT_VERIFY_RESULT_ERROR_INVALID_METADATA, s)
      else
        let n = next_req s in
        case avb_strdupv (av_alloc E n) [ascii ''$(AVB_'', part_name, ascii ''_ROOT_DIGEST)''] of
          None \<Rightarrow> (Inr AVB_SLOT_VERIFY_RESULT_ERROR_OOM, s\<lparr>next_req := n + 1\<rparr>)
        | Some token \<Rightarrow>
            (case avb_bin2hex (av_alloc E (n + 1)) digest of
               None \<Rightarrow> (Inr AVB_SLOT_VERIFY_RESULT_ERROR_OOM, s\<lparr>next_req := n + 2\<rparr>)
             | Some v \<Rightarrow>
                 (Inr AVB_SLOT_VERIFY_RESULT_OK, s\<lparr>subst_list := subst_list s @ [(avb_uppercase token, v)], next_req := n + 2\<rparr>)))"

section \<open>Options\<close>

text \<open>The new command line of the slot data, and whether there was memory for it.\<close>

definition cmdline_append_option :: "avb_env \<Rightarrow> 8 word list \<Rightarrow> 8 word list \<Rightarrow> avb_state \<Rightarrow> bool \<times> avb_state" where
  "cmdline_append_option E key v s =
     (let old = (case cmdline (slot_data s) of None \<Rightarrow> [] | Some c \<Rightarrow> if length c > 0 then c @ [0x20] else []);
          s' = s\<lparr>next_req := next_req s + 1\<rparr>
      in if \<not> av_alloc E (next_req s) then (False, s')
         else (True, s'\<lparr>slot_data := (slot_data s)\<lparr>cmdline := Some (old @ key @ [0x3d] @ v)\<rparr>\<rparr>))"

definition cmdline_append_version :: "avb_env \<Rightarrow> 8 word list \<Rightarrow> 64 word \<Rightarrow> 64 word \<Rightarrow> avb_state \<Rightarrow> bool \<times> avb_state" where
  "cmdline_append_version E key major_version minor_version s =
     cmdline_append_option E key (uint64_to_base10 major_version @ [0x2e] @ uint64_to_base10 minor_version) s"

definition cmdline_append_uint64_base10 :: "avb_env \<Rightarrow> 8 word list \<Rightarrow> 64 word \<Rightarrow> avb_state \<Rightarrow> bool \<times> avb_state" where
  "cmdline_append_uint64_base10 E key v s = cmdline_append_option E key (uint64_to_base10 v) s"

definition cmdline_append_hex :: "avb_env \<Rightarrow> 8 word list \<Rightarrow> 8 word list \<Rightarrow> avb_state \<Rightarrow> bool \<times> avb_state" where
  "cmdline_append_hex E key data s =
     (let s' = s\<lparr>next_req := next_req s + 1\<rparr> in
      case avb_bin2hex (av_alloc E (next_req s)) data of
        None \<Rightarrow> (False, s')
      | Some hex_data \<Rightarrow> cmdline_append_option E key hex_data s')"

text \<open>A sequence of appends joined by \<^verbatim>\<open>||\<close>: the first that fails ends it.\<close>

fun append_all :: "(avb_state \<Rightarrow> bool \<times> avb_state) list \<Rightarrow> avb_state \<Rightarrow> bool \<times> avb_state" where
  "append_all [] s = (True, s)"
| "append_all (f # fs) s = (case f s of (ok, s') \<Rightarrow> if \<not> ok then (False, s') else append_all fs s')"

text \<open>The bytes of all images, with the 32 bits of each size an update takes.  The algorithm is one of an image whose header was accepted,
  so it is not greater than 6.\<close>

definition vbmeta_pieces :: "AvbVBMetaData list \<Rightarrow> 8 word list list" where
  "vbmeta_pieces imgs = map (\<lambda>v. load (vb_mem v) (vb_data v) (unat (ucast (vb_size v) :: 32 word))) imgs"

definition append_digest :: "avb_env \<Rightarrow> 32 word \<Rightarrow> avb_state \<Rightarrow> bool \<times> avb_state" where
  "append_digest E alg s =
     (let imgs = vbmeta_images (slot_data s);
          total_size = sum_list (map vb_size imgs);
          appends = (\<lambda>name digest.
            append_all [cmdline_append_option E (ascii ''androidboot.vbmeta.hash_alg'') name,
              cmdline_append_uint64_base10 E (ascii ''androidboot.vbmeta.size'') total_size,
              cmdline_append_hex E (ascii ''androidboot.vbmeta.digest'') digest] s)
      in if alg \<in> {0, 1, 2, 3} then
           appends (ascii ''sha256'') (ctx_buf (avb_sha256_final (foldl avb_sha256_update (avb_sha256_init (av_sha256 E)) (vbmeta_pieces imgs))))
         else if alg \<in> {4, 5, 6} then
           appends (ascii ''sha512'') (ctx_buf (avb_sha512_final (foldl avb_sha512_update (avb_sha512_init (av_sha512 E)) (vbmeta_pieces imgs))))
         else (True, s))"

text \<open>The values of \<^verbatim>\<open>verity_mode\<close> and \<^verbatim>\<open>dm_verity_mode\<close>.\<close>

definition verity_modes :: "AvbHashtreeErrorMode \<Rightarrow> 8 word list \<times> 8 word list" where
  "verity_modes mode =
     (case mode of
        AVB_HASHTREE_ERROR_MODE_RESTART_AND_INVALIDATE \<Rightarrow> (ascii ''enforcing'', ascii ''restart_on_corruption'')
      | AVB_HASHTREE_ERROR_MODE_RESTART \<Rightarrow> (ascii ''enforcing'', ascii ''restart_on_corruption'')
      | AVB_HASHTREE_ERROR_MODE_EIO \<Rightarrow> (ascii ''eio'', ascii ''ignore_zero_blocks'')
      | AVB_HASHTREE_ERROR_MODE_LOGGING \<Rightarrow> (ascii ''logging'', ascii ''ignore_corruption''))"

text \<open>The options for dm-verity, the last part of \<^verbatim>\<open>avb_append_options\<close>.  The command line is not null there: an option has been
  appended to it.\<close>

definition append_verity :: "avb_env \<Rightarrow> AvbVBMetaImageHeader \<Rightarrow> AvbHashtreeErrorMode \<Rightarrow> avb_state \<Rightarrow> bool \<times> avb_state" where
  "append_verity E toplevel_vbmeta mode s =
     (if vbmeta_flags toplevel_vbmeta AND AVB_VBMETA_IMAGE_FLAGS_HASHTREE_DISABLED \<noteq> 0
      then cmdline_append_option E (ascii ''androidboot.veritymode'') (ascii ''disabled'') s
      else
        case (if mode = AVB_HASHTREE_ERROR_MODE_RESTART_AND_INVALIDATE
              then cmdline_append_option E (ascii ''androidboot.vbmeta.invalidate_on_error'') (ascii ''yes'') s else (True, s)) of
          (ok, s1) \<Rightarrow>
            if \<not> ok then (False, s1)
            else
              case avb_replace (av_alloc E) (next_req s1) (the (cmdline (slot_data s1))) (ascii ''$(ANDROID_VERITY_MODE)'')
                     (snd (verity_modes mode)) of
                (new_ret, n) \<Rightarrow>
                  let s2 = s1\<lparr>slot_data := (slot_data s1)\<lparr>cmdline := new_ret\<rparr>, next_req := n\<rparr> in
                  if new_ret = None then (False, s2)
                  else cmdline_append_option E (ascii ''androidboot.veritymode'') (fst (verity_modes mode)) s2)"

definition avb_append_options ::
  "avb_env \<Rightarrow> AvbVBMetaImageHeader \<Rightarrow> 32 word \<Rightarrow> AvbHashtreeErrorMode \<Rightarrow> avb_state \<Rightarrow> AvbSlotVerifyResult \<times> avb_state" where
  "avb_append_options E toplevel_vbmeta alg mode s =
     (case append_all [cmdline_append_option E (ascii ''androidboot.vbmeta.device'') (ascii ''PARTUUID=$(ANDROID_VBMETA_PARTUUID)''),
             cmdline_append_version E (ascii ''androidboot.vbmeta.avb_version'') (ucast AVB_VERSION_MAJOR) (ucast AVB_VERSION_MINOR)] s of
        (ok, s1) \<Rightarrow>
          if \<not> ok then (AVB_SLOT_VERIFY_RESULT_ERROR_OOM, s1)
          else
            case read_is_device_unlocked (av_ops E) of
              (io_ret, unlocked) \<Rightarrow>
                if io_ret = AVB_IO_RESULT_ERROR_OOM then (AVB_SLOT_VERIFY_RESULT_ERROR_OOM, s1)
                else if io_ret \<noteq> AVB_IO_RESULT_OK then (AVB_SLOT_VERIFY_RESULT_ERROR_IO, s1)
                else
                  case append_all [cmdline_append_option E (ascii ''androidboot.vbmeta.device_state'')
                           (ascii (if unlocked then ''unlocked'' else ''locked'')),
                         append_digest E alg, append_verity E toplevel_vbmeta mode] s1 of
                    (ok', s2) \<Rightarrow> (if ok' then AVB_SLOT_VERIFY_RESULT_OK else AVB_SLOT_VERIFY_RESULT_ERROR_OOM, s2))"

end
