(* ===== verification/Avb_Slot.thy ===== *)
theory Avb_Slot
  imports Avb_Cmdline
begin

text \<open>
  The verification of a slot, \<^verbatim>\<open>lib/libavb/avb_slot_verify.c\<close>.  A function of the code that may end early is a step: it gives a value, or
  the way it ends, and the new state.  The ways to end are a return with a result (\<^verbatim>\<open>goto out\<close>), a failed assertion, a loop that does
  not return, and an access through a wild pointer.  The buffers of a verification do not overlap, so what one holds is not changed
  when another one is filled; memory is not given back in the model.
\<close>

unbundle bit_operations_syntax

section \<open>Steps\<close>

datatype avb_exit = Out AvbSlotVerifyResult | Stop halt | Hang | Fault

type_synonym 'a avb_step = "avb_state \<Rightarrow> (avb_exit + 'a) \<times> avb_state"

definition bind_step :: "'a avb_step \<Rightarrow> ('a \<Rightarrow> 'b avb_step) \<Rightarrow> 'b avb_step" where
  "bind_step f g s = (case f s of (Inl e, s') \<Rightarrow> (Inl e, s') | (Inr v, s') \<Rightarrow> g v s')"

definition give :: "'a \<Rightarrow> 'a avb_step" where
  "give v s = (Inr v, s)"

definition leave :: "avb_exit \<Rightarrow> 'a avb_step" where
  "leave e s = (Inl e, s)"

definition when_out :: "bool \<Rightarrow> AvbSlotVerifyResult \<Rightarrow> unit avb_step" where
  "when_out c r = (if c then leave (Out r) else give ())"

text \<open>A call of such a function: a return is a value for its caller.\<close>

definition call_step :: "AvbSlotVerifyResult avb_step \<Rightarrow> AvbSlotVerifyResult avb_step" where
  "call_step f s = (case f s of (Inl (Out r), s') \<Rightarrow> (Inr r, s') | res \<Rightarrow> res)"

definition new_req :: "avb_env \<Rightarrow> 64 word avb_step" where
  "new_req E s = (Inr (av_malloc E (next_req s)), s\<lparr>next_req := next_req s + 1\<rparr>)"

text \<open>The tests behind an operation of the platform.\<close>

definition check_io :: "AvbIOResult \<Rightarrow> AvbSlotVerifyResult \<Rightarrow> unit avb_step" where
  "check_io io_ret r =
     (if io_ret = AVB_IO_RESULT_ERROR_OOM then leave (Out AVB_SLOT_VERIFY_RESULT_ERROR_OOM)
      else if io_ret \<noteq> AVB_IO_RESULT_OK then leave (Out r) else give ())"

definition assert_step :: "bool \<Rightarrow> unit avb_step" where
  "assert_step c = (if c then give () else leave (Stop PANIC))"

section \<open>Memory and strings\<close>

definition poke :: "avb_mem \<Rightarrow> 64 word \<Rightarrow> 8 word list \<Rightarrow> avb_mem" where
  "poke m p bs = (\<lambda>a. let i = unat (a - p) in if i < length bs then bs ! i else m a)"

text \<open>The string in an array, and the comparison of an array with a literal.\<close>

definition avb_cstr :: "8 word list \<Rightarrow> 8 word list" where
  "avb_cstr bs = takeWhile (\<lambda>b. b \<noteq> 0) bs"

definition avb_strcmp_eq :: "8 word list \<Rightarrow> 8 word list \<Rightarrow> bool" where
  "avb_strcmp_eq bs lit \<longleftrightarrow> take (length lit + 1) bs = lit @ [0]"

text \<open>The string at an address; it does not end where there is no zero byte.\<close>

partial_function (option) c_string_at :: "avb_mem \<Rightarrow> 64 word \<Rightarrow> 8 word list option" where
  "c_string_at m p =
     (if m p = 0 then Some []
      else Option.bind (c_string_at m (p + 1)) (\<lambda>r. Some (m p # r)))"

section \<open>Results\<close>

definition MAX_NUMBER_OF_LOADED_PARTITIONS :: nat where "MAX_NUMBER_OF_LOADED_PARTITIONS = 32"
definition MAX_NUMBER_OF_VBMETA_IMAGES :: nat where "MAX_NUMBER_OF_VBMETA_IMAGES = 32"
definition VBMETA_MAX_SIZE :: "64 word" where "VBMETA_MAX_SIZE = 64 * 1024"
definition AVB_MAX_NUMBER_OF_ROLLBACK_INDEX_LOCATIONS :: nat where "AVB_MAX_NUMBER_OF_ROLLBACK_INDEX_LOCATIONS = 32"

fun result_should_continue :: "AvbSlotVerifyResult \<Rightarrow> bool" where
  "result_should_continue AVB_SLOT_VERIFY_RESULT_ERROR_OOM = False"
| "result_should_continue AVB_SLOT_VERIFY_RESULT_ERROR_IO = False"
| "result_should_continue AVB_SLOT_VERIFY_RESULT_ERROR_INVALID_METADATA = False"
| "result_should_continue AVB_SLOT_VERIFY_RESULT_ERROR_UNSUPPORTED_VERSION = False"
| "result_should_continue AVB_SLOT_VERIFY_RESULT_ERROR_INVALID_ARGUMENT = False"
| "result_should_continue AVB_SLOT_VERIFY_RESULT_OK = True"
| "result_should_continue AVB_SLOT_VERIFY_RESULT_ERROR_VERIFICATION = True"
| "result_should_continue AVB_SLOT_VERIFY_RESULT_ERROR_ROLLBACK_INDEX = True"
| "result_should_continue AVB_SLOT_VERIFY_RESULT_ERROR_PUBLIC_KEY_REJECTED = True"

section \<open>Partitions\<close>

text \<open>The image of a partition: its address, the memory it is read in, and whether it was there before.  The sizes of the build are 64
  bits wide, so the first test of the code always passes.\<close>

definition preloaded_partition :: "avb_env \<Rightarrow> 8 word list \<Rightarrow> 64 word \<Rightarrow> 64 word avb_step" where
  "preloaded_partition E part_name image_size =
     (case get_preloaded_partition (av_ops E) of
        None \<Rightarrow> give 0
      | Some get \<Rightarrow>
          (case get part_name image_size of
             (io_ret, image_buf, part_num_read) \<Rightarrow>
               bind_step (check_io io_ret AVB_SLOT_VERIFY_RESULT_ERROR_IO) (\<lambda>_.
               bind_step (when_out (image_buf \<noteq> 0 \<and> part_num_read \<noteq> image_size) AVB_SLOT_VERIFY_RESULT_ERROR_IO) (\<lambda>_.
               give image_buf))))"

definition load_full_partition :: "avb_env \<Rightarrow> 8 word list \<Rightarrow> 64 word \<Rightarrow> (64 word \<times> avb_mem \<times> bool) avb_step" where
  "load_full_partition E part_name image_size =
     bind_step (preloaded_partition E part_name image_size) (\<lambda>preloaded_buf.
     if preloaded_buf \<noteq> 0 then give (preloaded_buf, av_mem E, True)
     else
       bind_step (new_req E) (\<lambda>image_buf.
       bind_step (when_out (image_buf = 0) AVB_SLOT_VERIFY_RESULT_ERROR_OOM) (\<lambda>_.
       case read_from_partition (av_ops E) part_name 0 image_size of
         (io_ret, bs) \<Rightarrow>
           bind_step (check_io io_ret AVB_SLOT_VERIFY_RESULT_ERROR_IO) (\<lambda>_.
           bind_step (when_out (word_of_nat (length bs) \<noteq> image_size) AVB_SLOT_VERIFY_RESULT_ERROR_IO) (\<lambda>_.
           give (image_buf, poke (av_mem E) image_buf bs, False))))))"

definition AVB_NPV_PERSISTENT_DIGEST_PREFIX :: "8 word list" where
  "AVB_NPV_PERSISTENT_DIGEST_PREFIX = ascii ''avb.persistent_digest.''"

text \<open>The digest, and the result the function returns.\<close>

definition read_persistent_digest :: "avb_env \<Rightarrow> 8 word list \<Rightarrow> nat \<Rightarrow> (AvbSlotVerifyResult \<times> 8 word list) avb_step" where
  "read_persistent_digest E part_name expected_digest_size =
     (case read_persistent_value (av_ops E) of
        None \<Rightarrow> give (AVB_SLOT_VERIFY_RESULT_ERROR_INVALID_METADATA, [])
      | Some get \<Rightarrow>
          bind_step (new_req E) (\<lambda>a.
          give (case avb_strdupv (a \<noteq> 0) [AVB_NPV_PERSISTENT_DIGEST_PREFIX, part_name] of
                  None \<Rightarrow> (AVB_SLOT_VERIFY_RESULT_ERROR_OOM, [])
                | Some persistent_value_name \<Rightarrow>
                    (case get persistent_value_name (word_of_nat expected_digest_size) of
                       (io_ret, out_digest, stored_digest_size) \<Rightarrow>
                         (if io_ret = AVB_IO_RESULT_ERROR_OOM then AVB_SLOT_VERIFY_RESULT_ERROR_OOM
                          else if io_ret = AVB_IO_RESULT_ERROR_NO_SUCH_VALUE then AVB_SLOT_VERIFY_RESULT_ERROR_INVALID_METADATA
                          else if io_ret = AVB_IO_RESULT_ERROR_INVALID_VALUE_SIZE \<or> io_ret = AVB_IO_RESULT_ERROR_INSUFFICIENT_SPACE \<or>
                                  word_of_nat expected_digest_size \<noteq> stored_digest_size
                          then AVB_SLOT_VERIFY_RESULT_ERROR_INVALID_METADATA
                          else if io_ret \<noteq> AVB_IO_RESULT_OK then AVB_SLOT_VERIFY_RESULT_ERROR_IO
                          else AVB_SLOT_VERIFY_RESULT_OK, out_digest)))))"

section \<open>Hash descriptors\<close>

text \<open>The name of the partition, with or without the suffix of the slot.\<close>

definition hash_part_name :: "AvbHashDescriptor \<Rightarrow> 8 word list \<Rightarrow> 8 word list \<Rightarrow> 8 word list avb_step" where
  "hash_part_name hash_desc desc_partition_name suffix =
     (if hd_flags hash_desc AND AVB_HASH_DESCRIPTOR_FLAGS_DO_NOT_USE_AB \<noteq> 0 then
        bind_step (when_out (ucast (hd_partition_name_len hash_desc) \<ge> AVB_PART_NAME_MAX_SIZE) AVB_SLOT_VERIFY_RESULT_ERROR_INVALID_METADATA)
          (\<lambda>_. give desc_partition_name)
      else if hd_digest_len hash_desc = 0 \<and> length suffix \<noteq> 0 then leave (Out AVB_SLOT_VERIFY_RESULT_ERROR_INVALID_METADATA)
      else
        case avb_str_concat AVB_PART_NAME_MAX_SIZE desc_partition_name suffix of
          None \<Rightarrow> leave (Out AVB_SLOT_VERIFY_RESULT_ERROR_INVALID_METADATA)
        | Some part_name \<Rightarrow> give part_name)"

text \<open>The size that is loaded: the whole partition where verification errors are allowed.\<close>

definition hash_image_size :: "avb_env \<Rightarrow> bool \<Rightarrow> AvbHashDescriptor \<Rightarrow> 8 word list \<Rightarrow> 64 word avb_step" where
  "hash_image_size E allow hash_desc part_name =
     (if \<not> allow then give (hd_image_size hash_desc)
      else
        case get_size_of_partition (av_ops E) of
          None \<Rightarrow> give (hd_image_size hash_desc)
        | Some get \<Rightarrow>
            (case get part_name of
               (io_ret, image_size) \<Rightarrow> bind_step (check_io io_ret AVB_SLOT_VERIFY_RESULT_ERROR_IO) (\<lambda>_. give image_size)))"

text \<open>The digest over the salt and the image, of which an update takes the low 32 bits of the size.\<close>

definition hash_digest :: "avb_env \<Rightarrow> AvbHashDescriptor \<Rightarrow> 8 word list \<Rightarrow> avb_mem \<Rightarrow> 64 word \<Rightarrow> 8 word list option" where
  "hash_digest E hash_desc salt m image_buf =
     (let image = load m image_buf (unat (ucast (hd_image_size hash_desc) :: 32 word)) in
      if avb_strcmp_eq (hd_hash_algorithm hash_desc) (ascii ''sha256'') then
        Some (ctx_buf (avb_sha256_final (foldl avb_sha256_update (avb_sha256_init (av_sha256 E)) [salt, image])))
      else if avb_strcmp_eq (hd_hash_algorithm hash_desc) (ascii ''sha512'') then
        Some (ctx_buf (avb_sha512_final (foldl avb_sha512_update (avb_sha512_init (av_sha512 E)) [salt, image])))
      else None)"

text \<open>The comparison of the digest of a loaded image with the expected one: the result of the function.\<close>

definition hash_compare :: "avb_env \<Rightarrow> avb_mem \<Rightarrow> AvbHashDescriptor \<Rightarrow> 64 word \<Rightarrow> 8 word list \<Rightarrow> 8 word list \<Rightarrow> AvbSlotVerifyResult avb_step" where
  "hash_compare E m hash_desc desc_digest part_name digest =
     bind_step
       (if hd_digest_len hash_desc = 0 then
          bind_step (read_persistent_digest E part_name (length digest)) (\<lambda>(r, expected).
          bind_step (when_out (r \<noteq> AVB_SLOT_VERIFY_RESULT_OK) r) (\<lambda>_. give (length digest, expected)))
        else give (unat (hd_digest_len hash_desc), load m desc_digest (unat (hd_digest_len hash_desc))))
       (\<lambda>(expected_digest_len, expected_digest).
          give (if length digest \<noteq> expected_digest_len then AVB_SLOT_VERIFY_RESULT_ERROR_INVALID_METADATA
                else if avb_safe_memcmp digest expected_digest (length digest) \<noteq> 0 then AVB_SLOT_VERIFY_RESULT_ERROR_VERIFICATION
                else AVB_SLOT_VERIFY_RESULT_OK))"

text \<open>The code behind the label \<^verbatim>\<open>out\<close> for a loaded image: it is put into the slot data where the result lets the boot go on.\<close>

definition keep_partition ::
  "avb_env \<Rightarrow> AvbSlotVerifyResult \<Rightarrow> 8 word list \<Rightarrow> 64 word \<Rightarrow> 64 word \<times> avb_mem \<times> bool \<Rightarrow> AvbSlotVerifyResult avb_step" where
  "keep_partition E ret found image_size img s =
     (case img of
        (image_buf, m, image_preloaded) \<Rightarrow>
          if (ret = AVB_SLOT_VERIFY_RESULT_OK \<or> result_should_continue ret) then
            if length (loaded_partitions (slot_data s)) = MAX_NUMBER_OF_LOADED_PARTITIONS
            then (Inr AVB_SLOT_VERIFY_RESULT_ERROR_OOM, s)
            else
              (Inr ret, s\<lparr>next_req := next_req s + 1,
                 slot_data := (slot_data s)\<lparr>loaded_partitions := loaded_partitions (slot_data s) @
                   [\<lparr>pt_partition_name = avb_strdup (av_alloc E (next_req s)) found, pt_data = load m image_buf (unat image_size),
                     pt_data_size = image_size, pt_preloaded = image_preloaded\<rparr>]\<rparr>\<rparr>)
          else (Inr ret, s))"

definition load_and_verify_hash_partition ::
  "avb_env \<Rightarrow> 8 word list list \<Rightarrow> 8 word list \<Rightarrow> bool \<Rightarrow> avb_mem \<Rightarrow> 64 word \<Rightarrow> AvbSlotVerifyResult avb_step" where
  "load_and_verify_hash_partition E requested_partitions suffix allow m descriptor =
     call_step
       (case avb_hash_descriptor_validate_and_byteswap (load m descriptor AvbHashDescriptor_SIZE) of
          None \<Rightarrow> leave (Out AVB_SLOT_VERIFY_RESULT_ERROR_INVALID_METADATA)
        | Some hash_desc \<Rightarrow>
            let desc_partition_name = descriptor + word_of_nat AvbHashDescriptor_SIZE;
                name = load m desc_partition_name (unat (hd_partition_name_len hash_desc));
                desc_salt = desc_partition_name + ucast (hd_partition_name_len hash_desc);
                desc_digest = desc_salt + ucast (hd_salt_len hash_desc)
            in
            bind_step (when_out (\<not> avb_validate_utf8 name) AVB_SLOT_VERIFY_RESULT_ERROR_INVALID_METADATA) (\<lambda>_.
            case avb_strv_find_str requested_partitions name of
              None \<Rightarrow> give AVB_SLOT_VERIFY_RESULT_OK
            | Some found \<Rightarrow>
                bind_step (hash_part_name hash_desc name suffix) (\<lambda>part_name.
                bind_step (hash_image_size E allow hash_desc part_name) (\<lambda>image_size.
                bind_step (load_full_partition E part_name image_size) (\<lambda>img.
                case hash_digest E hash_desc (load m desc_salt (unat (hd_salt_len hash_desc))) (fst (snd img)) (fst img) of
                  None \<Rightarrow> keep_partition E AVB_SLOT_VERIFY_RESULT_ERROR_INVALID_METADATA found image_size img
                | Some digest \<Rightarrow>
                    bind_step (call_step (hash_compare E m hash_desc desc_digest part_name digest)) (\<lambda>ret.
                    keep_partition E ret found image_size img))))))"

section \<open>Partitions without verification\<close>

fun requested_loop :: "avb_env \<Rightarrow> (8 word list \<Rightarrow> AvbIOResult \<times> 64 word) \<Rightarrow> 8 word list \<Rightarrow> 8 word list list \<Rightarrow> AvbSlotVerifyResult avb_step" where
  "requested_loop E get suffix [] = give AVB_SLOT_VERIFY_RESULT_OK"
| "requested_loop E get suffix (name # rest) =
     (case avb_str_concat AVB_PART_NAME_MAX_SIZE name suffix of
        None \<Rightarrow> leave (Out AVB_SLOT_VERIFY_RESULT_ERROR_INVALID_METADATA)
      | Some part_name \<Rightarrow>
          (case get part_name of
             (io_ret, image_size) \<Rightarrow>
               bind_step (check_io io_ret AVB_SLOT_VERIFY_RESULT_ERROR_IO) (\<lambda>_.
               bind_step (load_full_partition E part_name image_size) (\<lambda>(image_buf, m, image_preloaded). \<lambda>s.
               if length (loaded_partitions (slot_data s)) = MAX_NUMBER_OF_LOADED_PARTITIONS
               then (Inl (Out AVB_SLOT_VERIFY_RESULT_ERROR_OOM), s)
               else
                 let add = (\<lambda>p. s\<lparr>next_req := next_req s + 1,
                       slot_data := (slot_data s)\<lparr>loaded_partitions := loaded_partitions (slot_data s) @ [p]\<rparr>\<rparr>)
                 in
                 case avb_strdup (av_alloc E (next_req s)) name of
                   None \<Rightarrow>
                     (Inl (Out AVB_SLOT_VERIFY_RESULT_ERROR_OOM),
                      add \<lparr>pt_partition_name = None, pt_data = [], pt_data_size = 0, pt_preloaded = False\<rparr>)
                 | Some copy \<Rightarrow>
                     requested_loop E get suffix rest
                       (add \<lparr>pt_partition_name = Some copy, pt_data = load m image_buf (unat image_size), pt_data_size = image_size,
                          pt_preloaded = image_preloaded\<rparr>)))))"

definition load_requested_partitions :: "avb_env \<Rightarrow> 8 word list list \<Rightarrow> 8 word list \<Rightarrow> AvbSlotVerifyResult avb_step" where
  "load_requested_partitions E requested_partitions suffix =
     call_step
       (case get_size_of_partition (av_ops E) of
          None \<Rightarrow> leave (Out AVB_SLOT_VERIFY_RESULT_ERROR_INVALID_ARGUMENT)
        | Some get \<Rightarrow> requested_loop E get suffix requested_partitions)"

end
