(* ===== verification/Avb_Slot_Verify.thy ===== *)
theory Avb_Slot_Verify
  imports Avb_Slot
begin

text \<open>
  The second half of \<^verbatim>\<open>lib/libavb/avb_slot_verify.c\<close>: loading and verifying a vbmeta image with all its descriptors, and the verification of
  a slot.  The function that loads a vbmeta image calls itself for the partition \<^verbatim>\<open>boot\<close> and for a chained partition; the calls are nested
  three deep at most, which is the depth of the recursion in the model.
\<close>

unbundle bit_operations_syntax

section \<open>Arguments\<close>

text \<open>The name of a partition is a literal, or the bytes at an address of the main image, where no zero byte need follow them.\<close>

datatype vb_name = Literal "8 word list" | In_Image avb_mem "64 word" nat

fun name_bytes :: "vb_name \<Rightarrow> 8 word list" where
  "name_bytes (Literal b) = b"
| "name_bytes (In_Image m p n) = load m p n"

fun name_is_vbmeta :: "vb_name \<Rightarrow> bool" where
  "name_is_vbmeta (Literal b) \<longleftrightarrow> b = ascii ''vbmeta''"
| "name_is_vbmeta (In_Image m p n) \<longleftrightarrow> avb_strcmp_eq (load m p 7) (ascii ''vbmeta'')"

text \<open>What a copy of the name holds, up to the zero byte; \<^const>\<open>None\<close> where there is none.\<close>

fun name_string :: "vb_name \<Rightarrow> 8 word list option" where
  "name_string (Literal b) = Some b"
| "name_string (In_Image m p n) = c_string_at m p"

record vbmeta_args =
  va_toplevel_flags :: "32 word"
  va_location :: "32 word"
  va_name :: vb_name
  va_public_key :: "8 word list option"
  va_out :: bool

definition is_main_vbmeta :: "vbmeta_args \<Rightarrow> bool" where
  "is_main_vbmeta args \<longleftrightarrow> va_location args = 0"

section \<open>Loading and checking an image\<close>

definition vbmeta_place :: "avb_env \<Rightarrow> vb_name \<Rightarrow> 8 word list \<Rightarrow> (64 word \<times> 64 word) avb_step" where
  "vbmeta_place E name full_partition_name =
     (if name_is_vbmeta name then give (0, VBMETA_MAX_SIZE)
      else
        case read_from_partition (av_ops E) full_partition_name (- word_of_nat AVB_FOOTER_SIZE) (word_of_nat AVB_FOOTER_SIZE) of
          (io_ret, footer_buf) \<Rightarrow>
            bind_step (check_io io_ret AVB_SLOT_VERIFY_RESULT_ERROR_IO) (\<lambda>_.
            bind_step (assert_step (length footer_buf = AVB_FOOTER_SIZE)) (\<lambda>_.
            case avb_footer_validate_and_byteswap footer_buf of
              None \<Rightarrow> leave (Out AVB_SLOT_VERIFY_RESULT_ERROR_INVALID_METADATA)
            | Some footer \<Rightarrow>
                bind_step (when_out (footer_vbmeta_size footer > VBMETA_MAX_SIZE) AVB_SLOT_VERIFY_RESULT_ERROR_INVALID_METADATA) (\<lambda>_.
                give (footer_vbmeta_offset footer, footer_vbmeta_size footer)))))"

text \<open>An error of the verification ends the function, or, where errors are allowed, is its result so far.\<close>

definition tolerate :: "bool \<Rightarrow> AvbSlotVerifyResult \<Rightarrow> AvbSlotVerifyResult avb_step" where
  "tolerate allow r = (if allow then give r else leave (Out r))"

definition vbmeta_switch :: "bool \<Rightarrow> AvbVBMetaVerifyResult \<times> 64 word \<times> 64 word \<Rightarrow> AvbSlotVerifyResult avb_step" where
  "vbmeta_switch allow v =
     (case v of
        (AVB_VBMETA_VERIFY_RESULT_OK, pk_data, pk_len) \<Rightarrow>
          bind_step (assert_step (pk_data \<noteq> 0 \<and> pk_len > 0)) (\<lambda>_. give AVB_SLOT_VERIFY_RESULT_OK)
      | (AVB_VBMETA_VERIFY_RESULT_OK_NOT_SIGNED, _) \<Rightarrow> tolerate allow AVB_SLOT_VERIFY_RESULT_ERROR_VERIFICATION
      | (AVB_VBMETA_VERIFY_RESULT_HASH_MISMATCH, _) \<Rightarrow> tolerate allow AVB_SLOT_VERIFY_RESULT_ERROR_VERIFICATION
      | (AVB_VBMETA_VERIFY_RESULT_SIGNATURE_MISMATCH, _) \<Rightarrow> tolerate allow AVB_SLOT_VERIFY_RESULT_ERROR_VERIFICATION
      | (AVB_VBMETA_VERIFY_RESULT_INVALID_VBMETA_HEADER, _) \<Rightarrow> leave (Out AVB_SLOT_VERIFY_RESULT_ERROR_INVALID_METADATA)
      | (AVB_VBMETA_VERIFY_RESULT_UNSUPPORTED_VERSION, _) \<Rightarrow> leave (Out AVB_SLOT_VERIFY_RESULT_ERROR_UNSUPPORTED_VERSION))"

definition check_public_key ::
  "avb_env \<Rightarrow> bool \<Rightarrow> vbmeta_args \<Rightarrow> AvbVBMetaImageHeader \<Rightarrow> avb_mem \<Rightarrow> 64 word \<Rightarrow> 64 word \<Rightarrow> 64 word \<Rightarrow> AvbSlotVerifyResult \<Rightarrow>
   AvbSlotVerifyResult avb_step" where
  "check_public_key E allow args h m vbmeta_buf pk_data pk_len ret =
     (if pk_data = 0 then give ret
      else
        case va_public_key args of
          Some expected \<Rightarrow>
            bind_step (assert_step (\<not> is_main_vbmeta args)) (\<lambda>_.
            if word_of_nat (length expected) \<noteq> pk_len \<or>
               avb_safe_memcmp expected (load m pk_data (unat pk_len)) (unat pk_len) \<noteq> 0
            then tolerate allow AVB_SLOT_VERIFY_RESULT_ERROR_PUBLIC_KEY_REJECTED else give ret)
        | None \<Rightarrow>
            let pk_metadata =
              (if public_key_metadata_size h > 0
               then Some (load m (vbmeta_buf + word_of_nat AVB_VBMETA_IMAGE_HEADER_SIZE + authentication_data_block_size h + public_key_metadata_offset h)
                           (unat (public_key_metadata_size h)))
               else None)
            in
            bind_step (assert_step (is_main_vbmeta args)) (\<lambda>_.
            case validate_vbmeta_public_key (av_ops E) (load m pk_data (unat pk_len)) pk_metadata of
              (io_ret, key_is_trusted) \<Rightarrow>
                bind_step (check_io io_ret AVB_SLOT_VERIFY_RESULT_ERROR_IO) (\<lambda>_.
                if \<not> key_is_trusted then tolerate allow AVB_SLOT_VERIFY_RESULT_ERROR_PUBLIC_KEY_REJECTED else give ret)))"

definition check_rollback :: "avb_env \<Rightarrow> bool \<Rightarrow> vbmeta_args \<Rightarrow> AvbVBMetaImageHeader \<Rightarrow> AvbSlotVerifyResult \<Rightarrow> AvbSlotVerifyResult avb_step" where
  "check_rollback E allow args h ret =
     (case read_rollback_index (av_ops E) (scast (va_location args)) of
        (io_ret, stored_rollback_index) \<Rightarrow>
          bind_step (check_io io_ret AVB_SLOT_VERIFY_RESULT_ERROR_IO) (\<lambda>_.
          if rollback_index h < stored_rollback_index then tolerate allow AVB_SLOT_VERIFY_RESULT_ERROR_ROLLBACK_INDEX else give ret))"

definition add_vbmeta_image ::
  "avb_env \<Rightarrow> vbmeta_args \<Rightarrow> AvbVBMetaImageHeader \<Rightarrow> avb_mem \<Rightarrow> 64 word \<Rightarrow> AvbVBMetaVerifyResult \<Rightarrow> unit avb_step" where
  "add_vbmeta_image E args h m vbmeta_buf vbmeta_ret s =
     (let imgs = vbmeta_images (slot_data s) in
      if (if is_main_vbmeta args then imgs \<noteq> [] else imgs = []) then (Inl (Stop PANIC), s)
      else if length imgs = MAX_NUMBER_OF_VBMETA_IMAGES then (Inl (Out AVB_SLOT_VERIFY_RESULT_ERROR_OOM), s)
      else
        case name_string (va_name args) of
          None \<Rightarrow> (Inl Hang, s)
        | Some str \<Rightarrow>
            (Inr (), s\<lparr>next_req := next_req s + 1,
               slot_data := (slot_data s)\<lparr>vbmeta_images := imgs @
                 [\<lparr>vb_partition_name = avb_strdup (av_alloc E (next_req s)) str, vb_mem = m, vb_data = vbmeta_buf,
                   vb_size = word_of_nat AVB_VBMETA_IMAGE_HEADER_SIZE + authentication_data_block_size h + auxiliary_data_block_size h,
                   vb_verify_result = vbmeta_ret\<rparr>]\<rparr>\<rparr>))"

section \<open>Descriptors\<close>

definition hash_case ::
  "avb_env \<Rightarrow> 8 word list list \<Rightarrow> 8 word list \<Rightarrow> bool \<Rightarrow> avb_mem \<Rightarrow> 64 word \<Rightarrow> AvbSlotVerifyResult \<Rightarrow> AvbSlotVerifyResult avb_step" where
  "hash_case E requested suffix allow m p ret =
     bind_step (load_and_verify_hash_partition E requested suffix allow m p) (\<lambda>sub_ret.
     if sub_ret \<noteq> AVB_SLOT_VERIFY_RESULT_OK then
       if \<not> allow \<or> \<not> result_should_continue sub_ret then leave (Out sub_ret) else give sub_ret
     else give ret)"

text \<open>The recursive call is an argument.\<close>

definition chain_case ::
  "(vbmeta_args \<Rightarrow> AvbSlotVerifyResult avb_step) \<Rightarrow> vbmeta_args \<Rightarrow> 32 word \<Rightarrow> avb_mem \<Rightarrow> 64 word \<Rightarrow> AvbSlotVerifyResult \<Rightarrow>
   AvbSlotVerifyResult avb_step" where
  "chain_case rec args toplevel_flags m p ret =
     bind_step (when_out (\<not> is_main_vbmeta args) AVB_SLOT_VERIFY_RESULT_ERROR_INVALID_METADATA) (\<lambda>_.
     case avb_chain_partition_descriptor_validate_and_byteswap (load m p AvbChainPartitionDescriptor_SIZE) of
       None \<Rightarrow> leave (Out AVB_SLOT_VERIFY_RESULT_ERROR_INVALID_METADATA)
     | Some chain_desc \<Rightarrow>
         bind_step (when_out (cd_rollback_index_location chain_desc = 0) AVB_SLOT_VERIFY_RESULT_ERROR_INVALID_METADATA) (\<lambda>_.
         let chain_partition_name = p + word_of_nat AvbChainPartitionDescriptor_SIZE;
             chain_public_key = chain_partition_name + ucast (cd_partition_name_len chain_desc)
         in
         bind_step (rec \<lparr>va_toplevel_flags = toplevel_flags, va_location = cd_rollback_index_location chain_desc,
                      va_name = In_Image m chain_partition_name (unat (cd_partition_name_len chain_desc)),
                      va_public_key = Some (load m chain_public_key (unat (cd_public_key_len chain_desc))), va_out = False\<rparr>) (\<lambda>sub_ret.
         if sub_ret \<noteq> AVB_SLOT_VERIFY_RESULT_OK then
           if \<not> result_should_continue sub_ret then leave (Out sub_ret) else give sub_ret
         else give ret)))"

definition AVB_KERNEL_CMDLINE_FLAGS_USE_ONLY_IF_HASHTREE_NOT_DISABLED :: "32 word" where
  "AVB_KERNEL_CMDLINE_FLAGS_USE_ONLY_IF_HASHTREE_NOT_DISABLED = 1"
definition AVB_KERNEL_CMDLINE_FLAGS_USE_ONLY_IF_HASHTREE_DISABLED :: "32 word" where
  "AVB_KERNEL_CMDLINE_FLAGS_USE_ONLY_IF_HASHTREE_DISABLED = 2"

definition apply_cmdline :: "32 word \<Rightarrow> 32 word \<Rightarrow> bool" where
  "apply_cmdline toplevel_flags desc_flags =
     (if toplevel_flags AND AVB_VBMETA_IMAGE_FLAGS_HASHTREE_DISABLED \<noteq> 0
      then desc_flags AND AVB_KERNEL_CMDLINE_FLAGS_USE_ONLY_IF_HASHTREE_NOT_DISABLED = 0
      else desc_flags AND AVB_KERNEL_CMDLINE_FLAGS_USE_ONLY_IF_HASHTREE_DISABLED = 0)"

definition cmdline_case :: "avb_env \<Rightarrow> 32 word \<Rightarrow> avb_mem \<Rightarrow> 64 word \<Rightarrow> AvbSlotVerifyResult \<Rightarrow> AvbSlotVerifyResult avb_step" where
  "cmdline_case E toplevel_flags m p ret =
     (case avb_kernel_cmdline_descriptor_validate_and_byteswap (load m p AvbKernelCmdlineDescriptor_SIZE) of
        None \<Rightarrow> leave (Out AVB_SLOT_VERIFY_RESULT_ERROR_INVALID_METADATA)
      | Some kc \<Rightarrow>
          let kernel_cmdline = load m (p + word_of_nat AvbKernelCmdlineDescriptor_SIZE) (unat (kc_kernel_cmdline_length kc)) in
          bind_step (when_out (\<not> avb_validate_utf8 kernel_cmdline) AVB_SLOT_VERIFY_RESULT_ERROR_INVALID_METADATA) (\<lambda>_.
          if \<not> apply_cmdline toplevel_flags (kc_flags kc) then give ret
          else
            bind_step (new_req E) (\<lambda>a.
            bind_step (when_out (a = 0) AVB_SLOT_VERIFY_RESULT_ERROR_OOM) (\<lambda>_. \<lambda>s.
            (Inr ret, s\<lparr>slot_data := (slot_data s)\<lparr>cmdline := Some
               (case cmdline (slot_data s) of
                  None \<Rightarrow> avb_cstr kernel_cmdline
                | Some c \<Rightarrow> c @ [0x20] @ avb_cstr kernel_cmdline)\<rparr>\<rparr>)))))"

definition AVB_SHA1_DIGEST_SIZE :: nat where "AVB_SHA1_DIGEST_SIZE = 20"

definition hashtree_digest_len :: "8 word list \<Rightarrow> nat option" where
  "hashtree_digest_len alg =
     (if avb_strcmp_eq alg (ascii ''sha1'') then Some AVB_SHA1_DIGEST_SIZE
      else if avb_strcmp_eq alg (ascii ''sha256'') then Some AVB_SHA256_DIGEST_SIZE
      else if avb_strcmp_eq alg (ascii ''sha512'') then Some AVB_SHA512_DIGEST_SIZE
      else None)"

definition lift_kres :: "(avb_state \<Rightarrow> 'a kres \<times> avb_state) \<Rightarrow> 'a avb_step" where
  "lift_kres f s = (case f s of (Inl h, s') \<Rightarrow> (Inl (Stop h), s') | (Inr v, s') \<Rightarrow> (Inr v, s'))"

definition hashtree_case ::
  "avb_env \<Rightarrow> 8 word list \<Rightarrow> vbmeta_args \<Rightarrow> avb_mem \<Rightarrow> 64 word \<Rightarrow> AvbSlotVerifyResult \<Rightarrow> AvbSlotVerifyResult avb_step" where
  "hashtree_case E suffix args m p ret =
     (case avb_hashtree_descriptor_validate_and_byteswap (load m p AvbHashtreeDescriptor_SIZE) of
        None \<Rightarrow> leave (Out AVB_SLOT_VERIFY_RESULT_ERROR_INVALID_METADATA)
      | Some ht \<Rightarrow>
          if ht_root_digest_len ht \<noteq> 0 then give ret
          else
            let name = load m (p + word_of_nat AvbHashtreeDescriptor_SIZE) (unat (ht_partition_name_len ht)); part_name = avb_cstr name in
            bind_step (when_out (\<not> avb_validate_utf8 name) AVB_SLOT_VERIFY_RESULT_ERROR_INVALID_METADATA) (\<lambda>_.
            bind_step (when_out (ht_flags ht AND AVB_HASHTREE_DESCRIPTOR_FLAGS_DO_NOT_USE_AB = 0 \<and> length suffix \<noteq> 0)
              AVB_SLOT_VERIFY_RESULT_ERROR_INVALID_METADATA) (\<lambda>_.
            bind_step (when_out (ucast (ht_partition_name_len ht) \<ge> AVB_PART_NAME_MAX_SIZE)
              AVB_SLOT_VERIFY_RESULT_ERROR_INVALID_METADATA) (\<lambda>_.
            case hashtree_digest_len (ht_hash_algorithm ht) of
              None \<Rightarrow> leave (Out AVB_SLOT_VERIFY_RESULT_ERROR_INVALID_METADATA)
            | Some digest_len \<Rightarrow>
                bind_step (read_persistent_digest E part_name digest_len) (\<lambda>(ret1, digest_buf).
                bind_step (when_out (ret1 \<noteq> AVB_SLOT_VERIFY_RESULT_OK) ret1) (\<lambda>_.
                if \<not> va_out args then give ret1
                else
                  bind_step (lift_kres (avb_add_root_digest_substitution E part_name (take digest_len digest_buf))) (\<lambda>ret2.
                  bind_step (when_out (ret2 \<noteq> AVB_SLOT_VERIFY_RESULT_OK) ret2) (\<lambda>_. give ret2))))))))"

definition descriptor_case ::
  "(vbmeta_args \<Rightarrow> AvbSlotVerifyResult avb_step) \<Rightarrow> avb_env \<Rightarrow> 8 word list list \<Rightarrow> 8 word list \<Rightarrow> bool \<Rightarrow> vbmeta_args \<Rightarrow> 32 word \<Rightarrow>
   avb_mem \<Rightarrow> 64 word \<Rightarrow> AvbSlotVerifyResult \<Rightarrow> AvbSlotVerifyResult avb_step" where
  "descriptor_case rec E requested suffix allow args toplevel_flags m p ret =
     (case avb_descriptor_validate_and_byteswap (load m p 16) of
        None \<Rightarrow> leave (Out AVB_SLOT_VERIFY_RESULT_ERROR_INVALID_METADATA)
      | Some desc \<Rightarrow>
          if desc_tag desc = AVB_DESCRIPTOR_TAG_HASH then hash_case E requested suffix allow m p ret
          else if desc_tag desc = AVB_DESCRIPTOR_TAG_CHAIN_PARTITION then chain_case rec args toplevel_flags m p ret
          else if desc_tag desc = AVB_DESCRIPTOR_TAG_KERNEL_CMDLINE then cmdline_case E toplevel_flags m p ret
          else if desc_tag desc = AVB_DESCRIPTOR_TAG_HASHTREE then hashtree_case E suffix args m p ret
          else give ret)"

fun descriptor_loop ::
  "(vbmeta_args \<Rightarrow> AvbSlotVerifyResult avb_step) \<Rightarrow> avb_env \<Rightarrow> 8 word list list \<Rightarrow> 8 word list \<Rightarrow> bool \<Rightarrow> vbmeta_args \<Rightarrow> 32 word \<Rightarrow>
   avb_mem \<Rightarrow> 64 word list \<Rightarrow> AvbSlotVerifyResult \<Rightarrow> AvbSlotVerifyResult avb_step" where
  "descriptor_loop rec E requested suffix allow args toplevel_flags m [] ret = give ret"
| "descriptor_loop rec E requested suffix allow args toplevel_flags m (p # ps) ret =
     bind_step (descriptor_case rec E requested suffix allow args toplevel_flags m p ret)
       (\<lambda>ret'. descriptor_loop rec E requested suffix allow args toplevel_flags m ps ret')"

section \<open>A vbmeta image\<close>

text \<open>All descriptors of an image.  Where the array of descriptors cannot be allocated, their number is what the stack holds: the loop is
  not entered for 0, and else reads through the null pointer.\<close>

definition vbmeta_descriptors ::
  "(vbmeta_args \<Rightarrow> AvbSlotVerifyResult avb_step) \<Rightarrow> avb_env \<Rightarrow> 8 word list list \<Rightarrow> 8 word list \<Rightarrow> bool \<Rightarrow> vbmeta_args \<Rightarrow> 32 word \<Rightarrow>
   avb_mem \<Rightarrow> 64 word \<Rightarrow> 64 word \<Rightarrow> AvbSlotVerifyResult \<Rightarrow> AvbSlotVerifyResult avb_step" where
  "vbmeta_descriptors rec E requested suffix allow args toplevel_flags m vbmeta_buf vbmeta_num_read ret =
     bind_step (new_req E) (\<lambda>a.
     case avb_descriptor_get_all (a \<noteq> 0) m vbmeta_buf vbmeta_num_read of
       None \<Rightarrow> leave Hang
     | Some (Inl h) \<Rightarrow> leave (Stop h)
     | Some (Inr None) \<Rightarrow> if av_stack E = 0 then give ret else leave Fault
     | Some (Inr (Some descriptors)) \<Rightarrow> descriptor_loop rec E requested suffix allow args toplevel_flags m descriptors ret)"

text \<open>The rollback index of the image is stored at its location; the location is a signed number there, and one below 0 is not
  rejected.\<close>

definition store_rollback :: "vbmeta_args \<Rightarrow> AvbVBMetaImageHeader \<Rightarrow> unit avb_step" where
  "store_rollback args h s =
     (let location = sint (va_location args) in
      if location \<ge> int AVB_MAX_NUMBER_OF_ROLLBACK_INDEX_LOCATIONS then (Inl (Out AVB_SLOT_VERIFY_RESULT_ERROR_INVALID_METADATA), s)
      else if location < 0 then (Inl Fault, s)
      else
        (Inr (), s\<lparr>slot_data := (slot_data s)\<lparr>rollback_indexes := (rollback_indexes (slot_data s))[nat location := rollback_index h]\<rparr>,
           out_algorithm_type := (if va_out args then algorithm_type h else out_algorithm_type s)\<rparr>))"

text \<open>The function behind the verification of the image in its buffer, whose result is an argument.\<close>

definition accept_vbmeta ::
  "(vbmeta_args \<Rightarrow> AvbSlotVerifyResult avb_step) \<Rightarrow> avb_env \<Rightarrow> 8 word list list \<Rightarrow> 8 word list \<Rightarrow> bool \<Rightarrow> vbmeta_args \<Rightarrow>
   avb_mem \<Rightarrow> 64 word \<Rightarrow> 64 word \<Rightarrow> AvbVBMetaVerifyResult \<times> 64 word \<times> 64 word \<Rightarrow> AvbSlotVerifyResult avb_step" where
  "accept_vbmeta rec E requested suffix allow args m vbmeta_buf vbmeta_num_read v =
     bind_step (vbmeta_switch allow v) (\<lambda>ret1.
     let h = avb_vbmeta_image_header_to_host_byte_order (load m vbmeta_buf AVB_VBMETA_IMAGE_HEADER_SIZE);
         toplevel_flags = (if is_main_vbmeta args then vbmeta_flags h else va_toplevel_flags args)
     in
     bind_step (when_out (\<not> is_main_vbmeta args \<and> vbmeta_flags h \<noteq> 0) AVB_SLOT_VERIFY_RESULT_ERROR_INVALID_METADATA) (\<lambda>_.
     bind_step (check_public_key E allow args h m vbmeta_buf (fst (snd v)) (snd (snd v)) ret1) (\<lambda>ret2.
     bind_step (check_rollback E allow args h ret2) (\<lambda>ret3.
     bind_step (add_vbmeta_image E args h m vbmeta_buf (fst v)) (\<lambda>_.
     if vbmeta_flags h AND AVB_VBMETA_IMAGE_FLAGS_VERIFICATION_DISABLED \<noteq> 0 then
       bind_step (load_requested_partitions E requested suffix) (\<lambda>sub_ret.
       give (if sub_ret \<noteq> AVB_SLOT_VERIFY_RESULT_OK then sub_ret else ret3))
     else
       bind_step (vbmeta_descriptors rec E requested suffix allow args toplevel_flags m vbmeta_buf vbmeta_num_read ret3) (\<lambda>ret4.
       bind_step (store_rollback args h) (\<lambda>_. give ret4)))))))"

text \<open>The verification makes five requests for memory at most.\<close>

definition process_vbmeta ::
  "(vbmeta_args \<Rightarrow> AvbSlotVerifyResult avb_step) \<Rightarrow> avb_env \<Rightarrow> 8 word list list \<Rightarrow> 8 word list \<Rightarrow> bool \<Rightarrow> vbmeta_args \<Rightarrow>
   avb_mem \<Rightarrow> 64 word \<Rightarrow> 64 word \<Rightarrow> AvbSlotVerifyResult avb_step" where
  "process_vbmeta rec E requested suffix allow args m vbmeta_buf vbmeta_num_read s =
     accept_vbmeta rec E requested suffix allow args m vbmeta_buf vbmeta_num_read
       (avb_vbmeta_image_verify (\<lambda>i. av_alloc E (next_req s + i)) (av_sha256 E) (av_sha512 E) m vbmeta_buf vbmeta_num_read)
       (s\<lparr>next_req := next_req s + 5\<rparr>)"

definition vbmeta_body ::
  "(vbmeta_args \<Rightarrow> AvbSlotVerifyResult avb_step) \<Rightarrow> avb_env \<Rightarrow> 8 word list list \<Rightarrow> 8 word list \<Rightarrow> bool \<Rightarrow> vbmeta_args \<Rightarrow>
   AvbSlotVerifyResult avb_step" where
  "vbmeta_body rec E requested suffix allow args =
     call_step
       (bind_step (when_out (\<not> avb_validate_utf8 (name_bytes (va_name args))) AVB_SLOT_VERIFY_RESULT_ERROR_INVALID_METADATA) (\<lambda>_.
        case avb_str_concat AVB_PART_NAME_MAX_SIZE (name_bytes (va_name args)) suffix of
          None \<Rightarrow> leave (Out AVB_SLOT_VERIFY_RESULT_ERROR_INVALID_METADATA)
        | Some full_name \<Rightarrow>
            let full_partition_name = avb_cstr full_name in
            bind_step (vbmeta_place E (va_name args) full_partition_name) (\<lambda>(vbmeta_offset, vbmeta_size).
            bind_step (new_req E) (\<lambda>vbmeta_buf.
            bind_step (when_out (vbmeta_buf = 0) AVB_SLOT_VERIFY_RESULT_ERROR_OOM) (\<lambda>_.
            case read_from_partition (av_ops E) full_partition_name vbmeta_offset vbmeta_size of
              (io_ret, bs) \<Rightarrow>
                if is_main_vbmeta args \<and> io_ret = AVB_IO_RESULT_ERROR_NO_SUCH_PARTITION \<and> name_is_vbmeta (va_name args) then
                  rec \<lparr>va_toplevel_flags = 0, va_location = 0, va_name = Literal (ascii ''boot''), va_public_key = None, va_out = va_out args\<rparr>
                else
                  bind_step (check_io io_ret AVB_SLOT_VERIFY_RESULT_ERROR_IO) (\<lambda>_.
                  bind_step (assert_step (length bs \<le> unat vbmeta_size)) (\<lambda>_.
                  process_vbmeta rec E requested suffix allow args (poke (av_mem E) vbmeta_buf bs) vbmeta_buf (word_of_nat (length bs)))))))))"

primrec vbmeta_depth ::
  "nat \<Rightarrow> avb_env \<Rightarrow> 8 word list list \<Rightarrow> 8 word list \<Rightarrow> bool \<Rightarrow> vbmeta_args \<Rightarrow> AvbSlotVerifyResult avb_step" where
  "vbmeta_depth 0 E requested suffix allow args = leave (Stop BUDGET)"
| "vbmeta_depth (Suc d) E requested suffix allow args = vbmeta_body (vbmeta_depth d E requested suffix allow) E requested suffix allow args"

definition load_and_verify_vbmeta ::
  "avb_env \<Rightarrow> 8 word list list \<Rightarrow> 8 word list \<Rightarrow> bool \<Rightarrow> vbmeta_args \<Rightarrow> AvbSlotVerifyResult avb_step" where
  "load_and_verify_vbmeta E requested suffix allow args = vbmeta_depth 3 E requested suffix allow args"

section \<open>A slot\<close>

definition main_args :: vbmeta_args where
  "main_args = \<lparr>va_toplevel_flags = 0, va_location = 0, va_name = Literal (ascii ''vbmeta''), va_public_key = None, va_out = True\<rparr>"

definition empty_slot :: AvbSlotVerifyData where
  "empty_slot = \<lparr>ab_suffix = None, vbmeta_images = [], loaded_partitions = [], cmdline = None,
     rollback_indexes = replicate AVB_MAX_NUMBER_OF_ROLLBACK_INDEX_LOCATIONS 0\<rparr>"

definition set_cmdline :: "8 word list option \<Rightarrow> unit avb_step" where
  "set_cmdline c s = (Inr (), s\<lparr>slot_data := (slot_data s)\<lparr>cmdline := c\<rparr>\<rparr>)"

text \<open>The options of the kernel: none but the root device where verification is disabled.\<close>

definition slot_options :: "avb_env \<Rightarrow> AvbVBMetaImageHeader \<Rightarrow> AvbHashtreeErrorMode \<Rightarrow> unit avb_step" where
  "slot_options E toplevel_vbmeta mode =
     (if vbmeta_flags toplevel_vbmeta AND AVB_VBMETA_IMAGE_FLAGS_VERIFICATION_DISABLED \<noteq> 0 then
        (\<lambda>s. bind_step (assert_step (cmdline (slot_data s) = None)) (\<lambda>_.
        bind_step (new_req E) (\<lambda>a.
        bind_step (when_out (a = 0) AVB_SLOT_VERIFY_RESULT_ERROR_OOM) (\<lambda>_.
        set_cmdline (Some (ascii ''root=PARTUUID=$(ANDROID_SYSTEM_PARTUUID)''))))) s)
      else
        (\<lambda>s. case avb_append_options E toplevel_vbmeta (out_algorithm_type s) mode s of
               (sub_ret, s') \<Rightarrow> when_out (sub_ret \<noteq> AVB_SLOT_VERIFY_RESULT_OK) sub_ret s'))"

text \<open>The part of \<^verbatim>\<open>avb_slot_verify\<close> on the command line.\<close>

definition slot_cmdline :: "avb_env \<Rightarrow> 8 word list \<Rightarrow> AvbHashtreeErrorMode \<Rightarrow> unit avb_step" where
  "slot_cmdline E suffix mode s =
     (case vbmeta_images (slot_data s) of
        [] \<Rightarrow> (Inl Fault, s)
      | v # _ \<Rightarrow>
          (case vb_partition_name v of
             None \<Rightarrow> (Inl Fault, s)
           | Some name \<Rightarrow>
               let using_boot_for_vbmeta = (name \<noteq> ascii ''vbmeta'');
                   toplevel_vbmeta = avb_vbmeta_image_header_to_host_byte_order (load (vb_mem v) (vb_data v) AVB_VBMETA_IMAGE_HEADER_SIZE)
               in
               bind_step (assert_step (name = ascii ''vbmeta'' \<or> name = ascii ''boot'')) (\<lambda>_.
               bind_step (new_req E) (\<lambda>a.
               bind_step (when_out (a = 0) AVB_SLOT_VERIFY_RESULT_ERROR_OOM) (\<lambda>_.
               bind_step (\<lambda>s. (Inr (), s\<lparr>slot_data := (slot_data s)\<lparr>ab_suffix := Some suffix\<rparr>\<rparr>)) (\<lambda>_.
               bind_step (slot_options E toplevel_vbmeta mode) (\<lambda>_. \<lambda>s.
               case cmdline (slot_data s) of
                 None \<Rightarrow> (Inr (), s)
               | Some c \<Rightarrow>
                   (case avb_sub_cmdline E (next_req s) c suffix using_boot_for_vbmeta (subst_list s) of
                      (None, n) \<Rightarrow> (Inl (Out AVB_SLOT_VERIFY_RESULT_ERROR_OOM), s\<lparr>next_req := n\<rparr>)
                    | (Some new_cmdline, n) \<Rightarrow> set_cmdline (Some new_cmdline) (s\<lparr>next_req := n\<rparr>))))))) s))"

text \<open>The result with the data of the slot, where the caller is given them.  The four requests at the start are for the slot data, its
  two arrays and the list of substitutions.\<close>

definition avb_slot_verify ::
  "avb_env \<Rightarrow> 8 word list list \<Rightarrow> 8 word list \<Rightarrow> bool \<Rightarrow> AvbHashtreeErrorMode \<Rightarrow>
   avb_exit + AvbSlotVerifyResult \<times> AvbSlotVerifyData option" where
  "avb_slot_verify E requested suffix allow mode =
     (if mode = AVB_HASHTREE_ERROR_MODE_LOGGING \<and> \<not> allow then Inr (AVB_SLOT_VERIFY_RESULT_ERROR_INVALID_ARGUMENT, None)
      else if \<not> av_alloc E 0 \<or> \<not> av_alloc E 1 \<or> \<not> av_alloc E 2 \<or> \<not> av_alloc E 3 then Inr (AVB_SLOT_VERIFY_RESULT_ERROR_OOM, None)
      else
        case load_and_verify_vbmeta E requested suffix allow main_args
               \<lparr>slot_data = empty_slot, next_req = 4, subst_list = [], out_algorithm_type = 0\<rparr> of
          (Inl e, _) \<Rightarrow> Inl e
        | (Inr ret, s) \<Rightarrow>
            if \<not> allow \<and> ret \<noteq> AVB_SLOT_VERIFY_RESULT_OK then Inr (ret, None)
            else if \<not> result_should_continue ret then Inr (ret, None)
            else
              case slot_cmdline E suffix mode s of
                (Inl (Out r), _) \<Rightarrow> Inr (r, None)
              | (Inl e, _) \<Rightarrow> Inl e
              | (Inr _, s') \<Rightarrow> Inr (ret, Some (slot_data s')))"

end
