(* ===== verification/Avb_Descriptor_Facts.thy ===== *)
theory Avb_Descriptor_Facts
  imports Avb_Descriptor Avb_Vbmeta_Facts
begin

text \<open>
  When the loop over the descriptors of an image returns and when it does not, and where the descriptors it visits lie.
\<close>

unbundle bit_operations_syntax

section \<open>Sizes\<close>

lemma add_sizes:
  "add_sizes x xs = (if unat x + (\<Sum>y\<leftarrow>xs. unat y) < 2 ^ 64 then Some (x + sum_list xs) else None)"
proof (induction xs arbitrary: x)
  case Nil
  then show ?case using u64 [of x] by simp
next
  case (Cons y ys)
  have "avb_safe_add_to x y = (x + y, unat x + unat y < 2 ^ 64)"
    using safe_add_to(1) [of x y] by (simp add: avb_safe_add_to_def Let_def)
  then show ?case using Cons [of "x + y"] by (auto simp: unat_word_ariths add.assoc)
qed

lemma unat_sum_list: "unat x + (\<Sum>y\<leftarrow>xs. unat y) < 2 ^ 64 \<Longrightarrow> unat ((x :: 64 word) + sum_list xs) = unat x + (\<Sum>y\<leftarrow>xs. unat y)"
proof (induction xs arbitrary: x)
  case (Cons y ys)
  have "unat (x + y) = unat x + unat y" using Cons.prems by (simp add: unat_word_ariths)
  then show ?case using Cons.IH [of "x + y"] Cons.prems by (simp add: add.assoc)
qed simp

lemma payload_fits: "payload_fits x xs d \<longleftrightarrow> unat x + (\<Sum>y\<leftarrow>xs. unat y) \<le> unat (num_bytes_following d)"
  using u64 [of "num_bytes_following d"] unat_sum_list [of x xs] by (auto simp: payload_fits_def add_sizes word_less_nat_alt)

section \<open>The loop returns\<close>

definition desc_total :: "avb_mem \<Rightarrow> 64 word \<Rightarrow> 64 word" where
  "desc_total m p = 16 + avb_be64toh (load m (p + 8) 8)"

text \<open>A descriptor that ends behind its start and within half of the address space.\<close>

definition sane_descriptor :: "avb_mem \<Rightarrow> 64 word \<Rightarrow> bool" where
  "sane_descriptor m p \<longleftrightarrow> unat (avb_be64toh (load m (p + 8) 8)) < 2 ^ 63"

lemma sane_total: "sane_descriptor m p \<Longrightarrow> unat (desc_total m p) = 16 + unat (avb_be64toh (load m (p + 8) 8))"
  by (simp add: sane_descriptor_def desc_total_def unat_word_ariths)

lemma forward:
  assumes "ds \<le> p" "p < de" "unat de - unat ds < 2 ^ 62" "sane_descriptor m p" "ds \<le> desc_total m p + p" "desc_total m p + p \<le> de"
  shows "p < p + desc_total m p" "unat (p + desc_total m p) = unat p + unat (desc_total m p)"
proof -
  have t: "unat (desc_total m p) < 2 ^ 63 + 16" "16 \<le> unat (desc_total m p)"
    using assms(4) sane_total [OF assms(4)] by (simp_all add: sane_descriptor_def)
  have o: "unat ds \<le> unat p" "unat p < unat de" "unat ds \<le> unat (desc_total m p + p)"
    using assms by (simp_all add: word_le_nat_alt word_less_nat_alt)
  have "unat p + unat (desc_total m p) < 2 ^ 64"
  proof (rule ccontr)
    assume over: "\<not> ?thesis"
    then have "unat (desc_total m p + p) = unat p + unat (desc_total m p) - 2 ^ 64"
      using u64 [of p] u64 [of "desc_total m p"] le_mod_geq [of "2 ^ 64" "unat (desc_total m p) + unat p"] by (simp add: unat_word_ariths)
    then have "unat (desc_total m p + p) + 2 ^ 64 = unat p + unat (desc_total m p)" using over by simp
    moreover have "unat de < unat ds + 2 ^ 62" using assms(3) by linarith
    ultimately show False using o t by simp
  qed
  then show "unat (p + desc_total m p) = unat p + unat (desc_total m p)" by (simp add: unat_word_ariths)
  then show "p < p + desc_total m p" using t(2) by (simp add: word_less_nat_alt)
qed

lemma foreach_loop_returns:
  assumes "\<And>p. ds \<le> p \<Longrightarrow> p < de \<Longrightarrow> avb_aligned p \<Longrightarrow> sane_descriptor m p" and "unat de - unat ds < 2 ^ 62" and "ds \<le> p"
  shows "\<exists>r. foreach_loop m ds de f p s = Some r"
  using assms(3)
proof (induction "unat de - unat p" arbitrary: p s rule: less_induct)
  case less
  show ?case
  proof (cases "p < de \<and> avb_aligned p \<and> desc_total m p AND 7 = 0 \<and> ds \<le> desc_total m p + p \<and> desc_total m p + p \<le> de \<and> fst (f p s)")
    case True
    then have "p < p + desc_total m p" using forward(1) [OF less.prems _ assms(2) assms(1) [OF less.prems]] by simp
    then have "unat de - unat (p + desc_total m p) < unat de - unat p" "ds \<le> p + desc_total m p"
      using True less.prems by (auto simp: word_less_nat_alt word_le_nat_alt)
    from less.hyps [OF this, of "snd (f p s)"] show ?thesis
      using True by (subst foreach_loop.simps) (auto simp: desc_total_def Let_def not_less split: prod.splits)
  next
    case False
    then show ?thesis by (subst foreach_loop.simps) (auto simp: desc_total_def Let_def not_less split: prod.splits)
  qed
qed

text \<open>Where the descriptors of an image lie.\<close>

definition desc_start :: "avb_mem \<Rightarrow> 64 word \<Rightarrow> 64 word" where
  "desc_start m data = data + 256 + avb_be64toh (load m (data + 12) 8) + avb_be64toh (load m (data + 96) 8)"

definition desc_end :: "avb_mem \<Rightarrow> 64 word \<Rightarrow> 64 word" where
  "desc_end m data = desc_start m data + avb_be64toh (load m (data + 104) 8)"

definition desc_area :: "avb_mem \<Rightarrow> 64 word \<Rightarrow> 64 word \<Rightarrow> bool" where
  "desc_area m data sz \<longleftrightarrow> data \<noteq> 0 \<and> 256 \<le> sz \<and> load m data 4 = AVB_MAGIC \<and>
     data \<le> desc_start m data \<and> desc_start m data \<le> desc_end m data \<and> desc_end m data \<le> data + sz"

lemma foreach_eq:
  "avb_descriptor_foreach m data sz f s =
     (if data \<noteq> 0 \<and> 256 \<le> sz \<and> load m data 4 = AVB_MAGIC \<and> \<not> avb_aligned data then Some (Inl PANIC)
      else if desc_area m data sz then foreach_loop m (desc_start m data) (desc_end m data) f (desc_start m data) s
      else Some (Inr (False, s)))"
proof -
  have "data + word_of_nat AVB_VBMETA_IMAGE_HEADER_SIZE + avb_be64toh (load m (data + 12) 8) + avb_be64toh (load m (data + 96) 8) = desc_start m data"
    by (simp add: desc_start_def AVB_VBMETA_IMAGE_HEADER_SIZE_def)
  then show ?thesis
    unfolding avb_descriptor_foreach_def Let_def
    by (auto simp: desc_area_def desc_end_def AVB_VBMETA_IMAGE_HEADER_SIZE_def AVB_MAGIC_LEN_def not_less)
qed

lemma foreach_returns:
  assumes "unat data + unat sz < 2 ^ 64" "unat sz < 2 ^ 62"
    and "\<And>p. desc_start m data \<le> p \<Longrightarrow> p < desc_end m data \<Longrightarrow> avb_aligned p \<Longrightarrow> sane_descriptor m p"
  shows "\<exists>r. avb_descriptor_foreach m data sz f s = Some r"
proof (cases "desc_area m data sz")
  case True
  have "unat (data + sz) = unat data + unat sz" using assms(1) by (simp add: unat_word_ariths)
  then have "unat (desc_end m data) - unat (desc_start m data) < 2 ^ 62"
    using True assms(2) by (auto simp: desc_area_def word_le_nat_alt)
  from foreach_loop_returns [OF assms(3) this order.refl, of f s] show ?thesis by (auto simp: foreach_eq)
qed (auto simp: foreach_eq)

section \<open>The loop does not return\<close>

lemma foreach_loop_stuck:
  assumes "p < de" "avb_aligned p" "desc_total m p = 0" "ds \<le> p" "\<And>s. fst (f p s)"
  shows "foreach_loop m ds de f p s = None"
proof -
  let ?P = "\<lambda>m ds de f p s y. \<not> (p < de \<and> avb_aligned p \<and> desc_total m p = 0 \<and> ds \<le> p \<and> (\<forall>s. fst (f p s)))"
  have "?P m ds de f p s y" if "foreach_loop m ds de f p s = Some y" for y
  proof (rule foreach_loop.raw_induct [where P = ?P, OF _ that])
    fix loop :: "avb_mem \<Rightarrow> 64 word \<Rightarrow> 64 word \<Rightarrow> (64 word \<Rightarrow> 'a \<Rightarrow> bool \<times> 'a) \<Rightarrow> 64 word \<Rightarrow> 'a \<Rightarrow> (bool \<times> 'a) kres option"
    fix m ds de f p s y
    assume hyp: "\<And>m ds de f p s y. loop m ds de f p s = Some y \<Longrightarrow> ?P m ds de f p s y"
      and run: "(if p < de then if \<not> avb_aligned p then Some (Inl PANIC) else
        let nb_following = avb_be64toh (load m (p + 8) 8); nb_total = 16 + nb_following in
        if nb_total AND 7 \<noteq> 0 then Some (Inr (False, s))
        else if nb_total + p < ds \<or> de < nb_total + p then Some (Inr (False, s))
        else case f p s of (go_on, s') \<Rightarrow> if \<not> go_on then Some (Inr (False, s')) else loop m ds de f (p + nb_total) s'
        else Some (Inr (True, s))) = Some y"
    show "?P m ds de f p s y"
    proof
      assume c: "p < de \<and> avb_aligned p \<and> desc_total m p = 0 \<and> ds \<le> p \<and> (\<forall>s. fst (f p s))"
      then have e: "16 + avb_be64toh (load m (p + 8) 8) = 0" and c': "p < de" "avb_aligned p" "\<not> p < ds" "\<not> de < p" "fst (f p s)"
        by (auto simp: desc_total_def)
      have "loop m ds de f p (snd (f p s)) = Some y"
        using run unfolding Let_def e by (simp add: case_prod_beta c')
      from hyp [OF this] c show False by simp
    qed
  qed
  then show ?thesis using assms by (cases "foreach_loop m ds de f p s") auto
qed

section \<open>All descriptors\<close>

definition visited :: "avb_mem \<Rightarrow> 64 word \<Rightarrow> 64 word \<Rightarrow> 64 word \<Rightarrow> bool" where
  "visited m ds de q \<longleftrightarrow> ds \<le> q \<and> q < de \<and> avb_aligned q \<and> desc_total m q AND 7 = 0 \<and> ds \<le> desc_total m q + q \<and> desc_total m q + q \<le> de"

lemma foreach_step:
  "ds \<le> p \<Longrightarrow> foreach_loop m ds de f p s =
     (if \<not> p < de then Some (Inr (True, s)) else if \<not> avb_aligned p then Some (Inl PANIC)
      else if \<not> visited m ds de p then Some (Inr (False, s))
      else if fst (f p s) then foreach_loop m ds de f (p + desc_total m p) (snd (f p s)) else Some (Inr (False, snd (f p s))))"
  by (subst foreach_loop.simps) (auto simp: visited_def desc_total_def Let_def not_less split: prod.splits)

lemma foreach_set:
  assumes "foreach_loop m ds de set_descriptors p xs = Some y" "ds \<le> p"
  shows "case y of Inl h \<Rightarrow> \<forall>n. foreach_loop m ds de count_descriptors p n = Some (Inl h)
     | Inr (b, ys) \<Rightarrow> \<exists>zs. ys = xs @ zs \<and> (\<forall>q\<in>set zs. visited m ds de q) \<and>
         (\<forall>n. foreach_loop m ds de count_descriptors p n = Some (Inr (b, n + word_of_nat (length zs))))"
proof -
  let ?R = "\<lambda>m ds de p xs y. case y of Inl h \<Rightarrow> \<forall>n. foreach_loop m ds de count_descriptors p n = Some (Inl h)
     | Inr (b, ys) \<Rightarrow> \<exists>zs. ys = xs @ zs \<and> (\<forall>q\<in>set zs. visited m ds de q) \<and>
         (\<forall>n. foreach_loop m ds de count_descriptors p n = Some (Inr (b, n + word_of_nat (length zs))))"
  let ?P = "\<lambda>m ds de f p xs y. f = set_descriptors \<longrightarrow> ds \<le> p \<longrightarrow> ?R m ds de p xs y"
  have "?P m ds de set_descriptors p xs y"
  proof (rule foreach_loop.raw_induct [where P = ?P, OF _ assms(1)])
    fix loop m ds de f p xs y
    assume hyp: "\<And>m ds de f p s y. loop m ds de f p s = Some y \<Longrightarrow> ?P m ds de f p s y"
      and run: "(if p < de then if \<not> avb_aligned p then Some (Inl PANIC) else
        let nb_following = avb_be64toh (load m (p + 8) 8); nb_total = 16 + nb_following in
        if nb_total AND 7 \<noteq> 0 then Some (Inr (False, xs))
        else if nb_total + p < ds \<or> de < nb_total + p then Some (Inr (False, xs))
        else case f p xs of (go_on, s') \<Rightarrow> if \<not> go_on then Some (Inr (False, s')) else loop m ds de f (p + nb_total) s'
        else Some (Inr (True, xs))) = Some y"
    show "?P m ds de f p xs y"
    proof (intro impI)
      assume f: "f = set_descriptors" and p: "ds \<le> p"
      show "?R m ds de p xs y"
      proof (cases "p < de \<and> avb_aligned p \<and> visited m ds de p")
        case True
        then have "loop m ds de set_descriptors (p + desc_total m p) (xs @ [p]) = Some y"
          using run by (auto simp: f set_descriptors_def visited_def desc_total_def Let_def not_less split: if_splits)
        moreover have "ds \<le> p + desc_total m p" using True by (simp add: visited_def add.commute)
        ultimately have "?R m ds de (p + desc_total m p) (xs @ [p]) y" using hyp by blast
        moreover have "foreach_loop m ds de count_descriptors p n = foreach_loop m ds de count_descriptors (p + desc_total m p) (n + 1)" for n
          using True by (subst foreach_step [OF p]) (simp add: count_descriptors_def)
        ultimately show ?thesis
        proof (cases y)
          case (Inr r)
          obtain b ys where r: "r = (b, ys)" by fastforce
          with Inr \<open>?R m ds de (p + desc_total m p) (xs @ [p]) y\<close> obtain zs where zs: "ys = xs @ p # zs" "\<forall>q\<in>set zs. visited m ds de q"
            "\<And>n. foreach_loop m ds de count_descriptors (p + desc_total m p) n = Some (Inr (b, n + word_of_nat (length zs)))" by auto
          then show ?thesis
            using Inr r True \<open>\<And>n. foreach_loop m ds de count_descriptors p n = foreach_loop m ds de count_descriptors (p + desc_total m p) (n + 1)\<close>
            by (auto simp: add.assoc intro!: exI [of _ "p # zs"])
        qed simp
      next
        case False
        then show ?thesis
          using run p by (auto simp: foreach_step [of ds p m de count_descriptors] visited_def desc_total_def Let_def not_less split: if_splits)
      qed
    qed
  qed
  then show ?thesis using assms(2) by simp
qed

lemma get_all_eq:
  "avb_descriptor_get_all ok m data sz =
     (case avb_descriptor_foreach m data sz set_descriptors [] of
        None \<Rightarrow> avb_descriptor_get_all ok m data sz
      | Some (Inl h) \<Rightarrow> Some (Inl h)
      | Some (Inr (b, ys)) \<Rightarrow> Some (Inr (if ok then Some ys else None)))"
proof (cases "avb_descriptor_foreach m data sz set_descriptors []")
  case (Some y)
  have "case y of Inl h \<Rightarrow> avb_descriptor_foreach m data sz count_descriptors 0 = Some (Inl h)
      | Inr (b, ys) \<Rightarrow> avb_descriptor_foreach m data sz count_descriptors 0 = Some (Inr (b, word_of_nat (length ys)))"
    using Some foreach_set [of m "desc_start m data" "desc_end m data" "desc_start m data" "[]" y]
    by (auto simp: foreach_eq split: if_splits sum.splits)
  then show ?thesis using Some by (auto simp: avb_descriptor_get_all_def split: sum.splits)
qed simp

lemma get_all_members:
  assumes "avb_descriptor_get_all ok m data sz = Some (Inr (Some ps))" "q \<in> set ps"
  shows "visited m (desc_start m data) (desc_end m data) q" "desc_area m data sz"
proof -
  obtain b where "avb_descriptor_foreach m data sz set_descriptors [] = Some (Inr (b, ps))"
    using assms(1) by (auto simp: avb_descriptor_get_all_def split: option.splits sum.splits if_splits)
  then show "visited m (desc_start m data) (desc_end m data) q" "desc_area m data sz"
    using assms(2) foreach_set [of m "desc_start m data" "desc_end m data" "desc_start m data" "[]" "Inr (b, ps)"]
    by (auto simp: foreach_eq split: if_splits)
qed

lemma get_all_returns:
  assumes "unat data + unat sz < 2 ^ 64" "unat sz < 2 ^ 62"
    and "\<And>p. desc_start m data \<le> p \<Longrightarrow> p < desc_end m data \<Longrightarrow> avb_aligned p \<Longrightarrow> sane_descriptor m p"
  shows "\<exists>r. avb_descriptor_get_all ok m data sz = Some r"
  using foreach_returns [OF assms, of set_descriptors "[]"] by (subst get_all_eq) (auto split: sum.splits)

lemma get_all_stuck:
  assumes "desc_area m data sz" "avb_aligned data" "desc_start m data < desc_end m data" "avb_aligned (desc_start m data)" "desc_total m (desc_start m data) = 0"
  shows "avb_descriptor_get_all ok m data sz = None"
  using assms foreach_loop_stuck [of "desc_start m data" "desc_end m data" m "desc_start m data" count_descriptors 0]
  by (simp add: avb_descriptor_get_all_def foreach_eq count_descriptors_def)

end
