(* ===== verification/Avb_Slot_Facts.thy ===== *)
theory Avb_Slot_Facts
  imports Avb_Slot_Verify Avb_Descriptor_Facts
begin

text \<open>
  What a verification of a slot that ends without an error has checked, where verification errors are not allowed: each vbmeta image
  and its key, each rollback index, and each partition that is loaded.  The recursion of the model is deep enough.
\<close>

unbundle bit_operations_syntax

section \<open>Steps\<close>

lemma bind_Inr: "bind_step f g s = (Inr r, s') \<longleftrightarrow> (\<exists>v s1. f s = (Inr v, s1) \<and> g v s1 = (Inr r, s'))"
  by (cases "f s") (auto simp: bind_step_def split: sum.splits)

lemma bind_Inl: "bind_step f g s = (Inl e, s') \<longleftrightarrow> f s = (Inl e, s') \<or> (\<exists>v s1. f s = (Inr v, s1) \<and> g v s1 = (Inl e, s'))"
  by (cases "f s") (auto simp: bind_step_def split: sum.splits)

lemma step_simps:
  "give v s = (Inr w, s') \<longleftrightarrow> w = v \<and> s' = s" "leave e s = (Inr z, s') \<longleftrightarrow> False"
  "when_out c x s = (Inr u, s') \<longleftrightarrow> \<not> c \<and> s' = s" "assert_step c s = (Inr u, s') \<longleftrightarrow> c \<and> s' = s"
  "check_io io x s = (Inr u, s') \<longleftrightarrow> io = AVB_IO_RESULT_OK \<and> s' = s"
  "tolerate False x s = (Inr r, s') \<longleftrightarrow> False"
  "new_req E s = (Inr a, s') \<longleftrightarrow> a = av_malloc E (next_req s) \<and> s' = s\<lparr>next_req := next_req s + 1\<rparr>"
  by (auto simp: give_def leave_def when_out_def assert_step_def check_io_def tolerate_def new_req_def)

lemmas steps = bind_Inr step_simps

lemma call_Inr: "call_step f s = (Inr r, s') \<longleftrightarrow> f s = (Inr r, s') \<or> f s = (Inl (Out r), s')"
  by (cases "f s") (auto simp: call_step_def split: sum.splits avb_exit.splits)

text \<open>A step that does not end the function with the result that all is well.\<close>

definition no_ok :: "'a avb_step \<Rightarrow> bool" where
  "no_ok f \<longleftrightarrow> (\<forall>s s'. f s \<noteq> (Inl (Out AVB_SLOT_VERIFY_RESULT_OK), s'))"

named_theorems no_ok_intros

lemma no_ok_bind [no_ok_intros]: "no_ok f \<Longrightarrow> (\<And>v. no_ok (g v)) \<Longrightarrow> no_ok (bind_step f g)"
  by (auto simp: no_ok_def bind_Inl)

lemma no_ok_basic [no_ok_intros]:
  "no_ok (give v)" "e \<noteq> Out AVB_SLOT_VERIFY_RESULT_OK \<Longrightarrow> no_ok (leave e)" "no_ok (assert_step c)" "no_ok (new_req E)"
  "r \<noteq> AVB_SLOT_VERIFY_RESULT_OK \<Longrightarrow> no_ok (check_io io r)" "r \<noteq> AVB_SLOT_VERIFY_RESULT_OK \<Longrightarrow> no_ok (tolerate allow r)"
  "(c \<Longrightarrow> r \<noteq> AVB_SLOT_VERIFY_RESULT_OK) \<Longrightarrow> no_ok (when_out c r)" "no_ok (call_step f)"
  by (auto simp: no_ok_def give_def leave_def assert_step_def check_io_def tolerate_def when_out_def new_req_def call_step_def
    split: sum.splits avb_exit.splits prod.splits)

lemma call_ok: "no_ok f \<Longrightarrow> call_step f s = (Inr AVB_SLOT_VERIFY_RESULT_OK, s') \<longleftrightarrow> f s = (Inr AVB_SLOT_VERIFY_RESULT_OK, s')"
  by (auto simp: call_Inr no_ok_def)

section \<open>Reading partitions\<close>

lemma load_full_partition:
  assumes "load_full_partition E part_name sz s = (Inr (buf, m, pre), s')"
  shows "slot_data s' = slot_data s"
  using assms by (auto simp: load_full_partition_def preloaded_partition_def steps split: option.splits prod.splits if_splits)

lemma no_ok_load [no_ok_intros]: "no_ok (load_full_partition E part_name sz)"
  unfolding load_full_partition_def preloaded_partition_def by (auto intro!: no_ok_intros split: option.split prod.split)

text \<open>The parts of a hash descriptor at an address.\<close>

definition hash_desc_at :: "avb_mem \<Rightarrow> 64 word \<Rightarrow> AvbHashDescriptor option" where
  "hash_desc_at m p = avb_hash_descriptor_validate_and_byteswap (load m p AvbHashDescriptor_SIZE)"

definition hash_name :: "avb_mem \<Rightarrow> 64 word \<Rightarrow> AvbHashDescriptor \<Rightarrow> 8 word list" where
  "hash_name m p d = load m (p + word_of_nat AvbHashDescriptor_SIZE) (unat (hd_partition_name_len d))"

definition hash_salt :: "avb_mem \<Rightarrow> 64 word \<Rightarrow> AvbHashDescriptor \<Rightarrow> 8 word list" where
  "hash_salt m p d = load m (p + word_of_nat AvbHashDescriptor_SIZE + ucast (hd_partition_name_len d)) (unat (hd_salt_len d))"

definition hash_expected :: "avb_mem \<Rightarrow> 64 word \<Rightarrow> AvbHashDescriptor \<Rightarrow> 8 word list" where
  "hash_expected m p d =
     load m (p + word_of_nat AvbHashDescriptor_SIZE + ucast (hd_partition_name_len d) + ucast (hd_salt_len d)) (unat (hd_digest_len d))"

definition hash_of :: "AvbHashDescriptor \<Rightarrow> 8 word list \<Rightarrow> 8 word list" where
  "hash_of d bs = (if avb_strcmp_eq (hd_hash_algorithm d) (ascii ''sha256'') then sha256 bs else sha512 bs)"

text \<open>A partition that was loaded is the one a hash descriptor describes: it was asked for, and the digest of the salt and its data is
  the one in the descriptor.\<close>

definition part_ok :: "8 word list list \<Rightarrow> avb_mem \<Rightarrow> 64 word \<Rightarrow> AvbPartitionData \<Rightarrow> bool" where
  "part_ok requested m p part \<longleftrightarrow>
     (\<exists>d. hash_desc_at m p = Some d \<and> hash_name m p d \<in> set requested \<and> pt_partition_name part \<in> {None, Some (hash_name m p d)} \<and>
        pt_data_size part = hd_image_size d \<and> length (pt_data part) = unat (hd_image_size d) \<and> hd_digest_len d \<noteq> 0 \<and>
        (length (hash_salt m p d) + length (pt_data part) < 2 ^ 29 \<longrightarrow> hash_of d (hash_salt m p d @ pt_data part) = hash_expected m p d))"

lemma find_str: "avb_strv_find_str xs str = (if str \<in> set xs then Some str else None)"
  by (induction xs) auto

lemma hash_digest_ok:
  assumes "hash_digest E d salt m buf = Some digest" "length (ctx_block (av_sha256 E)) = 128" "length (ctx_block (av_sha512 E)) = 256"
    and "length salt + unat (hd_image_size d) < 2 ^ 29"
  shows "digest = hash_of d (salt @ load m buf (unat (hd_image_size d)))"
proof -
  have "unat (ucast (hd_image_size d) :: 32 word) = unat (hd_image_size d)"
    using assms(4) by (simp add: unsigned_ucast_eq take_bit_nat_eq_self)
  then show ?thesis
    using assms(1,4) sha256_pieces [OF assms(2), of "[salt, load m buf (unat (hd_image_size d))]"]
      sha512_pieces [OF assms(3), of "[salt, load m buf (unat (hd_image_size d))]"]
    by (auto simp: hash_digest_def hash_of_def Let_def split: if_splits)
qed

lemma no_ok_persistent [no_ok_intros]: "no_ok (read_persistent_digest E name n)"
  unfolding read_persistent_digest_def by (auto intro!: no_ok_intros split: option.split)

lemma no_persistent:
  "read_persistent_value (av_ops E) = None \<Longrightarrow>
   read_persistent_digest E name n s = (Inr (r, d), s') \<longleftrightarrow> r = AVB_SLOT_VERIFY_RESULT_ERROR_INVALID_METADATA \<and> d = [] \<and> s' = s"
  by (auto simp: read_persistent_digest_def steps)

lemma hash_compare_ok:
  assumes "call_step (hash_compare E m d dig name digest) s = (Inr AVB_SLOT_VERIFY_RESULT_OK, s')" "read_persistent_value (av_ops E) = None"
  shows "hd_digest_len d \<noteq> 0 \<and> digest = load m dig (unat (hd_digest_len d)) \<and> s' = s"
proof -
  have "no_ok (hash_compare E m d dig name digest)" unfolding hash_compare_def by (auto intro!: no_ok_intros split: prod.split)
  then have "hash_compare E m d dig name digest s = (Inr AVB_SLOT_VERIFY_RESULT_OK, s')" using assms(1) by (simp add: call_ok)
  then show ?thesis
    using assms(2) by (auto simp: hash_compare_def steps no_persistent safe_memcmp split: if_splits)
qed

text \<open>The states that differ in what was loaded only.\<close>

definition adds_part :: "avb_state \<Rightarrow> AvbPartitionData \<Rightarrow> avb_state \<Rightarrow> bool" where
  "adds_part s part s' \<longleftrightarrow> vbmeta_images (slot_data s') = vbmeta_images (slot_data s) \<and>
     loaded_partitions (slot_data s') = loaded_partitions (slot_data s) @ [part]"

definition same_parts :: "avb_state \<Rightarrow> avb_state \<Rightarrow> bool" where
  "same_parts s s' \<longleftrightarrow> vbmeta_images (slot_data s') = vbmeta_images (slot_data s) \<and>
     loaded_partitions (slot_data s') = loaded_partitions (slot_data s)"

lemma keep_partition_ok:
  assumes "keep_partition E ret found sz (buf, m, pre) s = (Inr AVB_SLOT_VERIFY_RESULT_OK, s')"
  shows "ret = AVB_SLOT_VERIFY_RESULT_OK \<and>
    (\<exists>part. adds_part s part s' \<and> pt_partition_name part \<in> {None, Some found} \<and> pt_data part = load m buf (unat sz) \<and> pt_data_size part = sz)"
  using assms by (auto simp: keep_partition_def adds_part_def avb_strdup_def split: if_splits)

lemma no_ok_hash_name [no_ok_intros]: "no_ok (hash_part_name d name suffix)"
  unfolding hash_part_name_def by (auto intro!: no_ok_intros split: option.split)

lemma no_ok_hash_size [no_ok_intros]: "no_ok (hash_image_size E allow d name)"
  unfolding hash_image_size_def by (auto intro!: no_ok_intros split: option.split prod.split)

lemma no_ok_keep [no_ok_intros]: "no_ok (keep_partition E ret found sz img)"
  by (auto simp: no_ok_def keep_partition_def split: prod.splits if_splits)

lemma hash_part_name_same: "hash_part_name d name suffix s = (Inr r, s') \<Longrightarrow> s' = s"
  by (auto simp: hash_part_name_def steps split: if_splits option.splits)

lemma hash_image_size_same: "hash_image_size E False d name s = (Inr r, s') \<Longrightarrow> s' = s \<and> r = hd_image_size d"
  by (auto simp: hash_image_size_def steps)

lemma hash_partition_ok:
  assumes run: "load_and_verify_hash_partition E requested suffix False m p s = (Inr AVB_SLOT_VERIFY_RESULT_OK, s')"
    and ctx: "length (ctx_block (av_sha256 E)) = 128" "length (ctx_block (av_sha512 E)) = 256"
    and np: "read_persistent_value (av_ops E) = None"
  shows "same_parts s s' \<or> (\<exists>part. adds_part s part s' \<and> part_ok requested m p part)"
proof -
  obtain d where d: "hash_desc_at m p = Some d"
    using run by (auto simp: load_and_verify_hash_partition_def hash_desc_at_def leave_def call_step_def split: option.splits)
  let ?find = "avb_strv_find_str requested (hash_name m p d)"
  let ?dig = "p + word_of_nat AvbHashDescriptor_SIZE + ucast (hd_partition_name_len d) + ucast (hd_salt_len d)"
  let ?body = "bind_step (when_out (\<not> avb_validate_utf8 (hash_name m p d)) AVB_SLOT_VERIFY_RESULT_ERROR_INVALID_METADATA) (\<lambda>_.
     case ?find of None \<Rightarrow> give AVB_SLOT_VERIFY_RESULT_OK | Some found \<Rightarrow>
       bind_step (hash_part_name d (hash_name m p d) suffix) (\<lambda>part_name.
       bind_step (hash_image_size E False d part_name) (\<lambda>sz.
       bind_step (load_full_partition E part_name sz) (\<lambda>img.
       case hash_digest E d (hash_salt m p d) (fst (snd img)) (fst img) of
         None \<Rightarrow> keep_partition E AVB_SLOT_VERIFY_RESULT_ERROR_INVALID_METADATA found sz img
       | Some digest \<Rightarrow> bind_step (call_step (hash_compare E m d ?dig part_name digest)) (\<lambda>ret. keep_partition E ret found sz img)))))"
  have "no_ok ?body" by (intro no_ok_intros) (auto intro!: no_ok_intros split: option.split)
  moreover have "load_and_verify_hash_partition E requested suffix False m p = call_step ?body"
    unfolding load_and_verify_hash_partition_def hash_name_def hash_salt_def Let_def d [unfolded hash_desc_at_def] option.case by (rule refl)
  ultimately have "?body s = (Inr AVB_SLOT_VERIFY_RESULT_OK, s')" using run by (simp only: call_ok)
  then have "?find = None \<and> s' = s \<or> (\<exists>part_name sz s1 img s2 digest s3 ret. hash_name m p d \<in> set requested \<and>
      hash_part_name d (hash_name m p d) suffix s = (Inr part_name, s1) \<and> s1 = s \<and> sz = hd_image_size d \<and>
      load_full_partition E part_name sz s = (Inr img, s2) \<and> hash_digest E d (hash_salt m p d) (fst (snd img)) (fst img) = Some digest \<and>
      call_step (hash_compare E m d ?dig part_name digest) s2 = (Inr ret, s3) \<and>
      keep_partition E ret (hash_name m p d) sz img s3 = (Inr AVB_SLOT_VERIFY_RESULT_OK, s'))"
    unfolding steps find_str
    by (auto simp: steps dest!: hash_part_name_same hash_image_size_same dest: keep_partition_ok split: option.splits if_splits)
  then show ?thesis
  proof (elim disjE exE conjE)
    assume "s' = s"
    then show ?thesis by (simp add: same_parts_def)
  next
    fix part_name sz s1 img s2 digest s3 ret
    assume a: "hash_name m p d \<in> set requested" "sz = hd_image_size d" "load_full_partition E part_name sz s = (Inr img, s2)"
      "hash_digest E d (hash_salt m p d) (fst (snd img)) (fst img) = Some digest"
      "call_step (hash_compare E m d ?dig part_name digest) s2 = (Inr ret, s3)"
      "keep_partition E ret (hash_name m p d) sz img s3 = (Inr AVB_SLOT_VERIFY_RESULT_OK, s')"
    obtain buf m' pre where img: "img = (buf, m', pre)" by (cases img)
    obtain part where part: "ret = AVB_SLOT_VERIFY_RESULT_OK" "adds_part s3 part s'" "pt_partition_name part \<in> {None, Some (hash_name m p d)}"
      "pt_data part = load m' buf (unat sz)" "pt_data_size part = sz"
      using keep_partition_ok [OF a(6) [unfolded img]] by blast
    have c: "hd_digest_len d \<noteq> 0" "digest = hash_expected m p d" "s3 = s2"
      using hash_compare_ok [OF a(5) [unfolded part(1)] np] by (simp_all add: hash_expected_def)
    have "part_ok requested m p part"
      using d a(1,2) part c hash_digest_ok [OF a(4) ctx] by (auto simp: part_ok_def img)
    moreover have "adds_part s part s'" using part(2) load_full_partition [OF a(3) [unfolded img]] by (simp add: c adds_part_def)
    ultimately show ?thesis by blast
  qed
qed

section \<open>Images\<close>

text \<open>A descriptor of an image, as the loop over the descriptors visits it.\<close>

definition desc_of :: "AvbVBMetaData \<Rightarrow> 64 word \<Rightarrow> bool" where
  "desc_of v q \<longleftrightarrow> (\<exists>sz ps. avb_descriptor_get_all True (vb_mem v) (vb_data v) sz = Some (Inr (Some ps)) \<and> q \<in> set ps)"

definition key_of :: "AvbVBMetaData \<Rightarrow> 8 word list" where
  "key_of v = (let h = vbmeta_header (vb_mem v) (vb_data v) in
     load (vb_mem v) (aux_block (vb_mem v) (vb_data v) + public_key_offset h) (unat (public_key_size h)))"

text \<open>An image that was accepted, with a rollback index that is not below the stored one.\<close>

definition image_ok :: "avb_env \<Rightarrow> 32 word \<Rightarrow> AvbVBMetaData \<Rightarrow> bool" where
  "image_ok E loc v \<longleftrightarrow> vb_verify_result v = AVB_VBMETA_VERIFY_RESULT_OK \<and>
     (\<exists>n sz. fst (avb_vbmeta_image_verify (\<lambda>i. av_alloc E (n + i)) (av_sha256 E) (av_sha512 E) (vb_mem v) (vb_data v) sz) = AVB_VBMETA_VERIFY_RESULT_OK) \<and>
     (\<exists>stored. read_rollback_index (av_ops E) (scast loc) = (AVB_IO_RESULT_OK, stored) \<and>
        stored \<le> rollback_index (vbmeta_header (vb_mem v) (vb_data v)))"

definition main_ok :: "avb_env \<Rightarrow> AvbVBMetaData \<Rightarrow> bool" where
  "main_ok E v \<longleftrightarrow> image_ok E 0 v \<and> (\<exists>md. validate_vbmeta_public_key (av_ops E) (key_of v) md = (AVB_IO_RESULT_OK, True))"

definition chain_desc_at :: "avb_mem \<Rightarrow> 64 word \<Rightarrow> AvbChainPartitionDescriptor option" where
  "chain_desc_at m p = avb_chain_partition_descriptor_validate_and_byteswap (load m p AvbChainPartitionDescriptor_SIZE)"

definition chain_key :: "avb_mem \<Rightarrow> 64 word \<Rightarrow> AvbChainPartitionDescriptor \<Rightarrow> 8 word list" where
  "chain_key m p d = load m (p + word_of_nat AvbChainPartitionDescriptor_SIZE + ucast (cd_partition_name_len d)) (unat (cd_public_key_len d))"

text \<open>An image that a chain descriptor of the main image names: it is signed with the key of the descriptor.\<close>

definition chained_ok :: "avb_env \<Rightarrow> AvbVBMetaData \<Rightarrow> AvbVBMetaData \<Rightarrow> bool" where
  "chained_ok E v w \<longleftrightarrow> (\<exists>q d. desc_of v q \<and> chain_desc_at (vb_mem v) q = Some d \<and> image_ok E (cd_rollback_index_location d) w \<and>
     key_of w = chain_key (vb_mem v) q d \<and> vbmeta_flags (vbmeta_header (vb_mem w) (vb_data w)) = 0)"

definition images_ok :: "avb_env \<Rightarrow> AvbSlotVerifyData \<Rightarrow> bool" where
  "images_ok E D \<longleftrightarrow> (\<exists>v vs. vbmeta_images D = v # vs \<and> main_ok E v \<and> (\<forall>w\<in>set vs. chained_ok E v w))"

definition parts_ok :: "8 word list list \<Rightarrow> AvbSlotVerifyData \<Rightarrow> bool" where
  "parts_ok requested D \<longleftrightarrow> (\<forall>part\<in>set (loaded_partitions D). \<exists>w\<in>set (vbmeta_images D). \<exists>q. desc_of w q \<and> part_ok requested (vb_mem w) q part)"

lemma switch_ok:
  "vbmeta_switch False v s = (Inr r, s') \<Longrightarrow>
   fst v = AVB_VBMETA_VERIFY_RESULT_OK \<and> fst (snd v) \<noteq> 0 \<and> r = AVB_SLOT_VERIFY_RESULT_OK \<and> s' = s"
  by (auto simp: vbmeta_switch_def steps split: prod.splits AvbVBMetaVerifyResult.splits)

lemma no_ok_switch [no_ok_intros]: "no_ok (vbmeta_switch allow v)"
  unfolding vbmeta_switch_def by (auto intro!: no_ok_intros split: prod.split AvbVBMetaVerifyResult.split)

lemma public_key_ok:
  assumes "check_public_key E False args h m buf pk pl ret s = (Inr r, s')" "pk \<noteq> 0"
    and "\<And>key. va_public_key args = Some key \<Longrightarrow> length key < 2 ^ 32"
  shows "r = ret \<and> s' = s"
    and "case va_public_key args of Some key \<Rightarrow> \<not> is_main_vbmeta args \<and> load m pk (unat pl) = key
      | None \<Rightarrow> is_main_vbmeta args \<and> (\<exists>md. validate_vbmeta_public_key (av_ops E) (load m pk (unat pl)) md = (AVB_IO_RESULT_OK, True))"
proof -
  show "r = ret \<and> s' = s" using assms(1,2) by (auto simp: check_public_key_def steps Let_def split: option.splits if_splits prod.splits)
  show "case va_public_key args of Some key \<Rightarrow> \<not> is_main_vbmeta args \<and> load m pk (unat pl) = key
      | None \<Rightarrow> is_main_vbmeta args \<and> (\<exists>md. validate_vbmeta_public_key (av_ops E) (load m pk (unat pl)) md = (AVB_IO_RESULT_OK, True))"
  proof (cases "va_public_key args")
    case None
    then show ?thesis using assms(1,2) by (auto simp: check_public_key_def steps Let_def split: if_splits prod.splits)
  next
    case (Some key)
    then have "word_of_nat (length key) = pl" "avb_safe_memcmp key (load m pk (unat pl)) (unat pl) = 0" "\<not> is_main_vbmeta args"
      using assms(1,2) by (auto simp: check_public_key_def steps split: if_splits)
    moreover from this have "unat pl = length key" using assms(3) [OF Some] by (auto simp: unat_of_nat)
    ultimately show ?thesis using Some by (simp add: safe_memcmp)
  qed
qed

lemma no_ok_key [no_ok_intros]: "no_ok (check_public_key E allow args h m buf pk pl ret)"
  unfolding check_public_key_def Let_def by (auto intro!: no_ok_intros split: option.split prod.split)

lemma rollback_ok:
  "check_rollback E False args h ret s = (Inr r, s') \<Longrightarrow>
   r = ret \<and> s' = s \<and> (\<exists>stored. read_rollback_index (av_ops E) (scast (va_location args)) = (AVB_IO_RESULT_OK, stored) \<and> stored \<le> rollback_index h)"
  by (auto simp: check_rollback_def steps not_less split: prod.splits if_splits)

lemma no_ok_rollback [no_ok_intros]: "no_ok (check_rollback E allow args h ret)"
  unfolding check_rollback_def by (auto intro!: no_ok_intros split: prod.split)

lemma add_image_ok:
  "add_vbmeta_image E args h m buf r s = (Inr u, s') \<Longrightarrow>
   loaded_partitions (slot_data s') = loaded_partitions (slot_data s) \<and> is_main_vbmeta args = (vbmeta_images (slot_data s) = []) \<and>
   (\<exists>v. vbmeta_images (slot_data s') = vbmeta_images (slot_data s) @ [v] \<and> vb_mem v = m \<and> vb_data v = buf \<and> vb_verify_result v = r)"
  by (auto simp: add_vbmeta_image_def Let_def split: if_splits option.splits)

lemma no_ok_add [no_ok_intros]: "no_ok (add_vbmeta_image E args h m buf r)"
  by (auto simp: no_ok_def add_vbmeta_image_def Let_def split: if_splits option.splits)

lemma no_ok_store [no_ok_intros]: "no_ok (store_rollback args h)"
  by (auto simp: no_ok_def store_rollback_def Let_def split: if_splits)

lemma store_rollback_same: "store_rollback args h s = (Inr u, s') \<Longrightarrow> same_parts s s'"
  by (auto simp: store_rollback_def Let_def same_parts_def split: if_splits)

section \<open>Descriptors\<close>

text \<open>What a state keeps and gains: the images so far stay, and all images and partitions are checked.\<close>

definition grows :: "avb_env \<Rightarrow> 8 word list list \<Rightarrow> avb_state \<Rightarrow> avb_state \<Rightarrow> bool" where
  "grows E requested s s' \<longleftrightarrow> images_ok E (slot_data s') \<and> parts_ok requested (slot_data s') \<and>
     (\<exists>ws. vbmeta_images (slot_data s') = vbmeta_images (slot_data s) @ ws)"

definition checked :: "avb_env \<Rightarrow> 8 word list list \<Rightarrow> avb_state \<Rightarrow> bool" where
  "checked E requested s \<longleftrightarrow> images_ok E (slot_data s) \<and> parts_ok requested (slot_data s)"

lemma grows_checked: "grows E requested s s' \<Longrightarrow> checked E requested s'"
  by (simp add: grows_def checked_def)

lemma grows_trans: "grows E requested s s' \<Longrightarrow> grows E requested s' s'' \<Longrightarrow> grows E requested s s''"
  by (auto simp: grows_def)

lemma grows_same: "checked E requested s \<Longrightarrow> same_parts s s' \<Longrightarrow> grows E requested s s'"
  by (auto simp: grows_def checked_def same_parts_def images_ok_def parts_ok_def)

text \<open>What a recursive call for a chained partition must give.\<close>

definition rec_ok :: "avb_env \<Rightarrow> 8 word list list \<Rightarrow> (vbmeta_args \<Rightarrow> AvbSlotVerifyResult avb_step) \<Rightarrow> bool" where
  "rec_ok E requested rec \<longleftrightarrow>
     (\<forall>args s s' q d. rec args s = (Inr AVB_SLOT_VERIFY_RESULT_OK, s') \<longrightarrow> checked E requested s \<longrightarrow>
        desc_of (hd (vbmeta_images (slot_data s))) q \<longrightarrow> chain_desc_at (vb_mem (hd (vbmeta_images (slot_data s)))) q = Some d \<longrightarrow>
        va_location args = cd_rollback_index_location d \<longrightarrow> va_location args \<noteq> 0 \<longrightarrow>
        va_public_key args = Some (chain_key (vb_mem (hd (vbmeta_images (slot_data s)))) q d) \<longrightarrow> grows E requested s s')"

lemma hash_case_ok:
  assumes "hash_case E requested suffix False m q ret s = (Inr AVB_SLOT_VERIFY_RESULT_OK, s')"
    and ctx: "length (ctx_block (av_sha256 E)) = 128" "length (ctx_block (av_sha512 E)) = 256" "read_persistent_value (av_ops E) = None"
    and v: "checked E requested s" "v \<in> set (vbmeta_images (slot_data s))" "vb_mem v = m" "desc_of v q"
  shows "ret = AVB_SLOT_VERIFY_RESULT_OK \<and> grows E requested s s'"
proof -
  have run: "load_and_verify_hash_partition E requested suffix False m q s = (Inr AVB_SLOT_VERIFY_RESULT_OK, s')"
    and "ret = AVB_SLOT_VERIFY_RESULT_OK"
    using assms(1) by (auto simp: hash_case_def steps split: if_splits)
  moreover have "grows E requested s s'"
    using hash_partition_ok [OF run ctx] grows_same [OF v(1)] v
    by (auto simp: grows_def checked_def adds_part_def parts_ok_def images_ok_def)
  ultimately show ?thesis by simp
qed

lemma chain_case_ok:
  assumes run: "chain_case rec args tf m q ret s = (Inr AVB_SLOT_VERIFY_RESULT_OK, s')" and "rec_ok E requested rec"
    and v: "checked E requested s" "is_main_vbmeta args \<Longrightarrow> v = hd (vbmeta_images (slot_data s))" "vb_mem v = m" "desc_of v q"
  shows "ret = AVB_SLOT_VERIFY_RESULT_OK \<and> grows E requested s s'"
proof -
  obtain d where d: "is_main_vbmeta args" "chain_desc_at m q = Some d" "cd_rollback_index_location d \<noteq> 0"
    using run by (auto simp: chain_case_def chain_desc_at_def steps split: option.splits)
  define args' where "args' = \<lparr>va_toplevel_flags = tf, va_location = cd_rollback_index_location d,
    va_name = In_Image m (q + word_of_nat AvbChainPartitionDescriptor_SIZE) (unat (cd_partition_name_len d)),
    va_public_key = Some (chain_key m q d), va_out = False\<rparr>"
  have "rec args' s = (Inr AVB_SLOT_VERIFY_RESULT_OK, s')" and r: "ret = AVB_SLOT_VERIFY_RESULT_OK"
    using run d by (auto simp: chain_case_def chain_desc_at_def chain_key_def steps args'_def Let_def split: if_splits)
  then show ?thesis
    using assms(2) v d unfolding rec_ok_def by (auto simp: args'_def)
qed

lemma cmdline_case_ok: "cmdline_case E tf m q ret s = (Inr r, s') \<Longrightarrow> r = ret \<and> same_parts s s'"
  by (auto simp: cmdline_case_def steps Let_def same_parts_def split: option.splits if_splits)

lemma hashtree_case_ok:
  "hashtree_case E suffix args m q ret s = (Inr r, s') \<Longrightarrow> read_persistent_value (av_ops E) = None \<Longrightarrow> r = ret \<and> same_parts s s'"
  by (auto simp: hashtree_case_def steps Let_def same_parts_def no_persistent split: option.splits if_splits)

lemma descriptor_case_ok:
  assumes run: "descriptor_case rec E requested suffix False args tf m q ret s = (Inr AVB_SLOT_VERIFY_RESULT_OK, s')" and r: "rec_ok E requested rec"
    and ctx: "length (ctx_block (av_sha256 E)) = 128" "length (ctx_block (av_sha512 E)) = 256" "read_persistent_value (av_ops E) = None"
    and v: "checked E requested s" "v \<in> set (vbmeta_images (slot_data s))" "is_main_vbmeta args \<Longrightarrow> v = hd (vbmeta_images (slot_data s))"
      "vb_mem v = m" "desc_of v q"
  shows "ret = AVB_SLOT_VERIFY_RESULT_OK \<and> grows E requested s s'"
proof -
  have same: "ret = AVB_SLOT_VERIFY_RESULT_OK \<and> grows E requested s s'" if "AVB_SLOT_VERIFY_RESULT_OK = ret \<and> same_parts s s'"
    using that grows_same [OF v(1)] by auto
  show ?thesis
    using run hash_case_ok [OF _ ctx v(1,2,4,5), of suffix ret s'] chain_case_ok [OF _ r v(1,3,4,5), of args tf ret s']
      cmdline_case_ok [of E tf m q ret s AVB_SLOT_VERIFY_RESULT_OK s'] hashtree_case_ok [OF _ ctx(3), of suffix args m q ret s AVB_SLOT_VERIFY_RESULT_OK s']
      same same_parts_def [of s s]
    unfolding descriptor_case_def by (auto simp: steps split: option.splits if_splits)
qed

lemma descriptor_loop_ok:
  assumes "descriptor_loop rec E requested suffix False args tf m ps ret s = (Inr AVB_SLOT_VERIFY_RESULT_OK, s')" "rec_ok E requested rec"
    and ctx: "length (ctx_block (av_sha256 E)) = 128" "length (ctx_block (av_sha512 E)) = 256" "read_persistent_value (av_ops E) = None"
    and "checked E requested s" "v \<in> set (vbmeta_images (slot_data s))" "is_main_vbmeta args \<Longrightarrow> v = hd (vbmeta_images (slot_data s))"
      "vb_mem v = m" "\<And>q. q \<in> set ps \<Longrightarrow> desc_of v q"
  shows "ret = AVB_SLOT_VERIFY_RESULT_OK \<and> grows E requested s s'"
  using assms(1,6-10)
proof (induction ps arbitrary: ret s)
  case Nil
  then show ?case using grows_same [of E requested s s] by (simp add: steps same_parts_def)
next
  case (Cons q ps)
  obtain r1 s1 where step: "descriptor_case rec E requested suffix False args tf m q ret s = (Inr r1, s1)"
    and rest: "descriptor_loop rec E requested suffix False args tf m ps r1 s1 = (Inr AVB_SLOT_VERIFY_RESULT_OK, s')"
    using Cons.prems(1) by (auto simp: steps)
  show ?case
  proof (cases "r1 = AVB_SLOT_VERIFY_RESULT_OK")
    case True
    note g = descriptor_case_ok [OF step [unfolded True] assms(2) ctx Cons.prems(2-5)]
    have "desc_of v q" using Cons.prems(6) by simp
    with g have g': "ret = AVB_SLOT_VERIFY_RESULT_OK" "grows E requested s s1" by blast+
    obtain ws where "vbmeta_images (slot_data s1) = vbmeta_images (slot_data s) @ ws" using g'(2) by (auto simp: grows_def)
    then have "v \<in> set (vbmeta_images (slot_data s1))" "is_main_vbmeta args \<Longrightarrow> v = hd (vbmeta_images (slot_data s1))"
      using Cons.prems(3,4) by (auto simp: hd_append)
    with Cons.IH [OF rest grows_checked [OF g'(2)]] Cons.prems(5,6) g' show ?thesis using grows_trans by auto
  next
    case False
    have "r = AVB_SLOT_VERIFY_RESULT_OK" if "descriptor_loop rec E requested suffix False args tf m ps r t = (Inr AVB_SLOT_VERIFY_RESULT_OK, s')" for r t
      using that
    proof (induction ps arbitrary: r t)
      case (Cons p ps)
      then obtain r' t' where "descriptor_case rec E requested suffix False args tf m p r t = (Inr r', t')" "r' = AVB_SLOT_VERIFY_RESULT_OK"
        by (auto simp: steps)
      then show ?case
        by (auto simp: descriptor_case_def hash_case_def chain_case_def steps Let_def dest!: cmdline_case_ok hashtree_case_ok [OF _ ctx(3)] split: option.splits if_splits)
    qed (simp add: steps)
    from this [OF rest] False show ?thesis by simp
  qed
qed

section \<open>A vbmeta image\<close>

lemma load_full_same: "slot_data (snd (load_full_partition E name sz s)) = slot_data s"
  by (auto simp: load_full_partition_def preloaded_partition_def bind_step_def give_def leave_def check_io_def when_out_def new_req_def
    split: option.splits prod.splits)

lemma requested_loop_images: "vbmeta_images (slot_data (snd (requested_loop E get suffix xs s))) = vbmeta_images (slot_data s)"
proof (induction xs arbitrary: s)
  case (Cons x xs)
  have "slot_data s1 = slot_data s0" if "load_full_partition E n sz s0 = (r, s1)" for n sz s0 r s1
    using load_full_same [of E n sz s0] that by simp
  then show ?case
    using Cons by (auto simp: bind_step_def leave_def check_io_def give_def Let_def split: option.splits prod.splits sum.splits)
qed (simp add: give_def)

lemma requested_images:
  "load_requested_partitions E requested suffix s = (Inr r, s') \<Longrightarrow> vbmeta_images (slot_data s') = vbmeta_images (slot_data s)"
  using requested_loop_images [of E _ suffix requested s]
  by (auto simp: load_requested_partitions_def call_Inr leave_def split: option.splits) (metis snd_conv)+

lemma no_ok_cases [no_ok_intros]:
  "no_ok (hash_case E requested suffix allow m q ret)" "(\<And>args. no_ok (rec args)) \<Longrightarrow> no_ok (chain_case rec args tf m q ret)"
  "no_ok (cmdline_case E tf m q ret)" "no_ok (hashtree_case E suffix args m q ret)"
proof -
  have "no_ok (load_and_verify_hash_partition E requested suffix allow m q)"
    unfolding load_and_verify_hash_partition_def by (intro no_ok_intros)
  then show "no_ok (hash_case E requested suffix allow m q ret)" unfolding hash_case_def by (auto intro!: no_ok_intros)
  show "no_ok (chain_case rec args tf m q ret)" if "\<And>args. no_ok (rec args)"
    unfolding chain_case_def Let_def using that by (auto intro!: no_ok_intros split: option.split)
  have "no_ok (\<lambda>s. (Inr (f s), g s))" for f :: "avb_state \<Rightarrow> AvbSlotVerifyResult" and g by (simp add: no_ok_def)
  then show "no_ok (cmdline_case E tf m q ret)"
    unfolding cmdline_case_def Let_def by (auto intro!: no_ok_intros split: option.split)
  have "no_ok (lift_kres f)" for f :: "avb_state \<Rightarrow> AvbSlotVerifyResult kres \<times> avb_state"
    by (auto simp: no_ok_def lift_kres_def split: prod.splits sum.splits)
  then show "no_ok (hashtree_case E suffix args m q ret)"
    unfolding hashtree_case_def Let_def by (auto intro!: no_ok_intros split: option.split prod.split)
qed

lemma no_ok_loop:
  assumes "\<And>args. no_ok (rec args)"
  shows "no_ok (descriptor_loop rec E requested suffix allow args tf m ps ret)"
proof (induction ps arbitrary: ret)
  case (Cons q ps)
  have "no_ok (descriptor_case rec E requested suffix allow args tf m q ret)"
    unfolding descriptor_case_def using assms by (auto intro!: no_ok_intros split: option.split)
  then show ?case using Cons by (auto intro!: no_ok_intros)
qed (simp add: no_ok_intros)

lemma no_ok_descriptors [no_ok_intros]:
  "(\<And>args. no_ok (rec args)) \<Longrightarrow> no_ok (vbmeta_descriptors rec E requested suffix allow args tf m buf num ret)"
  unfolding vbmeta_descriptors_def by (auto intro!: no_ok_intros no_ok_loop split: option.split sum.split)

lemma no_ok_process [no_ok_intros]:
  assumes "\<And>args. no_ok (rec args)"
  shows "no_ok (process_vbmeta rec E requested suffix allow args m buf num)"
proof -
  have l: "no_ok (load_requested_partitions E requested suffix)" unfolding load_requested_partitions_def by (intro no_ok_intros)
  have "no_ok (accept_vbmeta rec E requested suffix allow args m buf num v)" for v
    unfolding accept_vbmeta_def Let_def using assms by (auto intro!: no_ok_intros l)
  then show ?thesis by (simp add: no_ok_def process_vbmeta_def)
qed

lemma process_front:
  assumes run: "process_vbmeta rec E requested suffix False args m buf num s = (Inr AVB_SLOT_VERIFY_RESULT_OK, s')"
    and key: "\<And>key. va_public_key args = Some key \<Longrightarrow> length key < 2 ^ 32"
  shows "\<exists>v s1. vb_mem v = m \<and> vb_data v = buf \<and> image_ok E (va_location args) v \<and>
    (case va_public_key args of Some key \<Rightarrow> key_of v = key
       | None \<Rightarrow> \<exists>md. validate_vbmeta_public_key (av_ops E) (key_of v) md = (AVB_IO_RESULT_OK, True)) \<and>
    (\<not> is_main_vbmeta args \<longrightarrow> vbmeta_flags (vbmeta_header m buf) = 0) \<and> is_main_vbmeta args = (vbmeta_images (slot_data s) = []) \<and>
    loaded_partitions (slot_data s1) = loaded_partitions (slot_data s) \<and> vbmeta_images (slot_data s1) = vbmeta_images (slot_data s) @ [v] \<and>
    (if vbmeta_flags (vbmeta_header m buf) AND AVB_VBMETA_IMAGE_FLAGS_VERIFICATION_DISABLED \<noteq> 0
     then vbmeta_images (slot_data s') = vbmeta_images (slot_data s1)
     else \<exists>tf ret s2. vbmeta_descriptors rec E requested suffix False args tf m buf num ret s1 = (Inr AVB_SLOT_VERIFY_RESULT_OK, s2) \<and> same_parts s2 s')"
proof -
  define n where "n = next_req s"
  define v where "v = avb_vbmeta_image_verify (\<lambda>i. av_alloc E (n + i)) (av_sha256 E) (av_sha512 E) m buf num"
  define h where "h = vbmeta_header m buf"
  have h: "avb_vbmeta_image_header_to_host_byte_order (load m buf AVB_VBMETA_IMAGE_HEADER_SIZE) = h"
    by (simp add: h_def vbmeta_header_def AVB_VBMETA_IMAGE_HEADER_SIZE_def)
  define t0 where "t0 = s\<lparr>next_req := n + 5\<rparr>"
  obtain r1 t1 r2 t2 r3 t3 t4 u where
    sw: "vbmeta_switch False v t0 = (Inr r1, t1)" and fl: "\<not> (\<not> is_main_vbmeta args \<and> vbmeta_flags h \<noteq> 0)"
    and pk: "check_public_key E False args h m buf (fst (snd v)) (snd (snd v)) r1 t1 = (Inr r2, t2)"
    and rb: "check_rollback E False args h r2 t2 = (Inr r3, t3)"
    and ad: "add_vbmeta_image E args h m buf (fst v) t3 = (Inr u, t4)"
    and rest: "(if vbmeta_flags h AND AVB_VBMETA_IMAGE_FLAGS_VERIFICATION_DISABLED \<noteq> 0
      then bind_step (load_requested_partitions E requested suffix) (\<lambda>sub_ret. give (if sub_ret \<noteq> AVB_SLOT_VERIFY_RESULT_OK then sub_ret else r3))
      else bind_step (vbmeta_descriptors rec E requested suffix False args (if is_main_vbmeta args then vbmeta_flags h else va_toplevel_flags args) m buf num r3)
        (\<lambda>ret4. bind_step (store_rollback args h) (\<lambda>_. give ret4))) t4 = (Inr AVB_SLOT_VERIFY_RESULT_OK, s')"
    using run unfolding process_vbmeta_def accept_vbmeta_def Let_def h n_def [symmetric] v_def [symmetric] t0_def [symmetric] bind_Inr step_simps(3)
    by - (elim exE conjE, hypsubst_thin, rule that, assumption+)
  have v: "fst v = AVB_VBMETA_VERIFY_RESULT_OK" "fst (snd v) \<noteq> 0" "t1 = t0" using switch_ok [OF sw] by simp_all
  note pk' = public_key_ok [OF pk v(2) key]
  note rb' = rollback_ok [OF rb]
  obtain img where img: "vbmeta_images (slot_data t4) = vbmeta_images (slot_data t3) @ [img]" "vb_mem img = m" "vb_data img = buf" "vb_verify_result img = fst v"
    "loaded_partitions (slot_data t4) = loaded_partitions (slot_data t3)" "is_main_vbmeta args = (vbmeta_images (slot_data t3) = [])"
    using add_image_ok [OF ad] by blast
  have k: "key_of img = load m (fst (snd v)) (unat (snd (snd v)))"
    using vbmeta_verify_key [of "\<lambda>i. av_alloc E (n + i)" "av_sha256 E" "av_sha512 E" m buf num] v(1)
    by (simp add: key_of_def img Let_def h_def [symmetric] flip: v_def)
  have t3: "slot_data t3 = slot_data s" using pk'(1) rb' v(3) by (simp add: t0_def)
  have "image_ok E (va_location args) img"
  proof -
    have "fst (avb_vbmeta_image_verify (\<lambda>i. av_alloc E (n + i)) (av_sha256 E) (av_sha512 E) m buf num) = AVB_VBMETA_VERIFY_RESULT_OK"
      using v(1) by (simp add: v_def)
    then show ?thesis using rb' img(4) v(1) unfolding image_ok_def img(2,3) h_def by auto
  qed
  moreover have "case va_public_key args of Some key \<Rightarrow> key_of img = key
       | None \<Rightarrow> \<exists>md. validate_vbmeta_public_key (av_ops E) (key_of img) md = (AVB_IO_RESULT_OK, True)"
    using pk'(2) k by (auto split: option.splits)
  moreover have "if vbmeta_flags h AND AVB_VBMETA_IMAGE_FLAGS_VERIFICATION_DISABLED \<noteq> 0
     then vbmeta_images (slot_data s') = vbmeta_images (slot_data t4)
     else \<exists>tf ret s2. vbmeta_descriptors rec E requested suffix False args tf m buf num ret t4 = (Inr AVB_SLOT_VERIFY_RESULT_OK, s2) \<and> same_parts s2 s'"
    using rest by (auto simp: steps dest: requested_images store_rollback_same split: if_splits)
  ultimately show ?thesis using img fl t3 by (intro exI [of _ img] exI [of _ t4]) (auto simp: h_def split del: if_split)
qed

lemma descriptors_ok:
  assumes run: "vbmeta_descriptors rec E requested suffix False args tf m buf num ret s = (Inr AVB_SLOT_VERIFY_RESULT_OK, s')"
    and "rec_ok E requested rec"
    and ctx: "length (ctx_block (av_sha256 E)) = 128" "length (ctx_block (av_sha512 E)) = 256" "read_persistent_value (av_ops E) = None"
    and v: "checked E requested s" "v \<in> set (vbmeta_images (slot_data s))" "is_main_vbmeta args \<Longrightarrow> v = hd (vbmeta_images (slot_data s))"
      "vb_mem v = m" "vb_data v = buf"
  shows "grows E requested s s'"
proof -
  define t where "t = s\<lparr>next_req := next_req s + 1\<rparr>"
  have t: "grows E requested s t" and same: "slot_data t = slot_data s"
    using grows_same [OF v(1), of t] by (simp_all add: t_def same_parts_def)
  consider "s' = t" | ps where "descriptor_loop rec E requested suffix False args tf m ps ret t = (Inr AVB_SLOT_VERIFY_RESULT_OK, s')"
      "\<And>q. q \<in> set ps \<Longrightarrow> desc_of v q"
  proof -
    have all: "avb_descriptor_get_all True m buf num = Some (Inr (Some ps))"
      if "avb_descriptor_get_all (av_malloc E (next_req s) \<noteq> 0) m buf num = Some (Inr (Some ps))" for ps
    proof -
      have "av_malloc E (next_req s) \<noteq> 0"
        using that by (auto simp: avb_descriptor_get_all_def split: option.splits sum.splits if_splits)
      then show ?thesis using that by simp
    qed
    show ?thesis
      using run that all v(4,5) unfolding vbmeta_descriptors_def steps desc_of_def t_def [symmetric]
      by (auto simp: steps t_def split: option.splits sum.splits if_splits)
  qed
  then show ?thesis
  proof cases
    case (2 ps)
    then show ?thesis
      using descriptor_loop_ok [OF 2(1) assms(2) ctx grows_checked [OF t], of v] v same grows_trans [OF t] by simp
  qed (use t in simp)
qed

lemma process_chain_ok:
  assumes run: "process_vbmeta rec E requested suffix False args m buf num s = (Inr AVB_SLOT_VERIFY_RESULT_OK, s')"
    and r: "rec_ok E requested rec"
    and ctx: "length (ctx_block (av_sha256 E)) = 128" "length (ctx_block (av_sha512 E)) = 256" "read_persistent_value (av_ops E) = None"
    and s: "checked E requested s" and q: "desc_of (hd (vbmeta_images (slot_data s))) q"
      "chain_desc_at (vb_mem (hd (vbmeta_images (slot_data s)))) q = Some d" "va_location args = cd_rollback_index_location d" "va_location args \<noteq> 0"
      "va_public_key args = Some (chain_key (vb_mem (hd (vbmeta_images (slot_data s)))) q d)"
  shows "grows E requested s s'"
proof -
  obtain v0 vs where imgs: "vbmeta_images (slot_data s) = v0 # vs" "main_ok E v0" "\<forall>w\<in>set vs. chained_ok E v0 w"
    using s by (auto simp: checked_def images_ok_def)
  have "length key < 2 ^ 32" if "va_public_key args = Some key" for key
    using that q(5) unsigned_less [of "cd_public_key_len d"] by (auto simp: chain_key_def)
  from process_front [OF run this] obtain v s1 where v: "vb_mem v = m" "vb_data v = buf" "image_ok E (va_location args) v"
    "key_of v = chain_key (vb_mem v0) q d" "vbmeta_flags (vbmeta_header m buf) = 0"
    "loaded_partitions (slot_data s1) = loaded_partitions (slot_data s)" "vbmeta_images (slot_data s1) = vbmeta_images (slot_data s) @ [v]"
    and rest: "\<exists>tf ret s2. vbmeta_descriptors rec E requested suffix False args tf m buf num ret s1 = (Inr AVB_SLOT_VERIFY_RESULT_OK, s2) \<and> same_parts s2 s'"
    using q(4,5) imgs(1) by (auto simp: is_main_vbmeta_def)
  have "chained_ok E v0 v" using q(1-3) v imgs(1) unfolding chained_ok_def by auto
  then have "images_ok E (slot_data s1)" using imgs v(7) by (auto simp: images_ok_def)
  moreover have "parts_ok requested (slot_data s1)" using s v(6,7) by (auto simp: checked_def parts_ok_def)
  ultimately have c: "checked E requested s1" and g: "grows E requested s s1" using v(7) by (auto simp: checked_def grows_def)
  obtain tf ret s2 where run2: "vbmeta_descriptors rec E requested suffix False args tf m buf num ret s1 = (Inr AVB_SLOT_VERIFY_RESULT_OK, s2)"
    and same: "same_parts s2 s'" using rest by blast
  have "grows E requested s1 s2"
    using descriptors_ok [OF run2 r ctx c, of v] v q(4) by (simp add: is_main_vbmeta_def)
  then show ?thesis using grows_trans [OF g] grows_same [OF grows_checked same] grows_trans by blast
qed

lemma process_main_ok:
  assumes run: "process_vbmeta rec E requested suffix False args m buf num s = (Inr AVB_SLOT_VERIFY_RESULT_OK, s')"
    and r: "rec_ok E requested rec"
    and ctx: "length (ctx_block (av_sha256 E)) = 128" "length (ctx_block (av_sha512 E)) = 256" "read_persistent_value (av_ops E) = None"
    and s: "vbmeta_images (slot_data s) = []" "loaded_partitions (slot_data s) = []" and args: "va_location args = 0" "va_public_key args = None"
  shows "images_ok E (slot_data s') \<and>
    (vbmeta_flags (vbmeta_header (vb_mem (hd (vbmeta_images (slot_data s')))) (vb_data (hd (vbmeta_images (slot_data s'))))) AND
       AVB_VBMETA_IMAGE_FLAGS_VERIFICATION_DISABLED \<noteq> 0 \<or> parts_ok requested (slot_data s'))"
proof -
  obtain v s1 where v: "vb_mem v = m" "vb_data v = buf" "image_ok E 0 v"
    "\<exists>md. validate_vbmeta_public_key (av_ops E) (key_of v) md = (AVB_IO_RESULT_OK, True)"
    "loaded_partitions (slot_data s1) = []" "vbmeta_images (slot_data s1) = [v]"
    and rest: "if vbmeta_flags (vbmeta_header m buf) AND AVB_VBMETA_IMAGE_FLAGS_VERIFICATION_DISABLED \<noteq> 0
     then vbmeta_images (slot_data s') = vbmeta_images (slot_data s1)
     else \<exists>tf ret s2. vbmeta_descriptors rec E requested suffix False args tf m buf num ret s1 = (Inr AVB_SLOT_VERIFY_RESULT_OK, s2) \<and> same_parts s2 s'"
    using process_front [OF run] s args by auto
  have c: "checked E requested s1" using v by (auto simp: checked_def images_ok_def parts_ok_def main_ok_def)
  show ?thesis
  proof (cases "vbmeta_flags (vbmeta_header m buf) AND AVB_VBMETA_IMAGE_FLAGS_VERIFICATION_DISABLED = 0")
    case True
    then obtain tf ret s2 where run2: "vbmeta_descriptors rec E requested suffix False args tf m buf num ret s1 = (Inr AVB_SLOT_VERIFY_RESULT_OK, s2)"
      and same: "same_parts s2 s'" using rest by auto
    have "grows E requested s1 s2" using descriptors_ok [OF run2 r ctx c, of v] v by simp
    then have "checked E requested s'" using grows_same [OF grows_checked same] grows_checked by blast
    then show ?thesis by (simp add: checked_def)
  next
    case False
    then have "vbmeta_images (slot_data s') = [v]" using rest v(6) by simp
    then show ?thesis using c v(1,2,6) False by (simp add: checked_def images_ok_def)
  qed
qed

section \<open>The recursion\<close>

definition boot_args :: "bool \<Rightarrow> vbmeta_args" where
  "boot_args out = \<lparr>va_toplevel_flags = 0, va_location = 0, va_name = Literal (ascii ''boot''), va_public_key = None, va_out = out\<rparr>"

lemma no_ok_place [no_ok_intros]: "no_ok (vbmeta_place E name nm)"
  unfolding vbmeta_place_def by (auto intro!: no_ok_intros split: option.split prod.split)

lemma place_same: "vbmeta_place E name nm s = (Inr r, s') \<Longrightarrow> s' = s"
  by (auto simp: vbmeta_place_def steps split: option.splits prod.splits if_splits)

text \<open>The body of \<^verbatim>\<open>load_and_verify_vbmeta\<close> after the name of the partition is known, and after the place of its image is.\<close>

definition read_vbmeta where
  "read_vbmeta rec E requested suffix allow args nm off sz =
     bind_step (new_req E) (\<lambda>buf. bind_step (when_out (buf = 0) AVB_SLOT_VERIFY_RESULT_ERROR_OOM) (\<lambda>_.
     case read_from_partition (av_ops E) nm off sz of (io_ret, bs) \<Rightarrow>
       if is_main_vbmeta args \<and> io_ret = AVB_IO_RESULT_ERROR_NO_SUCH_PARTITION \<and> name_is_vbmeta (va_name args) then rec (boot_args (va_out args))
       else bind_step (check_io io_ret AVB_SLOT_VERIFY_RESULT_ERROR_IO) (\<lambda>_. bind_step (assert_step (length bs \<le> unat sz)) (\<lambda>_.
         process_vbmeta rec E requested suffix allow args (poke (av_mem E) buf bs) buf (word_of_nat (length bs))))))"

definition named_vbmeta where
  "named_vbmeta rec E requested suffix allow args nm =
     bind_step (vbmeta_place E (va_name args) nm) (\<lambda>(off, sz). read_vbmeta rec E requested suffix allow args nm off sz)"

lemma body_eq:
  "vbmeta_body rec E requested suffix allow args = call_step
     (bind_step (when_out (\<not> avb_validate_utf8 (name_bytes (va_name args))) AVB_SLOT_VERIFY_RESULT_ERROR_INVALID_METADATA) (\<lambda>_.
      case avb_str_concat AVB_PART_NAME_MAX_SIZE (name_bytes (va_name args)) suffix of
        None \<Rightarrow> leave (Out AVB_SLOT_VERIFY_RESULT_ERROR_INVALID_METADATA)
      | Some nm \<Rightarrow> named_vbmeta rec E requested suffix allow args (avb_cstr nm)))"
  unfolding vbmeta_body_def named_vbmeta_def read_vbmeta_def boot_args_def Let_def by (rule refl)

lemma no_ok_read: "(\<And>args. no_ok (rec args)) \<Longrightarrow> no_ok (read_vbmeta rec E requested suffix allow args nm off sz)"
  unfolding read_vbmeta_def by (auto intro!: no_ok_intros split: prod.split)

lemma no_ok_named: "(\<And>args. no_ok (rec args)) \<Longrightarrow> no_ok (named_vbmeta rec E requested suffix allow args nm)"
  unfolding named_vbmeta_def by (auto intro!: no_ok_intros no_ok_read split: prod.split)

lemma body_run:
  assumes run: "vbmeta_body rec E requested suffix allow args s = (Inr AVB_SLOT_VERIFY_RESULT_OK, s')" and r: "\<And>args. no_ok (rec args)"
  shows "(\<exists>m buf num s1. slot_data s1 = slot_data s \<and> process_vbmeta rec E requested suffix allow args m buf num s1 = (Inr AVB_SLOT_VERIFY_RESULT_OK, s')) \<or>
    is_main_vbmeta args \<and> name_is_vbmeta (va_name args) \<and> (\<exists>s1. slot_data s1 = slot_data s \<and> rec (boot_args (va_out args)) s1 = (Inr AVB_SLOT_VERIFY_RESULT_OK, s'))"
proof -
  let ?body = "bind_step (when_out (\<not> avb_validate_utf8 (name_bytes (va_name args))) AVB_SLOT_VERIFY_RESULT_ERROR_INVALID_METADATA) (\<lambda>_.
      case avb_str_concat AVB_PART_NAME_MAX_SIZE (name_bytes (va_name args)) suffix of
        None \<Rightarrow> leave (Out AVB_SLOT_VERIFY_RESULT_ERROR_INVALID_METADATA)
      | Some nm \<Rightarrow> named_vbmeta rec E requested suffix allow args (avb_cstr nm))"
  have "no_ok ?body" by (auto intro!: no_ok_bind no_ok_basic no_ok_named r split: option.split)
  then have "?body s = (Inr AVB_SLOT_VERIFY_RESULT_OK, s')" using run by (simp only: body_eq call_ok)
  then obtain nm where "named_vbmeta rec E requested suffix allow args nm s = (Inr AVB_SLOT_VERIFY_RESULT_OK, s')"
    by (auto simp: steps split: option.splits)
  then obtain off sz where run2: "read_vbmeta rec E requested suffix allow args nm off sz s = (Inr AVB_SLOT_VERIFY_RESULT_OK, s')"
    unfolding named_vbmeta_def bind_Inr using place_same by fastforce
  have same: "slot_data (s\<lparr>next_req := n\<rparr>) = slot_data s" for n by simp
  show ?thesis using run2 same unfolding read_vbmeta_def steps by (auto simp: steps split: prod.splits if_splits)
qed

lemma no_ok_depth: "no_ok (vbmeta_depth d E requested suffix allow args)"
  by (cases d) (auto simp: vbmeta_body_def intro!: no_ok_intros)

lemma depth_rec_ok:
  assumes ctx: "length (ctx_block (av_sha256 E)) = 128" "length (ctx_block (av_sha512 E)) = 256" "read_persistent_value (av_ops E) = None"
  shows "rec_ok E requested (vbmeta_depth d E requested suffix False)"
proof (induction d)
  case 0
  then show ?case by (simp add: rec_ok_def leave_def)
next
  case (Suc d)
  show ?case
    unfolding rec_ok_def
  proof (intro allI impI)
    fix args s s' q dd
    assume run: "vbmeta_depth (Suc d) E requested suffix False args s = (Inr AVB_SLOT_VERIFY_RESULT_OK, s')" and c: "checked E requested s"
      and q: "desc_of (hd (vbmeta_images (slot_data s))) q" "chain_desc_at (vb_mem (hd (vbmeta_images (slot_data s)))) q = Some dd"
        "va_location args = cd_rollback_index_location dd" "va_location args \<noteq> 0"
        "va_public_key args = Some (chain_key (vb_mem (hd (vbmeta_images (slot_data s)))) q dd)"
    obtain m buf num s1 where s1: "slot_data s1 = slot_data s"
      and p: "process_vbmeta (vbmeta_depth d E requested suffix False) E requested suffix False args m buf num s1 = (Inr AVB_SLOT_VERIFY_RESULT_OK, s')"
      using body_run [OF run [unfolded vbmeta_depth.simps] no_ok_depth] q(4) by (auto simp: is_main_vbmeta_def)
    have "grows E requested s1 s'"
      by (rule process_chain_ok [OF p Suc ctx, of q dd]) (use c q in \<open>simp_all add: s1 checked_def\<close>)
    then show "grows E requested s s'" by (simp add: grows_def s1)
  qed
qed

text \<open>What is known of the data of a slot after a verification without errors.\<close>

definition slot_ok :: "avb_env \<Rightarrow> 8 word list list \<Rightarrow> AvbSlotVerifyData \<Rightarrow> bool" where
  "slot_ok E requested D \<longleftrightarrow> images_ok E D \<and>
    (vbmeta_flags (vbmeta_header (vb_mem (hd (vbmeta_images D))) (vb_data (hd (vbmeta_images D)))) AND AVB_VBMETA_IMAGE_FLAGS_VERIFICATION_DISABLED \<noteq> 0 \<or>
     parts_ok requested D)"

lemma depth_main_ok:
  assumes ctx: "length (ctx_block (av_sha256 E)) = 128" "length (ctx_block (av_sha512 E)) = 256" "read_persistent_value (av_ops E) = None"
    and "vbmeta_depth d E requested suffix False args s = (Inr AVB_SLOT_VERIFY_RESULT_OK, s')"
    and "vbmeta_images (slot_data s) = []" "loaded_partitions (slot_data s) = []" "va_location args = 0" "va_public_key args = None"
  shows "slot_ok E requested (slot_data s')"
  using assms(4-)
proof (induction d arbitrary: args s)
  case 0
  then show ?case by (simp add: leave_def)
next
  case (Suc d)
  from body_run [OF Suc.prems(1) [unfolded vbmeta_depth.simps] no_ok_depth] show ?case
  proof (elim disjE exE conjE)
    fix m buf num s1
    assume "slot_data s1 = slot_data s"
      and p: "process_vbmeta (vbmeta_depth d E requested suffix False) E requested suffix False args m buf num s1 = (Inr AVB_SLOT_VERIFY_RESULT_OK, s')"
    then show ?thesis using process_main_ok [OF p depth_rec_ok [OF ctx] ctx] Suc.prems by (simp add: slot_ok_def)
  next
    fix s1
    assume "slot_data s1 = slot_data s" "vbmeta_depth d E requested suffix False (boot_args (va_out args)) s1 = (Inr AVB_SLOT_VERIFY_RESULT_OK, s')"
    then show ?thesis using Suc.IH [of "boot_args (va_out args)" s1] Suc.prems by (simp add: boot_args_def)
  qed
qed

section \<open>The command line\<close>

text \<open>No step of the command line touches the images and the partitions.\<close>

definition keeps :: "(avb_state \<Rightarrow> 'a \<times> avb_state) \<Rightarrow> bool" where
  "keeps f \<longleftrightarrow> (\<forall>s. same_parts s (snd (f s)))"

named_theorems keeps_intros

lemma same_parts_trans: "same_parts s t \<Longrightarrow> same_parts t u \<Longrightarrow> same_parts s u"
  by (simp add: same_parts_def)

lemma keeps_option [keeps_intros]: "keeps (cmdline_append_option E key v)"
  by (auto simp: keeps_def cmdline_append_option_def same_parts_def Let_def)

lemma keeps_derived [keeps_intros]:
  "keeps (cmdline_append_version E key a b)" "keeps (cmdline_append_uint64_base10 E key v)" "keeps (cmdline_append_hex E key bs)"
  using keeps_option
  by (auto simp: keeps_def cmdline_append_version_def cmdline_append_uint64_base10_def cmdline_append_hex_def same_parts_def Let_def split: option.split)

lemma keeps_append_all [keeps_intros]: "list_all keeps fs \<Longrightarrow> keeps (append_all fs)"
proof (induction fs)
  case Nil
  show ?case by (simp add: keeps_def same_parts_def)
next
  case (Cons f fs)
  show ?case
    unfolding keeps_def
  proof
    fix s
    obtain ok s1 where f: "f s = (ok, s1)" by (cases "f s")
    then have "same_parts s s1" using Cons.prems by (auto simp: keeps_def dest: spec [of _ s])
    moreover have "same_parts s1 (snd (append_all fs s1))" using Cons by (simp add: keeps_def)
    ultimately show "same_parts s (snd (append_all (f # fs) s))" by (auto simp: f intro: same_parts_trans)
  qed
qed

lemma keepsD: "keeps f \<Longrightarrow> f s = (r, s') \<Longrightarrow> same_parts s s'"
  by (metis keeps_def snd_conv)

lemma keeps_digest [keeps_intros]: "keeps (append_digest E alg)"
proof -
  have "same_parts s (snd (append_all [cmdline_append_option E a b, cmdline_append_uint64_base10 E c x, cmdline_append_hex E d y] s))" for s a b c d x y
    using keeps_append_all [of "[cmdline_append_option E a b, cmdline_append_uint64_base10 E c x, cmdline_append_hex E d y]"]
    unfolding keeps_def by (simp add: keeps_intros [unfolded keeps_def] keeps_def del: append_all.simps)
  then show ?thesis unfolding keeps_def append_digest_def Let_def by (auto simp: same_parts_def simp del: append_all.simps insert_iff)
qed

lemma keeps_verity [keeps_intros]: "keeps (append_verity E h mode)"
  unfolding keeps_def
proof
  fix s
  obtain ok s1 where s1: "(if mode = AVB_HASHTREE_ERROR_MODE_RESTART_AND_INVALIDATE
      then cmdline_append_option E (ascii ''androidboot.vbmeta.invalidate_on_error'') (ascii ''yes'') s else (True, s)) = (ok, s1)" by (cases "if mode = AVB_HASHTREE_ERROR_MODE_RESTART_AND_INVALIDATE
      then cmdline_append_option E (ascii ''androidboot.vbmeta.invalidate_on_error'') (ascii ''yes'') s else (True, s)")
  then have same: "same_parts s s1" using keepsD [OF keeps_option] by (auto simp: same_parts_def split: if_splits)
  have opt: "same_parts t (snd (cmdline_append_option E key v t))" for t key v using keeps_option by (simp add: keeps_def)
  have "same_parts s1 (s1\<lparr>slot_data := (slot_data s1)\<lparr>cmdline := c\<rparr>, next_req := n\<rparr>)" for c n by (simp add: same_parts_def)
  then show "same_parts s (snd (append_verity E h mode s))"
    unfolding append_verity_def s1 Let_def using same opt same_parts_trans by (auto split: prod.split) blast+
qed

lemma append_options_same:
  assumes "avb_append_options E h alg mode s = (r, s')"
  shows "same_parts s s'"
proof -
  let ?fs = "[cmdline_append_option E (ascii ''androidboot.vbmeta.device'') (ascii ''PARTUUID=$(ANDROID_VBMETA_PARTUUID)''),
             cmdline_append_version E (ascii ''androidboot.vbmeta.avb_version'') (ucast AVB_VERSION_MAJOR) (ucast AVB_VERSION_MINOR)]"
  let ?gs = "\<lambda>x. [cmdline_append_option E (ascii ''androidboot.vbmeta.device_state'') x, append_digest E alg, append_verity E h mode]"
  have "keeps (append_all ?fs)" "keeps (append_all (?gs x))" for x
    by (simp_all add: keeps_intros del: append_all.simps)
  note keepsD [OF this(1)] keepsD [OF this(2)]
  then show ?thesis
    using assms unfolding avb_append_options_def by (auto simp del: append_all.simps split: prod.splits if_splits) (blast intro: same_parts_trans)+
qed

lemma slot_options_same: "slot_options E h mode s = (Inr u, s') \<Longrightarrow> same_parts s s'"
  by (auto simp: slot_options_def steps set_cmdline_def same_parts_def split: if_splits prod.splits dest!: append_options_same)

lemma slot_cmdline_same:
  assumes "slot_cmdline E suffix mode s = (Inr u, s')"
  shows "same_parts s s'"
proof -
  obtain v vs name where v: "vbmeta_images (slot_data s) = v # vs" "vb_partition_name v = Some name"
    using assms by (auto simp: slot_cmdline_def split: list.splits option.splits)
  let ?t = "s\<lparr>next_req := next_req s + 1, slot_data := (slot_data s)\<lparr>ab_suffix := Some suffix\<rparr>\<rparr>"
  obtain h s1 where o1: "slot_options E h mode ?t = (Inr (), s1)"
    and "(case cmdline (slot_data s1) of None \<Rightarrow> (Inr (), s1)
      | Some c \<Rightarrow> (case avb_sub_cmdline E (next_req s1) c suffix (name \<noteq> ascii ''vbmeta'') (subst_list s1) of
          (None, n) \<Rightarrow> (Inl (Out AVB_SLOT_VERIFY_RESULT_ERROR_OOM), s1\<lparr>next_req := n\<rparr>)
        | (Some new_cmdline, n) \<Rightarrow> set_cmdline (Some new_cmdline) (s1\<lparr>next_req := n\<rparr>))) = (Inr u, s')"
    using assms unfolding slot_cmdline_def v list.case option.case Let_def bind_Inr step_simps
    by - (elim exE conjE, hypsubst_thin, auto)
  then have "same_parts s1 s'" by (auto simp: set_cmdline_def same_parts_def split: option.splits prod.splits)
  then show ?thesis using slot_options_same [OF o1] by (simp add: same_parts_def)
qed

lemma no_ok_options: "no_ok (slot_options E h mode)"
  by (auto simp: no_ok_def slot_options_def bind_Inl assert_step_def new_req_def when_out_def leave_def give_def set_cmdline_def
    split: if_splits prod.splits)

lemma no_ok_cmdline: "no_ok (slot_cmdline E suffix mode)"
proof -
  let ?last = "\<lambda>x s. case cmdline (slot_data s) of None \<Rightarrow> (Inr (), s)
      | Some c \<Rightarrow> (case avb_sub_cmdline E (next_req s) c suffix x (subst_list s) of
          (None, n) \<Rightarrow> (Inl (Out AVB_SLOT_VERIFY_RESULT_ERROR_OOM), s\<lparr>next_req := n\<rparr>)
        | (Some new_cmdline, n) \<Rightarrow> set_cmdline (Some new_cmdline) (s\<lparr>next_req := n\<rparr>))"
  have l: "no_ok (?last x)" for x by (auto simp: no_ok_def set_cmdline_def split: option.split prod.split)
  have a: "no_ok (\<lambda>s. (Inr (), f s))" for f by (simp add: no_ok_def)
  have "no_ok (bind_step (assert_step c) (\<lambda>_. bind_step (new_req E) (\<lambda>a. bind_step (when_out (a = 0) AVB_SLOT_VERIFY_RESULT_ERROR_OOM) (\<lambda>_.
      bind_step (\<lambda>s. (Inr (), s\<lparr>slot_data := (slot_data s)\<lparr>ab_suffix := Some suffix\<rparr>\<rparr>)) (\<lambda>_. bind_step (slot_options E h mode) (\<lambda>_. ?last x))))))" for c h x
    by (intro no_ok_bind no_ok_basic l a no_ok_options) simp
  then show ?thesis unfolding no_ok_def slot_cmdline_def Let_def by (auto split: list.split option.split)
qed

lemma slot_verify_ok:
  assumes "length (ctx_block (av_sha256 E)) = 128" "length (ctx_block (av_sha512 E)) = 256" "read_persistent_value (av_ops E) = None"
    and "avb_slot_verify E requested suffix False mode = Inr (AVB_SLOT_VERIFY_RESULT_OK, D)"
  shows "\<exists>d. D = Some d \<and> slot_ok E requested d"
proof -
  obtain s s' where run: "vbmeta_depth 3 E requested suffix False main_args
      \<lparr>slot_data = empty_slot, next_req = 4, subst_list = [], out_algorithm_type = 0\<rparr> = (Inr AVB_SLOT_VERIFY_RESULT_OK, s)"
    and cmd: "slot_cmdline E suffix mode s = (Inr (), s')" and D: "D = Some (slot_data s')"
    using assms(4) no_ok_cmdline [of E suffix mode]
    by (auto simp: avb_slot_verify_def load_and_verify_vbmeta_def no_ok_def split: if_splits sum.splits prod.splits avb_exit.splits)
  have "slot_ok E requested (slot_data s)"
    by (rule depth_main_ok [OF assms(1-3) run]) (simp_all add: empty_slot_def main_args_def)
  then have "slot_ok E requested (slot_data s')"
    using slot_cmdline_same [OF cmd] by (simp add: slot_ok_def same_parts_def images_ok_def parts_ok_def)
  then show ?thesis using D by blast
qed

section \<open>The depth of the recursion\<close>

text \<open>A chained image has no chained images, and only the image of \<^verbatim>\<open>vbmeta\<close> is looked for in \<^verbatim>\<open>boot\<close>: three levels are all there are.\<close>

definition agree :: "(vbmeta_args \<Rightarrow> 'a) \<Rightarrow> (vbmeta_args \<Rightarrow> 'a) \<Rightarrow> bool" where
  "agree f g \<longleftrightarrow> (\<forall>args. va_location args \<noteq> 0 \<longrightarrow> f args = g args)"

lemma bind_when_out: "bind_step (when_out c x) f = (if c then leave (Out x) else f ())"
  by (auto simp: bind_step_def when_out_def leave_def give_def fun_eq_iff)

lemma chain_cong:
  assumes "is_main_vbmeta args \<Longrightarrow> agree rec rec'"
  shows "chain_case rec args = chain_case rec' args"
proof (cases "is_main_vbmeta args")
  case True
  then have "rec a = rec' a" if "va_location a \<noteq> 0" for a using assms that by (simp add: agree_def)
  then show ?thesis unfolding chain_case_def [abs_def] bind_when_out Let_def by (auto intro!: ext split: option.split)
qed (simp add: chain_case_def [abs_def] bind_when_out)

lemma descriptors_cong:
  assumes "is_main_vbmeta args \<Longrightarrow> agree rec rec'"
  shows "vbmeta_descriptors rec E requested suffix allow args tf m buf num ret = vbmeta_descriptors rec' E requested suffix allow args tf m buf num ret"
proof -
  have "chain_case rec args = chain_case rec' args" using assms by (rule chain_cong)
  note c = this
  have "descriptor_case rec E requested suffix allow args tf m = descriptor_case rec' E requested suffix allow args tf m"
    unfolding descriptor_case_def [abs_def] c by (rule refl)
  then have "descriptor_loop rec E requested suffix allow args tf m ps = descriptor_loop rec' E requested suffix allow args tf m ps" for ps
    by (induction ps) (auto intro!: ext)
  note l = this
  show ?thesis unfolding vbmeta_descriptors_def l by (rule refl)
qed

lemma body_cong:
  assumes "is_main_vbmeta args \<Longrightarrow> agree rec rec'"
    and "is_main_vbmeta args \<Longrightarrow> name_is_vbmeta (va_name args) \<Longrightarrow> rec (boot_args (va_out args)) = rec' (boot_args (va_out args))"
  shows "vbmeta_body rec E requested suffix allow args = vbmeta_body rec' E requested suffix allow args"
proof -
  have c: "vbmeta_descriptors rec E requested suffix allow args tf m buf num ret = vbmeta_descriptors rec' E requested suffix allow args tf m buf num ret" for tf m buf num ret
    using assms(1) by (rule descriptors_cong)
  have p: "process_vbmeta rec E requested suffix allow args = process_vbmeta rec' E requested suffix allow args"
    unfolding process_vbmeta_def [abs_def] accept_vbmeta_def c by (rule refl)
  have "read_vbmeta rec E requested suffix allow args = read_vbmeta rec' E requested suffix allow args"
  proof (cases "is_main_vbmeta args \<and> name_is_vbmeta (va_name args)")
    case True
    then have "rec (boot_args (va_out args)) = rec' (boot_args (va_out args))" using assms(2) by blast
    note b = this
    show ?thesis unfolding read_vbmeta_def [abs_def] p b by (rule refl)
  next
    case False
    then have "(is_main_vbmeta args \<and> c \<and> name_is_vbmeta (va_name args)) = False" for c by blast
    note b = this
    show ?thesis unfolding read_vbmeta_def [abs_def] p b if_False by (rule refl)
  qed
  note r = this
  show ?thesis unfolding body_eq named_vbmeta_def r by (rule refl)
qed

lemma depth_chain: "va_location args \<noteq> 0 \<Longrightarrow> vbmeta_depth (Suc d) E requested suffix allow args = vbmeta_depth (Suc e) E requested suffix allow args"
  unfolding vbmeta_depth.simps by (rule body_cong) (simp_all add: is_main_vbmeta_def)

lemma depth_boot: "vbmeta_depth (Suc (Suc d)) E requested suffix allow (boot_args b) = vbmeta_depth (Suc (Suc e)) E requested suffix allow (boot_args b)"
  unfolding vbmeta_depth.simps(2) [of "Suc _"]
  by (rule body_cong) (auto simp: agree_def boot_args_def ascii_def intro!: depth_chain simp del: vbmeta_depth.simps)

lemma depth_enough: "vbmeta_depth (Suc (Suc (Suc d))) E requested suffix allow args = vbmeta_depth 3 E requested suffix allow args"
proof -
  have "vbmeta_depth (Suc (Suc (Suc d))) E requested suffix allow args = vbmeta_depth (Suc (Suc (Suc 0))) E requested suffix allow args"
    unfolding vbmeta_depth.simps(2) [of "Suc (Suc _)"]
    by (rule body_cong) (auto simp: agree_def intro!: depth_chain depth_boot simp del: vbmeta_depth.simps)
  then show ?thesis by (simp only: numeral_3_eq_3)
qed

end
