(* ===== verification/Avb_Util_Facts.thy ===== *)
theory Avb_Util_Facts
  imports Avb_Descriptor "HOL-Library.Sublist"
begin

text \<open>
  The string functions of libavb against their specifications: the search for a substring, the replacement of all occurrences, the
  check of UTF-8, and the numbers written in base 10 and 16, which can be read back.
\<close>

unbundle bit_operations_syntax

section \<open>Search and replacement\<close>

lemma strstr_match: "strstr_match h needle = prefix needle h"
  by (induction h needle rule: strstr_match.induct) auto

lemma strstr_first:
  assumes "needle \<noteq> []"
  shows "avb_strstr h needle = (if prefix needle h then Some h else case h of [] \<Rightarrow> None | c # h' \<Rightarrow> avb_strstr h' needle)"
  using assms by (cases h; cases needle) (auto simp: strstr_match avb_strstr.simps)

lemma strstr_none: "avb_strstr h [] = None"
  by (induction h) (simp_all add: avb_strstr.simps)

text \<open>All occurrences replaced, from the left, in the text that is not replaced yet.\<close>

function replace_all :: "'a list \<Rightarrow> 'a list \<Rightarrow> 'a list \<Rightarrow> 'a list" where
  "replace_all search rep str =
     (case str of [] \<Rightarrow> []
      | c # cs \<Rightarrow> if search \<noteq> [] \<and> prefix search str then rep @ replace_all search rep (drop (length search) str)
         else c # replace_all search rep cs)"
  by pat_completeness auto
termination
  by (relation "measure (\<lambda>(search, rep, str). length str)") auto

declare replace_all.simps [simp del] replace_loop.simps [simp del] avb_strstr.simps(2) [simp del]

lemma strstr_replace:
  "case avb_strstr str search of
     None \<Rightarrow> replace_all search rep str = str
   | Some s \<Rightarrow> str = take (length str - length s) str @ s \<and>
       replace_all search rep str = take (length str - length s) str @ rep @ replace_all search rep (drop (length search) s)"
proof (cases "search = []")
  case True
  have "replace_all [] rep str = str" by (induction str) (subst replace_all.simps, simp)+
  then show ?thesis using True by (simp add: strstr_none)
next
  case False
  then show ?thesis
  proof (induction str)
    case Nil
    show ?case by (simp add: replace_all.simps)
  next
    case (Cons c cs)
    show ?case
    proof (cases "prefix search (c # cs)")
      case True
      then show ?thesis using Cons.prems by (simp add: strstr_first replace_all.simps [of search rep "c # cs"])
    next
      case no: False
      have r: "replace_all search rep (c # cs) = c # replace_all search rep cs" using no by (subst replace_all.simps) simp
      show ?thesis
      proof (cases "avb_strstr cs search")
        case None
        then show ?thesis using Cons no r by (simp add: strstr_first)
      next
        case (Some s)
        then have "length s \<le> length cs" by (rule strstr_suffix)
        then have "take (length (c # cs) - length s) (c # cs) = c # take (length cs - length s) cs" by (simp add: Suc_diff_le)
        then show ?thesis using Cons no r Some by (simp add: strstr_first)
      qed
    qed
  qed
qed

lemma replace_loop_all:
  assumes "\<And>i. n \<le> i \<Longrightarrow> alloc i"
  shows "\<exists>r rest n'. replace_loop alloc n ret str search rep = (False, r, rest, n') \<and> n \<le> n' \<and>
    (case r of None \<Rightarrow> ret = None \<and> rest = replace_all search rep str
     | Some t \<Rightarrow> t @ rest = (case ret of None \<Rightarrow> [] | Some t0 \<Rightarrow> t0) @ replace_all search rep str)"
  using assms
proof (induction alloc n ret str search rep rule: replace_loop.induct)
  case (1 alloc n ret str search rep)
  show ?case
  proof (cases "avb_strstr str search")
    case None
    then have "replace_all search rep str = str" using strstr_replace [where str = str and search = search and rep = rep] by simp
    then show ?thesis using None by (subst replace_loop.simps) (auto split: option.split)
  next
    case (Some s)
    let ?b = "take (length str - length s) str"
    let ?new = "case ret of None \<Rightarrow> ?b @ rep | Some r \<Rightarrow> r @ ?b @ rep"
    have ne: "str \<noteq> []" using Some by auto
    have "replace_all search rep str = ?b @ rep @ replace_all search rep (drop (length search) s)"
      using strstr_replace [where str = str and search = search and rep = rep] Some by simp
    note all = this
    have ok: "\<not> \<not> alloc n" using "1.prems" [of n] by simp
    have later: "\<And>i. n + 1 \<le> i \<Longrightarrow> alloc i" using "1.prems" by simp
    obtain r rest n' where l: "replace_loop alloc (n + 1) (Some ?new) (drop (length search) s) search rep = (False, r, rest, n')" "n + 1 \<le> n'"
      "case r of None \<Rightarrow> Some ?new = None \<and> rest = replace_all search rep (drop (length search) s)
       | Some t \<Rightarrow> t @ rest = (case Some ?new of None \<Rightarrow> [] | Some t0 \<Rightarrow> t0) @ replace_all search rep (drop (length search) s)"
      using "1.IH" [OF ne Some ok refl refl later] by blast
    have "replace_loop alloc n ret str search rep = (False, r, rest, n')"
      using ne Some ok l(1) by (subst replace_loop.simps) (simp add: Let_def)
    then show ?thesis using l(2,3) all by (auto split: option.splits)
  qed
qed

lemma replace_some:
  assumes "\<And>i. n \<le> i \<Longrightarrow> alloc i"
  shows "\<exists>n'. avb_replace alloc n str search rep = (Some (replace_all search rep str), n') \<and> n < n'"
  using replace_loop_all [of n alloc None str search rep] assms by (auto simp: avb_replace_def split: option.splits)

text \<open>Where the request for the copy behind the last replacement fails, the rest of the text is lost.\<close>

lemma replace_truncated:
  assumes "avb_strstr str search = Some s" "avb_strstr (drop (length search) s) search = None" "alloc n" "\<not> alloc (n + 1)"
  shows "avb_replace alloc n str search rep = (Some (take (length str - length s) str @ rep), n + 2)"
proof -
  have ne: "str \<noteq> []" using assms(1) by auto
  have "replace_loop alloc (n + 1) r (drop (length search) s) search rep = (False, r, drop (length search) s, n + 1)" for r
    by (subst replace_loop.simps) (simp add: assms(2))
  moreover have "replace_loop alloc n None str search rep =
      replace_loop alloc (n + 1) (Some (take (length str - length s) str @ rep)) (drop (length search) s) search rep"
    by (subst replace_loop.simps) (simp add: ne assms(1,3))
  ultimately show ?thesis using assms(4) by (simp add: avb_replace_def)
qed

section \<open>UTF-8\<close>

text \<open>A character: a first byte in one of four ranges and the number of further bytes that belongs to it.\<close>

definition utf8_more :: "8 word \<Rightarrow> nat option" where
  "utf8_more c = (if c < 0x80 then Some 0 else if 0xc0 \<le> c \<and> c < 0xe0 then Some 1 else if 0xe0 \<le> c \<and> c < 0xf0 then Some 2
     else if 0xf0 \<le> c \<and> c < 0xf8 then Some 3 else None)"

definition utf8_next :: "8 word \<Rightarrow> bool" where
  "utf8_next c \<longleftrightarrow> 0x80 \<le> c \<and> c < 0xc0"

definition utf8_char :: "8 word list \<Rightarrow> bool" where
  "utf8_char s \<longleftrightarrow> (\<exists>c cs. s = c # cs \<and> utf8_more c = Some (length cs) \<and> list_all utf8_next cs)"

lemma byte_cases:
  assumes "list_all (\<lambda>n. P (word_of_nat n)) [0..<256]"
  shows "P (c :: 8 word)"
proof -
  have "unat c \<in> set [0..<256]" using unsigned_less [of c] by simp
  then have "P (word_of_nat (unat c))" using assms unfolding list_all_iff by blast
  then show ?thesis by simp
qed

lemma utf8_bytes:
  "(c AND (0x80 OR 0x40) = 0x80) = utf8_next c"
  "\<not> c < 0x80 \<Longrightarrow> (c AND (0x80 OR 0x40 OR 0x20) = 0x80 OR 0x40) = (utf8_more c = Some 1)"
  "\<not> c < 0x80 \<Longrightarrow> (c AND (0x80 OR 0x40 OR 0x20 OR 0x10) = 0x80 OR 0x40 OR 0x20) = (utf8_more c = Some 2)"
  "\<not> c < 0x80 \<Longrightarrow> (c AND (0x80 OR 0x40 OR 0x20 OR 0x10 OR 0x08) = 0x80 OR 0x40 OR 0x20 OR 0x10) = (utf8_more c = Some 3)"
proof -
  show "(c AND (0x80 OR 0x40) = 0x80) = utf8_next c" by (rule byte_cases [of _ c]) code_simp
  have "\<not> c < 0x80 \<longrightarrow> (c AND (0x80 OR 0x40 OR 0x20) = 0x80 OR 0x40) = (utf8_more c = Some 1)" by (rule byte_cases [of _ c]) code_simp
  then show "\<not> c < 0x80 \<Longrightarrow> (c AND (0x80 OR 0x40 OR 0x20) = 0x80 OR 0x40) = (utf8_more c = Some 1)" by blast
  have "\<not> c < 0x80 \<longrightarrow> (c AND (0x80 OR 0x40 OR 0x20 OR 0x10) = 0x80 OR 0x40 OR 0x20) = (utf8_more c = Some 2)"
    by (rule byte_cases [of _ c]) code_simp
  then show "\<not> c < 0x80 \<Longrightarrow> (c AND (0x80 OR 0x40 OR 0x20 OR 0x10) = 0x80 OR 0x40 OR 0x20) = (utf8_more c = Some 2)" by blast
  have "\<not> c < 0x80 \<longrightarrow> (c AND (0x80 OR 0x40 OR 0x20 OR 0x10 OR 0x08) = 0x80 OR 0x40 OR 0x20 OR 0x10) = (utf8_more c = Some 3)"
    by (rule byte_cases [of _ c]) code_simp
  then show "\<not> c < 0x80 \<Longrightarrow> (c AND (0x80 OR 0x40 OR 0x20 OR 0x10 OR 0x08) = 0x80 OR 0x40 OR 0x20 OR 0x10) = (utf8_more c = Some 3)" by blast
qed

lemma utf8_first: "utf8_loop 0 (c # cs) = (case utf8_more c of None \<Rightarrow> False | Some k \<Rightarrow> utf8_loop k cs)"
proof (cases "c < 0x80")
  case True
  then show ?thesis unfolding utf8_loop.simps by (simp only: utf8_more_def if_True less_numeral_extra(3) if_False option.case)
next
  case False
  have "utf8_more c \<in> {None, Some 1, Some 2, Some 3}" using False by (simp add: utf8_more_def)
  then show ?thesis unfolding utf8_loop.simps utf8_bytes(2-) [OF False] using False by (elim insertE emptyE) simp_all
qed

lemma utf8_rest: "utf8_loop k cs \<longleftrightarrow> k \<le> length cs \<and> list_all utf8_next (take k cs) \<and> utf8_loop 0 (drop k cs)"
proof (induction k arbitrary: cs)
  case (Suc k)
  show ?case
  proof (cases cs)
    case (Cons c cs')
    have "utf8_loop (Suc k) (c # cs') = (utf8_next c \<and> utf8_loop k cs')" unfolding utf8_loop.simps utf8_bytes(1) by simp
    then show ?thesis using Suc Cons by auto
  qed simp
qed simp

lemma utf8_chars: "avb_validate_utf8 bs \<longleftrightarrow> (\<exists>ss. bs = concat ss \<and> list_all utf8_char ss)"
proof -
  have "utf8_loop 0 bs \<Longrightarrow> \<exists>ss. bs = concat ss \<and> list_all utf8_char ss" for bs
  proof (induction "length bs" arbitrary: bs rule: less_induct)
    case less
    show ?case
    proof (cases bs)
      case Nil
      then have "bs = concat [] \<and> list_all utf8_char []" by simp
      then show ?thesis by blast
    next
      case (Cons c cs)
      then obtain k where k: "utf8_more c = Some k" "utf8_loop k cs" using less.prems by (auto simp: utf8_first simp del: utf8_loop.simps(2) split: option.splits)
      then have r: "k \<le> length cs" "list_all utf8_next (take k cs)" "utf8_loop 0 (drop k cs)" by (simp_all add: utf8_rest [of k cs])
      then obtain ss where "drop k cs = concat ss" "list_all utf8_char ss" using less.hyps [of "drop k cs"] Cons by (auto simp: less_Suc_eq_le)
      then have "bs = concat ((c # take k cs) # ss) \<and> list_all utf8_char ((c # take k cs) # ss)"
        using Cons k r append_take_drop_id [of k cs] by (auto simp: utf8_char_def)
      then show ?thesis by blast
    qed
  qed
  moreover have "list_all utf8_char ss \<Longrightarrow> utf8_loop 0 (concat ss)" for ss
  proof (induction ss)
    case (Cons s ss)
    then obtain c cs where "s = c # cs" "utf8_more c = Some (length cs)" "list_all utf8_next cs" by (auto simp: utf8_char_def)
    then show ?case using Cons by (simp add: utf8_first utf8_rest [of "length cs"] del: utf8_loop.simps(2))
  qed simp
  ultimately show ?thesis by (auto simp: avb_validate_utf8_def)
qed

section \<open>Numbers\<close>

lemma load_Suc: "load m p (Suc n) = m p # load m (p + 1) n"
proof -
  have "[0..<Suc n] = 0 # map Suc [0..<n]" by (simp add: upt_conv_Cons map_Suc_upt del: upt_Suc)
  then show ?thesis unfolding load_def by (simp add: comp_def add.assoc del: upt_Suc)
qed

lemma uint64_loop_digits:
  assumes "load m p (length cs + 1) = cs @ [0]" "\<And>c. c \<in> set cs \<Longrightarrow> c \<noteq> 0 \<and> digit_of base c = Some (g c)"
  shows "uint64_loop m base p a = Some (Some (foldl (\<lambda>a c. a * base + g c) a cs))"
  using assms
proof (induction cs arbitrary: p a)
  case Nil
  then show ?case by (subst uint64_loop.simps) (simp add: load_def)
next
  case (Cons c cs)
  have "m p = c" "load m (p + 1) (length cs + 1) = cs @ [0]"
    using Cons.prems(1) by (simp_all add: load_Suc)
  then show ?case using Cons by (subst uint64_loop.simps) simp
qed

lemma rev_digits:
  assumes "unat v < 10 ^ k"
  shows "foldr (\<lambda>c a. a * 10 + (ucast c - 0x30)) (rev_digits k v) 0 = v" "0 < k \<Longrightarrow> rev_digits k v \<noteq> []"
    "set (rev_digits k v) \<subseteq> {c. 0x30 \<le> c \<and> c \<le> 0x39}"
proof -
  have digit: "ucast (ucast (v mod 10 :: 64 word) + 0x30 :: 8 word) - 0x30 = v mod 10 \<and> 0x30 \<le> (ucast (v mod 10) + 0x30 :: 8 word) \<and> ucast (v mod 10) + 0x30 \<le> (0x39 :: 8 word)" for v :: "64 word"
  proof -
    have "unat (v mod 10) < 10" by (simp add: unat_mod)
    then have "list_all (\<lambda>n. ucast (ucast (word_of_nat n :: 64 word) + 0x30 :: 8 word) - 0x30 = (word_of_nat n :: 64 word) \<and>
        0x30 \<le> (ucast (word_of_nat n :: 64 word) + 0x30 :: 8 word) \<and> ucast (word_of_nat n :: 64 word) + 0x30 \<le> (0x39 :: 8 word)) [0..<10] \<and> unat (v mod 10) \<in> set [0..<10]"
      by (auto simp add: upt_rec)
    then have "ucast (ucast (word_of_nat (unat (v mod 10)) :: 64 word) + 0x30 :: 8 word) - 0x30 = (word_of_nat (unat (v mod 10)) :: 64 word) \<and>
        0x30 \<le> (ucast (word_of_nat (unat (v mod 10)) :: 64 word) + 0x30 :: 8 word) \<and> ucast (word_of_nat (unat (v mod 10)) :: 64 word) + 0x30 \<le> (0x39 :: 8 word)"
      unfolding list_all_iff by blast
    then show ?thesis by simp
  qed
  show "foldr (\<lambda>c a. a * 10 + (ucast c - 0x30)) (rev_digits k v) 0 = v" using assms
  proof (induction k arbitrary: v)
    case 0
    then show ?case by (simp add: unat_eq_0)
  next
    case (Suc k)
    have "unat (v div 10) < 10 ^ k" using Suc.prems by (simp add: unat_div less_mult_imp_div_less mult.commute)
    then have "foldr (\<lambda>c a. a * 10 + (ucast c - 0x30)) (if v div 10 = 0 then [] else rev_digits k (v div 10)) 0 = v div 10"
      using Suc.IH by simp
    then show ?case using digit [of v] div_mult_mod_eq [of v 10] by simp
  qed
  show "0 < k \<Longrightarrow> rev_digits k v \<noteq> []" by (cases k) simp_all
  show "set (rev_digits k v) \<subseteq> {c. 0x30 \<le> c \<and> c \<le> 0x39}"
  proof (induction k arbitrary: v)
    case (Suc k)
    then show ?case using digit [of v] by (auto split: if_splits)
  qed simp
qed

lemma base10_read:
  assumes "load m p (length (uint64_to_base10 v) + 1) = uint64_to_base10 v @ [0]"
  shows "uint64_loop m 10 p 0 = Some (Some v)"
proof -
  have "unat v < 2 ^ 64" using unsigned_less [of v] by simp
  then have "unat v < 10 ^ 31" by (rule order.strict_trans) simp
  note r = rev_digits [OF this]
  have "uint64_loop m 10 p 0 = Some (Some (foldl (\<lambda>a c. a * 10 + (ucast c - 0x30)) 0 (uint64_to_base10 v)))"
  proof (rule uint64_loop_digits [OF assms])
    fix c
    assume "c \<in> set (uint64_to_base10 v)"
    then have "0x30 \<le> c" "c \<le> 0x39" using r(3) by (auto simp: uint64_to_base10_def AVB_MAX_DIGITS_UINT64_def)
    then show "c \<noteq> 0 \<and> digit_of 10 c = Some (ucast c - 0x30)" by (auto simp: digit_of_def)
  qed
  then show ?thesis using r(1) by (simp add: uint64_to_base10_def AVB_MAX_DIGITS_UINT64_def foldl_conv_foldr)
qed

end
