(* ===== verification/Avb_Slot_Props.thy ===== *)
theory Avb_Slot_Props
  imports Avb_Props Avb_Slot_Facts Avb_Util_Facts
begin

text \<open>
  The properties of the verification of a slot, of the loops over descriptors and of the strings of libavb, with a slot whose
  verification ends without an error.
\<close>

unbundle bit_operations_syntax

section \<open>A command line is made where there is memory\<close>

definition mem_left :: "avb_env \<Rightarrow> avb_state \<Rightarrow> bool" where
  "mem_left E s \<longleftrightarrow> (\<forall>i\<ge>next_req s. av_alloc E i)"

text \<open>Appending succeeds, leaves a command line, and leaves memory for more.\<close>

definition appends :: "avb_env \<Rightarrow> (avb_state \<Rightarrow> bool \<times> avb_state) \<Rightarrow> bool" where
  "appends E f \<longleftrightarrow> (\<forall>s. mem_left E s \<longrightarrow> (\<exists>s'. f s = (True, s') \<and> mem_left E s' \<and> cmdline (slot_data s') \<noteq> None))"

lemma appends_option: "appends E (cmdline_append_option E key v)"
  by (auto simp: appends_def mem_left_def cmdline_append_option_def Let_def)

lemma appends_derived: "appends E (cmdline_append_version E key a b)" "appends E (cmdline_append_uint64_base10 E key v)" "appends E (cmdline_append_hex E key bs)"
proof -
  show "appends E (cmdline_append_version E key a b)" "appends E (cmdline_append_uint64_base10 E key v)"
    using appends_option by (auto simp: appends_def cmdline_append_version_def cmdline_append_uint64_base10_def)
  have "mem_left E (s\<lparr>next_req := next_req s + 1\<rparr>)" if "mem_left E s" for s using that by (auto simp: mem_left_def)
  then show "appends E (cmdline_append_hex E key bs)"
    using appends_option by (auto simp: appends_def cmdline_append_hex_def avb_bin2hex_def Let_def mem_left_def)
qed

lemma appends_all: "fs \<noteq> [] \<Longrightarrow> list_all (appends E) fs \<Longrightarrow> appends E (append_all fs)"
proof (induction fs)
  case (Cons f fs)
  show ?case
  proof (cases fs)
    case Nil
    then show ?thesis using Cons.prems by (auto simp: appends_def)
  next
    case (Cons g gs)
    then have "appends E (append_all fs)" "appends E f" using Cons.IH Cons.prems by (simp_all del: append_all.simps)
    then show ?thesis unfolding appends_def append_all.simps by (fastforce simp del: append_all.simps)
  qed
qed simp

lemma appends_digest: "alg \<in> {0, 1, 2, 3, 4, 5, 6} \<Longrightarrow> appends E (append_digest E alg)"
proof -
  have "\<exists>s'. append_all [cmdline_append_option E a b, cmdline_append_uint64_base10 E c x, cmdline_append_hex E d y] s = (True, s') \<and>
      mem_left E s' \<and> cmdline (slot_data s') \<noteq> None" if "mem_left E s" for s a b c d x y
  proof -
    have "appends E (append_all [cmdline_append_option E a b, cmdline_append_uint64_base10 E c x, cmdline_append_hex E d y])"
      by (rule appends_all) (simp_all add: appends_option appends_derived)
    then show ?thesis using that by (simp add: appends_def del: append_all.simps)
  qed
  then show "alg \<in> {0, 1, 2, 3, 4, 5, 6} \<Longrightarrow> ?thesis"
    unfolding appends_def append_digest_def Let_def by (auto simp del: append_all.simps)
qed

lemma appends_verity:
  assumes "mem_left E s" "cmdline (slot_data s) \<noteq> None"
  shows "\<exists>s'. append_verity E h mode s = (True, s') \<and> mem_left E s' \<and> cmdline (slot_data s') \<noteq> None"
proof -
  have one: "\<exists>s'. cmdline_append_option E key v t = (True, s') \<and> mem_left E s' \<and> cmdline (slot_data s') \<noteq> None" if "mem_left E t" for key v t
    using appends_option that by (auto simp: appends_def)
  obtain s1 where s1: "(if mode = AVB_HASHTREE_ERROR_MODE_RESTART_AND_INVALIDATE
      then cmdline_append_option E (ascii ''androidboot.vbmeta.invalidate_on_error'') (ascii ''yes'') s else (True, s)) = (True, s1)"
    and g: "mem_left E s1" using assms one [OF assms(1)] by (cases "mode = AVB_HASHTREE_ERROR_MODE_RESTART_AND_INVALIDATE") auto
  obtain n where n: "avb_replace (av_alloc E) (next_req s1) (the (cmdline (slot_data s1))) (ascii ''$(ANDROID_VERITY_MODE)'') (snd (verity_modes mode)) =
      (Some (replace_all (ascii ''$(ANDROID_VERITY_MODE)'') (snd (verity_modes mode)) (the (cmdline (slot_data s1)))), n)" "next_req s1 < n"
    using replace_some [of "next_req s1" "av_alloc E" "the (cmdline (slot_data s1))" "ascii ''$(ANDROID_VERITY_MODE)''" "snd (verity_modes mode)"] g
    unfolding mem_left_def by blast
  have "mem_left E (s1\<lparr>slot_data := d, next_req := n\<rparr>)" for d using g n(2) by (auto simp: mem_left_def)
  then show ?thesis using one [OF assms(1)] one unfolding append_verity_def s1 by (auto simp: n Let_def)
qed

lemma append_all_snoc: "append_all fs s = (True, s1) \<Longrightarrow> f s1 = (True, s2) \<Longrightarrow> append_all (fs @ [f]) s = (True, s2)"
  by (induction fs arbitrary: s) (auto split: prod.splits if_splits)

lemma append_options_run:
  assumes "mem_left E s" "alg \<in> {0, 1, 2, 3, 4, 5, 6}" "fst (read_is_device_unlocked (av_ops E)) = AVB_IO_RESULT_OK"
  shows "\<exists>s'. avb_append_options E h alg mode s = (AVB_SLOT_VERIFY_RESULT_OK, s') \<and> mem_left E s' \<and> cmdline (slot_data s') \<noteq> None"
proof -
  obtain unlocked where u: "read_is_device_unlocked (av_ops E) = (AVB_IO_RESULT_OK, unlocked)" using assms(3) by (cases "read_is_device_unlocked (av_ops E)") simp
  have run: "\<exists>s'. append_all fs t = (True, s') \<and> mem_left E s' \<and> cmdline (slot_data s') \<noteq> None" if "fs \<noteq> []" "list_all (appends E) fs" "mem_left E t" for fs t
    using appends_all [OF that(1,2)] that(3) by (auto simp: appends_def)
  let ?fs = "[cmdline_append_option E (ascii ''androidboot.vbmeta.device'') (ascii ''PARTUUID=$(ANDROID_VBMETA_PARTUUID)''),
             cmdline_append_version E (ascii ''androidboot.vbmeta.avb_version'') (ucast AVB_VERSION_MAJOR) (ucast AVB_VERSION_MINOR)]"
  obtain s1 where s1: "append_all ?fs s = (True, s1)" "mem_left E s1"
    using run [of ?fs s] assms(1) by (auto simp: appends_option appends_derived simp del: append_all.simps)
  let ?gs = "[cmdline_append_option E (ascii ''androidboot.vbmeta.device_state'') (ascii (if unlocked then ''unlocked'' else ''locked'')), append_digest E alg]"
  have gs: "list_all (appends E) ?gs" by (simp add: appends_option appends_digest [OF assms(2)])
  obtain s2 where s2: "append_all ?gs s1 = (True, s2)" "mem_left E s2" "cmdline (slot_data s2) \<noteq> None"
    using run [of ?gs s1, OF _ gs s1(2)] by blast
  obtain s3 where s3: "append_verity E h mode s2 = (True, s3)" "mem_left E s3" "cmdline (slot_data s3) \<noteq> None" using appends_verity [OF s2(2,3)] by blast
  have "append_all (?gs @ [append_verity E h mode]) s1 = (True, s3)"
    by (rule append_all_snoc [where f = "append_verity E h mode", OF s2(1) s3(1)])
  then show ?thesis using s1(1) s3(2,3) by (simp add: avb_append_options_def u del: append_all.simps)
qed

lemma subst_run:
  assumes "\<And>i. n \<le> i \<Longrightarrow> alloc i" "alloc = av_alloc E"
  shows "\<exists>r n'. subst_loop E substs str n = (Some r, n')"
  using assms(1)
proof (induction substs arbitrary: str n)
  case (Cons p substs)
  obtain token v where p: "p = (token, v)" by (cases p)
  obtain n' where "avb_replace (av_alloc E) n str token v = (Some (replace_all token v str), n')" "n < n'"
    using replace_some [of n alloc str token v] Cons.prems assms(2) by auto
  then show ?case using Cons.IH [of n'] Cons.prems by (simp add: p)
qed simp

lemma guid_run:
  assumes "\<And>i. n \<le> i \<Longrightarrow> av_alloc E i" "\<And>part. fst (get_unique_guid_for_partition (av_ops E) part) = AVB_IO_RESULT_OK"
    and "\<And>part token. (part, token) \<in> set pts \<Longrightarrow> avb_str_concat AVB_PART_NAME_MAX_SIZE part sfx \<noteq> None"
  shows "\<exists>r n'. guid_loop E sfx pts str n = (Some r, n') \<and> n \<le> n'"
  using assms(1,3)
proof (induction pts arbitrary: str n)
  case (Cons p pts)
  obtain part token where p: "p = (part, token)" by (cases p)
  obtain name where name: "avb_str_concat AVB_PART_NAME_MAX_SIZE part sfx = Some name" using Cons.prems(2) [of part token] by (auto simp: p)
  obtain guid where guid: "get_unique_guid_for_partition (av_ops E) name = (AVB_IO_RESULT_OK, guid)"
    using assms(2) [of name] by (cases "get_unique_guid_for_partition (av_ops E) name") simp
  obtain n' where n': "avb_replace (av_alloc E) n str token guid = (Some (replace_all token guid str), n')" "n < n'"
    using replace_some [of n "av_alloc E" str token guid] Cons.prems(1) by blast
  have "\<exists>r n2. guid_loop E sfx pts (replace_all token guid str) n' = (Some r, n2) \<and> n' \<le> n2"
    using n'(2) Cons.prems by (intro Cons.IH) auto
  then show ?case using n' by (auto simp: p name guid)
qed simp

lemma slot_cmdline_run:
  assumes "mem_left E s" "fst (read_is_device_unlocked (av_ops E)) = AVB_IO_RESULT_OK" "out_algorithm_type s \<in> {0, 1, 2, 3, 4, 5, 6}"
    and "\<And>part. fst (get_unique_guid_for_partition (av_ops E) part) = AVB_IO_RESULT_OK"
    and "vbmeta_images (slot_data s) = v # vs" "vb_partition_name v = Some (ascii ''vbmeta'')"
    and "vbmeta_flags (vbmeta_header (vb_mem v) (vb_data v)) AND AVB_VBMETA_IMAGE_FLAGS_VERIFICATION_DISABLED = 0"
  shows "\<exists>s'. slot_cmdline E [] mode s = (Inr (), s')"
proof -
  let ?h = "avb_vbmeta_image_header_to_host_byte_order (load (vb_mem v) (vb_data v) AVB_VBMETA_IMAGE_HEADER_SIZE)"
  let ?t = "s\<lparr>next_req := next_req s + 1, slot_data := (slot_data s)\<lparr>ab_suffix := Some []\<rparr>\<rparr>"
  have a: "av_malloc E (next_req s) \<noteq> 0" using assms(1) by (auto simp: mem_left_def av_alloc_def)
  have "mem_left E ?t" using assms(1) by (auto simp: mem_left_def)
  then obtain s1 where s1: "avb_append_options E ?h (out_algorithm_type ?t) mode ?t = (AVB_SLOT_VERIFY_RESULT_OK, s1)" "mem_left E s1" "cmdline (slot_data s1) \<noteq> None"
    using append_options_run [of E ?t "out_algorithm_type ?t" ?h mode] assms(2,3) by auto
  obtain c where c: "cmdline (slot_data s1) = Some c" using s1(3) by blast
  have o1: "slot_options E ?h mode ?t = (Inr (), s1)"
    using assms(7) s1(1) by (simp add: slot_options_def vbmeta_header_def AVB_VBMETA_IMAGE_HEADER_SIZE_def when_out_def give_def)
  let ?pts = "[(ascii ''system'', ascii ''PARTUUID=$(ANDROID_SYSTEM_PARTUUID)''),
      (ascii ''boot'', ascii ''PARTUUID=$(ANDROID_BOOT_PARTUUID)''), (ascii ''vbmeta'', ascii ''PARTUUID=$(ANDROID_VBMETA_PARTUUID)'')]"
  have fit: "length part < 10 \<Longrightarrow> avb_str_concat AVB_PART_NAME_MAX_SIZE part [] \<noteq> None" for part
    by (simp add: avb_str_concat_def avb_safe_add_def avb_safe_add_to_def AVB_PART_NAME_MAX_SIZE_def word_less_nat_alt unat_of_nat)
  have parts: "avb_str_concat AVB_PART_NAME_MAX_SIZE part [] \<noteq> None" if "(part, token) \<in> set ?pts" for part token
    by (rule fit) (use that in \<open>auto simp: ascii_def\<close>)
  have now: "\<And>i. next_req s1 \<le> i \<Longrightarrow> av_alloc E i" using s1(2) by (simp add: mem_left_def)
  have "\<exists>r n. guid_loop E [] ?pts c (next_req s1) = (Some r, n) \<and> next_req s1 \<le> n"
    by (rule guid_run) (use now assms(4) parts in blast)+
  then obtain r n where r: "guid_loop E [] ?pts c (next_req s1) = (Some r, n)" "next_req s1 \<le> n" by blast
  have later: "\<And>i. n \<le> i \<Longrightarrow> av_alloc E i" using s1(2) r(2) by (simp add: mem_left_def)
  obtain new n' where "subst_loop E (subst_list s1) r n = (Some new, n')"
    using subst_run [OF later refl] by blast
  then have "avb_sub_cmdline E (next_req s1) c [] (ascii ''vbmeta'' \<noteq> ascii ''vbmeta'') (subst_list s1) = (Some new, n')"
    unfolding avb_sub_cmdline_def by (simp only: r(1) simp_thms if_False option.case prod.case)
  then show ?thesis
    using o1 a c unfolding slot_cmdline_def assms(5,6) list.case option.case Let_def
    by (simp add: bind_step_def assert_step_def give_def new_req_def when_out_def set_cmdline_def)
qed

section \<open>A sample slot\<close>

text \<open>A partition \<^verbatim>\<open>vbmeta\<close> with the sample image, on a platform that trusts its key.  The request for memory that fails is one of the
  exponentiation, so the signature is the padded hash.\<close>

definition slot_bytes :: "8 word list" where
  "slot_bytes = (let d = sha256 (sample_header @ sample_aux) in sample_image d (padding_RSA2048_SHA256 @ d))"

definition slot_ops :: AvbOps where
  "slot_ops = \<lparr>read_from_partition = (\<lambda>_ _ _. (AVB_IO_RESULT_OK, slot_bytes)), get_preloaded_partition = None,
     validate_vbmeta_public_key = (\<lambda>key _. (AVB_IO_RESULT_OK, key = sample_key_data)), read_rollback_index = (\<lambda>_. (AVB_IO_RESULT_OK, 0)),
     read_is_device_unlocked = (AVB_IO_RESULT_OK, False), get_unique_guid_for_partition = (\<lambda>_. (AVB_IO_RESULT_OK, ascii ''0a'')),
     get_size_of_partition = None, read_persistent_value = None\<rparr>"

definition slot_env :: avb_env where
  "slot_env = \<lparr>av_ops = slot_ops, av_mem = (\<lambda>_. 0), av_malloc = (\<lambda>i. if i = 7 then 0 else 0x1000), av_sha256 = sample_ctx 128,
     av_sha512 = sample_ctx 256, av_stack = 0\<rparr>"

lemma length_slot_bytes: "length slot_bytes = 1152"
  using length_sha256 [of "sample_header @ sample_aux"]
  by (simp add: slot_bytes_def sample_image_def length_sample Let_def padding_RSA2048_SHA256_def sha256_id_def)

lemma sample_poke: "poke (av_mem slot_env) 0x1000 slot_bytes = mem_of 0x1000 slot_bytes"
  by (rule ext) (simp add: poke_def mem_of_def slot_env_def Let_def)

lemma sample_verified:
  "avb_vbmeta_image_verify (\<lambda>i. i \<noteq> 2) (sample_ctx 128) (sample_ctx 256) (mem_of 0x1000 slot_bytes) 0x1000 1152 =
     (AVB_VBMETA_VERIFY_RESULT_OK, 0x1240, 520)"
  "vbmeta_header (mem_of 0x1000 slot_bytes) 0x1000 = avb_vbmeta_image_header_to_host_byte_order sample_header"
  "load (mem_of 0x1000 slot_bytes) 0x1240 520 = sample_key_data"
proof -
  let ?d = "sha256 (sample_header @ sample_aux)"
  define m where "m = mem_of 0x1000 slot_bytes"
  have len: "length ?d = 32" "length (padding_RSA2048_SHA256 @ ?d) = 256"
    using length_sha256 [of "sample_header @ sample_aux"] by (simp_all add: padding_RSA2048_SHA256_def sha256_id_def)
  have m: "m = mem_of 0x1000 (sample_image ?d (padding_RSA2048_SHA256 @ ?d))" by (simp add: m_def slot_bytes_def Let_def)
  note read = sample_image_read [OF len, folded m]
  have key: "image_key (\<lambda>i. i \<noteq> 2) m 0x1000 = Some sample_rsa_key" by (rule read) simp
  have h: "vbmeta_header m 0x1000 = avb_vbmeta_image_header_to_host_byte_order sample_header"
    using sample_image_parts(1) [OF len] by (simp add: vbmeta_header_def m)
  have wf: "well_formed m 0x1000 1152"
    using read(1) by (simp add: well_formed_def h sample_fields header_ok_def)
  have "signed_image (\<lambda>i. i \<noteq> 2) m 0x1000"
    using read(2-5) key len by (simp add: signed_image_def Let_def signature_of_def alg_digest_def alg_pad_def sample_rsa_key_def)
  then have ok: "fst (avb_vbmeta_image_verify (\<lambda>i. i \<noteq> 2) (sample_ctx 128) (sample_ctx 256) m 0x1000 1152) = AVB_VBMETA_VERIFY_RESULT_OK"
    using vbmeta_verify_ok [of "sample_ctx 128" "sample_ctx 256" 1152 "\<lambda>i. i \<noteq> 2" m "0x1000"] wf key sample_rsa_key by (simp add: sample_ctx_def)
  then have "snd (avb_vbmeta_image_verify (\<lambda>i. i \<noteq> 2) (sample_ctx 128) (sample_ctx 256) m 0x1000 1152) = (0x1240, 520)"
    using vbmeta_verify_key [of "\<lambda>i. i \<noteq> 2" "sample_ctx 128" "sample_ctx 256" m "0x1000" 1152] by (simp add: aux_block_def h sample_fields)
  with ok show "avb_vbmeta_image_verify (\<lambda>i. i \<noteq> 2) (sample_ctx 128) (sample_ctx 256) (mem_of 0x1000 slot_bytes) 0x1000 1152 =
     (AVB_VBMETA_VERIFY_RESULT_OK, 0x1240, 520)" unfolding m_def [symmetric] by (simp add: prod_eq_iff)
  show "vbmeta_header (mem_of 0x1000 slot_bytes) 0x1000 = avb_vbmeta_image_header_to_host_byte_order sample_header" using h by (simp add: m_def)
  show "load (mem_of 0x1000 slot_bytes) 0x1240 520 = sample_key_data"
    using sample_image_parts(6) [OF len] by (simp add: m m_def [symmetric])
qed

lemma foreach_loop_end: "foreach_loop m ds p f p s = Some (Inr (True, s))"
  by (subst foreach_loop.simps) simp

lemma sample_descriptors: "avb_descriptor_get_all True (mem_of 0x1000 slot_bytes) 0x1000 1152 = Some (Inr (Some []))"
proof -
  let ?m = "mem_of 0x1000 slot_bytes"
  have at: "load ?m (0x1000 + word_of_nat k) n = take n (drop k sample_header)" if "k + n \<le> 256" for k n
  proof -
    have "take n (drop k slot_bytes) = take n (drop k sample_header)" using that by (simp add: slot_bytes_def sample_image_def Let_def length_sample)
    then show ?thesis using load_mem_of [of k n slot_bytes "0x1000"] that by (simp add: length_slot_bytes)
  qed
  have "load ?m 0x1000 4 = AVB_MAGIC" using at [of 0 4] by (simp add: sample_header_def AVB_MAGIC_def)
  moreover have "desc_start ?m 0x1000 = 0x1240" "desc_end ?m 0x1000 = 0x1240"
    using at [of 12 8] at [of 96 8] at [of 104 8] by (simp_all add: desc_start_def desc_end_def sample_header_def AVB_MAGIC_def avb_be64toh_def avb_be32toh_def)
  ultimately have "desc_area ?m 0x1000 1152" by (simp add: desc_area_def)
  moreover have "avb_aligned 0x1000" by (simp add: avb_aligned_def)
  ultimately show ?thesis
    using \<open>desc_start ?m 0x1000 = 0x1240\<close> \<open>desc_end ?m 0x1000 = 0x1240\<close>
    by (simp add: avb_descriptor_get_all_def foreach_eq foreach_loop_end)
qed

lemma sample_process:
  assumes "vbmeta_images (slot_data s) = []" "next_req s = 5"
  shows "\<exists>s' v. process_vbmeta rec slot_env [] [] False main_args (mem_of 0x1000 slot_bytes) 0x1000 1152 s = (Inr AVB_SLOT_VERIFY_RESULT_OK, s') \<and>
    next_req s' = 12 \<and> out_algorithm_type s' = 1 \<and> vbmeta_images (slot_data s') = [v] \<and> vb_partition_name v = Some (ascii ''vbmeta'') \<and>
    vb_mem v = mem_of 0x1000 slot_bytes \<and> vb_data v = 0x1000"
proof -
  define m where "m = mem_of 0x1000 slot_bytes"
  define h where "h = avb_vbmeta_image_header_to_host_byte_order sample_header"
  let ?v = "(AVB_VBMETA_VERIFY_RESULT_OK, 0x1240 :: 64 word, 520 :: 64 word)"
  have "(\<lambda>i. av_alloc slot_env (next_req s + i)) = (\<lambda>i. i \<noteq> 2)" using assms(2) by (auto simp: av_alloc_def slot_env_def)
  then have v: "avb_vbmeta_image_verify (\<lambda>i. av_alloc slot_env (next_req s + i)) (av_sha256 slot_env) (av_sha512 slot_env) m 0x1000 1152 = ?v"
    using sample_verified(1) by (simp add: slot_env_def m_def)
  have hd: "avb_vbmeta_image_header_to_host_byte_order (load m 0x1000 AVB_VBMETA_IMAGE_HEADER_SIZE) = h"
    using sample_verified(2) by (simp add: vbmeta_header_def AVB_VBMETA_IMAGE_HEADER_SIZE_def m_def h_def)
  have a1: "vbmeta_switch False ?v t = (Inr AVB_SLOT_VERIFY_RESULT_OK, t)" for t
    by (simp add: vbmeta_switch_def bind_step_def assert_step_def give_def)
  have a2: "check_public_key slot_env False main_args h m 0x1000 0x1240 520 AVB_SLOT_VERIFY_RESULT_OK t = (Inr AVB_SLOT_VERIFY_RESULT_OK, t)" for t
    using sample_verified(3)
    by (simp add: check_public_key_def main_args_def is_main_vbmeta_def slot_env_def slot_ops_def bind_step_def assert_step_def check_io_def give_def m_def Let_def)
  have a3: "check_rollback slot_env False main_args h AVB_SLOT_VERIFY_RESULT_OK t = (Inr AVB_SLOT_VERIFY_RESULT_OK, t)" for t
    by (simp add: check_rollback_def slot_env_def slot_ops_def bind_step_def check_io_def give_def)
  let ?img = "\<lparr>vb_partition_name = Some (ascii ''vbmeta''), vb_mem = m, vb_data = 0x1000,
    vb_size = word_of_nat AVB_VBMETA_IMAGE_HEADER_SIZE + authentication_data_block_size h + auxiliary_data_block_size h, vb_verify_result = AVB_VBMETA_VERIFY_RESULT_OK\<rparr>"
  let ?s1 = "s\<lparr>next_req := 11, slot_data := (slot_data s)\<lparr>vbmeta_images := [?img]\<rparr>\<rparr>"
  have a4: "add_vbmeta_image slot_env main_args h m 0x1000 AVB_VBMETA_VERIFY_RESULT_OK (s\<lparr>next_req := next_req s + 5\<rparr>) = (Inr (), ?s1)"
    using assms by (simp add: add_vbmeta_image_def Let_def main_args_def is_main_vbmeta_def MAX_NUMBER_OF_VBMETA_IMAGES_def avb_strdup_def av_alloc_def slot_env_def)
  have a5: "vbmeta_descriptors rec slot_env [] [] False main_args (vbmeta_flags h) m 0x1000 1152 AVB_SLOT_VERIFY_RESULT_OK ?s1 =
      (Inr AVB_SLOT_VERIFY_RESULT_OK, ?s1\<lparr>next_req := 12\<rparr>)"
    using sample_descriptors by (simp add: vbmeta_descriptors_def bind_step_def new_req_def slot_env_def give_def m_def)
  let ?s2 = "?s1\<lparr>next_req := 12, slot_data := (slot_data ?s1)\<lparr>rollback_indexes := (rollback_indexes (slot_data s))[0 := rollback_index h]\<rparr>, out_algorithm_type := 1\<rparr>"
  have a6: "store_rollback main_args h (?s1\<lparr>next_req := 12\<rparr>) = (Inr (), ?s2)"
    by (simp add: store_rollback_def Let_def main_args_def AVB_MAX_NUMBER_OF_ROLLBACK_INDEX_LOCATIONS_def h_def sample_fields)
  have main: "is_main_vbmeta main_args" by (simp add: is_main_vbmeta_def main_args_def)
  have flags: "vbmeta_flags h = 0" by (simp add: h_def sample_fields)
  have "process_vbmeta rec slot_env [] [] False main_args m 0x1000 1152 s = (Inr AVB_SLOT_VERIFY_RESULT_OK, ?s2)"
    unfolding process_vbmeta_def v accept_vbmeta_def Let_def hd
    by (simp only: bind_step_def a1 a2 a3 a4 a5 [unfolded flags] a6 prod.case sum.case main not_True_eq_False simp_thms when_out_def if_True if_False
      fst_conv snd_conv flags and_zero_eq zero_and_eq give_def)
  then show ?thesis unfolding m_def by (intro exI conjI) (assumption | simp add: m_def)+
qed

lemma sample_slot: "\<exists>D. avb_slot_verify slot_env [] [] False AVB_HASHTREE_ERROR_MODE_EIO = Inr (AVB_SLOT_VERIFY_RESULT_OK, Some D)"
proof -
  let ?s = "\<lparr>slot_data = empty_slot, next_req = 4, subst_list = [], out_algorithm_type = 0\<rparr> :: avb_state"
  let ?rec = "vbmeta_depth 2 slot_env [] [] False"
  obtain s' v where p: "process_vbmeta ?rec slot_env [] [] False main_args (mem_of 0x1000 slot_bytes) 0x1000 1152 (?s\<lparr>next_req := 5\<rparr>) =
      (Inr AVB_SLOT_VERIFY_RESULT_OK, s')" and s': "next_req s' = 12" "out_algorithm_type s' = 1" "vbmeta_images (slot_data s') = [v]"
      "vb_partition_name v = Some (ascii ''vbmeta'')" "vb_mem v = mem_of 0x1000 slot_bytes" "vb_data v = 0x1000"
    using sample_process [of "?s\<lparr>next_req := 5\<rparr>" ?rec] by (auto simp: empty_slot_def)
  have name: "name_bytes (va_name main_args) = ascii ''vbmeta''" "name_is_vbmeta (va_name main_args)" by (simp_all add: main_args_def)
  have utf8: "avb_validate_utf8 (ascii ''vbmeta'')" by (simp add: avb_validate_utf8_def ascii_def)
  have cat: "avb_str_concat AVB_PART_NAME_MAX_SIZE (ascii ''vbmeta'') [] = Some (ascii ''vbmeta'')"
    by (simp add: avb_str_concat_def avb_safe_add_def avb_safe_add_to_def AVB_PART_NAME_MAX_SIZE_def ascii_def)
  have req: "new_req slot_env ?s = (Inr 0x1000, ?s\<lparr>next_req := 5\<rparr>)" by (simp add: new_req_def slot_env_def)
  have io: "read_from_partition (av_ops slot_env) nm off sz = (AVB_IO_RESULT_OK, slot_bytes)" for nm off sz by (simp add: slot_env_def slot_ops_def)
  have le: "length slot_bytes \<le> unat VBMETA_MAX_SIZE" by (simp add: length_slot_bytes VBMETA_MAX_SIZE_def)
  have "read_vbmeta ?rec slot_env [] [] False main_args nm 0 VBMETA_MAX_SIZE ?s = (Inr AVB_SLOT_VERIFY_RESULT_OK, s')" for nm
    using p le by (simp add: read_vbmeta_def bind_step_def req when_out_def give_def io check_io_def assert_step_def sample_poke length_slot_bytes)
  then have named: "named_vbmeta ?rec slot_env [] [] False main_args nm ?s = (Inr AVB_SLOT_VERIFY_RESULT_OK, s')" for nm
    by (simp add: named_vbmeta_def bind_step_def vbmeta_place_def name give_def)
  have "vbmeta_body ?rec slot_env [] [] False main_args ?s = (Inr AVB_SLOT_VERIFY_RESULT_OK, s')"
    unfolding body_eq name cat option.case by (simp add: call_step_def bind_step_def when_out_def utf8 give_def named)
  then have run: "load_and_verify_vbmeta slot_env [] [] False main_args ?s = (Inr AVB_SLOT_VERIFY_RESULT_OK, s')"
    unfolding load_and_verify_vbmeta_def numeral_3_eq_3 vbmeta_depth.simps(2) [of "Suc (Suc 0)"] by (simp only: numeral_2_eq_2)
  have "mem_left slot_env s'" by (simp add: mem_left_def s' av_alloc_def slot_env_def)
  moreover have "vbmeta_flags (vbmeta_header (vb_mem v) (vb_data v)) = 0" by (simp add: s' sample_verified(2) sample_fields)
  ultimately obtain s2 where "slot_cmdline slot_env [] AVB_HASHTREE_ERROR_MODE_EIO s' = (Inr (), s2)"
    using slot_cmdline_run [of slot_env s' v "[]" AVB_HASHTREE_ERROR_MODE_EIO] s' by (auto simp: slot_env_def slot_ops_def)
  then show ?thesis
    using run by (simp add: avb_slot_verify_def av_alloc_def) (simp add: slot_env_def)
qed

section \<open>Slots\<close>



text \<open>C17 the function that loads and verifies a vbmeta image satisfies the equation of its recursion: the calls for \<^verbatim>\<open>boot\<close> and for chained
  partitions end, for every platform and every content of the partitions, so three levels of calls are all there are.\<close>

theorem load_and_verify_vbmeta_recursion:
  "load_and_verify_vbmeta E requested ab_sfx allow args = vbmeta_body (load_and_verify_vbmeta E requested ab_sfx allow) E requested ab_sfx allow args"
proof -
  have depth: "load_and_verify_vbmeta E requested ab_sfx allow = vbmeta_depth (Suc (Suc (Suc d))) E requested ab_sfx allow" for d
    by (rule ext) (simp only: load_and_verify_vbmeta_def depth_enough)
  have "load_and_verify_vbmeta E requested ab_sfx allow args = vbmeta_depth (Suc (Suc (Suc (Suc 0)))) E requested ab_sfx allow args"
    by (simp only: depth [of "Suc 0"])
  also have "\<dots> = vbmeta_body (load_and_verify_vbmeta E requested ab_sfx allow) E requested ab_sfx allow args"
    unfolding depth [of 0] by (rule vbmeta_depth.simps(2))
  finally show ?thesis .
qed

section \<open>Descriptors\<close>


text \<open>A header with the magic number, a descriptor area of 16 bytes behind it, and the bytes of the area.\<close>

definition desc_bytes :: "8 word list \<Rightarrow> 8 word list" where
  "desc_bytes bs = AVB_MAGIC @ replicate 100 0 @ [0, 0, 0, 0, 0, 0, 0, 16] @ replicate 144 0 @ bs"

lemma desc_bytes_area:
  assumes "length bs = 16"
  shows "desc_area (mem_of 0x1000 (desc_bytes bs)) 0x1000 0x110" "desc_start (mem_of 0x1000 (desc_bytes bs)) 0x1000 = 0x1100"
    "desc_end (mem_of 0x1000 (desc_bytes bs)) 0x1000 = 0x1110" "load (mem_of 0x1000 (desc_bytes bs)) 0x1108 8 = drop 8 bs"
proof -
  let ?m = "mem_of 0x1000 (desc_bytes bs)"
  have at: "load ?m (0x1000 + word_of_nat k) n = take n (drop k (desc_bytes bs))" if "k + n \<le> 272" for k n
    using load_mem_of [of k n "desc_bytes bs" "0x1000"] that assms by (simp add: desc_bytes_def AVB_MAGIC_def)
  show "load ?m 0x1108 8 = drop 8 bs" using at [of 264 8] assms by (simp add: desc_bytes_def AVB_MAGIC_def)
  show st: "desc_start ?m 0x1000 = 0x1100" and en: "desc_end ?m 0x1000 = 0x1110"
    using at [of 12 8] at [of 96 8] at [of 104 8]
    by (simp_all add: desc_start_def desc_end_def desc_bytes_def AVB_MAGIC_def avb_be64toh_def avb_be32toh_def)
  show "desc_area ?m 0x1000 0x110" using at [of 0 4] by (simp add: desc_area_def st en) (simp add: desc_bytes_def AVB_MAGIC_def)
qed


text \<open>C37 an image whose first descriptor has the length of 2 to the power of 64 less the size of its header is never left: the loop over
  the descriptors stays at the descriptor for ever.\<close>

theorem avb_descriptor_get_all_hangs:
  assumes "desc_area m data sz" and "avb_aligned data" and "desc_start m data < desc_end m data" and "avb_aligned (desc_start m data)"
    and "unat (avb_be64toh (load m (desc_start m data + 8) 8)) = 2 ^ 64 - 16"
  shows "avb_descriptor_get_all ok m data sz = None"
proof -
  have "avb_be64toh (load m (desc_start m data + 8) 8) = - 16" using assms(5) by (simp add: word_unat_eq_iff)
  then show ?thesis using get_all_stuck [of m data sz ok] assms(1-4) by (simp add: desc_total_def)
qed

theorem avb_descriptor_get_all_hangs_witness:
  "avb_descriptor_get_all True (mem_of 0x1000 (desc_bytes (replicate 8 0 @ replicate 7 0xff @ [0xf0]))) 0x1000 0x110 = None"
proof -
  have "avb_be64toh (replicate 7 0xff @ [0xf0]) = 0xfffffffffffffff0" by (simp add: avb_be64toh_def nth_append)
  then show ?thesis
    using avb_descriptor_get_all_hangs [of "mem_of 0x1000 (desc_bytes (replicate 8 0 @ replicate 7 0xff @ [0xf0]))" "0x1000" "0x110" True]
      desc_bytes_area [of "replicate 8 0 @ replicate 7 0xff @ [0xf0]"]
    by (simp add: avb_aligned_def)
qed

section \<open>Strings\<close>

text \<open>C19 where there is memory, \<^verbatim>\<open>avb_replace\<close> returns the text with all occurrences of the searched text replaced from the left.\<close>

theorem avb_replace_correct:
  assumes "\<And>i. n \<le> i \<Longrightarrow> alloc i"
  shows "fst (avb_replace alloc n str search rep) = Some (replace_all search rep str)"
  using replace_some [of n alloc str search rep] assms by auto

theorem avb_replace_correct_witness:
  "fst (avb_replace (\<lambda>_. True) 0 (ascii ''a$b$$c'') (ascii ''$'') (ascii ''xy'')) = Some (ascii ''axybxyxyc'')"
proof -
  have "replace_all (ascii ''$'') (ascii ''xy'') (ascii ''a$b$$c'') = ascii ''axybxyxyc''" by (simp add: ascii_def replace_all.simps)
  then show ?thesis using avb_replace_correct [of 0 "\<lambda>_. True" "ascii ''a$b$$c''" "ascii ''$''" "ascii ''xy''"] by simp
qed

end
