(* ===== verification/Memblock.thy ===== *)
theory Memblock
  imports Kernel_Prelude
begin

unbundle bit_operations_syntax

text \<open>
  The boot-time memory allocator, \<^verbatim>\<open>mm/memblock.c\<close> and \<^verbatim>\<open>include/linux/memblock.h\<close>, in the
  configured build (no \<^verbatim>\<open>CONFIG_HAVE_MEMBLOCK_NODE_MAP\<close>: a region has no node, and
  \<^verbatim>\<open>memblock_get_region_node\<close> is 0; no \<^verbatim>\<open>CONFIG_MOVABLE_NODE\<close>: \<open>bottom_up\<close> and
  \<open>movable_node_enabled\<close> keep their initial value \<^const>\<open>False\<close>, and the definitions that read them
  are those of the build that has it).  This theory holds the data and the operations; the theories
  \<open>Memblock_Arrays\<close>, \<open>Memblock_Ranges\<close>, \<open>Memblock_Free\<close>, \<open>Memblock_Resize\<close> and \<open>Memblock_Api\<close> hold the
  lemmas and \<open>Memblock_Props\<close> the properties.
\<close>

section \<open>Data\<close>

definition MEMBLOCK_NONE :: "32 word" where "MEMBLOCK_NONE = 0"
definition MEMBLOCK_HOTPLUG :: "32 word" where "MEMBLOCK_HOTPLUG = 1"
definition MEMBLOCK_MIRROR :: "32 word" where "MEMBLOCK_MIRROR = 2"
definition MEMBLOCK_NOMAP :: "32 word" where "MEMBLOCK_NOMAP = 4"

definition INIT_MEMBLOCK_REGIONS :: nat where "INIT_MEMBLOCK_REGIONS = 128"
definition MEMBLOCK_ALLOC_ANYWHERE :: int where "MEMBLOCK_ALLOC_ANYWHERE = U32_MAX"
definition MEMBLOCK_ALLOC_ACCESSIBLE :: int where "MEMBLOCK_ALLOC_ACCESSIBLE = 0"
definition PAGE_SIZE :: int where "PAGE_SIZE = 4096"
definition SMP_CACHE_BYTES :: int where "SMP_CACHE_BYTES = 64"
definition NUMA_NO_NODE :: int where "NUMA_NO_NODE = -1"
definition MAX_NUMNODES :: int where "MAX_NUMNODES = 1"

text \<open>\<^verbatim>\<open>sizeof(struct memblock_region)\<close>: three 32-bit members.\<close>

definition sizeof_region :: int where "sizeof_region = 12"

record memblock_region =
  rg_base :: int
  rg_size :: int
  rg_flags :: "32 word"

text \<open>
  \<open>mt_regions\<close> holds the used entries of the array, so \<^verbatim>\<open>cnt\<close> is its length; \<open>mt_array\<close> says
  where the array lives: \<^const>\<open>None\<close> for the static \<^verbatim>\<open>memblock_*_init_regions\<close>, otherwise the physical
  address it was allocated at.
\<close>

record memblock_type =
  mt_max :: nat
  mt_total_size :: int
  mt_regions :: "memblock_region list"
  mt_array :: "int option"

definition mt_cnt :: "memblock_type \<Rightarrow> nat" where
  "mt_cnt t = length (mt_regions t)"

record memblock =
  bottom_up :: bool
  current_limit :: int
  mb_memory :: memblock_type
  mb_reserved :: memblock_type
  movable_node_enabled :: bool
  system_has_some_mirror :: bool
  memblock_can_resize :: bool
  memblock_memory_in_slab :: bool
  memblock_reserved_in_slab :: bool

text \<open>
  What the allocator sees of the rest of the kernel: the end of the kernel image, whether the slab
  allocator is up, and the physical address \<^verbatim>\<open>kmalloc\<close> returns for a size (0 for a failure).
\<close>

record boot_env =
  kernel_end :: int
  slab_is_available :: bool
  kmalloc_pa :: "int \<Rightarrow> int"

datatype mb_sel = Memory | Reserved

fun get_type :: "mb_sel \<Rightarrow> memblock \<Rightarrow> memblock_type" where
  "get_type Memory m = mb_memory m"
| "get_type Reserved m = mb_reserved m"

fun set_type :: "mb_sel \<Rightarrow> memblock_type \<Rightarrow> memblock \<Rightarrow> memblock" where
  "set_type Memory t m = m\<lparr>mb_memory := t\<rparr>"
| "set_type Reserved t m = m\<lparr>mb_reserved := t\<rparr>"

definition dummy_region :: memblock_region where
  "dummy_region = \<lparr>rg_base = 0, rg_size = 0, rg_flags = 0\<rparr>"

definition memblock_init_type :: memblock_type where
  "memblock_init_type = \<lparr>mt_max = INIT_MEMBLOCK_REGIONS, mt_total_size = 0,
     mt_regions = [dummy_region], mt_array = None\<rparr>"

definition memblock_init :: memblock where
  "memblock_init = \<lparr>bottom_up = False, current_limit = MEMBLOCK_ALLOC_ANYWHERE,
     mb_memory = memblock_init_type, mb_reserved = memblock_init_type,
     movable_node_enabled = False, system_has_some_mirror = False, memblock_can_resize = False,
     memblock_memory_in_slab = False, memblock_reserved_in_slab = False\<rparr>"

section \<open>Region arrays\<close>

definition choose_memblock_flags :: "memblock \<Rightarrow> 32 word" where
  "choose_memblock_flags m = (if system_has_some_mirror m then MEMBLOCK_MIRROR else MEMBLOCK_NONE)"

definition memblock_is_hotpluggable :: "memblock_region \<Rightarrow> bool" where
  "memblock_is_hotpluggable r = (rg_flags r AND MEMBLOCK_HOTPLUG \<noteq> 0)"

definition memblock_is_mirror :: "memblock_region \<Rightarrow> bool" where
  "memblock_is_mirror r = (rg_flags r AND MEMBLOCK_MIRROR \<noteq> 0)"

definition memblock_is_nomap :: "memblock_region \<Rightarrow> bool" where
  "memblock_is_nomap r = (rg_flags r AND MEMBLOCK_NOMAP \<noteq> 0)"

definition memblock_set_region_flags :: "memblock_region \<Rightarrow> 32 word \<Rightarrow> memblock_region" where
  "memblock_set_region_flags r f = r\<lparr>rg_flags := rg_flags r OR f\<rparr>"

definition memblock_clear_region_flags :: "memblock_region \<Rightarrow> 32 word \<Rightarrow> memblock_region" where
  "memblock_clear_region_flags r f = r\<lparr>rg_flags := rg_flags r AND NOT f\<rparr>"

definition rg_end :: "memblock_region \<Rightarrow> int" where
  "rg_end r = u32_add (rg_base r) (rg_size r)"

definition memblock_cap_size :: "int \<Rightarrow> int \<Rightarrow> int" where
  "memblock_cap_size base sz = min sz (u32_sub U32_MAX base)"

definition memblock_addrs_overlap :: "int \<Rightarrow> int \<Rightarrow> int \<Rightarrow> int \<Rightarrow> bool" where
  "memblock_addrs_overlap base1 size1 base2 size2 \<longleftrightarrow>
     base1 < u32_add base2 size2 \<and> base2 < u32_add base1 size1"

fun overlaps_loop :: "memblock_region list \<Rightarrow> int \<Rightarrow> int \<Rightarrow> bool" where
  "overlaps_loop [] base sz = False"
| "overlaps_loop (r # rs) base sz =
     (if memblock_addrs_overlap base sz (rg_base r) (rg_size r) then True
      else overlaps_loop rs base sz)"

definition memblock_overlaps_region :: "memblock_type \<Rightarrow> int \<Rightarrow> int \<Rightarrow> bool" where
  "memblock_overlaps_region t base sz = overlaps_loop (mt_regions t) base sz"

definition memblock_remove_region :: "memblock_type \<Rightarrow> nat \<Rightarrow> memblock_type" where
  "memblock_remove_region t r =
     (let rs = mt_regions t;
          t' = t\<lparr>mt_total_size := u32_sub (mt_total_size t) (rg_size (rs ! r)),
                 mt_regions := take r rs @ drop (Suc r) rs\<rparr>
      in if mt_cnt t' = 0 then t'\<lparr>mt_regions := [dummy_region]\<rparr> else t')"

function merge_loop :: "nat \<Rightarrow> memblock_region list \<Rightarrow> memblock_region list option" where
  "merge_loop i rs =
     (if Suc i < length rs then
        let this = rs ! i; next = rs ! Suc i in
        if rg_end this \<noteq> rg_base next \<or> rg_flags this \<noteq> rg_flags next then
          (if rg_end this > rg_base next then None else merge_loop (Suc i) rs)
        else merge_loop i
               (take i rs @ [this\<lparr>rg_size := u32_add (rg_size this) (rg_size next)\<rparr>] @ drop (i + 2) rs)
      else Some rs)"
  by pat_completeness auto
termination
  by (relation "measure (\<lambda>(i, rs). length rs - i)") auto

declare merge_loop.simps [simp del]

definition memblock_merge_regions :: "memblock_type \<Rightarrow> memblock_type option" where
  "memblock_merge_regions t =
     map_option (\<lambda>rs. t\<lparr>mt_regions := rs\<rparr>) (merge_loop 0 (mt_regions t))"

definition memblock_insert_region ::
    "memblock_type \<Rightarrow> nat \<Rightarrow> int \<Rightarrow> int \<Rightarrow> 32 word \<Rightarrow> memblock_type option" where
  "memblock_insert_region t idx base sz flags =
     (if mt_cnt t \<ge> mt_max t then None
      else Some (t\<lparr>mt_regions := take idx (mt_regions t) @
                     \<lparr>rg_base = base, rg_size = sz, rg_flags = flags\<rparr> # drop idx (mt_regions t),
                   mt_total_size := u32_add (mt_total_size t) sz\<rparr>))"

lemma memblock_insert_region_cnt:
  "memblock_insert_region t idx base sz flags = Some t' \<Longrightarrow>
   mt_cnt t < mt_max t \<and> mt_cnt t' = Suc (mt_cnt t) \<and> mt_max t' = mt_max t"
  by (auto simp: memblock_insert_region_def mt_cnt_def split: if_splits)

section \<open>Adding a range\<close>

function add_loop ::
    "bool \<Rightarrow> int \<Rightarrow> 32 word \<Rightarrow> nat \<Rightarrow> int \<Rightarrow> nat \<Rightarrow> memblock_type \<Rightarrow>
     (memblock_type \<times> nat \<times> int \<times> nat) option" where
  "add_loop ins end flags idx base nr_new t =
     (if idx < mt_cnt t then
        let rgn = mt_regions t ! idx; rbase = rg_base rgn; rend = rg_end rgn in
        if rbase \<ge> end then Some (t, idx, base, nr_new)
        else if rend \<le> base then add_loop ins end flags (Suc idx) base nr_new t
        else if rbase > base then
          (if ins then
             (case memblock_insert_region t idx base (u32_sub rbase base) flags of
                None \<Rightarrow> None
              | Some t' \<Rightarrow>
                  add_loop ins end flags (Suc (Suc idx)) (min rend end) (Suc nr_new) t')
           else add_loop ins end flags (Suc idx) (min rend end) (Suc nr_new) t)
        else add_loop ins end flags (Suc idx) (min rend end) nr_new t
      else Some (t, idx, base, nr_new))"
  by pat_completeness auto
termination
  by (relation "measure (\<lambda>(ins, end, flags, idx, base, nr_new, t). mt_cnt t - idx)")
     (auto dest: memblock_insert_region_cnt)

declare add_loop.simps [simp del]

definition add_pass ::
    "bool \<Rightarrow> int \<Rightarrow> 32 word \<Rightarrow> int \<Rightarrow> memblock_type \<Rightarrow> (memblock_type \<times> nat) option" where
  "add_pass ins end flags obase t =
     (case add_loop ins end flags 0 obase 0 t of
        None \<Rightarrow> None
      | Some (t', idx, base, nr_new) \<Rightarrow>
          if base < end then
            if ins then
              map_option (\<lambda>t''. (t'', Suc nr_new))
                (memblock_insert_region t' idx base (u32_sub end base) flags)
            else Some (t', Suc nr_new)
          else Some (t', nr_new))"

text \<open>
  \<^verbatim>\<open>memblock_double_array\<close> and the operations on ranges call each other.  The operations take the
  resizing function as the argument \<open>dbl\<close>; \<open>memblock_double_array\<close> below ties the knot with a
  recursion budget.  \<open>grow\<close> is the loop \<^verbatim>\<open>while (type->cnt + need > type->max)\<close>: the array size
  doubles in every round, so 32 rounds are more than a 32-bit size can take.
\<close>

type_synonym resizer = "mb_sel \<Rightarrow> int \<Rightarrow> int \<Rightarrow> memblock \<Rightarrow> (memblock \<times> int) kres"

primrec grow ::
    "nat \<Rightarrow> resizer \<Rightarrow> mb_sel \<Rightarrow> nat \<Rightarrow> int \<Rightarrow> int \<Rightarrow> memblock \<Rightarrow> (memblock \<times> bool) kres" where
  "grow 0 dbl s need base sz m = Inl BUDGET"
| "grow (Suc n) dbl s need base sz m =
     (if mt_cnt (get_type s m) + need > mt_max (get_type s m) then
        bindK (dbl s base sz m) (\<lambda>(m', ret).
          if ret < 0 then Inr (m', False) else grow n dbl s need base sz m')
      else Inr (m, True))"

definition GROW_ROUNDS :: nat where "GROW_ROUNDS = 33"

definition memblock_add_range ::
    "resizer \<Rightarrow> mb_sel \<Rightarrow> int \<Rightarrow> int \<Rightarrow> 32 word \<Rightarrow> memblock \<Rightarrow> (memblock \<times> int) kres" where
  "memblock_add_range dbl s base sz0 flags m =
     (let sz = memblock_cap_size base sz0;
          end = u32_add base sz;
          t = get_type s m
      in
      if sz = 0 then Inr (m, 0)
      else if rg_size (mt_regions t ! 0) = 0 then
        Inr (set_type s
          (t\<lparr>mt_regions := (mt_regions t)[0 := \<lparr>rg_base = base, rg_size = sz, rg_flags = flags\<rparr>],
             mt_total_size := sz\<rparr>) m, 0)
      else
        bindK (or_bug (add_pass False end flags base t)) (\<lambda>(t0, nr_new).
        if nr_new = 0 then Inr (m, 0)
        else
          bindK (grow GROW_ROUNDS dbl s nr_new base sz m) (\<lambda>(m1, ok).
          if \<not> ok then Inr (m1, - ENOMEM)
          else
            bindK (or_bug (add_pass True end flags base (get_type s m1))) (\<lambda>(t1, nr_new').
            if nr_new' = 0 then Inr (set_type s t1 m1, 0)
            else
              bindK (or_bug (memblock_merge_regions t1)) (\<lambda>t2.
              Inr (set_type s t2 m1, 0))))))"

section \<open>Removing a range\<close>

function isolate_loop ::
    "int \<Rightarrow> int \<Rightarrow> nat \<Rightarrow> nat \<Rightarrow> nat \<Rightarrow> memblock_type \<Rightarrow> (memblock_type \<times> nat \<times> nat) option" where
  "isolate_loop base end idx start_rgn end_rgn t =
     (if idx < mt_cnt t then
        let rgn = mt_regions t ! idx; rbase = rg_base rgn; rend = rg_end rgn in
        if rbase \<ge> end then Some (t, start_rgn, end_rgn)
        else if rend \<le> base then isolate_loop base end (Suc idx) start_rgn end_rgn t
        else if rbase < base then
          (let d = u32_sub base rbase;
               t1 = t\<lparr>mt_regions := (mt_regions t)
                        [idx := rgn\<lparr>rg_base := base, rg_size := u32_sub (rg_size rgn) d\<rparr>],
                      mt_total_size := u32_sub (mt_total_size t) d\<rparr>
           in case memblock_insert_region t1 idx rbase d (rg_flags rgn) of
                None \<Rightarrow> None
              | Some t2 \<Rightarrow> isolate_loop base end (Suc idx) start_rgn end_rgn t2)
        else if rend > end then
          (let d = u32_sub end rbase;
               t1 = t\<lparr>mt_regions := (mt_regions t)
                        [idx := rgn\<lparr>rg_base := end, rg_size := u32_sub (rg_size rgn) d\<rparr>],
                      mt_total_size := u32_sub (mt_total_size t) d\<rparr>
           in case memblock_insert_region t1 idx rbase d (rg_flags rgn) of
                None \<Rightarrow> None
              | Some t2 \<Rightarrow> isolate_loop base end idx start_rgn end_rgn t2)
        else isolate_loop base end (Suc idx) (if end_rgn = 0 then idx else start_rgn) (Suc idx) t
      else Some (t, start_rgn, end_rgn))"
  by pat_completeness auto
termination
  by (relation "measures [\<lambda>(base, end, idx, st, en, t). mt_max t - mt_cnt t,
                          \<lambda>(base, end, idx, st, en, t). mt_cnt t - idx]")
     (auto simp: mt_cnt_def dest!: memblock_insert_region_cnt)

declare isolate_loop.simps [simp del]

definition memblock_isolate_range ::
    "resizer \<Rightarrow> mb_sel \<Rightarrow> int \<Rightarrow> int \<Rightarrow> memblock \<Rightarrow> (memblock \<times> int \<times> nat \<times> nat) kres" where
  "memblock_isolate_range dbl s base sz0 m =
     (let sz = memblock_cap_size base sz0; end = u32_add base sz in
      if sz = 0 then Inr (m, 0, 0, 0)
      else
        bindK (grow GROW_ROUNDS dbl s 2 base sz m) (\<lambda>(m1, ok).
        if \<not> ok then Inr (m1, - ENOMEM, 0, 0)
        else
          bindK (or_bug (isolate_loop base end 0 0 0 (get_type s m1))) (\<lambda>(t, start_rgn, end_rgn).
          Inr (set_type s t m1, 0, start_rgn, end_rgn))))"

text \<open>\<^verbatim>\<open>for (i = end_rgn - 1; i >= start_rgn; i--) memblock_remove_region(type, i)\<close>\<close>

primrec remove_down :: "nat \<Rightarrow> nat \<Rightarrow> memblock_type \<Rightarrow> memblock_type" where
  "remove_down start_rgn 0 t = t"
| "remove_down start_rgn (Suc i) t =
     (if i \<ge> start_rgn then remove_down start_rgn i (memblock_remove_region t i) else t)"

definition memblock_remove_range ::
    "resizer \<Rightarrow> mb_sel \<Rightarrow> int \<Rightarrow> int \<Rightarrow> memblock \<Rightarrow> (memblock \<times> int) kres" where
  "memblock_remove_range dbl s base sz m =
     bindK (memblock_isolate_range dbl s base sz m) (\<lambda>(m1, ret, start_rgn, end_rgn).
       if ret \<noteq> 0 then Inr (m1, ret)
       else Inr (set_type s (remove_down start_rgn end_rgn (get_type s m1)) m1, 0))"

section \<open>Walking free memory\<close>

text \<open>
  The iteration index of \<^verbatim>\<open>for_each_mem_range\<close> is a \<^verbatim>\<open>u64\<close> whose low half is the index into the
  memory array and whose high half is the index into the reservations; \<^verbatim>\<open>ULLONG_MAX\<close> ends the
  iteration.  The model's index is the pair of the two halves, or \<^const>\<open>None\<close> for \<^verbatim>\<open>ULLONG_MAX\<close>.
\<close>

type_synonym walk_idx = "(nat \<times> nat) option"

text \<open>The free area before reservation \<open>j\<close>; the area after the last one ends at \<^verbatim>\<open>ULLONG_MAX\<close> cut to 32 bits.\<close>

definition gap_start :: "memblock_type \<Rightarrow> nat \<Rightarrow> int" where
  "gap_start t j = (if j = 0 then 0 else rg_end (mt_regions t ! (j - 1)))"

definition gap_end :: "memblock_type \<Rightarrow> nat \<Rightarrow> int" where
  "gap_end t j = (if j < mt_cnt t then rg_base (mt_regions t ! j) else U32_MAX)"

text \<open>The four \<^verbatim>\<open>continue\<close> conditions on a memory region; without a node map a region's node is 0.\<close>

definition skip_region :: "memblock \<Rightarrow> int \<Rightarrow> 32 word \<Rightarrow> memblock_region \<Rightarrow> bool" where
  "skip_region m nid flags r \<longleftrightarrow>
     nid \<noteq> NUMA_NO_NODE \<and> nid \<noteq> 0 \<or>
     movable_node_enabled m \<and> memblock_is_hotpluggable r \<or>
     flags AND MEMBLOCK_MIRROR \<noteq> 0 \<and> \<not> memblock_is_mirror r \<or>
     flags AND MEMBLOCK_NOMAP = 0 \<and> memblock_is_nomap r"

function next_range_loop ::
    "(memblock_region \<Rightarrow> bool) \<Rightarrow> memblock_type \<Rightarrow> memblock_type option \<Rightarrow> nat \<Rightarrow> nat \<Rightarrow>
     (nat \<times> nat \<times> int \<times> int) option" where
  "next_range_loop skip ta tb a b =
     (if a < mt_cnt ta then
        let m = mt_regions ta ! a; m_start = rg_base m; m_end = rg_end m in
        if skip m then next_range_loop skip ta tb (Suc a) b
        else (case tb of
            None \<Rightarrow> Some (Suc a, b, m_start, m_end)
          | Some t \<Rightarrow>
              if b < mt_cnt t + 1 then
                let r_start = gap_start t b; r_end = gap_end t b in
                if r_start \<ge> m_end then next_range_loop skip ta tb (Suc a) b
                else if m_start < r_end then
                  Some (if m_end \<le> r_end then Suc a else a, if m_end \<le> r_end then b else Suc b,
                        max m_start r_start, min m_end r_end)
                else next_range_loop skip ta tb a (Suc b)
              else next_range_loop skip ta tb (Suc a) b)
      else None)"
  by pat_completeness auto
termination
  by (relation "measure (\<lambda>(skip, ta, tb, a, b).
        (mt_cnt ta - a) + ((case tb of None \<Rightarrow> 0 | Some t \<Rightarrow> mt_cnt t + 1) - b))") auto

declare next_range_loop.simps [simp del]

definition next_mem_range ::
    "memblock \<Rightarrow> int \<Rightarrow> 32 word \<Rightarrow> memblock_type \<Rightarrow> memblock_type option \<Rightarrow> nat \<times> nat \<Rightarrow>
     walk_idx \<times> (int \<times> int) option" where
  "next_mem_range m nid0 flags ta tb idx =
     (let nid = (if nid0 = MAX_NUMNODES then NUMA_NO_NODE else nid0) in
      case next_range_loop (skip_region m nid flags) ta tb (fst idx) (snd idx) of
        Some (a, b, s, e) \<Rightarrow> (Some (a, b), Some (s, e))
      | None \<Rightarrow> (None, None))"

text \<open>
  The reverse walk counts both indices down.  The model's \<open>a\<close> and \<open>b\<close> are the C indices plus one,
  so that \<open>0\<close> stands for the index \<open>-1\<close> that ends each loop.
\<close>

function next_range_rev_loop ::
    "(memblock_region \<Rightarrow> bool) \<Rightarrow> memblock_type \<Rightarrow> memblock_type option \<Rightarrow> nat \<Rightarrow> nat \<Rightarrow>
     (nat \<times> nat \<times> int \<times> int) option" where
  "next_range_rev_loop skip ta tb a b =
     (if a > 0 then
        let m = mt_regions ta ! (a - 1); m_start = rg_base m; m_end = rg_end m in
        if skip m then next_range_rev_loop skip ta tb (a - 1) b
        else (case tb of
            None \<Rightarrow> Some (a - 1, b, m_start, m_end)
          | Some t \<Rightarrow>
              if b > 0 then
                let r_start = gap_start t (b - 1); r_end = gap_end t (b - 1) in
                if r_end \<le> m_start then next_range_rev_loop skip ta tb (a - 1) b
                else if m_end > r_start then
                  Some (if m_start \<ge> r_start then a - 1 else a, if m_start \<ge> r_start then b else b - 1,
                        max m_start r_start, min m_end r_end)
                else next_range_rev_loop skip ta tb a (b - 1)
              else next_range_rev_loop skip ta tb (a - 1) b)
      else None)"
  by pat_completeness auto
termination
  by (relation "measure (\<lambda>(skip, ta, tb, a, b). a + b)") auto

declare next_range_rev_loop.simps [simp del]

definition next_mem_range_rev ::
    "memblock \<Rightarrow> int \<Rightarrow> 32 word \<Rightarrow> memblock_type \<Rightarrow> memblock_type option \<Rightarrow> walk_idx \<Rightarrow>
     walk_idx \<times> (int \<times> int) option" where
  "next_mem_range_rev m nid0 flags ta tb idx =
     (let nid = (if nid0 = MAX_NUMNODES then NUMA_NO_NODE else nid0);
          (a0, b0) = (case idx of
             None \<Rightarrow> (mt_cnt ta, case tb of None \<Rightarrow> 1 | Some t \<Rightarrow> mt_cnt t + 1)
           | Some ab \<Rightarrow> ab)
      in
      case next_range_rev_loop (skip_region m nid flags) ta tb a0 b0 of
        Some (a, b, s, e) \<Rightarrow> (Some (a, b), Some (s, e))
      | None \<Rightarrow> (None, None))"

definition next_reserved_mem_region :: "memblock \<Rightarrow> nat \<Rightarrow> nat option \<times> (int \<times> int) option" where
  "next_reserved_mem_region m idx =
     (let rs = mt_regions (mb_reserved m) in
      if idx < length rs then
        let r = rs ! idx in
        (Some (Suc idx), Some (rg_base r, u32_sub (u32_add (rg_base r) (rg_size r)) 1))
      else (None, None))"

section \<open>Finding a free area\<close>

text \<open>
  \<^verbatim>\<open>for_each_free_mem_range\<close> and its reverse, with a budget of iterations; an iteration consumes at
  least one memory region or one reservation.
\<close>

primrec find_bottom_up_loop ::
    "nat \<Rightarrow> memblock \<Rightarrow> int \<Rightarrow> int \<Rightarrow> int \<Rightarrow> int \<Rightarrow> int \<Rightarrow> 32 word \<Rightarrow> nat \<times> nat \<Rightarrow> int kres" where
  "find_bottom_up_loop 0 m start end sz align nid flags idx = Inl BUDGET"
| "find_bottom_up_loop (Suc n) m start end sz align nid flags idx =
     (case next_mem_range m nid flags (mb_memory m) (Some (mb_reserved m)) idx of
        (Some idx', Some (s, e)) \<Rightarrow>
          let this_start = clamp s start end; this_end = clamp e start end;
              cand = round_up this_start align
          in if cand < this_end \<and> u32_sub this_end cand \<ge> sz then Inr cand
             else find_bottom_up_loop n m start end sz align nid flags idx'
      | _ \<Rightarrow> Inr 0)"

primrec find_top_down_loop ::
    "nat \<Rightarrow> memblock \<Rightarrow> int \<Rightarrow> int \<Rightarrow> int \<Rightarrow> int \<Rightarrow> int \<Rightarrow> 32 word \<Rightarrow> walk_idx \<Rightarrow> int kres" where
  "find_top_down_loop 0 m start end sz align nid flags idx = Inl BUDGET"
| "find_top_down_loop (Suc n) m start end sz align nid flags idx =
     (case next_mem_range_rev m nid flags (mb_memory m) (Some (mb_reserved m)) idx of
        (Some idx', Some (s, e)) \<Rightarrow>
          let this_start = clamp s start end; this_end = clamp e start end in
          if this_end < sz then find_top_down_loop n m start end sz align nid flags (Some idx')
          else let cand = round_down (u32_sub this_end sz) align in
            if cand \<ge> this_start then Inr cand
            else find_top_down_loop n m start end sz align nid flags (Some idx')
      | _ \<Rightarrow> Inr 0)"

definition walk_budget :: "memblock \<Rightarrow> nat" where
  "walk_budget m = mt_cnt (mb_memory m) + mt_cnt (mb_reserved m) + 2"

text \<open>The macros \<^verbatim>\<open>for_each_mem_range\<close> and \<^verbatim>\<open>for_each_free_mem_range\<close>: the list of the ranges walked.\<close>

primrec for_each_mem_range ::
    "nat \<Rightarrow> memblock \<Rightarrow> memblock_type \<Rightarrow> memblock_type option \<Rightarrow> int \<Rightarrow> 32 word \<Rightarrow> nat \<times> nat \<Rightarrow>
     (int \<times> int) list kres" where
  "for_each_mem_range 0 m ta tb nid flags idx = Inl BUDGET"
| "for_each_mem_range (Suc n) m ta tb nid flags idx =
     (case next_mem_range m nid flags ta tb idx of
        (Some idx', Some (s, e)) \<Rightarrow>
          bindK (for_each_mem_range n m ta tb nid flags idx') (\<lambda>rs. Inr ((s, e) # rs))
      | _ \<Rightarrow> Inr [])"

definition for_each_free_mem_range :: "memblock \<Rightarrow> int \<Rightarrow> 32 word \<Rightarrow> (int \<times> int) list kres" where
  "for_each_free_mem_range m nid flags =
     for_each_mem_range (walk_budget m) m (mb_memory m) (Some (mb_reserved m)) nid flags (0, 0)"

definition memblock_find_range_bottom_up ::
    "memblock \<Rightarrow> int \<Rightarrow> int \<Rightarrow> int \<Rightarrow> int \<Rightarrow> int \<Rightarrow> 32 word \<Rightarrow> int kres" where
  "memblock_find_range_bottom_up m start end sz align nid flags =
     find_bottom_up_loop (walk_budget m) m start end sz align nid flags (0, 0)"

definition memblock_find_range_top_down ::
    "memblock \<Rightarrow> int \<Rightarrow> int \<Rightarrow> int \<Rightarrow> int \<Rightarrow> int \<Rightarrow> 32 word \<Rightarrow> int kres" where
  "memblock_find_range_top_down m start end sz align nid flags =
     find_top_down_loop (walk_budget m) m start end sz align nid flags None"

definition memblock_find_in_range_node ::
    "boot_env \<Rightarrow> memblock \<Rightarrow> int \<Rightarrow> int \<Rightarrow> int \<Rightarrow> int \<Rightarrow> int \<Rightarrow> 32 word \<Rightarrow> int kres" where
  "memblock_find_in_range_node E m sz align start0 end0 nid flags =
     (let end1 = (if end0 = MEMBLOCK_ALLOC_ACCESSIBLE then current_limit m else end0);
          start = max start0 PAGE_SIZE;
          end = max start end1
      in
      if bottom_up m \<and> end > kernel_end E then
        bindK (memblock_find_range_bottom_up m (max start (kernel_end E)) end sz align nid flags)
          (\<lambda>ret. if ret \<noteq> 0 then Inr ret
                 else memblock_find_range_top_down m start end sz align nid flags)
      else memblock_find_range_top_down m start end sz align nid flags)"

definition memblock_find_in_range ::
    "boot_env \<Rightarrow> memblock \<Rightarrow> int \<Rightarrow> int \<Rightarrow> int \<Rightarrow> int \<Rightarrow> int kres" where
  "memblock_find_in_range E m start end sz align =
     (let flags = choose_memblock_flags m in
      bindK (memblock_find_in_range_node E m sz align start end NUMA_NO_NODE flags)
        (\<lambda>ret. if ret = 0 \<and> flags AND MEMBLOCK_MIRROR \<noteq> 0 then
                 memblock_find_in_range_node E m sz align start end NUMA_NO_NODE
                   (flags AND NOT MEMBLOCK_MIRROR)
               else Inr ret))"

section \<open>Growing the region arrays\<close>

definition in_slab :: "mb_sel \<Rightarrow> memblock \<Rightarrow> bool" where
  "in_slab s m = (case s of Memory \<Rightarrow> memblock_memory_in_slab m | Reserved \<Rightarrow> memblock_reserved_in_slab m)"

definition set_in_slab :: "mb_sel \<Rightarrow> bool \<Rightarrow> memblock \<Rightarrow> memblock" where
  "set_in_slab s v m = (case s of Memory \<Rightarrow> m\<lparr>memblock_memory_in_slab := v\<rparr>
                                | Reserved \<Rightarrow> m\<lparr>memblock_reserved_in_slab := v\<rparr>)"

text \<open>Where the new array goes: the address from the slab, or one found in free memory; 0 for none.\<close>

definition double_array_addr ::
    "boot_env \<Rightarrow> mb_sel \<Rightarrow> int \<Rightarrow> int \<Rightarrow> int \<Rightarrow> int \<Rightarrow> memblock \<Rightarrow> int kres" where
  "double_array_addr E s new_area_start0 new_area_size0 new_size new_alloc_size m =
     (if slab_is_available E then Inr (kmalloc_pa E new_size)
      else
        let new_area_start = (if s \<noteq> Reserved then 0 else new_area_start0);
            new_area_size = (if s \<noteq> Reserved then 0 else new_area_size0)
        in
        bindK (memblock_find_in_range E m (u32_add new_area_start new_area_size)
                 (current_limit m) new_alloc_size PAGE_SIZE)
          (\<lambda>addr. if addr = 0 \<and> new_area_size \<noteq> 0 then
                    memblock_find_in_range E m 0 (min new_area_start (current_limit m))
                      new_alloc_size PAGE_SIZE
                  else Inr addr))"

primrec memblock_double_array :: "nat \<Rightarrow> boot_env \<Rightarrow> resizer" where
  "memblock_double_array 0 E s new_area_start new_area_size m = Inl BUDGET"
| "memblock_double_array (Suc n) E s new_area_start new_area_size m =
     (if \<not> memblock_can_resize m then Inr (m, -1)
      else
        let t = get_type s m;
            old_size = u32_mul (int (mt_max t)) sizeof_region;
            new_size = u32_mul old_size 2;
            old_alloc_size = ALIGN old_size PAGE_SIZE;
            new_alloc_size = ALIGN new_size PAGE_SIZE
        in
        bindK (double_array_addr E s new_area_start new_area_size new_size new_alloc_size m) (\<lambda>addr.
        if addr = 0 then Inr (m, -1)
        else
          let m1 = set_type s (t\<lparr>mt_array := Some addr, mt_max := 2 * mt_max t\<rparr>) m in
          bindK (if in_slab s m then Inr m1
                 else case mt_array t of
                   None \<Rightarrow> Inr m1
                 | Some pa \<Rightarrow>
                     bindK (memblock_remove_range (memblock_double_array n E) Reserved pa old_alloc_size m1)
                       (\<lambda>(m2, ret). Inr m2)) (\<lambda>m2.
          bindK (if slab_is_available E then Inr m2
                 else
                   bindK (memblock_add_range (memblock_double_array n E) Reserved addr
                            new_alloc_size MEMBLOCK_NONE m2)
                     (\<lambda>(m3, ret). if ret \<noteq> 0 then Inl BUG else Inr m3)) (\<lambda>m3.
          Inr (set_in_slab s (slab_is_available E) m3, 0)))))"

text \<open>
  The recursion: doubling the memory array reserves the new array and frees the old one, either of
  which may double the reserved array; the reservations made for that one find room in the array
  that was just doubled.  A budget of 8 is above that nesting.
\<close>

definition RESIZE_DEPTH :: nat where "RESIZE_DEPTH = 8"

definition resize :: "boot_env \<Rightarrow> resizer" where
  "resize E = memblock_double_array RESIZE_DEPTH E"

section \<open>The public interface\<close>

definition memblock_add :: "boot_env \<Rightarrow> int \<Rightarrow> int \<Rightarrow> memblock \<Rightarrow> (memblock \<times> int) kres" where
  "memblock_add E base sz m = memblock_add_range (resize E) Memory base sz 0 m"

definition memblock_add_node :: "boot_env \<Rightarrow> int \<Rightarrow> int \<Rightarrow> int \<Rightarrow> memblock \<Rightarrow> (memblock \<times> int) kres" where
  "memblock_add_node E base sz nid m = memblock_add_range (resize E) Memory base sz 0 m"

definition memblock_remove :: "boot_env \<Rightarrow> int \<Rightarrow> int \<Rightarrow> memblock \<Rightarrow> (memblock \<times> int) kres" where
  "memblock_remove E base sz m = memblock_remove_range (resize E) Memory base sz m"

definition memblock_free :: "boot_env \<Rightarrow> int \<Rightarrow> int \<Rightarrow> memblock \<Rightarrow> (memblock \<times> int) kres" where
  "memblock_free E base sz m = memblock_remove_range (resize E) Reserved base sz m"

definition memblock_reserve :: "boot_env \<Rightarrow> int \<Rightarrow> int \<Rightarrow> memblock \<Rightarrow> (memblock \<times> int) kres" where
  "memblock_reserve E base sz m = memblock_add_range (resize E) Reserved base sz 0 m"

fun map_range :: "nat \<Rightarrow> nat \<Rightarrow> ('a \<Rightarrow> 'a) \<Rightarrow> 'a list \<Rightarrow> 'a list" where
  "map_range lo hi f xs = take lo xs @ map f (drop lo (take hi xs)) @ drop (max lo hi) xs"

definition memblock_setclr_flag ::
    "boot_env \<Rightarrow> int \<Rightarrow> int \<Rightarrow> bool \<Rightarrow> 32 word \<Rightarrow> memblock \<Rightarrow> (memblock \<times> int) kres" where
  "memblock_setclr_flag E base sz st flag m =
     bindK (memblock_isolate_range (resize E) Memory base sz m) (\<lambda>(m1, ret, start_rgn, end_rgn).
     if ret \<noteq> 0 then Inr (m1, ret)
     else
       let f = (\<lambda>r. if st then memblock_set_region_flags r flag
                    else memblock_clear_region_flags r flag);
           t = mb_memory m1
       in
       bindK (or_bug (memblock_merge_regions
                (t\<lparr>mt_regions := map_range start_rgn end_rgn f (mt_regions t)\<rparr>)))
         (\<lambda>t2. Inr (m1\<lparr>mb_memory := t2\<rparr>, 0)))"

definition memblock_mark_hotplug :: "boot_env \<Rightarrow> int \<Rightarrow> int \<Rightarrow> memblock \<Rightarrow> (memblock \<times> int) kres" where
  "memblock_mark_hotplug E base sz m = memblock_setclr_flag E base sz True MEMBLOCK_HOTPLUG m"

definition memblock_clear_hotplug :: "boot_env \<Rightarrow> int \<Rightarrow> int \<Rightarrow> memblock \<Rightarrow> (memblock \<times> int) kres" where
  "memblock_clear_hotplug E base sz m = memblock_setclr_flag E base sz False MEMBLOCK_HOTPLUG m"

definition memblock_mark_mirror :: "boot_env \<Rightarrow> int \<Rightarrow> int \<Rightarrow> memblock \<Rightarrow> (memblock \<times> int) kres" where
  "memblock_mark_mirror E base sz m =
     memblock_setclr_flag E base sz True MEMBLOCK_MIRROR (m\<lparr>system_has_some_mirror := True\<rparr>)"

definition memblock_mark_nomap :: "boot_env \<Rightarrow> int \<Rightarrow> int \<Rightarrow> memblock \<Rightarrow> (memblock \<times> int) kres" where
  "memblock_mark_nomap E base sz m = memblock_setclr_flag E base sz True MEMBLOCK_NOMAP m"

section \<open>Allocation\<close>

definition memblock_alloc_range_nid ::
    "boot_env \<Rightarrow> int \<Rightarrow> int \<Rightarrow> int \<Rightarrow> int \<Rightarrow> int \<Rightarrow> 32 word \<Rightarrow> memblock \<Rightarrow> (memblock \<times> int) kres" where
  "memblock_alloc_range_nid E sz align0 start end nid flags m =
     (let align = (if align0 = 0 then SMP_CACHE_BYTES else align0) in
      bindK (memblock_find_in_range_node E m sz align start end nid flags) (\<lambda>found.
      if found \<noteq> 0 then
        bindK (memblock_reserve E found sz m)
          (\<lambda>(m', ret). if ret = 0 then Inr (m', found) else Inr (m', 0))
      else Inr (m, 0)))"

definition memblock_alloc_range ::
    "boot_env \<Rightarrow> int \<Rightarrow> int \<Rightarrow> int \<Rightarrow> int \<Rightarrow> 32 word \<Rightarrow> memblock \<Rightarrow> (memblock \<times> int) kres" where
  "memblock_alloc_range E sz align start end flags m =
     memblock_alloc_range_nid E sz align start end NUMA_NO_NODE flags m"

definition memblock_alloc_base_nid ::
    "boot_env \<Rightarrow> int \<Rightarrow> int \<Rightarrow> int \<Rightarrow> int \<Rightarrow> 32 word \<Rightarrow> memblock \<Rightarrow> (memblock \<times> int) kres" where
  "memblock_alloc_base_nid E sz align max_addr nid flags m =
     memblock_alloc_range_nid E sz align 0 max_addr nid flags m"

definition memblock_alloc_nid ::
    "boot_env \<Rightarrow> int \<Rightarrow> int \<Rightarrow> int \<Rightarrow> memblock \<Rightarrow> (memblock \<times> int) kres" where
  "memblock_alloc_nid E sz align nid m =
     (let flags = choose_memblock_flags m in
      bindK (memblock_alloc_base_nid E sz align MEMBLOCK_ALLOC_ACCESSIBLE nid flags m) (\<lambda>(m1, ret).
      if ret = 0 \<and> flags AND MEMBLOCK_MIRROR \<noteq> 0 then
        memblock_alloc_base_nid E sz align MEMBLOCK_ALLOC_ACCESSIBLE nid
          (flags AND NOT MEMBLOCK_MIRROR) m1
      else Inr (m1, ret)))"

definition memblock_alloc_base_nopanic ::
    "boot_env \<Rightarrow> int \<Rightarrow> int \<Rightarrow> int \<Rightarrow> memblock \<Rightarrow> (memblock \<times> int) kres" where
  "memblock_alloc_base_nopanic E sz align max_addr m =
     memblock_alloc_base_nid E sz align max_addr NUMA_NO_NODE MEMBLOCK_NONE m"

definition memblock_alloc_base ::
    "boot_env \<Rightarrow> int \<Rightarrow> int \<Rightarrow> int \<Rightarrow> memblock \<Rightarrow> (memblock \<times> int) kres" where
  "memblock_alloc_base E sz align max_addr m =
     bindK (memblock_alloc_base_nopanic E sz align max_addr m) (\<lambda>(m1, alloc).
     if alloc = 0 then Inl PANIC else Inr (m1, alloc))"

definition memblock_alloc :: "boot_env \<Rightarrow> int \<Rightarrow> int \<Rightarrow> memblock \<Rightarrow> (memblock \<times> int) kres" where
  "memblock_alloc E sz align m = memblock_alloc_base E sz align MEMBLOCK_ALLOC_ACCESSIBLE m"

definition memblock_alloc_try_nid ::
    "boot_env \<Rightarrow> int \<Rightarrow> int \<Rightarrow> int \<Rightarrow> memblock \<Rightarrow> (memblock \<times> int) kres" where
  "memblock_alloc_try_nid E sz align nid m =
     bindK (memblock_alloc_nid E sz align nid m) (\<lambda>(m1, res).
     if res \<noteq> 0 then Inr (m1, res)
     else memblock_alloc_base E sz align MEMBLOCK_ALLOC_ACCESSIBLE m1)"

text \<open>
  \<^verbatim>\<open>memblock_virt_alloc_internal\<close>, up to the zeroing of the block and the conversion of its address:
  the two \<^verbatim>\<open>goto again\<close> first drop the lower limit, then the wish for mirrored memory.
\<close>

function virt_alloc_find ::
    "boot_env \<Rightarrow> int \<Rightarrow> int \<Rightarrow> int \<Rightarrow> int \<Rightarrow> int \<Rightarrow> 32 word \<Rightarrow> memblock \<Rightarrow> int kres" where
  "virt_alloc_find E sz align min_addr max_addr nid flags m =
     (case memblock_find_in_range_node E m sz align min_addr max_addr nid flags of
        Inl h \<Rightarrow> Inl h
      | Inr alloc \<Rightarrow>
          if alloc \<noteq> 0 then Inr alloc
          else (case (if nid \<noteq> NUMA_NO_NODE
                      then memblock_find_in_range_node E m sz align min_addr max_addr NUMA_NO_NODE flags
                      else Inr 0) of
              Inl h \<Rightarrow> Inl h
            | Inr alloc2 \<Rightarrow>
                if alloc2 \<noteq> 0 then Inr alloc2
                else if min_addr \<noteq> 0 then virt_alloc_find E sz align 0 max_addr nid flags m
                else if flags AND MEMBLOCK_MIRROR \<noteq> 0 then
                  virt_alloc_find E sz align min_addr max_addr nid (flags AND NOT MEMBLOCK_MIRROR) m
                else Inr 0))"
  by pat_completeness auto
termination
  by (relation "measures [\<lambda>(E, sz, align, mn, mx, nid, flags, m). if flags AND MEMBLOCK_MIRROR \<noteq> 0 then 1 else 0,
                          \<lambda>(E, sz, align, mn, mx, nid, flags, m). if mn \<noteq> 0 then 1 else 0]")
     (auto simp: and.assoc)

declare virt_alloc_find.simps [simp del]

definition memblock_virt_alloc_internal ::
    "boot_env \<Rightarrow> int \<Rightarrow> int \<Rightarrow> int \<Rightarrow> int \<Rightarrow> int \<Rightarrow> memblock \<Rightarrow> (memblock \<times> int) kres" where
  "memblock_virt_alloc_internal E sz align0 min_addr max_addr0 nid0 m =
     (let flags = choose_memblock_flags m;
          nid = (if nid0 = MAX_NUMNODES then NUMA_NO_NODE else nid0)
      in
      if slab_is_available E then Inr (m, kmalloc_pa E sz)
      else
        let align = (if align0 = 0 then SMP_CACHE_BYTES else align0);
            max_addr = (if max_addr0 > current_limit m then current_limit m else max_addr0)
        in
        bindK (virt_alloc_find E sz align min_addr max_addr nid flags m) (\<lambda>alloc.
        if alloc = 0 then Inr (m, 0)
        else bindK (memblock_reserve E alloc sz m) (\<lambda>(m', ret). Inr (m', alloc))))"

definition memblock_virt_alloc_try_nid_nopanic ::
    "boot_env \<Rightarrow> int \<Rightarrow> int \<Rightarrow> int \<Rightarrow> int \<Rightarrow> int \<Rightarrow> memblock \<Rightarrow> (memblock \<times> int) kres" where
  "memblock_virt_alloc_try_nid_nopanic E sz align min_addr max_addr nid m =
     memblock_virt_alloc_internal E sz align min_addr max_addr nid m"

definition memblock_virt_alloc_try_nid ::
    "boot_env \<Rightarrow> int \<Rightarrow> int \<Rightarrow> int \<Rightarrow> int \<Rightarrow> int \<Rightarrow> memblock \<Rightarrow> (memblock \<times> int) kres" where
  "memblock_virt_alloc_try_nid E sz align min_addr max_addr nid m =
     bindK (memblock_virt_alloc_internal E sz align min_addr max_addr nid m)
       (\<lambda>(m', ptr). if ptr \<noteq> 0 then Inr (m', ptr) else Inl PANIC)"

definition memblock_free_early :: "boot_env \<Rightarrow> int \<Rightarrow> int \<Rightarrow> memblock \<Rightarrow> memblock kres" where
  "memblock_free_early E base sz m =
     bindK (memblock_remove_range (resize E) Reserved base sz m) (\<lambda>(m', ret). Inr m')"

section \<open>Queries and limits\<close>

definition memblock_phys_mem_size :: "memblock \<Rightarrow> int" where
  "memblock_phys_mem_size m = mt_total_size (mb_memory m)"

definition memblock_reserved_size :: "memblock \<Rightarrow> int" where
  "memblock_reserved_size m = mt_total_size (mb_reserved m)"

definition PFN_UP :: "int \<Rightarrow> int" where
  "PFN_UP x = u32_add x (PAGE_SIZE - 1) div 4096"

definition PFN_DOWN :: "int \<Rightarrow> int" where
  "PFN_DOWN x = x div 4096"

fun mem_size_loop :: "int \<Rightarrow> memblock_region list \<Rightarrow> int \<Rightarrow> int" where
  "mem_size_loop limit_pfn [] pages = pages"
| "mem_size_loop limit_pfn (r # rs) pages =
     (let start_pfn = min (PFN_UP (rg_base r)) limit_pfn;
          end_pfn = min (PFN_DOWN (rg_end r)) limit_pfn
      in mem_size_loop limit_pfn rs (u32_add pages (u32_sub end_pfn start_pfn)))"

definition memblock_mem_size :: "memblock \<Rightarrow> int \<Rightarrow> int" where
  "memblock_mem_size m limit_pfn = u32_mul (mem_size_loop limit_pfn (mt_regions (mb_memory m)) 0) 4096"

definition memblock_start_of_DRAM :: "memblock \<Rightarrow> int" where
  "memblock_start_of_DRAM m = rg_base (mt_regions (mb_memory m) ! 0)"

definition memblock_end_of_DRAM :: "memblock \<Rightarrow> int" where
  "memblock_end_of_DRAM m = rg_end (mt_regions (mb_memory m) ! (mt_cnt (mb_memory m) - 1))"

fun find_max_addr_loop :: "memblock_region list \<Rightarrow> int \<Rightarrow> int" where
  "find_max_addr_loop [] limit = U32_MAX"
| "find_max_addr_loop (r # rs) limit =
     (if limit \<le> rg_size r then u32_add (rg_base r) limit
      else find_max_addr_loop rs (u32_sub limit (rg_size r)))"

definition find_max_addr :: "memblock \<Rightarrow> int \<Rightarrow> int" where
  "find_max_addr m limit = find_max_addr_loop (mt_regions (mb_memory m)) limit"

definition memblock_enforce_memory_limit :: "boot_env \<Rightarrow> int \<Rightarrow> memblock \<Rightarrow> memblock kres" where
  "memblock_enforce_memory_limit E limit m =
     (if limit = 0 then Inr m
      else let max_addr = find_max_addr m limit in
        if max_addr = U32_MAX then Inr m
        else
          bindK (memblock_remove_range (resize E) Memory max_addr U32_MAX m) (\<lambda>(m1, r1).
          bindK (memblock_remove_range (resize E) Reserved max_addr U32_MAX m1) (\<lambda>(m2, r2).
          Inr m2)))"

primrec remove_down_map :: "nat \<Rightarrow> nat \<Rightarrow> memblock_type \<Rightarrow> memblock_type" where
  "remove_down_map start_rgn 0 t = t"
| "remove_down_map start_rgn (Suc i) t =
     (if i \<ge> start_rgn then
        remove_down_map start_rgn i
          (if \<not> memblock_is_nomap (mt_regions t ! i) then memblock_remove_region t i else t)
      else t)"

definition memblock_mem_limit_remove_map :: "boot_env \<Rightarrow> int \<Rightarrow> memblock \<Rightarrow> memblock kres" where
  "memblock_mem_limit_remove_map E limit m =
     (if limit = 0 then Inr m
      else let max_addr = find_max_addr m limit in
        if max_addr = U32_MAX then Inr m
        else
          bindK (memblock_isolate_range (resize E) Memory max_addr U32_MAX m) (\<lambda>(m1, ret, start_rgn, end_rgn).
          if ret \<noteq> 0 then Inr m1
          else
            let m2 = m1\<lparr>mb_memory := remove_down_map start_rgn end_rgn (mb_memory m1)\<rparr> in
            bindK (memblock_remove_range (resize E) Reserved max_addr U32_MAX m2) (\<lambda>(m3, r3). Inr m3)))"

function search_loop :: "memblock_region list \<Rightarrow> int \<Rightarrow> nat \<Rightarrow> nat \<Rightarrow> int" where
  "search_loop rs addr left right =
     (let mid = (right + left) div 2 in
      if addr < rg_base (rs ! mid) then
        (if left < mid then search_loop rs addr left mid else -1)
      else if addr \<ge> rg_end (rs ! mid) then
        (if Suc mid < right then search_loop rs addr (Suc mid) right else -1)
      else int mid)"
  by pat_completeness auto
termination
  by (relation "measure (\<lambda>(rs, addr, left, right). right - left)") auto

declare search_loop.simps [simp del]

definition memblock_search :: "memblock_type \<Rightarrow> int \<Rightarrow> int" where
  "memblock_search t addr = search_loop (mt_regions t) addr 0 (mt_cnt t)"

definition memblock_is_reserved :: "memblock \<Rightarrow> int \<Rightarrow> bool" where
  "memblock_is_reserved m addr \<longleftrightarrow> memblock_search (mb_reserved m) addr \<noteq> -1"

definition memblock_is_memory :: "memblock \<Rightarrow> int \<Rightarrow> bool" where
  "memblock_is_memory m addr \<longleftrightarrow> memblock_search (mb_memory m) addr \<noteq> -1"

definition memblock_is_map_memory :: "memblock \<Rightarrow> int \<Rightarrow> bool" where
  "memblock_is_map_memory m addr =
     (let i = memblock_search (mb_memory m) addr in
      if i = -1 then False else \<not> memblock_is_nomap (mt_regions (mb_memory m) ! nat i))"

definition memblock_is_region_memory :: "memblock \<Rightarrow> int \<Rightarrow> int \<Rightarrow> bool" where
  "memblock_is_region_memory m base sz0 =
     (let idx = memblock_search (mb_memory m) base;
          end = u32_add base (memblock_cap_size base sz0)
      in if idx = -1 then False
         else let r = mt_regions (mb_memory m) ! nat idx in rg_base r \<le> base \<and> rg_end r \<ge> end)"

definition memblock_is_region_reserved :: "memblock \<Rightarrow> int \<Rightarrow> int \<Rightarrow> bool" where
  "memblock_is_region_reserved m base sz0 =
     memblock_overlaps_region (mb_reserved m) base (memblock_cap_size base sz0)"

lemma round_zero [simp]: "round_up 0 y = 0" "round_down 0 y = 0"
  by (simp_all add: round_up_def round_down_def)

lemma rg_end_dummy [simp]: "rg_end dummy_region = 0" "rg_base dummy_region = 0" "rg_size dummy_region = 0"
  by (simp_all add: rg_end_def dummy_region_def u32_add_def)

lemma memblock_remove_region_cnt:
  "i < mt_cnt t \<Longrightarrow> mt_cnt (memblock_remove_region t i) = max 1 (mt_cnt t - 1)"
  by (auto simp: memblock_remove_region_def mt_cnt_def Let_def)

lemma memblock_remove_region_last:
  "mt_cnt t = 1 \<Longrightarrow> mt_regions (memblock_remove_region t 0) = [dummy_region]"
  by (auto simp: memblock_remove_region_def mt_cnt_def Let_def)

function trim_loop :: "int \<Rightarrow> nat \<Rightarrow> memblock_type \<Rightarrow> memblock_type" where
  "trim_loop align i t =
     (if i < mt_cnt t then
        let r = mt_regions t ! i in
        if round_up (rg_base r) align = rg_base r \<and> round_down (rg_end r) align = rg_end r then
          trim_loop align (Suc i) t
        else if round_up (rg_base r) align < round_down (rg_end r) align then
          trim_loop align (Suc i)
            (t\<lparr>mt_regions := (mt_regions t)
                 [i := r\<lparr>rg_base := round_up (rg_base r) align,
                         rg_size := u32_sub (round_down (rg_end r) align) (round_up (rg_base r) align)\<rparr>]\<rparr>)
        else trim_loop align i (memblock_remove_region t i)
      else t)"
  by pat_completeness auto
termination
proof (relation "measure (\<lambda>(align, i, t).
         2 * (mt_cnt t - i) + (if mt_regions t = [dummy_region] then 0 else 1))", goal_cases)
  case (4 align i t r)
  then have "mt_regions t \<noteq> [dummy_region]"
    by (cases i) (auto simp: mt_cnt_def)
  with 4 show ?case
    by (cases "mt_cnt t = 1")
       (auto simp: memblock_remove_region_cnt memblock_remove_region_last max_def)
qed (auto simp: mt_cnt_def)

declare trim_loop.simps [simp del]

definition memblock_trim_memory :: "int \<Rightarrow> memblock \<Rightarrow> memblock" where
  "memblock_trim_memory align m = m\<lparr>mb_memory := trim_loop align 0 (mb_memory m)\<rparr>"

definition memblock_set_current_limit :: "int \<Rightarrow> memblock \<Rightarrow> memblock" where
  "memblock_set_current_limit limit m = m\<lparr>current_limit := limit\<rparr>"

definition memblock_get_current_limit :: "memblock \<Rightarrow> int" where
  "memblock_get_current_limit m = current_limit m"

fun reserved_within_loop :: "memblock_region list \<Rightarrow> int \<Rightarrow> int \<Rightarrow> int \<Rightarrow> int" where
  "reserved_within_loop [] start_addr end_addr sz = sz"
| "reserved_within_loop (r # rs) start_addr end_addr sz =
     (if rg_end r < start_addr then reserved_within_loop rs start_addr end_addr sz
      else if rg_base r > end_addr then reserved_within_loop rs start_addr end_addr sz
      else reserved_within_loop rs start_addr end_addr (u32_add sz (u32_sub (rg_end r) (rg_base r))))"

definition memblock_reserved_memory_within :: "memblock \<Rightarrow> int \<Rightarrow> int \<Rightarrow> int" where
  "memblock_reserved_memory_within m start_addr end_addr =
     reserved_within_loop (mt_regions (mb_reserved m)) start_addr end_addr 0"

definition memblock_allow_resize :: "memblock \<Rightarrow> memblock" where
  "memblock_allow_resize m = m\<lparr>memblock_can_resize := True\<rparr>"

end
