(* ===== verification/Memblock_Arrays.thy ===== *)
theory Memblock_Arrays
  imports Memblock
begin

text \<open>
  The array loops of \<open>Memblock\<close> as functions on lists of regions.  A well-formed array is sorted,
  its regions are not empty, do not overlap and do not wrap; its meaning is the map from addresses
  to flags.  The loop that inserts the missing pieces of a range is \<open>fill\<close>, the loop that splits
  the regions at the two ends of a range is \<open>isolated\<close>, and \<open>memblock_merge_regions\<close> is
  \<open>merge_list\<close>; each keeps the array well-formed and changes the map as it should.
\<close>

section \<open>Well-formed arrays and what they mean\<close>

definition region_ok :: "memblock_region \<Rightarrow> bool" where
  "region_ok r \<longleftrightarrow> 0 \<le> rg_base r \<and> 0 < rg_size r \<and> rg_base r + rg_size r \<le> U32_MAX"

definition before :: "memblock_region \<Rightarrow> memblock_region \<Rightarrow> bool" where
  "before a b \<longleftrightarrow> rg_base a + rg_size a \<le> rg_base b"

definition regions_wf :: "memblock_region list \<Rightarrow> bool" where
  "regions_wf rs \<longleftrightarrow> (\<forall>r \<in> set rs. region_ok r) \<and> sorted_wrt before rs"

fun rmap :: "memblock_region list \<Rightarrow> int \<rightharpoonup> 32 word" where
  "rmap [] = (\<lambda>_. None)"
| "rmap (r # rs) = (\<lambda>a. if rg_base r \<le> a \<and> a < rg_base r + rg_size r then Some (rg_flags r) else rmap rs a)"

definition rtotal :: "memblock_region list \<Rightarrow> int" where
  "rtotal rs = sum_list (map rg_size rs)"

lemma total_simps [simp]: "rtotal [] = 0" "rtotal (r # rs) = rg_size r + rtotal rs" "rtotal (xs @ ys) = rtotal xs + rtotal ys"
  by (simp_all add: rtotal_def)

lemma rmap_append: "rmap (xs @ ys) = rmap ys ++ rmap xs"
  by (induction xs) (auto simp: map_add_def fun_eq_iff split: option.splits)

lemma rg_end_ok: "region_ok r \<Longrightarrow> rg_end r = rg_base r + rg_size r"
  by (simp add: region_ok_def rg_end_def u32_add_nowrap)

lemma regions_wf_Nil [simp]: "regions_wf []"
  by (simp add: regions_wf_def)

lemma regions_wf_Cons [simp]:
  "regions_wf (r # rs) \<longleftrightarrow> region_ok r \<and> (\<forall>x \<in> set rs. before r x) \<and> regions_wf rs"
  by (auto simp: regions_wf_def)

lemma regions_wf_append [simp]:
  "regions_wf (xs @ ys) \<longleftrightarrow> regions_wf xs \<and> regions_wf ys \<and> (\<forall>x \<in> set xs. \<forall>y \<in> set ys. before x y)"
  by (auto simp: regions_wf_def sorted_wrt_append)

lemma before_trans: "before a b \<Longrightarrow> region_ok b \<Longrightarrow> before b c \<Longrightarrow> before a c"
  by (simp add: before_def region_ok_def)

text \<open>merging\<close>

fun merge_list :: "memblock_region list \<Rightarrow> memblock_region list" where
  "merge_list (a # b # rs) =
     (if rg_base a + rg_size a = rg_base b \<and> rg_flags a = rg_flags b
      then merge_list (a\<lparr>rg_size := rg_size a + rg_size b\<rparr> # rs)
      else a # merge_list (b # rs))"
| "merge_list rs = rs"

lemma merge_loop_list:
  "regions_wf (pre @ suf) \<Longrightarrow> merge_loop (length pre) (pre @ suf) = Some (pre @ merge_list suf)"
proof (induction suf arbitrary: pre rule: merge_list.induct)
  case (1 a b rs)
  from "1.prems" have ok: "region_ok a" "region_ok b" "before a b" by auto
  then have ends: "rg_end a = rg_base a + rg_size a" "rg_base a + rg_size a \<le> rg_base b"
    by (simp_all add: rg_end_ok before_def)
  have nths: "(pre @ a # b # rs) ! length pre = a" "(pre @ a # b # rs) ! Suc (length pre) = b"
    by (simp_all add: nth_append)
  show ?case
  proof (cases "rg_base a + rg_size a = rg_base b \<and> rg_flags a = rg_flags b")
    case True
    let ?a = "a\<lparr>rg_size := rg_size a + rg_size b\<rparr>"
    have sz: "u32_add (rg_size a) (rg_size b) = rg_size a + rg_size b"
      using ok True by (intro u32_add_nowrap) (auto simp: region_ok_def)
    have wf: "regions_wf (pre @ ?a # rs)"
      using "1.prems" True by (auto simp: region_ok_def before_def)
    have "merge_loop (length pre) (pre @ a # b # rs) = merge_loop (length pre) (pre @ ?a # rs)"
      using True ends nths sz by (subst merge_loop.simps) (simp add: Let_def)
    then show ?thesis using "1.IH"(1) [OF True wf] True by simp
  next
    case False
    have "merge_loop (length pre) (pre @ a # b # rs) = merge_loop (Suc (length pre)) (pre @ a # b # rs)"
      using False ends nths by (subst merge_loop.simps) (auto simp: Let_def)
    moreover have "merge_loop (length (pre @ [a])) ((pre @ [a]) @ b # rs) = Some ((pre @ [a]) @ merge_list (b # rs))"
      by (rule "1.IH"(2) [OF False]) (use "1.prems" in simp)
    ultimately show ?thesis unfolding merge_list.simps(1) if_not_P [OF False] by simp
  qed
qed (subst merge_loop.simps, simp)+

lemma merge_list_hd:
  "rs \<noteq> [] \<Longrightarrow> rg_base (hd (merge_list rs)) = rg_base (hd rs) \<and> rg_flags (hd (merge_list rs)) = rg_flags (hd rs)"
  by (induction rs rule: merge_list.induct) auto

lemma merge_list_Nil [simp]: "merge_list rs = [] \<longleftrightarrow> rs = []"
  by (induction rs rule: merge_list.induct) auto

lemma before_all_hd: "regions_wf rs \<Longrightarrow> (\<forall>r \<in> set rs. before x r) \<longleftrightarrow> rs = [] \<or> before x (hd rs)"
  by (cases rs) (auto intro: before_trans)

lemma merge_list_wf: "regions_wf rs \<Longrightarrow> regions_wf (merge_list rs)"
proof (induction rs rule: merge_list.induct)
  case (1 a b rs)
  show ?case
  proof (cases "rg_base a + rg_size a = rg_base b \<and> rg_flags a = rg_flags b")
    case True
    have "regions_wf (a\<lparr>rg_size := rg_size a + rg_size b\<rparr> # rs)"
      using "1.prems" True by (auto simp: region_ok_def before_def)
    then show ?thesis using "1.IH"(1) [OF True] True by simp
  next
    case False
    have wf: "regions_wf (merge_list (b # rs))"
      by (rule "1.IH"(2) [OF False]) (use "1.prems" in simp)
    have "before a (hd (merge_list (b # rs)))"
      using merge_list_hd [of "b # rs"] "1.prems" by (simp add: before_def)
    then have "\<forall>x \<in> set (merge_list (b # rs)). before a x"
      using before_all_hd [OF wf] by blast
    then show ?thesis unfolding merge_list.simps(1) if_not_P [OF False] using wf "1.prems" by simp
  qed
qed auto

lemma rmap_merge_list: "regions_wf rs \<Longrightarrow> rmap (merge_list rs) = rmap rs"
proof (induction rs rule: merge_list.induct)
  case (1 a b rs)
  show ?case
  proof (cases "rg_base a + rg_size a = rg_base b \<and> rg_flags a = rg_flags b")
    case True
    have wf: "regions_wf (a\<lparr>rg_size := rg_size a + rg_size b\<rparr> # rs)"
      using "1.prems" True by (auto simp: region_ok_def before_def)
    show ?thesis using "1.IH"(1) [OF True wf] True "1.prems"
      by (auto simp: fun_eq_iff region_ok_def)
  next
    case False
    then show ?thesis using "1.IH"(2) [OF False] "1.prems" by auto
  qed
qed auto

lemma total_merge_list: "rtotal (merge_list rs) = rtotal rs"
  by (induction rs rule: merge_list.induct) auto

lemma length_merge_list: "length (merge_list rs) \<le> length rs"
  by (induction rs rule: merge_list.induct) auto

fun minimal :: "memblock_region list \<Rightarrow> bool" where
  "minimal (a # b # rs) \<longleftrightarrow>
     \<not> (rg_base a + rg_size a = rg_base b \<and> rg_flags a = rg_flags b) \<and> minimal (b # rs)"
| "minimal rs = True"

lemma minimal_Cons: "minimal (a # rs) \<longleftrightarrow> rs = [] \<or> (\<not> (rg_base a + rg_size a = rg_base (hd rs) \<and> rg_flags a = rg_flags (hd rs)) \<and> minimal rs)"
  by (cases rs) auto

lemma minimal_merge_list: "minimal (merge_list rs)"
proof (induction rs rule: merge_list.induct)
  case (1 a b rs)
  then show ?case using merge_list_hd [of "b # rs"] by (auto simp: minimal_Cons)
qed auto

text \<open>filling\<close>

definition new_region :: "int \<Rightarrow> int \<Rightarrow> 32 word \<Rightarrow> memblock_region" where
  "new_region b e f = \<lparr>rg_base = b, rg_size = e - b, rg_flags = f\<rparr>"

lemma new_region_simps [simp]:
  "rg_base (new_region b e f) = b" "rg_size (new_region b e f) = e - b" "rg_flags (new_region b e f) = f"
  by (simp_all add: new_region_def)

fun fill :: "int \<Rightarrow> int \<Rightarrow> 32 word \<Rightarrow> memblock_region list \<Rightarrow> memblock_region list" where
  "fill b e f [] = (if b < e then [new_region b e f] else [])"
| "fill b e f (r # rs) =
     (if rg_base r \<ge> e then (if b < e then new_region b e f # r # rs else r # rs)
      else if rg_base r + rg_size r \<le> b then r # fill b e f rs
      else if rg_base r > b then
        new_region b (rg_base r) f # r # fill (min (rg_base r + rg_size r) e) e f rs
      else r # fill (min (rg_base r + rg_size r) e) e f rs)"

lemma length_fill: "length rs \<le> length (fill b e f rs)"
  by (induction b e f rs rule: fill.induct) auto

definition add_finish :: "bool \<Rightarrow> int \<Rightarrow> 32 word \<Rightarrow> (memblock_type \<times> nat \<times> int \<times> nat) option \<Rightarrow> (memblock_type \<times> nat) option" where
  "add_finish ins end flags x =
    (case x of
        None \<Rightarrow> None
      | Some (t', idx, base, nr_new) \<Rightarrow>
          if base < end then
            if ins then
              map_option (\<lambda>t''. (t'', Suc nr_new))
                (memblock_insert_region t' idx base (u32_sub end base) flags)
            else Some (t', Suc nr_new)
          else Some (t', nr_new))"

lemma add_pass_finish: "add_pass ins end flags base t = add_finish ins end flags (add_loop ins end flags 0 base 0 t)"
  by (simp add: add_pass_def add_finish_def)

lemma insert_at:
  assumes "mt_regions t = pre @ suf" and "mt_cnt t < mt_max t" and "b < e" "e - b \<le> U32_MAX"
  shows "memblock_insert_region t (length pre) b (u32_sub e b) f =
     Some (t\<lparr>mt_regions := pre @ new_region b e f # suf, mt_total_size := u32_add (mt_total_size t) (e - b)\<rparr>)"
  using assms by (simp add: memblock_insert_region_def new_region_def u32_sub_nowrap)

lemma u32_add_assoc: "u32_add (u32_add x a) b = u32_add x (a + b)"
  by (simp add: u32_add_def algebra_simps mod_simps)

lemma u32_add_0 [simp]: "is_u32 x \<Longrightarrow> u32_add x 0 = x"
  by (simp add: u32_add_def is_u32_def U32_MAX_def)

lemma add_loop_step:
  assumes "mt_regions t = pre @ r # rs" and "region_ok r"
  shows "add_loop ins e f (length pre) b n t =
     (if rg_base r \<ge> e then Some (t, length pre, b, n)
      else if rg_base r + rg_size r \<le> b then add_loop ins e f (Suc (length pre)) b n t
      else if rg_base r > b then
        (if ins then
           (case memblock_insert_region t (length pre) b (u32_sub (rg_base r) b) f of
              None \<Rightarrow> None
            | Some t' \<Rightarrow> add_loop ins e f (Suc (Suc (length pre))) (min (rg_base r + rg_size r) e) (Suc n) t')
         else add_loop ins e f (Suc (length pre)) (min (rg_base r + rg_size r) e) (Suc n) t)
      else add_loop ins e f (Suc (length pre)) (min (rg_base r + rg_size r) e) n t)"
  using assms by (subst add_loop.simps) (simp add: Let_def mt_cnt_def rg_end_ok split: option.split)

lemma add_loop_end: "mt_regions t = pre \<Longrightarrow> add_loop ins e f (length pre) b n t = Some (t, length pre, b, n)"
  by (subst add_loop.simps) (simp add: mt_cnt_def)

lemma add_loop_count:
  assumes "regions_wf suf" and "mt_regions t = pre @ suf"
  shows "add_finish False e f (add_loop False e f (length pre) b n t) =
     Some (t, n + (length (fill b e f suf) - length suf))"
  using assms
proof (induction suf arbitrary: pre b n)
  case Nil
  then show ?case by (simp add: add_loop_end add_finish_def)
next
  case (Cons r rs)
  have IH: "add_finish False e f (add_loop False e f (Suc (length pre)) b' n' t) =
      Some (t, n' + (length (fill b' e f rs) - length rs))" for b' n'
    using Cons.IH [of "pre @ [r]"] Cons.prems by simp
  have "length rs \<le> length (fill b' e f rs)" for b' by (rule length_fill)
  then show ?case
    using Cons.prems by (simp add: add_loop_step IH Suc_diff_le) (simp add: add_finish_def)
qed

lemma add_loop_insert:
  assumes "regions_wf suf" and "mt_regions t = pre @ suf" and "e \<le> U32_MAX" and "0 \<le> b"
    and "length (pre @ fill b e f suf) \<le> mt_max t" and "is_u32 (mt_total_size t)"
  shows "add_finish True e f (add_loop True e f (length pre) b n t) =
     Some (t\<lparr>mt_regions := pre @ fill b e f suf,
             mt_total_size := u32_add (mt_total_size t) (rtotal (fill b e f suf) - rtotal suf)\<rparr>,
           n + (length (fill b e f suf) - length suf))"
  using assms
proof (induction suf arbitrary: pre b n t)
  case Nil
  then show ?case by (auto simp: add_loop_end add_finish_def insert_at [where suf = "[]", simplified] mt_cnt_def)
next
  case (Cons r rs)
  have ok: "region_ok r" and wf: "regions_wf rs" using Cons.prems(1) by simp_all
  have ends: "0 \<le> rg_base r" "rg_base r + rg_size r \<le> U32_MAX" "0 < rg_size r"
    using ok by (simp_all add: region_ok_def)
  have lf: "length rs \<le> length (fill b' e f rs)" for b' by (rule length_fill)
  have IH: "add_finish True e f (add_loop True e f (Suc (length pre)) b' n' t) =
     Some (t\<lparr>mt_regions := pre @ r # fill b' e f rs,
             mt_total_size := u32_add (mt_total_size t) (rtotal (fill b' e f rs) - rtotal rs)\<rparr>,
           n' + (length (fill b' e f rs) - length rs))"
    if "0 \<le> b'" "length (pre @ r # fill b' e f rs) \<le> mt_max t" for b' n'
    using Cons.IH [OF wf, of t "pre @ [r]" b' n'] Cons.prems that by simp
  consider (stop) "rg_base r \<ge> e" | (skip) "rg_base r < e" "rg_base r + rg_size r \<le> b"
    | (gap) "rg_base r < e" "b < rg_base r + rg_size r" "rg_base r > b"
    | (over) "rg_base r < e" "b < rg_base r + rg_size r" "rg_base r \<le> b"
    by linarith
  then show ?case
  proof cases
    case stop
    then show ?thesis
      using Cons.prems ok insert_at [of t pre "r # rs" b e f]
      by (auto simp: add_loop_step add_finish_def mt_cnt_def)
  next
    case skip
    then show ?thesis using Cons.prems ok IH [of b] by (simp add: add_loop_step)
  next
    case over
    then show ?thesis using Cons.prems ok ends IH [of "min (rg_base r + rg_size r) e"]
      by (simp add: add_loop_step)
  next
    case gap
    let ?b = "min (rg_base r + rg_size r) e"
    let ?t = "t\<lparr>mt_regions := pre @ new_region b (rg_base r) f # r # rs,
                mt_total_size := u32_add (mt_total_size t) (rg_base r - b)\<rparr>"
    have ins: "memblock_insert_region t (length pre) b (u32_sub (rg_base r) b) f = Some ?t"
      using gap Cons.prems ends lf [of ?b] by (intro insert_at) (auto simp: mt_cnt_def)
    have "add_finish True e f (add_loop True e f (length (pre @ [new_region b (rg_base r) f, r])) ?b (Suc n) ?t) =
       Some (?t\<lparr>mt_regions := (pre @ [new_region b (rg_base r) f, r]) @ fill ?b e f rs,
             mt_total_size := u32_add (mt_total_size ?t) (rtotal (fill ?b e f rs) - rtotal rs)\<rparr>,
           Suc n + (length (fill ?b e f rs) - length rs))"
      by (rule Cons.IH) (use gap Cons.prems ends wf in auto)
    then show ?thesis
      using gap Cons.prems ok lf [of ?b]
      by (simp add: add_loop_step ins u32_add_assoc Suc_diff_le algebra_simps)
  qed
qed

section \<open>What filling a range does to the map\<close>

lemma wf_total_bound: "regions_wf rs \<Longrightarrow> (\<forall>r \<in> set rs. lo \<le> rg_base r) \<Longrightarrow> 0 \<le> lo \<Longrightarrow> lo \<le> U32_MAX \<Longrightarrow> 0 \<le> rtotal rs \<and> lo + rtotal rs \<le> U32_MAX"
proof (induction rs arbitrary: lo)
  case (Cons r rs)
  have "0 \<le> rtotal rs \<and> rg_base r + rg_size r + rtotal rs \<le> U32_MAX"
    by (rule Cons.IH) (use Cons.prems in \<open>auto simp: region_ok_def before_def\<close>)
  then show ?case using Cons.prems by (auto simp: region_ok_def)
qed simp

lemma wf_total_u32: "regions_wf rs \<Longrightarrow> is_u32 (rtotal rs)"
  using wf_total_bound [of rs 0] by (auto simp: regions_wf_def region_ok_def is_u32_def U32_MAX_def)

lemma fill_before:
  "regions_wf rs \<Longrightarrow> (\<forall>x \<in> set rs. before y x) \<Longrightarrow> (b < e \<longrightarrow> rg_base y + rg_size y \<le> b) \<Longrightarrow>
   \<forall>x \<in> set (fill b e f rs). before y x"
  by (induction b e f rs rule: fill.induct) (auto simp: before_def region_ok_def)

lemma fill_wf:
  "regions_wf rs \<Longrightarrow> 0 \<le> b \<Longrightarrow> e \<le> U32_MAX \<Longrightarrow> regions_wf (fill b e f rs)"
proof (induction b e f rs rule: fill.induct)
  case (1 b e f)
  then show ?case by (simp add: region_ok_def)
next
  case (2 b e f r rs)
  have ok: "0 \<le> rg_base r" "0 < rg_size r" and aft: "\<forall>x \<in> set rs. before r x" and wf: "regions_wf rs"
    using "2.prems"(1) by (simp_all add: region_ok_def)
  let ?b = "min (rg_base r + rg_size r) e"
  consider (stop) "e \<le> rg_base r" | (skip) "\<not> e \<le> rg_base r" "rg_base r + rg_size r \<le> b"
    | (gap) "\<not> e \<le> rg_base r" "\<not> rg_base r + rg_size r \<le> b" "b < rg_base r"
    | (over) "\<not> e \<le> rg_base r" "\<not> rg_base r + rg_size r \<le> b" "\<not> b < rg_base r"
    by linarith
  then show ?case
  proof cases
    case stop
    then show ?thesis using "2.prems" by (auto simp: region_ok_def before_def)
  next
    case skip
    then show ?thesis
      using "2.prems" "2.IH"(1) fill_before [OF wf aft, of b e f] by simp
  next
    case gap
    have "regions_wf (fill ?b e f rs)" using gap "2.IH"(2) "2.prems" ok wf by simp
    moreover have "\<forall>x \<in> set (fill ?b e f rs). before (new_region b (rg_base r) f) x"
      by (rule fill_before) (use wf aft gap ok in \<open>auto simp: before_def\<close>)
    moreover have "\<forall>x \<in> set (fill ?b e f rs). before r x"
      by (rule fill_before) (use wf aft in auto)
    ultimately show ?thesis using gap "2.prems" ok by (simp add: region_ok_def before_def)
  next
    case over
    have "regions_wf (fill ?b e f rs)" using over "2.IH"(3) "2.prems" ok wf by simp
    moreover have "\<forall>x \<in> set (fill ?b e f rs). before r x"
      by (rule fill_before) (use wf aft in auto)
    ultimately show ?thesis using over "2.prems" by simp
  qed
qed

lemma rmap_None_before: "\<forall>x \<in> set rs. hi \<le> rg_base x \<Longrightarrow> a < hi \<Longrightarrow> rmap rs a = None"
  by (induction rs) auto

lemma rmap_fill:
  "regions_wf rs \<Longrightarrow> rmap (fill b e f rs) = (\<lambda>a. if b \<le> a \<and> a < e then Some f else None) ++ rmap rs"
proof (induction b e f rs rule: fill.induct)
  case (1 b e f)
  then show ?case by auto
next
  case (2 b e f r rs)
  have ok: "0 < rg_size r" and wf: "regions_wf rs" using "2.prems" by (simp_all add: region_ok_def)
  have none: "rmap rs a = None" if "a < rg_base r + rg_size r" for a
    using that "2.prems" rmap_None_before [of rs "rg_base r + rg_size r" a] by (auto simp: before_def)
  let ?b = "min (rg_base r + rg_size r) e"
  consider (stop) "e \<le> rg_base r" | (skip) "\<not> e \<le> rg_base r" "rg_base r + rg_size r \<le> b"
    | (gap) "\<not> e \<le> rg_base r" "\<not> rg_base r + rg_size r \<le> b" "b < rg_base r"
    | (over) "\<not> e \<le> rg_base r" "\<not> rg_base r + rg_size r \<le> b" "\<not> b < rg_base r"
    by linarith
  then show ?case
  proof cases
    case stop
    then have "rmap rs a = None" if "a < e" for a using that none ok by simp
    then show ?thesis using stop by (auto simp: fun_eq_iff map_add_def split: option.splits)
  next
    case skip
    then show ?thesis using "2.IH"(1) wf none by (auto simp: fun_eq_iff map_add_def split: option.splits)
  next
    case gap
    then show ?thesis using "2.IH"(2) wf none ok by (auto simp: fun_eq_iff map_add_def split: option.splits)
  next
    case over
    then show ?thesis using "2.IH"(3) wf none by (auto simp: fun_eq_iff map_add_def split: option.splits)
  qed
qed

lemma fill_Nil [simp]: "fill b e f rs = [] \<longleftrightarrow> rs = [] \<and> e \<le> b"
  by (induction b e f rs rule: fill.induct) auto

lemma length_fill_bound: "length (fill b e f rs) \<le> 2 * length rs + 1"
  by (induction b e f rs rule: fill.induct) auto

lemma fill_same: "regions_wf rs \<Longrightarrow> length (fill b e f rs) = length rs \<Longrightarrow> fill b e f rs = rs"
proof (induction b e f rs rule: fill.induct)
  case (2 b e f r rs)
  have "length rs \<le> length (fill (min (rg_base r + rg_size r) e) e f rs)" by (rule length_fill)
  with 2 show ?case by (auto split: if_splits)
qed (auto split: if_splits)

section \<open>Isolating a range\<close>

fun clip :: "int \<Rightarrow> int \<Rightarrow> memblock_region list \<Rightarrow> memblock_region list" where
  "clip lo hi [] = []"
| "clip lo hi (r # rs) =
     (if max lo (rg_base r) < min hi (rg_base r + rg_size r)
      then r\<lparr>rg_base := max lo (rg_base r),
             rg_size := min hi (rg_base r + rg_size r) - max lo (rg_base r)\<rparr> # clip lo hi rs
      else clip lo hi rs)"

lemma set_clip: "x \<in> set (clip lo hi rs) \<Longrightarrow>
   \<exists>r \<in> set rs. rg_base r \<le> rg_base x \<and> rg_base x + rg_size x \<le> rg_base r + rg_size r \<and> 0 < rg_size x \<and>
     lo \<le> rg_base x \<and> rg_base x + rg_size x \<le> hi \<and> rg_flags x = rg_flags r"
  by (induction rs) (auto split: if_splits)

lemma clip_wf: "regions_wf rs \<Longrightarrow> regions_wf (clip lo hi rs)"
proof (induction rs)
  case (Cons r rs)
  have "before (r\<lparr>rg_base := max lo (rg_base r),
             rg_size := min hi (rg_base r + rg_size r) - max lo (rg_base r)\<rparr>) x" if "x \<in> set (clip lo hi rs)" for x
    using set_clip [OF that] Cons.prems by (fastforce simp: before_def)
  with Cons show ?case by (auto simp: region_ok_def)
qed simp

lemma rmap_clip: "rmap (clip lo hi rs) = rmap rs |` {lo..<hi}"
  by (induction rs) (auto simp: fun_eq_iff restrict_map_def)

lemma clip_above: "\<forall>x \<in> set rs. hi \<le> rg_base x \<Longrightarrow> clip lo hi rs = []"
  by (induction rs) auto

lemma clip_all: "regions_wf rs \<Longrightarrow> \<forall>x \<in> set rs. lo \<le> rg_base x \<Longrightarrow> U32_MAX \<le> hi \<Longrightarrow> clip lo hi rs = rs"
  by (induction rs) (auto simp: region_ok_def max_def min_def)

lemma total_clip_split:
  "regions_wf rs \<Longrightarrow> 0 \<le> B \<Longrightarrow> B \<le> E \<Longrightarrow> E \<le> U32_MAX \<Longrightarrow>
   rtotal (clip 0 B rs) + rtotal (clip B E rs) + rtotal (clip E U32_MAX rs) = rtotal rs"
  by (induction rs) (auto simp: region_ok_def max_def min_def)

lemma rmap_clip_all: "regions_wf rs \<Longrightarrow> rmap rs a \<noteq> None \<Longrightarrow> 0 \<le> a \<and> a < U32_MAX"
  by (induction rs) (auto simp: region_ok_def split: if_splits)

lemma u32_add_sub [simp]: "is_u32 x \<Longrightarrow> u32_add (u32_sub x d) d = x"
  by (simp add: u32_add_def u32_sub_def is_u32_def U32_MAX_def mod_simps)

lemma isolate_step:
  assumes "mt_regions t = pre @ r # rs" and "region_ok r" and "0 \<le> B" "E \<le> U32_MAX" "B < E"
    and "is_u32 (mt_total_size t)"
    and "rg_base r < B \<and> B < rg_base r + rg_size r \<or> B \<le> rg_base r \<and> rg_base r < E \<and> E < rg_base r + rg_size r \<longrightarrow>
      mt_cnt t < mt_max t"
  shows "isolate_loop B E (length pre) st en t =
     (if rg_base r \<ge> E then Some (t, st, en)
      else if rg_base r + rg_size r \<le> B then isolate_loop B E (Suc (length pre)) st en t
      else if rg_base r < B then
        isolate_loop B E (Suc (length pre)) st en
          (t\<lparr>mt_regions := pre @ r\<lparr>rg_size := B - rg_base r\<rparr> #
               r\<lparr>rg_base := B, rg_size := rg_base r + rg_size r - B\<rparr> # rs\<rparr>)
      else if rg_base r + rg_size r > E then
        isolate_loop B E (length pre) st en
          (t\<lparr>mt_regions := pre @ r\<lparr>rg_size := E - rg_base r\<rparr> #
               r\<lparr>rg_base := E, rg_size := rg_base r + rg_size r - E\<rparr> # rs\<rparr>)
      else isolate_loop B E (Suc (length pre)) (if en = 0 then length pre else st) (Suc (length pre)) t)"
proof -
  have nth: "mt_regions t ! length pre = r" and len: "length pre < mt_cnt t"
    using assms(1) by (simp_all add: mt_cnt_def)
  have ends: "rg_end r = rg_base r + rg_size r" and b: "0 \<le> rg_base r" "0 < rg_size r" "rg_base r + rg_size r \<le> U32_MAX"
    using assms(2) by (simp_all add: rg_end_ok region_ok_def)
  have split: "memblock_insert_region
        (t\<lparr>mt_regions := (mt_regions t)[length pre := r\<lparr>rg_base := X, rg_size := u32_sub (rg_size r) (u32_sub X (rg_base r))\<rparr>],
           mt_total_size := u32_sub (mt_total_size t) (u32_sub X (rg_base r))\<rparr>)
        (length pre) (rg_base r) (u32_sub X (rg_base r)) (rg_flags r) =
      Some (t\<lparr>mt_regions := pre @ r\<lparr>rg_size := X - rg_base r\<rparr> #
               r\<lparr>rg_base := X, rg_size := rg_base r + rg_size r - X\<rparr> # rs\<rparr>)"
    if "rg_base r < X" "X < rg_base r + rg_size r" "mt_cnt t < mt_max t" for X
  proof -
    have d: "u32_sub X (rg_base r) = X - rg_base r"
      using that b by (intro u32_sub_nowrap) auto
    have d2: "u32_sub (rg_size r) (X - rg_base r) = rg_base r + rg_size r - X"
      using that b by (subst u32_sub_nowrap) auto
    show ?thesis
      using assms(1,6) that(3) unfolding d d2 memblock_insert_region_def mt_cnt_def
      by (cases t, cases r) simp
  qed
  show ?thesis
    using nth len ends split [of B] split [of E] assms(5,7)
    by (subst isolate_loop.simps) (simp add: Let_def)
qed

definition st_upd :: "nat \<Rightarrow> nat \<Rightarrow> nat \<Rightarrow> nat \<Rightarrow> nat \<Rightarrow> nat" where
  "st_upd n l k st en = (if k = 0 then st else if en = 0 then n + l else st)"

definition en_upd :: "nat \<Rightarrow> nat \<Rightarrow> nat \<Rightarrow> nat \<Rightarrow> nat" where
  "en_upd n l k en = (if k = 0 then en else n + l + k)"

definition isolated :: "int \<Rightarrow> int \<Rightarrow> memblock_region list \<Rightarrow> memblock_region list" where
  "isolated B E rs = clip 0 B rs @ clip B E rs @ clip E U32_MAX rs"

lemma isolate_end: "mt_regions t = pre \<Longrightarrow> isolate_loop B E (length pre) st en t = Some (t, st, en)"
  by (subst isolate_loop.simps) (simp add: mt_cnt_def)

lemma t_same: "mt_regions t = rs \<Longrightarrow> t\<lparr>mt_regions := rs\<rparr> = t"
  by (cases t) simp

lemma mt_upd_commute:
  "t\<lparr>mt_regions := a, mt_total_size := b\<rparr> = t\<lparr>mt_total_size := b, mt_regions := a\<rparr>"
  by (cases t) simp

lemma isolated_above: 
  assumes "regions_wf rs" "\<forall>x \<in> set rs. E \<le> rg_base x" "B < E"
  shows "clip 0 B rs = [] \<and> clip B E rs = [] \<and> clip E U32_MAX rs = rs"
proof -
  have "\<forall>x \<in> set rs. B \<le> rg_base x" using assms by fastforce
  then show ?thesis using assms by (simp add: clip_above clip_all)
qed

lemma length_isolated:
  "regions_wf rs \<Longrightarrow> 0 \<le> B \<Longrightarrow> B < E \<Longrightarrow> E \<le> U32_MAX \<Longrightarrow> length rs \<le> length (isolated B E rs)"
  by (induction rs) (auto simp: isolated_def region_ok_def max_def min_def)

lemma isolate_loop_list:
  assumes "regions_wf suf" and "mt_regions t = pre @ suf" and "0 \<le> B" "E \<le> U32_MAX" "B < E"
    and "is_u32 (mt_total_size t)" and "length (pre @ isolated B E suf) \<le> mt_max t"
  shows "isolate_loop B E (length pre) st en t =
     Some (t\<lparr>mt_regions := pre @ isolated B E suf\<rparr>,
       st_upd (length pre) (length (clip 0 B suf)) (length (clip B E suf)) st en,
       en_upd (length pre) (length (clip 0 B suf)) (length (clip B E suf)) en)"
  using assms
proof (induction suf arbitrary: pre t st en)
  case Nil
  then show ?case by (simp add: isolate_end isolated_def st_upd_def en_upd_def t_same)
next
  case (Cons r rs)
  have ok: "region_ok r" and wf: "regions_wf rs" and aft: "\<forall>x \<in> set rs. before r x"
    using Cons.prems(1) by simp_all
  have b: "0 \<le> rg_base r" "0 < rg_size r" "rg_base r + rg_size r \<le> U32_MAX"
    using ok by (simp_all add: region_ok_def)
  have lrs: "length rs \<le> length (isolated B E rs)" using length_isolated wf Cons.prems by blast
  note bounds = Cons.prems(3-5)
  have L0: "clip 0 B rs = []" if "B \<le> rg_base r + rg_size r"
    using aft that by (intro clip_above) (auto simp: before_def)
  have stop: "isolate_loop B E (length pre') st' en' t' = Some (t', st', en')"
    if "mt_regions t' = pre' @ q # rs" "E \<le> rg_base q" "region_ok q" "is_u32 (mt_total_size t')" for pre' q t' st' en'
    using that bounds by (subst isolate_step [where r = q and rs = rs]) auto
  text \<open>a region that starts inside\<close>
  have inside: "isolate_loop B E (length pre') st' en' t' =
     Some (t'\<lparr>mt_regions := pre' @ isolated B E (q # rs)\<rparr>,
       st_upd (length pre') 0 (length (clip B E (q # rs))) st' en',
       en_upd (length pre') 0 (length (clip B E (q # rs))) en')"
    if q: "mt_regions t' = pre' @ q # rs" "B \<le> rg_base q" "rg_base q < E" "region_ok q"
      "rg_base q + rg_size q = rg_base r + rg_size r" "B \<le> rg_base r + rg_size r"
      "is_u32 (mt_total_size t')"
      "length (pre' @ isolated B E (q # rs)) \<le> mt_max t'" for pre' q t' st' en'
  proof -
    have qs: "0 < rg_size q" using q(4) by (simp add: region_ok_def)
    show ?thesis
    proof (cases "E < rg_base q + rg_size q")
      case True
      let ?mid = "q\<lparr>rg_size := E - rg_base q\<rparr>" and ?hi = "q\<lparr>rg_base := E, rg_size := rg_base q + rg_size q - E\<rparr>"
      let ?t = "t'\<lparr>mt_regions := pre' @ ?mid # ?hi # rs\<rparr>"
      have ab: "\<forall>x \<in> set rs. E \<le> rg_base x" using aft True q(5) by (auto simp: before_def)
      have iso: "isolated B E (q # rs) = ?mid # ?hi # rs"
        using True q isolated_above [OF wf ab] bounds b by (simp add: isolated_def max_def min_def)
      have okm: "region_ok ?mid" "region_ok ?hi" using True q bounds b by (auto simp: region_ok_def)
      have "isolate_loop B E (length pre') st' en' t' = isolate_loop B E (length pre') st' en' ?t"
        using True q bounds iso by (subst isolate_step [where r = q and rs = rs]) (auto simp: mt_cnt_def)
      also have "\<dots> = isolate_loop B E (length (pre' @ [?mid])) (if en' = 0 then length pre' else st') (Suc (length pre')) ?t"
        using True q bounds okm by (subst isolate_step [where r = ?mid and rs = "?hi # rs"]) auto
      also have "\<dots> = Some (?t, if en' = 0 then length pre' else st', Suc (length pre'))"
        using True q okm by (intro stop [where q = ?hi]) auto
      finally show ?thesis
        using True q iso isolated_above [OF wf ab] bounds by (simp add: st_upd_def en_upd_def)
    next
      case False
      have IH: "isolate_loop B E (length (pre' @ [q])) (if en' = 0 then length pre' else st') (Suc (length pre')) t' =
         Some (t'\<lparr>mt_regions := (pre' @ [q]) @ isolated B E rs\<rparr>,
           st_upd (length (pre' @ [q])) (length (clip 0 B rs)) (length (clip B E rs)) (if en' = 0 then length pre' else st') (Suc (length pre')),
           en_upd (length (pre' @ [q])) (length (clip 0 B rs)) (length (clip B E rs)) (Suc (length pre')))"
        by (rule Cons.IH) (use wf q bounds False L0 b qs in \<open>auto simp: isolated_def\<close>)
      have "isolate_loop B E (length pre') st' en' t' =
          isolate_loop B E (length (pre' @ [q])) (if en' = 0 then length pre' else st') (Suc (length pre')) t'"
        using False q bounds qs by (subst isolate_step [where r = q and rs = rs]) auto
      then show ?thesis
        unfolding IH using False q bounds L0 b qs
        by (simp add: isolated_def st_upd_def en_upd_def max_def min_def)
    qed
  qed
  consider (stop) "E \<le> rg_base r" | (skip) "rg_base r < E" "rg_base r + rg_size r \<le> B"
    | (cross) "rg_base r < B" "B < rg_base r + rg_size r" | (ins) "B \<le> rg_base r" "rg_base r < E" "B < rg_base r + rg_size r"
    using bounds b by linarith
  then show ?case
  proof cases
    case stop
    then have ab: "\<forall>x \<in> set (r # rs). E \<le> rg_base x" using aft b by (auto simp: before_def)
    show ?thesis
      using stop \<open>E \<le> rg_base r\<close> Cons.prems ok isolated_above [OF Cons.prems(1) ab bounds(3)]
      by (simp add: isolate_step isolated_def st_upd_def en_upd_def t_same)
  next
    case skip
    have iso: "clip 0 B (r # rs) = r # clip 0 B rs" "clip B E (r # rs) = clip B E rs"
      "clip E U32_MAX (r # rs) = clip E U32_MAX rs"
      using skip b bounds by (simp_all add: max_def min_def)
    have "isolate_loop B E (length pre) st en t = isolate_loop B E (length (pre @ [r])) st en t"
      using skip Cons.prems ok by (subst isolate_step [where r = r and rs = rs]) auto
    also have "\<dots> = Some (t\<lparr>mt_regions := (pre @ [r]) @ isolated B E rs\<rparr>,
       st_upd (length (pre @ [r])) (length (clip 0 B rs)) (length (clip B E rs)) st en,
       en_upd (length (pre @ [r])) (length (clip 0 B rs)) (length (clip B E rs)) en)"
      by (rule Cons.IH) (use wf Cons.prems(2-) in \<open>simp_all add: isolated_def iso del: clip.simps\<close>)
    finally show ?thesis
      unfolding isolated_def iso by (simp add: st_upd_def en_upd_def)
  next
    case cross
    let ?lo = "r\<lparr>rg_size := B - rg_base r\<rparr>" and ?top = "r\<lparr>rg_base := B, rg_size := rg_base r + rg_size r - B\<rparr>"
    let ?t = "t\<lparr>mt_regions := pre @ ?lo # ?top # rs\<rparr>"
    have iso: "isolated B E (r # rs) = ?lo # isolated B E (?top # rs)" "length (clip 0 B (r # rs)) = 1"
       "clip B E (r # rs) = clip B E (?top # rs)"
      using cross b bounds L0 by (auto simp: isolated_def max_def min_def)
    have topok: "region_ok ?top" using cross b bounds by (simp add: region_ok_def)
    have ltop: "Suc (length rs) \<le> length (isolated B E (?top # rs))"
      using length_isolated [of "?top # rs" B E] topok wf aft bounds by (auto simp: before_def)
    have "isolate_loop B E (length pre) st en t = isolate_loop B E (length (pre @ [?lo])) st en ?t"
      using cross Cons.prems(1-6) ok bounds Cons.prems(7) iso ltop by (subst isolate_step [where r = r and rs = rs]) (auto simp: mt_cnt_def)
    also have "\<dots> = Some (?t\<lparr>mt_regions := (pre @ [?lo]) @ isolated B E (?top # rs)\<rparr>,
       st_upd (length (pre @ [?lo])) 0 (length (clip B E (?top # rs))) st en,
       en_upd (length (pre @ [?lo])) 0 (length (clip B E (?top # rs))) en)"
      by (rule inside) (use cross Cons.prems iso topok in auto)
    finally show ?thesis
      using iso by (simp add: st_upd_def en_upd_def)
  next
    case ins
    have "clip 0 B (r # rs) = []" using ins L0 by simp
    then show ?thesis using inside [of t pre r st en] ins Cons.prems ok by simp
  qed
qed

end
