(* ===== verification/Memblock_Ranges.thy ===== *)
theory Memblock_Ranges
  imports Memblock_Arrays
begin

text \<open>
  The invariant of a \<open>memblock_type\<close> and of the whole \<open>memblock\<close>, and the range operations when
  the array has room: adding a range overrides the map on the addresses that had no flags, removing
  one restricts it.
\<close>

section \<open>The invariant\<close>

definition type_inv :: "memblock_type \<Rightarrow> bool" where
  "type_inv t \<longleftrightarrow> 2 \<le> mt_max t \<and> mt_cnt t \<le> mt_max t \<and> mt_regions t \<noteq> [] \<and>
     mt_total_size t = rtotal (mt_regions t) \<and>
     (mt_regions t = [dummy_region] \<or> regions_wf (mt_regions t)) \<and>
     (case mt_array t of None \<Rightarrow> True | Some pa \<Rightarrow> is_u32 pa)"

definition tmap :: "memblock_type \<Rightarrow> int \<rightharpoonup> 32 word" where
  "tmap t = rmap (mt_regions t)"

definition mb_inv :: "memblock \<Rightarrow> bool" where
  "mb_inv m \<longleftrightarrow> type_inv (mb_memory m) \<and> type_inv (mb_reserved m) \<and> is_u32 (current_limit m) \<and>
     \<not> memblock_memory_in_slab m \<and> \<not> memblock_reserved_in_slab m"

definition range_map :: "int \<Rightarrow> int \<Rightarrow> 32 word \<Rightarrow> int \<rightharpoonup> 32 word" where
  "range_map b e f = (\<lambda>a. if b \<le> a \<and> a < e then Some f else None)"

lemma rmap_dummy [simp]: "rmap [dummy_region] = Map.empty"
  by (simp add: dummy_region_def fun_eq_iff)

lemma total_dummy [simp]: "rtotal [dummy_region] = 0"
  by simp

lemma type_inv_total: "type_inv t \<Longrightarrow> is_u32 (mt_total_size t)"
  by (auto simp: type_inv_def wf_total_u32) (simp add: is_u32_def U32_MAX_def)

lemma type_inv_dummy: "type_inv t \<Longrightarrow> rg_size (mt_regions t ! 0) = 0 \<longleftrightarrow> mt_regions t = [dummy_region]"
  by (cases "mt_regions t") (auto simp: type_inv_def region_ok_def)

lemma u32_sub_assoc: "u32_sub (u32_sub x a) b = u32_sub x (a + b)"
  by (simp add: u32_sub_def algebra_simps mod_simps)

lemma u32_sub_0 [simp]: "is_u32 x \<Longrightarrow> u32_sub x 0 = x"
  by (simp add: u32_sub_def is_u32_def U32_MAX_def)

lemma remove_down_list:
  "mt_regions t = L @ M @ R \<Longrightarrow> is_u32 (mt_total_size t) \<Longrightarrow>
   remove_down (length L) (length L + length M) t =
     t\<lparr>mt_regions := if M \<noteq> [] \<and> L @ R = [] then [dummy_region] else L @ R,
       mt_total_size := u32_sub (mt_total_size t) (rtotal M)\<rparr>"
proof (induction M arbitrary: t R rule: rev_induct)
  case Nil
  then show ?case by (cases "length L") auto
next
  case (snoc x M)
  let ?t = "memblock_remove_region t (length L + length M)"
  have step: "remove_down (length L) (length L + length (M @ [x])) t = remove_down (length L) (length L + length M) ?t"
    by simp
  show ?case
  proof (cases "L @ M @ R = []")
    case True
    with snoc.prems show ?thesis
      by (auto simp: memblock_remove_region_def mt_cnt_def Let_def)
  next
    case False
    have t: "?t = t\<lparr>mt_total_size := u32_sub (mt_total_size t) (rg_size x), mt_regions := L @ M @ R\<rparr>"
      using snoc.prems False by (auto simp: memblock_remove_region_def mt_cnt_def Let_def nth_append)
    have "remove_down (length L) (length L + length M) ?t =
      ?t\<lparr>mt_regions := if M \<noteq> [] \<and> L @ R = [] then [dummy_region] else L @ R,
         mt_total_size := u32_sub (mt_total_size ?t) (rtotal M)\<rparr>"
      by (rule snoc.IH) (simp_all add: t)
    then show ?thesis
      unfolding step using False by (auto simp: t u32_sub_assoc add.commute)
  qed
qed

lemma capped:
  assumes "is_u32 base" and "is_u32 sz"
  shows "0 \<le> memblock_cap_size base sz" "u32_add base (memblock_cap_size base sz) = base + memblock_cap_size base sz"
    "base + memblock_cap_size base sz \<le> U32_MAX" "memblock_cap_size base sz \<le> sz"
    "memblock_cap_size base sz = min sz (U32_MAX - base)"
proof -
  have cap: "memblock_cap_size base sz = min sz (U32_MAX - base)"
    using assms by (auto simp: memblock_cap_size_def is_u32_def u32_sub_nowrap)
  show "0 \<le> memblock_cap_size base sz" "base + memblock_cap_size base sz \<le> U32_MAX"
    "memblock_cap_size base sz \<le> sz" "memblock_cap_size base sz = min sz (U32_MAX - base)"
    using assms by (auto simp: cap is_u32_def)
  then show "u32_add base (memblock_cap_size base sz) = base + memblock_cap_size base sz"
    using assms by (intro u32_add_nowrap) (auto simp: is_u32_def)
qed

lemma add_pass_count:
  "regions_wf (mt_regions t) \<Longrightarrow>
   add_pass False e f b t = Some (t, length (fill b e f (mt_regions t)) - mt_cnt t)"
  using add_loop_count [of "mt_regions t" t "[]" e f b 0] by (simp add: add_pass_finish mt_cnt_def)

lemma add_pass_insert:
  assumes "type_inv t" and "regions_wf (mt_regions t)" and "0 \<le> b" and "e \<le> U32_MAX"
    and "length (fill b e f (mt_regions t)) \<le> mt_max t"
  shows "add_pass True e f b t =
     Some (t\<lparr>mt_regions := fill b e f (mt_regions t), mt_total_size := rtotal (fill b e f (mt_regions t))\<rparr>,
           length (fill b e f (mt_regions t)) - mt_cnt t)"
proof -
  have "u32_add (mt_total_size t) (rtotal (fill b e f (mt_regions t)) - rtotal (mt_regions t)) =
      rtotal (fill b e f (mt_regions t))"
    using assms wf_total_u32 [OF fill_wf [OF assms(2-4)], of f]
    by (simp add: type_inv_def u32_add_nowrap is_u32_def)
  then show ?thesis
    using add_loop_insert [of "mt_regions t" t "[]" e b f 0] assms type_inv_total [OF assms(1)]
    by (simp add: add_pass_finish mt_cnt_def)
qed

lemma merge_regions_list:
  "regions_wf (mt_regions t) \<Longrightarrow> memblock_merge_regions t = Some (t\<lparr>mt_regions := merge_list (mt_regions t)\<rparr>)"
  using merge_loop_list [of "[]" "mt_regions t"] by (simp add: memblock_merge_regions_def)

lemma clip_start: "\<forall>x \<in> set rs. mid \<le> rg_base x \<Longrightarrow> lo \<le> mid \<Longrightarrow> clip mid hi rs = clip lo hi rs"
  by (induction rs) (auto simp: max_def)

lemma length_clip_split:
  "regions_wf rs \<Longrightarrow> lo \<le> mid \<Longrightarrow> mid \<le> hi \<Longrightarrow>
   length (clip lo mid rs) + length (clip mid hi rs) \<le> length (clip lo hi rs) + 1"
proof (induction rs)
  case (Cons r rs)
  have aft: "\<forall>x \<in> set rs. rg_base r + rg_size r \<le> rg_base x" using Cons.prems by (simp add: before_def)
  have IH: "length (clip lo mid rs) + length (clip mid hi rs) \<le> length (clip lo hi rs) + 1"
    using Cons by simp
  show ?case
  proof (cases "rg_base r + rg_size r \<le> mid")
    case True
    then show ?thesis using Cons.prems IH by (auto simp: max_def min_def)
  next
    case False
    then have ge: "\<forall>x \<in> set rs. mid \<le> rg_base x" using aft by fastforce
    then have "clip lo mid rs = []" "clip mid hi rs = clip lo hi rs"
      using Cons.prems by (auto intro: clip_above clip_start)
    moreover have "max lo b < min mid e \<or> max mid b < min hi e \<Longrightarrow> max lo b < min hi e" for b e
      using Cons.prems(2,3) by linarith
    ultimately show ?thesis by simp
  qed
qed simp

lemma length_clip_mono: "b \<le> e \<Longrightarrow> length (clip e hi rs) \<le> length (clip b hi rs)"
  by (induction rs) auto

lemma length_isolated_2:
  assumes "regions_wf rs" and "0 \<le> B" "B < E" "E \<le> U32_MAX"
  shows "length (isolated B E rs) \<le> length rs + 2"
proof -
  have "length (clip 0 B rs) + length (clip B E rs) \<le> length (clip 0 E rs) + 1"
    using assms by (intro length_clip_split) auto
  moreover have "length (clip 0 E rs) + length (clip E U32_MAX rs) \<le> length (clip 0 U32_MAX rs) + 1"
    using assms by (intro length_clip_split) auto
  moreover have "clip 0 U32_MAX rs = rs"
    using assms(1) by (intro clip_all) (auto simp: regions_wf_def region_ok_def)
  ultimately show ?thesis by (simp add: isolated_def)
qed

text \<open>One array, room assumed: what an addition and a removal do.\<close>

definition type_add :: "int \<Rightarrow> int \<Rightarrow> 32 word \<Rightarrow> memblock_type \<Rightarrow> memblock_type" where
  "type_add b e f t =
     (let rs = (if mt_regions t = [dummy_region] then [new_region b e f] else merge_list (fill b e f (mt_regions t)))
      in t\<lparr>mt_total_size := rtotal rs, mt_regions := rs\<rparr>)"

definition type_remove :: "int \<Rightarrow> int \<Rightarrow> memblock_type \<Rightarrow> memblock_type" where
  "type_remove b e t =
     (let rs = clip 0 b (mt_regions t) @ clip e U32_MAX (mt_regions t)
      in t\<lparr>mt_regions := if rs = [] then [dummy_region] else rs, mt_total_size := rtotal rs\<rparr>)"

lemma type_add_inv:
  assumes "type_inv t" and "0 \<le> b" "b < e" "e \<le> U32_MAX"
    and "mt_regions t = [dummy_region] \<or> length (fill b e f (mt_regions t)) \<le> mt_max t"
  shows "type_inv (type_add b e f t)"
proof (cases "mt_regions t = [dummy_region]")
  case True
  then show ?thesis using assms by (simp add: type_add_def type_inv_def mt_cnt_def region_ok_def)
next
  case False
  then have wf: "regions_wf (mt_regions t)" using assms(1) by (simp add: type_inv_def)
  have "regions_wf (merge_list (fill b e f (mt_regions t)))"
    using wf assms by (intro merge_list_wf fill_wf) auto
  then show ?thesis
    using False assms length_merge_list [of "fill b e f (mt_regions t)"]
    by (auto simp: type_add_def type_inv_def mt_cnt_def Let_def)
qed

lemma type_add_map:
  assumes "type_inv t" and "0 \<le> b" "b < e" "e \<le> U32_MAX"
  shows "tmap (type_add b e f t) = range_map b e f ++ tmap t"
proof (cases "mt_regions t = [dummy_region]")
  case True
  then show ?thesis by (auto simp: type_add_def tmap_def range_map_def fun_eq_iff map_add_def)
next
  case False
  then have wf: "regions_wf (mt_regions t)" using assms(1) by (simp add: type_inv_def)
  then show ?thesis
    using False assms by (simp add: type_add_def tmap_def rmap_merge_list fill_wf rmap_fill range_map_def Let_def)
qed

lemma type_remove_inv:
  assumes "type_inv t" and "0 \<le> b" "b < e" "e \<le> U32_MAX" and "mt_cnt t + 1 \<le> mt_max t"
  shows "type_inv (type_remove b e t)"
proof (cases "mt_regions t = [dummy_region]")
  case True
  then show ?thesis using assms by (simp add: type_remove_def type_inv_def mt_cnt_def dummy_region_def)
next
  case False
  then have wf: "regions_wf (mt_regions t)" using assms(1) by (simp add: type_inv_def)
  let ?L = "clip 0 b (mt_regions t)" and ?R = "clip e U32_MAX (mt_regions t)"
  have "before x y" if "x \<in> set ?L" "y \<in> set ?R" for x y
    using set_clip [OF that(1)] set_clip [OF that(2)] assms by (auto simp: before_def)
  then have "regions_wf (?L @ ?R)" using clip_wf [OF wf] by simp
  moreover have "length ?L + length (clip b U32_MAX (mt_regions t)) \<le> length (clip 0 U32_MAX (mt_regions t)) + 1"
    using wf assms by (intro length_clip_split) auto
  moreover have "length ?R \<le> length (clip b U32_MAX (mt_regions t))"
    using assms by (intro length_clip_mono) simp
  moreover have "clip 0 U32_MAX (mt_regions t) = mt_regions t"
    using wf by (intro clip_all) (auto simp: regions_wf_def region_ok_def)
  ultimately show ?thesis
    using assms by (auto simp: type_remove_def type_inv_def mt_cnt_def Let_def)
qed

lemma type_remove_map:
  assumes "type_inv t" and "0 \<le> b" "b < e" "e \<le> U32_MAX"
  shows "tmap (type_remove b e t) = tmap t |` (- {b..<e})"
proof (cases "mt_regions t = [dummy_region]")
  case True
  then show ?thesis by (auto simp: type_remove_def tmap_def dummy_region_def restrict_map_def)
next
  case False
  then have wf: "regions_wf (mt_regions t)" using assms(1) by (simp add: type_inv_def)
  have "rmap (clip 0 b (mt_regions t) @ clip e U32_MAX (mt_regions t)) = rmap (mt_regions t) |` (- {b..<e})"
    using rmap_clip_all [OF wf] assms
    by (force simp: rmap_append rmap_clip map_add_def restrict_map_def fun_eq_iff split: option.splits)
  then show ?thesis
    by (auto simp: type_remove_def tmap_def Let_def simp del: rmap.simps(2))
qed

lemma insert_fail: "mt_cnt t \<ge> mt_max t \<Longrightarrow> memblock_insert_region t i b z f = None"
  by (simp add: memblock_insert_region_def)

lemma add_loop_fits:
  assumes "regions_wf suf" and "mt_regions t = pre @ suf" and "length (pre @ suf) \<le> mt_max t"
    and "add_finish True e f (add_loop True e f (length pre) b n t) = Some x" and "0 \<le> b" "e \<le> U32_MAX"
  shows "length (pre @ fill b e f suf) \<le> mt_max t"
  using assms
proof (induction suf arbitrary: pre b n t)
  case Nil
  then have "add_loop True e f (length pre) b n t = Some (t, length pre, b, n)" by (simp add: add_loop_end)
  then show ?case using Nil insert_fail [of t]
    by (cases "length pre = mt_max t") (auto simp: add_finish_def mt_cnt_def)
next
  case (Cons r rs)
  have ok: "region_ok r" and wf: "regions_wf rs" using Cons.prems(1) by simp_all
  have ends: "0 \<le> rg_base r" "rg_base r + rg_size r \<le> U32_MAX" "0 < rg_size r"
    using ok by (simp_all add: region_ok_def)
  have IH: "length (pre @ r # fill b' e f rs) \<le> mt_max t"
    if "add_finish True e f (add_loop True e f (Suc (length pre)) b' n' t) = Some x" "0 \<le> b'" for b' n'
    using Cons.IH [OF wf, of t "pre @ [r]" b' n'] Cons.prems that by simp
  consider (stop) "rg_base r \<ge> e" | (skip) "rg_base r < e" "rg_base r + rg_size r \<le> b"
    | (gap) "rg_base r < e" "b < rg_base r + rg_size r" "rg_base r > b"
    | (over) "rg_base r < e" "b < rg_base r + rg_size r" "rg_base r \<le> b"
    by linarith
  then show ?case
  proof cases
    case stop
    then show ?thesis using Cons.prems ok insert_fail [of t]
      by (cases "mt_cnt t = mt_max t") (auto simp: add_loop_step add_finish_def mt_cnt_def)
  next
    case skip
    then show ?thesis using Cons.prems ok IH [of b] by (auto simp: add_loop_step)
  next
    case over
    then show ?thesis using Cons.prems ok ends IH [of "min (rg_base r + rg_size r) e"]
      by (auto simp: add_loop_step)
  next
    case gap
    let ?b = "min (rg_base r + rg_size r) e"
    show ?thesis
    proof (cases "mt_cnt t < mt_max t")
      case True
      let ?t = "t\<lparr>mt_regions := pre @ new_region b (rg_base r) f # r # rs,
                mt_total_size := u32_add (mt_total_size t) (rg_base r - b)\<rparr>"
      have ins: "memblock_insert_region t (length pre) b (u32_sub (rg_base r) b) f = Some ?t"
        using gap Cons.prems ends True by (intro insert_at) auto
      have "length ((pre @ [new_region b (rg_base r) f, r]) @ fill ?b e f rs) \<le> mt_max ?t"
        by (rule Cons.IH [where n = "Suc n"])
          (use True gap ok Cons.prems ends wf in \<open>auto simp: add_loop_step ins mt_cnt_def\<close>)
      then show ?thesis using gap by simp
    next
      case False
      then show ?thesis
        using insert_fail [of t] gap Cons.prems ok by (simp add: add_loop_step add_finish_def)
    qed
  qed
qed

lemma add_pass_fits:
  assumes "type_inv t" and "regions_wf (mt_regions t)" and "add_pass True e f b t = Some x" and "0 \<le> b" "e \<le> U32_MAX"
  shows "length (fill b e f (mt_regions t)) \<le> mt_max t"
  using add_loop_fits [of "mt_regions t" t "[]" e f b 0 x] assms
  by (simp add: add_pass_finish type_inv_def mt_cnt_def)

section \<open>Range operations with room in the array\<close>

lemma get_set_type [simp]:
  "get_type s (set_type s t m) = t"
  "set_type s t (set_type s t' m) = set_type s t m"
  "set_type s (get_type s m) m = m"
  by (cases s; simp)+

lemma get_set_other: "s \<noteq> s' \<Longrightarrow> get_type s (set_type s' t m) = get_type s m"
  by (cases s; cases s') auto

lemma current_limit_set_type [simp]: "current_limit (set_type s t m) = current_limit m"
  by (cases s) auto

lemma can_resize_set_type [simp]: "memblock_can_resize (set_type s t m) = memblock_can_resize m"
  by (cases s) auto

lemma mb_inv_get: "mb_inv m \<Longrightarrow> type_inv (get_type s m)"
  by (cases s) (simp_all add: mb_inv_def)

lemma mb_inv_set: "mb_inv m \<Longrightarrow> type_inv t \<Longrightarrow> mb_inv (set_type s t m)"
  by (cases s) (simp_all add: mb_inv_def)

text \<open>An addition; an array that already covers the range is left alone.\<close>

definition type_fill :: "int \<Rightarrow> int \<Rightarrow> 32 word \<Rightarrow> memblock_type \<Rightarrow> memblock_type" where
  "type_fill b e f t =
     (if mt_regions t \<noteq> [dummy_region] \<and> length (fill b e f (mt_regions t)) = mt_cnt t then t
      else type_add b e f t)"

lemma type_fill_inv:
  assumes "type_inv t" and "0 \<le> b" "b < e" "e \<le> U32_MAX"
    and "mt_regions t = [dummy_region] \<or> length (fill b e f (mt_regions t)) \<le> mt_max t"
  shows "type_inv (type_fill b e f t)"
  using assms type_add_inv [OF assms] by (simp add: type_fill_def)

lemma type_fill_map:
  assumes "type_inv t" and "0 \<le> b" "b < e" "e \<le> U32_MAX"
  shows "tmap (type_fill b e f t) = range_map b e f ++ tmap t"
proof (cases "mt_regions t \<noteq> [dummy_region] \<and> length (fill b e f (mt_regions t)) = mt_cnt t")
  case True
  then have wf: "regions_wf (mt_regions t)" using assms(1) by (simp add: type_inv_def)
  have "fill b e f (mt_regions t) = mt_regions t" using fill_same [OF wf] True by (simp add: mt_cnt_def)
  then have "rmap (mt_regions t) = range_map b e f ++ rmap (mt_regions t)"
    using rmap_fill [OF wf, of b e f] by (simp add: range_map_def)
  then show ?thesis using True by (simp add: type_fill_def tmap_def)
next
  case False
  then have "type_fill b e f t = type_add b e f t" unfolding type_fill_def by (rule if_not_P)
  then show ?thesis using type_add_map [OF assms] by simp
qed

text \<open>The common tail of an addition once the array has room.\<close>

lemma add_tail:
  assumes "type_inv t" and "0 \<le> b" "b < e" "e \<le> U32_MAX" and "mt_regions t \<noteq> [dummy_region]"
    and "length (fill b e f (mt_regions t)) \<le> mt_max t"
  shows "bindK (or_bug (add_pass True e f b t)) (\<lambda>(t1, nr_new').
            if nr_new' = 0 then Inr (set_type s t1 m, 0)
            else bindK (or_bug (memblock_merge_regions t1)) (\<lambda>t2. Inr (set_type s t2 m, 0))) =
         Inr (set_type s (type_fill b e f t) m, (0::int))"
proof -
  have wf: "regions_wf (mt_regions t)" using assms(1,5) by (simp add: type_inv_def)
  have wff: "regions_wf (fill b e f (mt_regions t))" using wf assms by (intro fill_wf) auto
  have le: "mt_cnt t \<le> length (fill b e f (mt_regions t))" by (simp add: mt_cnt_def length_fill)
  show ?thesis
  proof (cases "length (fill b e f (mt_regions t)) = mt_cnt t")
    case True
    then have "fill b e f (mt_regions t) = mt_regions t" using fill_same [OF wf] by (simp add: mt_cnt_def)
    then show ?thesis
      using add_pass_insert [OF assms(1) wf assms(2,4,6)] True assms(1,5)
      by (cases t) (simp add: type_inv_def mt_cnt_def type_fill_def)
  next
    case False
    then show ?thesis
      using add_pass_insert [OF assms(1) wf assms(2,4,6)] le wff assms(5)
      by (simp add: merge_regions_list type_fill_def type_add_def total_merge_list)
  qed
qed

text \<open>Room in the array, or an array that has its dummy entry only: no growth is needed.\<close>

lemma grow_room:
  "mt_cnt (get_type s m) + need \<le> mt_max (get_type s m) \<Longrightarrow> grow GROW_ROUNDS dbl s need b z m = Inr (m, True)"
  by (simp add: GROW_ROUNDS_def numeral_eq_Suc)

definition has_room :: "int \<Rightarrow> int \<Rightarrow> memblock_type \<Rightarrow> bool" where
  "has_room b e t \<longleftrightarrow> mt_regions t = [dummy_region] \<or> length (fill b e 0 (mt_regions t)) \<le> mt_max t"

lemma length_fill_flag: "length (fill b e f rs) = length (fill b e 0 rs)"
  by (induction b e f rs rule: fill.induct) auto

lemma add_range_dummy:
  assumes "mb_inv m" "is_u32 base" "is_u32 sz" and "memblock_cap_size base sz \<noteq> 0"
    and "mt_regions (get_type s m) = [dummy_region]"
  shows "memblock_add_range dbl s base sz f m =
     Inr (set_type s (type_fill base (base + memblock_cap_size base sz) f (get_type s m)) m, 0)"
  using assms by (simp add: memblock_add_range_def type_fill_def type_add_def new_region_def Let_def
      mt_upd_commute)

lemma add_range_count:
  assumes "mb_inv m" "is_u32 base" "is_u32 sz" and "memblock_cap_size base sz \<noteq> 0"
    and "mt_regions (get_type s m) \<noteq> [dummy_region]"
  shows "memblock_add_range dbl s base sz f m =
     (let sz' = memblock_cap_size base sz; e = base + sz'; t = get_type s m;
          nr_new = length (fill base e f (mt_regions t)) - mt_cnt t
      in if nr_new = 0 then Inr (m, 0)
         else bindK (grow GROW_ROUNDS dbl s nr_new base sz' m) (\<lambda>(m1, ok).
          if \<not> ok then Inr (m1, - ENOMEM)
          else
            bindK (or_bug (add_pass True e f base (get_type s m1))) (\<lambda>(t1, nr_new').
            if nr_new' = 0 then Inr (set_type s t1 m1, 0)
            else
              bindK (or_bug (memblock_merge_regions t1)) (\<lambda>t2.
              Inr (set_type s t2 m1, 0)))))"
proof -
  have t: "type_inv (get_type s m)" using assms(1) by (rule mb_inv_get)
  then have wf: "regions_wf (mt_regions (get_type s m))" using assms(5) by (simp add: type_inv_def)
  have nz: "rg_size (mt_regions (get_type s m) ! 0) \<noteq> 0" using type_inv_dummy [OF t] assms(5) by simp
  show ?thesis
    unfolding memblock_add_range_def Let_def capped(2) [OF assms(2,3)]
    using nz assms(4) add_pass_count [OF wf] by simp
qed

lemma add_range_room:
  assumes "mb_inv m" "is_u32 base" "is_u32 sz" and "memblock_cap_size base sz \<noteq> 0"
    and "has_room base (base + memblock_cap_size base sz) (get_type s m)"
  shows "memblock_add_range dbl s base sz f m =
     Inr (set_type s (type_fill base (base + memblock_cap_size base sz) f (get_type s m)) m, 0)"
proof (cases "mt_regions (get_type s m) = [dummy_region]")
  case True
  then show ?thesis using add_range_dummy assms by simp
next
  case False
  let ?e = "base + memblock_cap_size base sz" and ?t = "get_type s m"
  let ?nr = "length (fill base ?e f (mt_regions ?t)) - mt_cnt ?t"
  have t: "type_inv ?t" using assms(1) by (rule mb_inv_get)
  have fits: "length (fill base ?e f (mt_regions ?t)) \<le> mt_max ?t"
    using assms(5) False by (simp add: has_room_def length_fill_flag [of base ?e f])
  then have g: "grow GROW_ROUNDS dbl s ?nr base (memblock_cap_size base sz) m = Inr (m, True)"
    using length_fill [of "mt_regions ?t" base ?e f] by (intro grow_room) (simp add: mt_cnt_def)
  have be: "0 \<le> base" "base < ?e" "?e \<le> U32_MAX"
    using assms(2,4) capped [OF assms(2,3)] by (auto simp: is_u32_def)
  show ?thesis
  proof (cases "?nr = 0")
    case True
    then have "length (fill base ?e f (mt_regions ?t)) = mt_cnt ?t"
      using length_fill [of "mt_regions ?t" base ?e f] by (simp add: mt_cnt_def)
    then show ?thesis using True False add_range_count [OF assms(1-4) False]
      by (simp add: type_fill_def Let_def)
  next
    case nz: False
    then show ?thesis
      using add_range_count [OF assms(1-4) False, of dbl f] g add_tail [OF t be False fits, of s m]
      by (simp add: Let_def)
  qed
qed

lemma isolate_remove:
  assumes "type_inv t" and "0 \<le> B" "B < E" "E \<le> U32_MAX" and "mt_cnt t + 2 \<le> mt_max t"
  shows "\<exists>t1 st en. isolate_loop B E 0 0 0 t = Some (t1, st, en) \<and> remove_down st en t1 = type_remove B E t"
proof (cases "mt_regions t = [dummy_region]")
  case True
  have "isolate_loop B E 0 0 0 t = Some (t, 0, 0)"
    using True assms by (simp add: isolate_loop.simps [of B E 0] isolate_end [of t "mt_regions t", simplified True, simplified] mt_cnt_def)
  moreover have "type_remove B E t = t"
    using True assms by (cases t) (simp add: type_remove_def type_inv_def dummy_region_def)
  ultimately show ?thesis by simp
next
  case False
  then have wf: "regions_wf (mt_regions t)" using assms(1) by (simp add: type_inv_def)
  let ?L = "clip 0 B (mt_regions t)" and ?M = "clip B E (mt_regions t)" and ?R = "clip E U32_MAX (mt_regions t)"
  let ?t = "t\<lparr>mt_regions := isolated B E (mt_regions t)\<rparr>"
  have iso: "isolate_loop B E 0 0 0 t = Some (?t, st_upd 0 (length ?L) (length ?M) 0 0, en_upd 0 (length ?L) (length ?M) 0)"
    using isolate_loop_list [of "mt_regions t" t "[]" B E 0 0] wf assms length_isolated_2 [OF wf assms(2-4)]
      type_inv_total [OF assms(1)]
    by (simp add: mt_cnt_def)
  have tot: "rtotal ?L + rtotal ?M + rtotal ?R = mt_total_size t"
    using total_clip_split [OF wf] assms by (simp add: type_inv_def)
  have nn: "0 \<le> rtotal ?M" "0 \<le> rtotal (?L @ ?R)" "rtotal ?L + rtotal ?R \<le> U32_MAX"
    using wf_total_u32 [OF clip_wf [OF wf, of 0 B]] wf_total_u32 [OF clip_wf [OF wf, of B E]]
      wf_total_u32 [OF clip_wf [OF wf, of E U32_MAX]] type_inv_total [OF assms(1)] tot
    by (simp_all add: is_u32_def)
  have ne: "isolated B E (mt_regions t) \<noteq> []"
    using length_isolated [OF wf assms(2-4)] assms(1) by (auto simp: type_inv_def)
  show ?thesis
  proof (cases "?M = []")
    case True
    then have "remove_down 0 0 ?t = type_remove B E t"
      using ne tot by (cases t) (auto simp: type_remove_def isolated_def Let_def)
    then show ?thesis using iso True by (simp add: st_upd_def en_upd_def)
  next
    case nM: False
    have "u32_sub (mt_total_size t) (rtotal ?M) = rtotal ?L + rtotal ?R"
      using tot nn by (subst u32_sub_nowrap) auto
    then have "remove_down (length ?L) (length ?L + length ?M) ?t = type_remove B E t"
      using remove_down_list [of ?t ?L ?M ?R] nM type_inv_total [OF assms(1)]
      by (simp add: isolated_def type_remove_def Let_def)
    then show ?thesis using iso nM by (simp add: st_upd_def en_upd_def)
  qed
qed

lemma remove_range_room:
  assumes "mb_inv m" "is_u32 base" "is_u32 sz" and "memblock_cap_size base sz \<noteq> 0"
    and "mt_cnt (get_type s m) + 2 \<le> mt_max (get_type s m)"
  shows "memblock_remove_range dbl s base sz m =
     Inr (set_type s (type_remove base (base + memblock_cap_size base sz) (get_type s m)) m, 0)"
proof -
  let ?e = "base + memblock_cap_size base sz"
  have be: "0 \<le> base" "base < ?e" "?e \<le> U32_MAX"
    using assms(2,4) capped [OF assms(2,3)] by (auto simp: is_u32_def)
  obtain t1 st en where "isolate_loop base ?e 0 0 0 (get_type s m) = Some (t1, st, en)"
    and "remove_down st en t1 = type_remove base ?e (get_type s m)"
    using isolate_remove [OF mb_inv_get [OF assms(1)] be assms(5)] by blast
  then show ?thesis
    using assms(4,5) unfolding memblock_remove_range_def memblock_isolate_range_def Let_def capped(2) [OF assms(2,3)]
    by (simp add: grow_room)
qed

lemma remove_range_zero: "memblock_cap_size base sz = 0 \<Longrightarrow> memblock_remove_range dbl s base sz m = Inr (m, 0)"
  by (simp add: memblock_remove_range_def memblock_isolate_range_def)

end
