(* ===== verification/Memblock_Free.thy ===== *)
theory Memblock_Free
  imports Memblock_Ranges
begin

text \<open>
  The walks over free memory and the search for a free block.  A step of either walk returns the
  part of one memory region in one gap between reservations, and leaves exactly the other such
  parts for the next steps, in address order.  The search top-down returns the highest aligned
  block that fits, or 0 when none does; the one bottom-up returns a block that fits.
\<close>

section \<open>Gaps between reservations\<close>

definition gap_at :: "memblock_type \<Rightarrow> nat \<Rightarrow> int \<Rightarrow> bool" where
  "gap_at t j x \<longleftrightarrow> gap_start t j \<le> x \<and> x < gap_end t j"

lemma type_inv_end: "type_inv t \<Longrightarrow> r \<in> set (mt_regions t) \<Longrightarrow>
   rg_end r = rg_base r + rg_size r \<and> 0 \<le> rg_base r \<and> 0 \<le> rg_size r \<and> rg_base r + rg_size r \<le> U32_MAX"
  by (auto simp: type_inv_def regions_wf_def rg_end_ok region_ok_def dummy_region_def rg_end_def u32_add_def U32_MAX_def)

lemma type_inv_sorted: "type_inv t \<Longrightarrow> i < j \<Longrightarrow> j < mt_cnt t \<Longrightarrow>
   rg_base (mt_regions t ! i) + rg_size (mt_regions t ! i) \<le> rg_base (mt_regions t ! j)"
  by (auto simp: type_inv_def regions_wf_def sorted_wrt_iff_nth_less before_def mt_cnt_def)

lemma rmap_Some_iff: "rmap rs x \<noteq> None \<longleftrightarrow> (\<exists>r \<in> set rs. rg_base r \<le> x \<and> x < rg_base r + rg_size r)"
  by (induction rs) auto

lemma gap_order: "type_inv t \<Longrightarrow> i < j \<Longrightarrow> j \<le> mt_cnt t \<Longrightarrow> gap_end t i \<le> gap_start t j"
proof -
  assume t: "type_inv t" and ij: "i < j" "j \<le> mt_cnt t"
  have i: "mt_regions t ! i \<in> set (mt_regions t)" "mt_regions t ! (j - 1) \<in> set (mt_regions t)"
    using ij by (auto simp: mt_cnt_def)
  show ?thesis
  proof (cases "i = j - 1")
    case True
    then show ?thesis using type_inv_end [OF t i(1)] ij by (simp add: gap_end_def gap_start_def)
  next
    case False
    then have "rg_base (mt_regions t ! i) + rg_size (mt_regions t ! i) \<le> rg_base (mt_regions t ! (j - 1))"
      using type_inv_sorted [OF t, of i "j - 1"] ij by simp
    then show ?thesis using type_inv_end [OF t i(1)] type_inv_end [OF t i(2)] ij
      by (simp add: gap_end_def gap_start_def)
  qed
qed

lemma gap_nonneg: "type_inv t \<Longrightarrow> j \<le> mt_cnt t \<Longrightarrow> 0 \<le> gap_start t j \<and> gap_start t j \<le> gap_end t j \<and> gap_end t j \<le> U32_MAX"
proof -
  assume t: "type_inv t" and j: "j \<le> mt_cnt t"
  have P: "0 < j \<Longrightarrow> mt_regions t ! (j - 1) \<in> set (mt_regions t)" "j < mt_cnt t \<Longrightarrow> mt_regions t ! j \<in> set (mt_regions t)"
    using j by (auto simp: mt_cnt_def)
  show ?thesis
    using type_inv_end [OF t P(1)] type_inv_end [OF t P(2)] type_inv_sorted [OF t, of "j - 1" j] j
    by (auto simp: gap_start_def gap_end_def U32_MAX_def)
qed

text \<open>An address is in a gap iff it has no reservation; and then the gap is unique.\<close>

lemma gap_free: 
  assumes "type_inv t" "j \<le> mt_cnt t" "gap_at t j x"
  shows "tmap t x = None"
proof (rule ccontr)
  assume "tmap t x \<noteq> None"
  then obtain i where i: "i < mt_cnt t" "rg_base (mt_regions t ! i) \<le> x" "x < rg_base (mt_regions t ! i) + rg_size (mt_regions t ! i)"
    unfolding tmap_def rmap_Some_iff by (auto simp: in_set_conv_nth mt_cnt_def)
  have e: "gap_end t i = rg_base (mt_regions t ! i)" "gap_start t (Suc i) = rg_base (mt_regions t ! i) + rg_size (mt_regions t ! i)"
    using i(1) type_inv_end [OF assms(1), of "mt_regions t ! i"] by (auto simp: gap_end_def gap_start_def mt_cnt_def)
  consider "j \<le> i" | "Suc i \<le> j" by linarith
  then show False
  proof cases
    case 1
    then have "gap_end t j \<le> gap_end t i"
      using gap_order [OF assms(1), of j i] gap_nonneg [OF assms(1), of i] i(1) by (cases "j = i") auto
    then show False using i e assms(3) by (simp add: gap_at_def)
  next
    case 2
    then have "gap_start t (Suc i) \<le> gap_start t j"
      using gap_order [OF assms(1), of "Suc i" j] gap_nonneg [OF assms(1), of "Suc i"] assms(2) i(1)
      by (cases "j = Suc i") auto
    then show False using i e assms(3) by (simp add: gap_at_def)
  qed
qed

lemma free_range_gap:
  assumes "type_inv t" "0 \<le> c" "0 < z" "c + z \<le> U32_MAX" and "\<forall>x \<in> {c..<c + z}. tmap t x = None"
  shows "\<exists>j \<le> mt_cnt t. gap_start t j \<le> c \<and> c + z \<le> gap_end t j"
proof -
  define J where "J = {j. j \<le> mt_cnt t \<and> gap_start t j \<le> c}"
  have "finite J" "0 \<in> J" using assms(2) by (auto simp: J_def gap_start_def)
  then have mx: "Max J \<in> J" and le: "\<And>j. j \<in> J \<Longrightarrow> j \<le> Max J" by (auto intro: Max_in)
  let ?j = "Max J"
  have "c + z \<le> gap_end t ?j"
  proof (cases "?j < mt_cnt t")
    case True
    let ?r = "mt_regions t ! ?j"
    have r: "?r \<in> set (mt_regions t)" using True by (simp add: mt_cnt_def)
    have "Suc ?j \<notin> J" using le [of "Suc ?j"] by auto
    then have lt: "c < rg_base ?r + rg_size ?r"
      using True type_inv_end [OF assms(1) r] by (auto simp: J_def gap_start_def)
    have "\<not> rg_base ?r < c + z"
    proof
      assume "rg_base ?r < c + z"
      moreover have "rg_base ?r \<le> max c (rg_base ?r)" by simp
      ultimately have "max c (rg_base ?r) \<in> {c..<c + z}" using assms(3) by simp
      moreover have "0 < rg_size ?r \<Longrightarrow> tmap t (max c (rg_base ?r)) \<noteq> None"
        unfolding tmap_def rmap_Some_iff using r lt by (intro bexI [of _ ?r]) auto
      ultimately have "rg_size ?r = 0" using assms(5) type_inv_end [OF assms(1) r] by fastforce
      then have "c < rg_base ?r" "rg_base ?r = 0"
        using lt assms(1) r by (auto simp: type_inv_def regions_wf_def region_ok_def dummy_region_def)
      then show False using assms(2) by simp
    qed
    then show ?thesis using True by (simp add: gap_end_def)
  next
    case False
    then show ?thesis using assms(4) by (simp add: gap_end_def)
  qed
  then show ?thesis using mx by (auto simp: J_def)
qed

section \<open>The reverse walk\<close>

definition pair_lo :: "memblock_type \<Rightarrow> memblock_type \<Rightarrow> nat \<Rightarrow> nat \<Rightarrow> int" where
  "pair_lo ta tb i j = max (rg_base (mt_regions ta ! i)) (gap_start tb j)"

definition pair_hi :: "memblock_type \<Rightarrow> memblock_type \<Rightarrow> nat \<Rightarrow> nat \<Rightarrow> int" where
  "pair_hi ta tb i j = min (rg_base (mt_regions ta ! i) + rg_size (mt_regions ta ! i)) (gap_end tb j)"

definition pair_ok :: "(memblock_region \<Rightarrow> bool) \<Rightarrow> memblock_type \<Rightarrow> memblock_type \<Rightarrow> nat \<Rightarrow> nat \<Rightarrow> bool" where
  "pair_ok skip ta tb i j \<longleftrightarrow> \<not> skip (mt_regions ta ! i) \<and> pair_lo ta tb i j < pair_hi ta tb i j"

lemma region_end_mono: "type_inv t \<Longrightarrow> i \<le> j \<Longrightarrow> j < mt_cnt t \<Longrightarrow>
   rg_base (mt_regions t ! i) + rg_size (mt_regions t ! i) \<le> rg_base (mt_regions t ! j) + rg_size (mt_regions t ! j)"
  using type_inv_sorted [of t i j] type_inv_end [of t "mt_regions t ! j"]
  by (cases "i = j") (auto simp: mt_cnt_def)

lemma gap_end_mono: "type_inv t \<Longrightarrow> i \<le> j \<Longrightarrow> j \<le> mt_cnt t \<Longrightarrow> gap_end t i \<le> gap_end t j"
  using gap_order [of t i j] gap_nonneg [of t j] by (cases "i = j") auto

lemma gap_start_mono: "type_inv t \<Longrightarrow> i \<le> j \<Longrightarrow> j \<le> mt_cnt t \<Longrightarrow> gap_start t i \<le> gap_start t j"
  using gap_order [of t i j] gap_nonneg [of t i] by (cases "i = j") auto

text \<open>
  What one step of the reverse walk returns from the indices \<open>a\<close> and \<open>b\<close>: nothing when no region
  below \<open>a\<close> meets a gap below \<open>b\<close>, otherwise the part of one region in one gap, such that all
  the other such parts are left for the next step and lie below.
\<close>

definition walked_down :: "(memblock_region \<Rightarrow> bool) \<Rightarrow> memblock_type \<Rightarrow> memblock_type \<Rightarrow> nat \<Rightarrow> nat \<Rightarrow>
    (nat \<times> nat \<times> int \<times> int) option \<Rightarrow> bool" where
  "walked_down skip ta tb a b x \<longleftrightarrow> (case x of
      None \<Rightarrow> \<forall>i < a. \<forall>j < b. \<not> pair_ok skip ta tb i j
    | Some (a', b', s, e) \<Rightarrow> a' \<le> a \<and> b' \<le> b \<and> a' + b' < a + b \<and>
        (\<exists>i < a. \<exists>j < b. \<not> skip (mt_regions ta ! i) \<and> s = pair_lo ta tb i j \<and> e = pair_hi ta tb i j \<and>
          (\<forall>i' < a. \<forall>j' < b. pair_ok skip ta tb i' j' \<longrightarrow> i' = i \<and> j' = j \<or> i' < a' \<and> j' < b') \<and>
          (\<forall>i' < a'. \<forall>j' < b'. pair_ok skip ta tb i' j' \<longrightarrow> pair_hi ta tb i' j' \<le> s)))"

lemma walked_downI:
  assumes "a' \<le> a" "b' \<le> b" "a' + b' < a + b" "i < a" "j < b" "\<not> skip (mt_regions ta ! i)"
    and "s = pair_lo ta tb i j" "e = pair_hi ta tb i j"
    and "\<And>k l. k < a \<Longrightarrow> l < b \<Longrightarrow> pair_ok skip ta tb k l \<Longrightarrow> k = i \<and> l = j \<or> k < a' \<and> l < b'"
    and "\<And>k l. k < a' \<Longrightarrow> l < b' \<Longrightarrow> pair_ok skip ta tb k l \<Longrightarrow> pair_hi ta tb k l \<le> s"
  shows "walked_down skip ta tb a b (Some (a', b', s, e))"
  using assms unfolding walked_down_def option.case prod.case by blast

lemma walked_down_a:
  assumes "walked_down skip ta tb a b x" "\<forall>j < b. \<not> pair_ok skip ta tb a j"
  shows "walked_down skip ta tb (Suc a) b x"
proof (cases x)
  case None
  then show ?thesis using assms by (auto simp: walked_down_def less_Suc_eq)
next
  case (Some y)
  obtain a' b' s e where y: "y = (a', b', s, e)" by (cases y) auto
  from assms(1) obtain i j where ij: "i < a" "j < b" "\<not> skip (mt_regions ta ! i)" "s = pair_lo ta tb i j" "e = pair_hi ta tb i j"
    "\<forall>i' < a. \<forall>j' < b. pair_ok skip ta tb i' j' \<longrightarrow> i' = i \<and> j' = j \<or> i' < a' \<and> j' < b'"
    "\<forall>i' < a'. \<forall>j' < b'. pair_ok skip ta tb i' j' \<longrightarrow> pair_hi ta tb i' j' \<le> s"
    and le: "a' \<le> a" "b' \<le> b" "a' + b' < a + b"
    unfolding walked_down_def Some y by auto
  have "\<forall>i' < Suc a. \<forall>j' < b. pair_ok skip ta tb i' j' \<longrightarrow> i' = i \<and> j' = j \<or> i' < a' \<and> j' < b'"
    using ij(6) assms(2) by (auto simp: less_Suc_eq)
  then show ?thesis unfolding Some y using ij le by (intro walked_downI [of _ _ _ _ i j]) auto
qed

lemma walked_down_b:
  assumes "walked_down skip ta tb a b x" "\<forall>i < a. \<not> pair_ok skip ta tb i b"
  shows "walked_down skip ta tb a (Suc b) x"
proof (cases x)
  case None
  then show ?thesis using assms by (auto simp: walked_down_def less_Suc_eq)
next
  case (Some y)
  obtain a' b' s e where y: "y = (a', b', s, e)" by (cases y) auto
  from assms(1) obtain i j where ij: "i < a" "j < b" "\<not> skip (mt_regions ta ! i)" "s = pair_lo ta tb i j" "e = pair_hi ta tb i j"
    "\<forall>i' < a. \<forall>j' < b. pair_ok skip ta tb i' j' \<longrightarrow> i' = i \<and> j' = j \<or> i' < a' \<and> j' < b'"
    "\<forall>i' < a'. \<forall>j' < b'. pair_ok skip ta tb i' j' \<longrightarrow> pair_hi ta tb i' j' \<le> s"
    and le: "a' \<le> a" "b' \<le> b" "a' + b' < a + b"
    unfolding walked_down_def Some y by auto
  have "\<forall>i' < a. \<forall>j' < Suc b. pair_ok skip ta tb i' j' \<longrightarrow> i' = i \<and> j' = j \<or> i' < a' \<and> j' < b'"
    using ij(6) assms(2) by (auto simp: less_Suc_eq)
  then show ?thesis unfolding Some y using ij le by (intro walked_downI [of _ _ _ _ i j]) auto
qed

lemma rev_loop_step:
  assumes "type_inv ta" "i < mt_cnt ta" "\<not> skip (mt_regions ta ! i)"
  shows "next_range_rev_loop skip ta (Some tb) (Suc i) (Suc j) =
     (let m = mt_regions ta ! i; rs = gap_start tb j; re = gap_end tb j in
      if re \<le> rg_base m then next_range_rev_loop skip ta (Some tb) i (Suc j)
      else if rg_base m + rg_size m > rs then
        Some (if rg_base m \<ge> rs then i else Suc i, if rg_base m \<ge> rs then Suc j else j,
              pair_lo ta tb i j, pair_hi ta tb i j)
      else next_range_rev_loop skip ta (Some tb) (Suc i) j)"
proof -
  have "rg_end (mt_regions ta ! i) = rg_base (mt_regions ta ! i) + rg_size (mt_regions ta ! i)"
    using type_inv_end [OF assms(1)] assms(2) by (simp add: mt_cnt_def)
  then show ?thesis
    by (subst next_range_rev_loop.simps) (simp add: assms(3) Let_def pair_lo_def pair_hi_def)
qed

lemma walked_down_hit:
  assumes inv: "type_inv ta" "type_inv tb" "i < mt_cnt ta" "j \<le> mt_cnt tb" and "\<not> skip (mt_regions ta ! i)"
  shows "walked_down skip ta tb (Suc i) (Suc j)
    (Some (if rg_base (mt_regions ta ! i) \<ge> gap_start tb j then i else Suc i,
           if rg_base (mt_regions ta ! i) \<ge> gap_start tb j then Suc j else j,
           pair_lo ta tb i j, pair_hi ta tb i j))"
proof -
  have go: "k < j \<Longrightarrow> gap_end tb k \<le> gap_start tb j" for k
    using gap_order [OF inv(2), of k j] inv by simp
  have ro: "k < i \<Longrightarrow> rg_base (mt_regions ta ! k) + rg_size (mt_regions ta ! k) \<le> rg_base (mt_regions ta ! i)" for k
    using type_inv_sorted [OF inv(1), of k i] inv by simp
  show ?thesis
  proof (cases "rg_base (mt_regions ta ! i) \<ge> gap_start tb j")
    case True
    have none: "\<not> pair_ok skip ta tb i k" if "k < j" for k
      using go [OF that] True by (simp add: pair_ok_def pair_lo_def pair_hi_def)
    have "pair_hi ta tb k l \<le> pair_lo ta tb i j" if "k < i" for k l
      using ro [OF that] by (simp add: pair_lo_def pair_hi_def)
    moreover have "k = i \<and> l = j \<or> k < i \<and> l < Suc j" if "k < Suc i" "l < Suc j" "pair_ok skip ta tb k l" for k l
      using none [of l] that by (cases "k = i"; cases "l = j") auto
    ultimately show ?thesis using True assms(5) by (simp, intro walked_downI [of _ _ _ _ i j]) auto
  next
    case False
    have none: "\<not> pair_ok skip ta tb k j" if "k < i" for k
      using ro [OF that] False by (simp add: pair_ok_def pair_lo_def pair_hi_def)
    have "pair_hi ta tb k l \<le> pair_lo ta tb i j" if "l < j" for k l
      using go [OF that] by (simp add: pair_lo_def pair_hi_def)
    moreover have "k = i \<and> l = j \<or> k < Suc i \<and> l < j" if "k < Suc i" "l < Suc j" "pair_ok skip ta tb k l" for k l
      using none [of k] that by (cases "k = i"; cases "l = j") auto
    ultimately show ?thesis using False assms(5) by (simp, intro walked_downI [of _ _ _ _ i j]) auto
  qed
qed

lemma rev_loop_walk:
  assumes inv: "type_inv ta" "type_inv tb" and "a \<le> mt_cnt ta" "b \<le> mt_cnt tb + 1"
  shows "walked_down skip ta tb a b (next_range_rev_loop skip ta (Some tb) a b)"
  using assms(3,4)
proof (induction "a + b" arbitrary: a b rule: less_induct)
  case less
  show ?case
  proof (cases a)
    case 0
    then show ?thesis by (simp add: next_range_rev_loop.simps walked_down_def)
  next
    case (Suc i)
    have IHa: "walked_down skip ta tb i b (next_range_rev_loop skip ta (Some tb) i b)"
      using less Suc by simp
    show ?thesis
    proof (cases "skip (mt_regions ta ! i) \<or> b = 0")
      case True
      then have "next_range_rev_loop skip ta (Some tb) a b = next_range_rev_loop skip ta (Some tb) i b"
        using Suc by (subst next_range_rev_loop.simps) (auto simp: Let_def)
      then show ?thesis using walked_down_a [OF IHa] True Suc by (auto simp: pair_ok_def)
    next
      case False
      then obtain j where j: "b = Suc j" using not0_implies_Suc by auto
      have bounds: "i < mt_cnt ta" "j \<le> mt_cnt tb" "\<not> skip (mt_regions ta ! i)" using less Suc j False by auto
      have IHb: "walked_down skip ta tb (Suc i) j (next_range_rev_loop skip ta (Some tb) (Suc i) j)"
        using less Suc j by simp
      let ?m = "mt_regions ta ! i"
      consider (past) "gap_end tb j \<le> rg_base ?m" | (hit) "rg_base ?m < gap_end tb j" "gap_start tb j < rg_base ?m + rg_size ?m"
        | (below) "rg_base ?m < gap_end tb j" "rg_base ?m + rg_size ?m \<le> gap_start tb j" by linarith
      then show ?thesis
      proof cases
        case past
        have "\<not> pair_ok skip ta tb i k" if "k < b" for k
          using gap_end_mono [OF inv(2), of k j] that j bounds past by (simp add: pair_ok_def pair_lo_def pair_hi_def)
        then show ?thesis using walked_down_a [OF IHa] past Suc j bounds by (simp add: rev_loop_step inv Let_def)
      next
        case below
        have "\<not> pair_ok skip ta tb k j" if "k < a" for k
          using region_end_mono [OF inv(1), of k i] that Suc bounds below by (simp add: pair_ok_def pair_lo_def pair_hi_def)
        then show ?thesis using walked_down_b [OF IHb] below Suc j bounds by (simp add: rev_loop_step inv Let_def)
      next
        case hit
        then show ?thesis using walked_down_hit [OF inv bounds(1,2), of skip] Suc j bounds
          by (simp add: rev_loop_step inv Let_def)
      qed
    qed
  qed
qed

section \<open>The search top-down\<close>

definition fits :: "memblock \<Rightarrow> int \<Rightarrow> 32 word \<Rightarrow> int \<Rightarrow> int \<Rightarrow> int \<Rightarrow> int \<Rightarrow> int \<Rightarrow> bool" where
  "fits m nid flags start end sz align c \<longleftrightarrow>
     start \<le> c \<and> c + sz \<le> end \<and> c mod align = 0 \<and>
     (\<exists>r \<in> set (mt_regions (mb_memory m)).
        \<not> skip_region m nid flags r \<and> rg_base r \<le> c \<and> c + sz \<le> rg_base r + rg_size r) \<and>
     (\<forall>x \<in> {c..<c + sz}. tmap (mb_reserved m) x = None)"

definition pair_fits :: "memblock \<Rightarrow> int \<Rightarrow> 32 word \<Rightarrow> int \<Rightarrow> int \<Rightarrow> int \<Rightarrow> int \<Rightarrow> nat \<Rightarrow> nat \<Rightarrow> int \<Rightarrow> bool" where
  "pair_fits m nid flags start end sz align i j c \<longleftrightarrow>
     start \<le> c \<and> c + sz \<le> end \<and> c mod align = 0 \<and> \<not> skip_region m nid flags (mt_regions (mb_memory m) ! i) \<and>
     pair_lo (mb_memory m) (mb_reserved m) i j \<le> c \<and> c + sz \<le> pair_hi (mb_memory m) (mb_reserved m) i j"

lemma pair_fits_ok: "pair_fits m nid flags start end sz align i j c \<Longrightarrow> 0 < sz \<Longrightarrow>
   pair_ok (skip_region m nid flags) (mb_memory m) (mb_reserved m) i j"
  by (simp add: pair_fits_def pair_ok_def)

lemma fits_pairs:
  assumes "mb_inv m" "0 < sz" "end \<le> U32_MAX" "0 \<le> start"
  shows "fits m nid flags start end sz align c \<longleftrightarrow>
    (\<exists>i < mt_cnt (mb_memory m). \<exists>j < mt_cnt (mb_reserved m) + 1. pair_fits m nid flags start end sz align i j c)"
    (is "?L = ?R")
proof
  have inv: "type_inv (mb_memory m)" "type_inv (mb_reserved m)" using assms(1) by (simp_all add: mb_inv_def)
  assume L: ?L
  then obtain i where i: "i < mt_cnt (mb_memory m)" "\<not> skip_region m nid flags (mt_regions (mb_memory m) ! i)"
    "rg_base (mt_regions (mb_memory m) ! i) \<le> c"
    "c + sz \<le> rg_base (mt_regions (mb_memory m) ! i) + rg_size (mt_regions (mb_memory m) ! i)"
    by (auto simp: fits_def in_set_conv_nth mt_cnt_def)
  moreover obtain j where "j \<le> mt_cnt (mb_reserved m)" "gap_start (mb_reserved m) j \<le> c" "c + sz \<le> gap_end (mb_reserved m) j"
    using free_range_gap [OF inv(2), of c sz] L assms by (auto simp: fits_def)
  ultimately show ?R using L
    by (intro exI [of _ i] conjI exI [of _ j]) (auto simp: fits_def pair_fits_def pair_lo_def pair_hi_def)
next
  have inv: "type_inv (mb_reserved m)" using assms(1) by (simp add: mb_inv_def)
  assume ?R
  then obtain i j where ij: "i < mt_cnt (mb_memory m)" "j \<le> mt_cnt (mb_reserved m)"
    "pair_fits m nid flags start end sz align i j c" by (auto simp: less_Suc_eq_le)
  have "tmap (mb_reserved m) x = None" if "c \<le> x" "x < c + sz" for x
    using gap_free [OF inv ij(2), of x] ij(3) that by (simp add: gap_at_def pair_fits_def pair_lo_def pair_hi_def)
  then show ?L using ij by (auto simp: fits_def pair_fits_def pair_lo_def pair_hi_def mt_cnt_def)
qed

text \<open>The candidate of one free range: the highest aligned block of it in the window.\<close>

lemma top_candidate:
  assumes "0 \<le> start" "end \<le> U32_MAX" "0 < sz" "align = 2 ^ k" "is_u32 sz" and "start \<le> end" "0 \<le> s"
    and ts: "ts = clamp s start end" and te: "te = clamp e start end" and cd: "cand = round_down (u32_sub te sz) align"
  shows "sz \<le> te \<and> ts \<le> cand \<Longrightarrow> start \<le> cand \<and> cand + sz \<le> end \<and> cand mod align = 0 \<and> s \<le> cand \<and> cand + sz \<le> e"
    and "start \<le> c \<Longrightarrow> c + sz \<le> end \<Longrightarrow> c mod align = 0 \<Longrightarrow> s \<le> c \<Longrightarrow> c + sz \<le> e \<Longrightarrow> sz \<le> te \<and> ts \<le> c \<and> c \<le> cand"
proof -
  have te_b: "0 \<le> te" "te \<le> U32_MAX" using te assms(1,2,6) by (auto simp: clamp_def)
  have cand: "cand = te - sz - (te - sz) mod align" "0 \<le> (te - sz) mod align" if "sz \<le> te"
  proof -
    have "u32_sub te sz = te - sz" using te_b that assms(3) by (intro u32_sub_nowrap) auto
    moreover have "is_u32 (te - sz)" using te_b that assms(3) by (simp add: is_u32_def)
    ultimately show "cand = te - sz - (te - sz) mod align" using cd round_down_pow2 [OF _ assms(4)] by simp
    show "0 \<le> (te - sz) mod align" using assms(4) by simp
  qed
  show "start \<le> cand \<and> cand + sz \<le> end \<and> cand mod align = 0 \<and> s \<le> cand \<and> cand + sz \<le> e" if h: "sz \<le> te \<and> ts \<le> cand"
  proof -
    have "ts < te" "cand + sz \<le> te" using h cand assms(3) by auto
    moreover have "cand mod align = 0" using cand h by (simp add: mod_diff_right_eq)
    ultimately show ?thesis using h ts te by (auto simp: clamp_def min_def max_def split: if_splits)
  qed
  show "sz \<le> te \<and> ts \<le> c \<and> c \<le> cand"
    if c: "start \<le> c" "c + sz \<le> end" "c mod align = 0" "s \<le> c" "c + sz \<le> e"
  proof -
    have te_c: "c + sz \<le> te" "ts \<le> c" using c assms(3) ts te by (auto simp: clamp_def)
    then have le: "sz \<le> te" using c assms(1) by simp
    have "c \<le> te - sz - (te - sz) mod align"
    proof -
      have ap: "0 < align" using assms(4) by simp
      have "align * (c div align) = c" using c(3) by auto
      moreover have "c div align \<le> (te - sz) div align" using te_c ap by (intro zdiv_mono1) auto
      ultimately have "c \<le> align * ((te - sz) div align)" using ap by (metis mult_left_mono less_imp_le)
      then show ?thesis by (simp add: minus_mod_eq_mult_div)
    qed
    then show ?thesis using le te_c cand by simp
  qed
qed

definition highest :: "(int \<Rightarrow> bool) \<Rightarrow> int \<Rightarrow> bool" where
  "highest P c \<longleftrightarrow> (if c = 0 then \<forall>x. \<not> P x else P c \<and> (\<forall>x. P x \<longrightarrow> x \<le> c))"

lemma top_down_step:
  assumes "next_range_rev_loop (skip_region m nid flags) (mb_memory m) (Some (mb_reserved m)) a b = x"
    and "nid \<noteq> MAX_NUMNODES"
  shows "find_top_down_loop (Suc n) m start end sz align nid flags (Some (a, b)) =
     (case x of None \<Rightarrow> Inr 0
      | Some (a', b', s, e) \<Rightarrow>
          let ts = clamp s start end; te = clamp e start end; cand = round_down (u32_sub te sz) align in
          if sz \<le> te \<and> ts \<le> cand then Inr cand
          else find_top_down_loop n m start end sz align nid flags (Some (a', b')))"
  using assms by (cases x) (auto simp: next_mem_range_rev_def Let_def)

lemma top_down_loop_spec:
  assumes inv: "mb_inv m"
    and w: "0 < start" "start \<le> end" "end \<le> U32_MAX" "0 < sz" "is_u32 sz" "align = 2 ^ k"
    and nid: "nid \<noteq> MAX_NUMNODES"
    and "a \<le> mt_cnt (mb_memory m)" "b \<le> mt_cnt (mb_reserved m) + 1" "a + b < n"
  shows "\<exists>c. find_top_down_loop n m start end sz align nid flags (Some (a, b)) = Inr c \<and>
    highest (\<lambda>c. \<exists>i < a. \<exists>j < b. pair_fits m nid flags start end sz align i j c) c"
  using assms(9-)
proof (induction n arbitrary: a b)
  case (Suc n)
  let ?ta = "mb_memory m" and ?tb = "mb_reserved m" and ?skip = "skip_region m nid flags"
  let ?pf = "pair_fits m nid flags start end sz align"
  have invs: "type_inv ?ta" "type_inv ?tb" using inv by (simp_all add: mb_inv_def)
  have walk: "walked_down ?skip ?ta ?tb a b (next_range_rev_loop ?skip ?ta (Some ?tb) a b)"
    using rev_loop_walk [OF invs] Suc.prems by simp
  have ok: "?pf i j c \<Longrightarrow> pair_ok ?skip ?ta ?tb i j" for i j c using pair_fits_ok w(4) by blast
  show ?case
  proof (cases "next_range_rev_loop ?skip ?ta (Some ?tb) a b")
    case None
    then have "\<forall>i < a. \<forall>j < b. \<not> pair_ok ?skip ?ta ?tb i j" using walk by (simp add: walked_down_def)
    then have "highest (\<lambda>c. \<exists>i < a. \<exists>j < b. ?pf i j c) 0" unfolding highest_def using ok by (metis (full_types))
    then show ?thesis unfolding top_down_step [OF None nid] by simp
  next
    case (Some y)
    obtain a' b' s e where y: "y = (a', b', s, e)" by (cases y) auto
    obtain i j where ij: "i < a" "j < b" "\<not> ?skip (mt_regions ?ta ! i)" "s = pair_lo ?ta ?tb i j" "e = pair_hi ?ta ?tb i j"
      and rest: "\<And>i' j'. i' < a \<Longrightarrow> j' < b \<Longrightarrow> pair_ok ?skip ?ta ?tb i' j' \<Longrightarrow> i' = i \<and> j' = j \<or> i' < a' \<and> j' < b'"
      and ord: "\<And>i' j'. i' < a' \<Longrightarrow> j' < b' \<Longrightarrow> pair_ok ?skip ?ta ?tb i' j' \<Longrightarrow> pair_hi ?ta ?tb i' j' \<le> s"
      and le: "a' \<le> a" "b' \<le> b" "a' + b' < a + b"
      using walk unfolding walked_down_def Some y option.case prod.case by blast
    have s0: "0 \<le> s"
      using ij type_inv_end [OF invs(1), of "mt_regions ?ta ! i"] Suc.prems by (simp add: pair_lo_def mt_cnt_def le_max_iff_disj)
    define ts te cand where c_def: "ts = clamp s start end" "te = clamp e start end" "cand = round_down (u32_sub te sz) align"
    note cnd = top_candidate [OF less_imp_le [OF w(1)] w(3,4,6,5,2) s0 c_def]
    have pairs: "?pf i' j' c' \<Longrightarrow> i' < a \<Longrightarrow> j' < b \<Longrightarrow> i' = i \<and> j' = j \<or> i' < a' \<and> j' < b'" for i' j' c'
      using rest ok by blast
    have here: "?pf i j c' \<longleftrightarrow> start \<le> c' \<and> c' + sz \<le> end \<and> c' mod align = 0 \<and> s \<le> c' \<and> c' + sz \<le> e" for c'
      using ij by (auto simp: pair_fits_def)
    have below: "c' < s" if "?pf i' j' c'" "i' < a'" "j' < b'" for i' j' c'
      using ord [OF that(2,3) ok [OF that(1)]] that(1) w(4) by (simp add: pair_fits_def)
    show ?thesis
    proof (cases "sz \<le> te \<and> ts \<le> cand")
      case True
      have "c' \<le> cand" if "i' < a" "j' < b" "?pf i' j' c'" for i' j' c'
        using pairs [OF that(3,1,2)] below [OF that(3)] cnd(1) [OF True] cnd(2) [of c'] that(3) here [of c'] by force
      moreover have "?pf i j cand" "cand \<noteq> 0" using cnd(1) [OF True] here w(1) by auto
      ultimately have "highest (\<lambda>c. \<exists>i < a. \<exists>j < b. ?pf i j c) cand" using ij by (auto simp: highest_def)
      then show ?thesis using True unfolding top_down_step [OF Some nid] y c_def Let_def by simp
    next
      case False
      then have none: "\<not> ?pf i j c'" for c' unfolding here using cnd(2) [of c'] by linarith
      have "x < a' \<Longrightarrow> x < a" "x < b' \<Longrightarrow> x < b" for x using le by auto
      then have "(\<exists>i < a. \<exists>j < b. ?pf i j c') \<longleftrightarrow> (\<exists>i < a'. \<exists>j < b'. ?pf i j c')" for c'
        using pairs none by blast
      then show ?thesis using Suc.IH [of a' b'] False le Suc.prems
        unfolding top_down_step [OF Some nid] y c_def Let_def option.case prod.case if_not_P [OF False [unfolded c_def]]
        by simp
    qed
  qed
qed simp

lemma find_top_down:
  assumes inv: "mb_inv m"
    and w: "0 < start" "start \<le> end" "end \<le> U32_MAX" "0 < sz" "is_u32 sz" "align = 2 ^ k"
    and nid: "nid \<noteq> MAX_NUMNODES"
  shows "\<exists>c. memblock_find_range_top_down m start end sz align nid flags = Inr c \<and>
    highest (fits m nid flags start end sz align) c"
proof -
  let ?a = "mt_cnt (mb_memory m)" and ?b = "mt_cnt (mb_reserved m) + 1"
  have "memblock_find_range_top_down m start end sz align nid flags =
      find_top_down_loop (walk_budget m) m start end sz align nid flags (Some (?a, ?b))"
    by (simp add: memblock_find_range_top_down_def walk_budget_def next_mem_range_rev_def)
  moreover have "fits m nid flags start end sz align =
      (\<lambda>c. \<exists>i < ?a. \<exists>j < ?b. pair_fits m nid flags start end sz align i j c)"
    by (rule ext, rule fits_pairs [OF inv w(4,3)]) (use w(1) in simp)
  ultimately show ?thesis
    using top_down_loop_spec [OF assms, of ?a ?b "walk_budget m" flags] by (simp add: walk_budget_def)
qed

section \<open>The forward walk\<close>

text \<open>The forward walk, the same way.\<close>

definition ahead :: "(memblock_region \<Rightarrow> bool) \<Rightarrow> memblock_type \<Rightarrow> memblock_type \<Rightarrow> nat \<Rightarrow> nat \<Rightarrow> nat \<Rightarrow> nat \<Rightarrow> bool" where
  "ahead skip ta tb a b i j \<longleftrightarrow> a \<le> i \<and> i < mt_cnt ta \<and> b \<le> j \<and> j \<le> mt_cnt tb \<and> pair_ok skip ta tb i j"

definition walked_up :: "(memblock_region \<Rightarrow> bool) \<Rightarrow> memblock_type \<Rightarrow> memblock_type \<Rightarrow> nat \<Rightarrow> nat \<Rightarrow>
    (nat \<times> nat \<times> int \<times> int) option \<Rightarrow> bool" where
  "walked_up skip ta tb a b x \<longleftrightarrow> (case x of
      None \<Rightarrow> \<forall>i j. \<not> ahead skip ta tb a b i j
    | Some (a', b', s, e) \<Rightarrow> a \<le> a' \<and> b \<le> b' \<and> a + b < a' + b' \<and> a' \<le> mt_cnt ta \<and> b' \<le> mt_cnt tb + 1 \<and>
        (\<exists>i j. a \<le> i \<and> i < mt_cnt ta \<and> b \<le> j \<and> j \<le> mt_cnt tb \<and> \<not> skip (mt_regions ta ! i) \<and>
          s = pair_lo ta tb i j \<and> e = pair_hi ta tb i j \<and> s \<le> e \<and>
          (\<forall>k l. ahead skip ta tb a b k l \<longrightarrow> k = i \<and> l = j \<or> ahead skip ta tb a' b' k l) \<and>
          (\<forall>k l. ahead skip ta tb a' b' k l \<longrightarrow> e \<le> pair_lo ta tb k l)))"

lemma walked_upI:
  assumes "a \<le> a'" "b \<le> b'" "a + b < a' + b'" "a' \<le> mt_cnt ta" "b' \<le> mt_cnt tb + 1"
    "a \<le> i" "i < mt_cnt ta" "b \<le> j" "j \<le> mt_cnt tb" "\<not> skip (mt_regions ta ! i)"
    "s = pair_lo ta tb i j" "e = pair_hi ta tb i j" "s \<le> e"
    and "\<And>k l. ahead skip ta tb a b k l \<Longrightarrow> k = i \<and> l = j \<or> ahead skip ta tb a' b' k l"
    and "\<And>k l. ahead skip ta tb a' b' k l \<Longrightarrow> e \<le> pair_lo ta tb k l"
  shows "walked_up skip ta tb a b (Some (a', b', s, e))"
  unfolding walked_up_def option.case prod.case
  by (intro conjI, (rule assms(1-5))+, rule exI [of _ i], rule exI [of _ j], intro conjI allI impI)
    (rule assms(6-13) | erule assms(14,15))+

lemma walked_up_weaken:
  assumes "walked_up skip ta tb a b x" and "a0 \<le> a" "b0 \<le> b"
    and "\<And>k l. ahead skip ta tb a0 b0 k l \<Longrightarrow> ahead skip ta tb a b k l"
  shows "walked_up skip ta tb a0 b0 x"
proof (cases x)
  case None
  then show ?thesis using assms by (auto simp: walked_up_def)
next
  case (Some y)
  obtain a' b' s e where y: "y = (a', b', s, e)" by (cases y) auto
  from assms(1) obtain i j where le: "a \<le> a'" "b \<le> b'" "a + b < a' + b'" "a' \<le> mt_cnt ta" "b' \<le> mt_cnt tb + 1"
    and ij: "a \<le> i" "i < mt_cnt ta" "b \<le> j" "j \<le> mt_cnt tb" "\<not> skip (mt_regions ta ! i)"
      "s = pair_lo ta tb i j" "e = pair_hi ta tb i j" "s \<le> e"
    and all: "\<forall>k l. ahead skip ta tb a b k l \<longrightarrow> k = i \<and> l = j \<or> ahead skip ta tb a' b' k l"
      "\<forall>k l. ahead skip ta tb a' b' k l \<longrightarrow> e \<le> pair_lo ta tb k l"
    unfolding walked_up_def Some y option.case prod.case by blast
  have "a0 \<le> a'" "b0 \<le> b'" "a0 + b0 < a' + b'" "a0 \<le> i" "b0 \<le> j" using le ij assms(2,3) by auto
  then show ?thesis unfolding Some y
    by (intro walked_upI [of _ _ _ _ _ _ i j]) (use le ij all assms(4) in blast)+
qed

lemma loop_step:
  assumes "type_inv ta" "i < mt_cnt ta" "j \<le> mt_cnt tb" "\<not> skip (mt_regions ta ! i)"
  shows "next_range_loop skip ta (Some tb) i j =
     (let m = mt_regions ta ! i; rs = gap_start tb j; re = gap_end tb j; m_end = rg_base m + rg_size m in
      if rs \<ge> m_end then next_range_loop skip ta (Some tb) (Suc i) j
      else if rg_base m < re then
        Some (if m_end \<le> re then Suc i else i, if m_end \<le> re then j else Suc j,
              pair_lo ta tb i j, pair_hi ta tb i j)
      else next_range_loop skip ta (Some tb) i (Suc j))"
proof -
  have e: "rg_end (mt_regions ta ! i) = rg_base (mt_regions ta ! i) + rg_size (mt_regions ta ! i)"
    using type_inv_end [OF assms(1)] assms(2) by (simp add: mt_cnt_def)
  have j: "j < mt_cnt tb + 1" using assms(3) by simp
  show ?thesis
    by (subst next_range_loop.simps) (simp only: assms j e Let_def pair_lo_def pair_hi_def if_True if_False option.case)
qed

lemma walked_up_hit:
  assumes inv: "type_inv ta" "type_inv tb" "i < mt_cnt ta" "j \<le> mt_cnt tb" and "\<not> skip (mt_regions ta ! i)"
    and hit: "rg_base (mt_regions ta ! i) < gap_end tb j" "gap_start tb j < rg_base (mt_regions ta ! i) + rg_size (mt_regions ta ! i)"
  shows "walked_up skip ta tb i j
    (Some (if rg_base (mt_regions ta ! i) + rg_size (mt_regions ta ! i) \<le> gap_end tb j then Suc i else i,
           if rg_base (mt_regions ta ! i) + rg_size (mt_regions ta ! i) \<le> gap_end tb j then j else Suc j,
           pair_lo ta tb i j, pair_hi ta tb i j))"
proof -
  let ?m = "mt_regions ta ! i"
  have le: "pair_lo ta tb i j \<le> pair_hi ta tb i j"
    using hit gap_nonneg [OF inv(2,4)] type_inv_end [OF inv(1), of ?m] inv(3)
    by (auto simp: pair_lo_def pair_hi_def mt_cnt_def)
  have go: "j < k \<Longrightarrow> k \<le> mt_cnt tb \<Longrightarrow> gap_end tb j \<le> gap_start tb k" for k
    using gap_order [OF inv(2), of j k] by simp
  have ro: "i < k \<Longrightarrow> k < mt_cnt ta \<Longrightarrow> rg_base ?m + rg_size ?m \<le> rg_base (mt_regions ta ! k)" for k
    using type_inv_sorted [OF inv(1), of i k] by simp
  show ?thesis
  proof (cases "rg_base ?m + rg_size ?m \<le> gap_end tb j")
    case True
    have "\<not> pair_ok skip ta tb i k" if "j < k" "k \<le> mt_cnt tb" for k
      using go [OF that] True by (simp add: pair_ok_def pair_lo_def pair_hi_def)
    then have "k = i \<and> l = j \<or> ahead skip ta tb (Suc i) j k l" if "ahead skip ta tb i j k l" for k l
      using that by (cases "k = i"; cases "l = j") (auto simp: ahead_def)
    moreover have "pair_hi ta tb i j \<le> pair_lo ta tb k l" if "ahead skip ta tb (Suc i) j k l" for k l
      using ro [of k] that by (simp add: pair_lo_def pair_hi_def ahead_def Suc_le_eq)
    ultimately have "walked_up skip ta tb i j (Some (Suc i, j, pair_lo ta tb i j, pair_hi ta tb i j))"
      by (intro walked_upI [of _ _ _ _ _ _ i j]) (use inv assms(5) le in simp_all)
    then show ?thesis using True by simp
  next
    case False
    have "\<not> pair_ok skip ta tb k j" if "i < k" "k < mt_cnt ta" for k
      using ro [OF that] False by (simp add: pair_ok_def pair_lo_def pair_hi_def)
    then have "k = i \<and> l = j \<or> ahead skip ta tb i (Suc j) k l" if "ahead skip ta tb i j k l" for k l
      using that by (cases "k = i"; cases "l = j") (auto simp: ahead_def)
    moreover have "pair_hi ta tb i j \<le> pair_lo ta tb k l" if "ahead skip ta tb i (Suc j) k l" for k l
      using go [of l] that by (simp add: pair_lo_def pair_hi_def ahead_def Suc_le_eq)
    ultimately have "walked_up skip ta tb i j (Some (i, Suc j, pair_lo ta tb i j, pair_hi ta tb i j))"
      by (intro walked_upI [of _ _ _ _ _ _ i j]) (use inv assms(5) le in simp_all)
    then show ?thesis using False by simp
  qed
qed

lemma loop_walk:
  assumes inv: "type_inv ta" "type_inv tb" and "a \<le> mt_cnt ta" "b \<le> mt_cnt tb + 1"
  shows "walked_up skip ta tb a b (next_range_loop skip ta (Some tb) a b)"
  using assms(3,4)
proof (induction "mt_cnt ta + mt_cnt tb + 1 - (a + b)" arbitrary: a b rule: less_induct)
  case less
  show ?case
  proof (cases "a = mt_cnt ta")
    case True
    then show ?thesis by (simp add: next_range_loop.simps walked_up_def ahead_def)
  next
    case False
    then have a: "a < mt_cnt ta" using less.prems by simp
    have IHa: "walked_up skip ta tb (Suc a) b (next_range_loop skip ta (Some tb) (Suc a) b)"
      using less a by simp
    have wa: "walked_up skip ta tb a b (next_range_loop skip ta (Some tb) (Suc a) b)"
      if "\<And>l. b \<le> l \<Longrightarrow> l \<le> mt_cnt tb \<Longrightarrow> \<not> pair_ok skip ta tb a l"
      by (rule walked_up_weaken [OF IHa]) (use that le_eq_less_or_eq in \<open>auto simp: ahead_def Suc_le_eq\<close>)
    show ?thesis
    proof (cases "skip (mt_regions ta ! a) \<or> b = mt_cnt tb + 1")
      case True
      then have "next_range_loop skip ta (Some tb) a b = next_range_loop skip ta (Some tb) (Suc a) b"
        using a by (subst next_range_loop.simps) (auto simp: Let_def)
      then show ?thesis using wa True by (auto simp: pair_ok_def)
    next
      case False
      then have b: "b \<le> mt_cnt tb" "\<not> skip (mt_regions ta ! a)" using less.prems by auto
      have IHb: "walked_up skip ta tb a (Suc b) (next_range_loop skip ta (Some tb) a (Suc b))"
        using less a b by simp
      let ?m = "mt_regions ta ! a"
      consider (past) "gap_end tb b \<le> rg_base ?m" "gap_start tb b < rg_base ?m + rg_size ?m"
        | (hit) "rg_base ?m < gap_end tb b" "gap_start tb b < rg_base ?m + rg_size ?m"
        | (below) "rg_base ?m + rg_size ?m \<le> gap_start tb b" by linarith
      then show ?thesis
      proof cases
        case past
        have no: "\<not> pair_ok skip ta tb k b" if "a \<le> k" "k < mt_cnt ta" for k
          using type_inv_sorted [OF inv(1), of a k] type_inv_end [OF inv(1), of ?m] that past a
          by (cases "k = a") (auto simp: pair_ok_def pair_lo_def pair_hi_def mt_cnt_def)
        have "walked_up skip ta tb a b (next_range_loop skip ta (Some tb) a (Suc b))"
          by (rule walked_up_weaken [OF IHb]) (use no le_eq_less_or_eq in \<open>auto simp: ahead_def Suc_le_eq\<close>)
        then show ?thesis using past a b by (simp add: loop_step inv Let_def)
      next
        case below
        have "\<not> pair_ok skip ta tb a l" if "b \<le> l" "l \<le> mt_cnt tb" for l
          using gap_start_mono [OF inv(2) that] below by (simp add: pair_ok_def pair_lo_def pair_hi_def)
        then show ?thesis using wa below a b by (simp add: loop_step inv Let_def)
      next
        case hit
        have "next_range_loop skip ta (Some tb) a b =
            Some (if rg_base ?m + rg_size ?m \<le> gap_end tb b then Suc a else a,
              if rg_base ?m + rg_size ?m \<le> gap_end tb b then b else Suc b, pair_lo ta tb a b, pair_hi ta tb a b)"
          unfolding loop_step [of ta a b tb skip, OF inv(1) a b] Let_def using hit by (simp only: not_le [symmetric] not_False_eq_True if_True if_False)
        then show ?thesis by (simp only: walked_up_hit [of ta tb a b skip, OF inv a b hit])
      qed
    qed
  qed
qed

section \<open>The search bottom-up\<close>

lemma round_up_sound:
  assumes "is_u32 x" "y = 2 ^ k" "is_u32 y" "round_up x y \<noteq> 0"
  shows "x \<le> round_up x y \<and> round_up x y mod y = 0"
proof -
  have y0: "0 < y" using assms(2) by simp
  have dv: "y dvd 4294967296"
  proof -
    have "k \<le> 32" using assms(2,3) power_strict_increasing [of 32 k "2 :: int"]
      by (force simp: is_u32_def U32_MAX_def)
    then show ?thesis using assms(2) le_imp_power_dvd [of k 32 "2 :: int"] by simp
  qed
  let ?v = "x - 1 - (x - 1) mod y + y"
  have v: "round_up x y = ?v mod 4294967296" using assms(2) by (simp add: round_up_def or_mask_int algebra_simps)
  have x: "1 \<le> x" using assms(1,4) by (cases "x = 0") (auto simp: round_up_def is_u32_def)
  have md: "0 \<le> (x - 1) mod y" "(x - 1) mod y < y" using y0 by simp_all
  have yv: "y dvd ?v" by (metis dvd_add dvd_minus_mod dvd_refl)
  then obtain q where q: "?v = y * q" by (elim dvdE)
  obtain p where p: "4294967296 = y * p" using dv by (elim dvdE)
  have "?v \<le> 4294967296"
  proof (rule ccontr)
    assume "\<not> ?v \<le> 4294967296"
    then have "p < q" using q p y0 by (simp add: mult_less_cancel_left_pos)
    then have "y * (p + 1) \<le> y * q" using y0 by (intro mult_left_mono) auto
    then have "4294967296 + y \<le> ?v" using q p by (simp add: distrib_left)
    then show False using assms(1) md by (simp add: is_u32_def U32_MAX_def)
  qed
  moreover have "0 \<le> ?v" using x md by simp
  ultimately have "round_up x y = ?v" using v assms(4) by (cases "?v = 4294967296") auto
  then show ?thesis using yv md by auto
qed

lemma bottom_candidate:
  assumes "0 \<le> start" "end \<le> U32_MAX" "align = 2 ^ k" "is_u32 align" "0 < sz" and "start \<le> end"
    and ts: "ts = clamp s start end" and te: "te = clamp e start end" and cd: "cand = round_up ts align"
    and "cand < te" "sz \<le> u32_sub te cand" "cand \<noteq> 0"
  shows "start \<le> cand \<and> cand + sz \<le> end \<and> cand mod align = 0 \<and> s \<le> cand \<and> cand + sz \<le> e"
proof -
  have b: "is_u32 ts" "0 \<le> te" "te \<le> U32_MAX" using ts te assms(1,2,6) by (auto simp: clamp_def is_u32_def)
  have c: "ts \<le> cand" "cand mod align = 0" using round_up_sound [OF b(1) assms(3,4)] cd assms(12) by auto
  then have "0 \<le> cand" using b(1) by (simp add: is_u32_def)
  then have "u32_sub te cand = te - cand" using b assms(10) by (intro u32_sub_nowrap) auto
  then show ?thesis using c assms(10,11) ts te assms(5) by (auto simp: clamp_def min_def max_def split: if_splits)
qed

lemma bottom_up_loop_sound:
  assumes inv: "mb_inv m" and w: "0 \<le> start" "start \<le> end" "end \<le> U32_MAX" "0 < sz" "align = 2 ^ k" "is_u32 align"
    and nid: "nid \<noteq> MAX_NUMNODES"
    and "a \<le> mt_cnt (mb_memory m)" "b \<le> mt_cnt (mb_reserved m) + 1"
    and "mt_cnt (mb_memory m) + mt_cnt (mb_reserved m) + 1 < n + (a + b)"
  shows "\<exists>c. find_bottom_up_loop n m start end sz align nid flags (a, b) = Inr c \<and>
    (c \<noteq> 0 \<longrightarrow> fits m nid flags start end sz align c)"
  using assms(9-)
proof (induction n arbitrary: a b)
  case (Suc n)
  let ?ta = "mb_memory m" and ?tb = "mb_reserved m" and ?skip = "skip_region m nid flags"
  have invs: "type_inv ?ta" "type_inv ?tb" using inv by (simp_all add: mb_inv_def)
  have walk: "walked_up ?skip ?ta ?tb a b (next_range_loop ?skip ?ta (Some ?tb) a b)"
    using loop_walk [OF invs] Suc.prems by simp
  show ?case
  proof (cases "next_range_loop ?skip ?ta (Some ?tb) a b")
    case None
    then show ?thesis using nid by (simp add: next_mem_range_def)
  next
    case (Some y)
    obtain a' b' s e where y: "y = (a', b', s, e)" by (cases y) auto
    obtain i j where ij: "i < mt_cnt ?ta" "j \<le> mt_cnt ?tb" "\<not> ?skip (mt_regions ?ta ! i)"
        "s = pair_lo ?ta ?tb i j" "e = pair_hi ?ta ?tb i j"
      and le: "a + b < a' + b'" "a' \<le> mt_cnt ?ta" "b' \<le> mt_cnt ?tb + 1"
      using walk unfolding walked_up_def Some y option.case prod.case by blast
    define ts te cand where c_def: "ts = clamp s start end" "te = clamp e start end" "cand = round_up ts align"
    have step: "find_bottom_up_loop (Suc n) m start end sz align nid flags (a, b) =
       (if cand < te \<and> sz \<le> u32_sub te cand then Inr cand
        else find_bottom_up_loop n m start end sz align nid flags (a', b'))"
      using nid Some y by (simp add: next_mem_range_def Let_def c_def)
    show ?thesis
    proof (cases "cand < te \<and> sz \<le> u32_sub te cand")
      case True
      have "fits m nid flags start end sz align cand" if "cand \<noteq> 0"
      proof -
        have "pair_fits m nid flags start end sz align i j cand"
          using bottom_candidate [OF w(1,3,5,6,4,2) c_def] True that ij by (simp add: pair_fits_def)
        then show ?thesis using fits_pairs [OF inv w(4,3,1)] ij(1,2) less_Suc_eq_le by auto
      qed
      then show ?thesis using True by (simp only: step) simp
    next
      case False
      then show ?thesis using Suc.IH [of a' b'] le Suc.prems by (simp only: step) simp
    qed
  qed
qed simp

section \<open>The search of a window\<close>

lemma skip_region_nid: "MAX_NUMNODES \<noteq> NUMA_NO_NODE" by (simp add: MAX_NUMNODES_def NUMA_NO_NODE_def)

lemma fits_end_max: "0 < sz \<Longrightarrow> fits m nid flags start (max start end) sz align = fits m nid flags start end sz align"
  by (auto simp: fits_def fun_eq_iff max_def)

lemma fits_start: "fits m nid flags (max start x) end sz align c \<Longrightarrow> fits m nid flags start end sz align c"
  by (simp add: fits_def)

text \<open>The window a search in \<open>[start, end)\<close> really has.\<close>

definition search_end :: "memblock \<Rightarrow> int \<Rightarrow> int" where
  "search_end m end = (if end = MEMBLOCK_ALLOC_ACCESSIBLE then current_limit m else end)"

lemma find_bottom_up:
  assumes inv: "mb_inv m" and w: "0 \<le> start" "start \<le> end" "end \<le> U32_MAX" "0 < sz" "align = 2 ^ k" "is_u32 align"
    and nid: "nid \<noteq> MAX_NUMNODES"
  shows "\<exists>c. memblock_find_range_bottom_up m start end sz align nid flags = Inr c \<and>
    (c \<noteq> 0 \<longrightarrow> fits m nid flags start end sz align c)"
  unfolding memblock_find_range_bottom_up_def
  by (rule bottom_up_loop_sound [OF assms]) (simp_all add: walk_budget_def)

lemma find_in_range_node_spec:
  assumes inv: "mb_inv m" and "is_u32 start" "is_u32 end" "0 < sz" "is_u32 sz" "align = 2 ^ k" "is_u32 align"
    and "nid \<noteq> MAX_NUMNODES" and "is_u32 (kernel_end E)"
  shows "\<exists>c. memblock_find_in_range_node E m sz align start end nid flags = Inr c \<and>
    (if c = 0 then \<forall>x. \<not> fits m nid flags (max start PAGE_SIZE) (search_end m end) sz align x
     else fits m nid flags (max start PAGE_SIZE) (search_end m end) sz align c) \<and>
    (\<not> bottom_up m \<longrightarrow> highest (fits m nid flags (max start PAGE_SIZE) (search_end m end) sz align) c)"
proof -
  let ?s = "max start PAGE_SIZE" and ?e = "search_end m end"
  let ?e' = "max ?s ?e"
  have s: "0 < ?s" "?s \<le> U32_MAX" using assms(2) by (auto simp: PAGE_SIZE_def is_u32_def U32_MAX_def)
  have e: "is_u32 ?e" using inv assms(3) by (simp add: search_end_def mb_inv_def)
  then have e': "?s \<le> ?e'" "?e' \<le> U32_MAX" using s by (auto simp: is_u32_def)
  have feq: "fits m nid flags ?s ?e' sz align = fits m nid flags ?s ?e sz align"
    using assms(4) by (rule fits_end_max)
  obtain c where td: "memblock_find_range_top_down m ?s ?e' sz align nid flags = Inr c"
    and hi: "highest (fits m nid flags ?s ?e sz align) c"
    using find_top_down [OF inv s(1) e'(1,2) assms(4,5,6,8), of flags] feq by auto
  have hi': "if c = 0 then \<forall>x. \<not> fits m nid flags ?s ?e sz align x else fits m nid flags ?s ?e sz align c"
    using hi by (auto simp: highest_def)
  show ?thesis
  proof (cases "bottom_up m \<and> ?e' > kernel_end E")
    case False
    have "memblock_find_in_range_node E m sz align start end nid flags = Inr c"
      unfolding memblock_find_in_range_node_def search_end_def [symmetric] Let_def if_not_P [OF False] by (rule td)
    then show ?thesis using hi hi' by blast
  next
    case True
    have "max ?s (kernel_end E) \<le> ?e'" using True s e by auto
    then obtain d where bu: "memblock_find_range_bottom_up m (max ?s (kernel_end E)) ?e' sz align nid flags = Inr d"
      and d: "d \<noteq> 0 \<longrightarrow> fits m nid flags (max ?s (kernel_end E)) ?e' sz align d"
      using find_bottom_up [OF inv _ _ e'(2) assms(4,6,7,8), of "max ?s (kernel_end E)" flags] s(1) by fastforce
    have fd: "d \<noteq> 0 \<Longrightarrow> fits m nid flags ?s ?e sz align d" using d fits_start feq by metis
    have "memblock_find_in_range_node E m sz align start end nid flags = (if d \<noteq> 0 then Inr d else Inr c)"
      unfolding memblock_find_in_range_node_def search_end_def [symmetric] Let_def if_P [OF True] using td bu by simp
    then show ?thesis using fd hi' True by (cases "d = 0") auto
  qed
qed

lemma choose_flags_cases:
  "choose_memblock_flags m = MEMBLOCK_MIRROR \<and> choose_memblock_flags m AND MEMBLOCK_MIRROR \<noteq> 0 \<or>
   choose_memblock_flags m = 0 \<and> choose_memblock_flags m AND MEMBLOCK_MIRROR = 0"
  by (auto simp: choose_memblock_flags_def MEMBLOCK_MIRROR_def MEMBLOCK_NONE_def)

lemma fits_mirror: "fits m nid MEMBLOCK_MIRROR start end sz align c \<Longrightarrow> fits m nid 0 start end sz align c"
  by (auto simp: fits_def skip_region_def MEMBLOCK_MIRROR_def MEMBLOCK_NOMAP_def)

lemma find_in_range_spec:
  assumes inv: "mb_inv m" and "is_u32 start" "is_u32 end" "0 < sz" "is_u32 sz" "align = 2 ^ k" "is_u32 align"
    and "is_u32 (kernel_end E)"
  shows "\<exists>c. memblock_find_in_range E m start end sz align = Inr c \<and>
    (if c = 0 then \<forall>x. \<not> fits m NUMA_NO_NODE 0 (max start PAGE_SIZE) (search_end m end) sz align x
     else fits m NUMA_NO_NODE 0 (max start PAGE_SIZE) (search_end m end) sz align c)"
proof -
  let ?fits = "\<lambda>fl. fits m NUMA_NO_NODE fl (max start PAGE_SIZE) (search_end m end) sz align"
  note node = find_in_range_node_spec [OF assms(1-7) skip_region_nid [symmetric] assms(8)]
  obtain c where c: "memblock_find_in_range_node E m sz align start end NUMA_NO_NODE 0 = Inr c"
    and c': "if c = 0 then \<forall>x. \<not> ?fits 0 x else ?fits 0 c" using node [of 0] by blast
  obtain d where d: "memblock_find_in_range_node E m sz align start end NUMA_NO_NODE MEMBLOCK_MIRROR = Inr d"
    and d': "if d = 0 then \<forall>x. \<not> ?fits MEMBLOCK_MIRROR x else ?fits MEMBLOCK_MIRROR d"
    using node [of MEMBLOCK_MIRROR] by blast
  have fm: "?fits MEMBLOCK_MIRROR x \<Longrightarrow> ?fits 0 x" for x by (rule fits_mirror)
  have mm: "MEMBLOCK_MIRROR AND MEMBLOCK_MIRROR \<noteq> 0" "MEMBLOCK_MIRROR AND NOT MEMBLOCK_MIRROR = 0"
    by (simp_all add: MEMBLOCK_MIRROR_def)
  consider (mirror) "choose_memblock_flags m = MEMBLOCK_MIRROR" | (plain) "choose_memblock_flags m = 0"
    using choose_flags_cases by blast
  then show ?thesis
  proof cases
    case mirror
    show ?thesis
      unfolding memblock_find_in_range_def mirror Let_def using c d mm c' d' fm [of d] by (cases "d = 0") simp_all
  next
    case plain
    show ?thesis unfolding memblock_find_in_range_def plain Let_def using c c' by simp
  qed
qed

end
