(* ===== verification/Memblock_Resize.thy ===== *)
theory Memblock_Resize
  imports Memblock_Free
begin

text \<open>
  Growing the region arrays.  The range operations call the doubling of an array through a contract,
  a locale; the operations' results are proved from it once, growth included.  The doubling itself
  is shown to keep the contract, by induction on its recursion budget: the new array is put in free
  memory, no memory region changes, and no reservation is lost but the old array's own storage.
\<close>

section \<open>Arrays never shrink\<close>

definition arrays_le :: "memblock \<Rightarrow> memblock \<Rightarrow> bool" where
  "arrays_le m m' \<longleftrightarrow> mt_max (mb_memory m) \<le> mt_max (mb_memory m') \<and> mt_max (mb_reserved m) \<le> mt_max (mb_reserved m')"

lemma arrays_le_refl [simp]: "arrays_le m m" by (simp add: arrays_le_def)

lemma arrays_le_trans: "arrays_le a b \<Longrightarrow> arrays_le b c \<Longrightarrow> arrays_le a c" by (auto simp: arrays_le_def)

lemma arrays_le_set [simp]: "mt_max t = mt_max (get_type s m) \<Longrightarrow> arrays_le m (set_type s t m)"
  by (cases s) (simp_all add: arrays_le_def)

lemma arrays_le_slab [simp]: "arrays_le m (set_in_slab s v m') = arrays_le m m'"
  by (cases s) (simp_all add: arrays_le_def set_in_slab_def)

lemma insert_region_max: "memblock_insert_region t i b z f = Some t' \<Longrightarrow> mt_max t' = mt_max t"
  by (drule memblock_insert_region_cnt) simp

lemma add_loop_max: "add_loop ins e f i b n t = Some (t', x) \<Longrightarrow> mt_max t' = mt_max t"
proof (induction ins e f i b n t arbitrary: t' x rule: add_loop.induct)
  case (1 ins e f i b n t)
  note IH = "1.IH" [OF _ refl refl refl]
  show ?case
    using "1.prems" by (subst (asm) add_loop.simps)
      (auto simp: Let_def split: if_splits option.splits dest: IH(1,3,4) trans [OF IH(2) insert_region_max])
qed

lemma add_pass_max: "add_pass ins e f b t = Some (t', n) \<Longrightarrow> mt_max t' = mt_max t"
  by (auto simp: add_pass_def split: if_splits option.splits dest!: add_loop_max memblock_insert_region_cnt)

lemma merge_regions_max: "memblock_merge_regions t = Some t' \<Longrightarrow> mt_max t' = mt_max t"
  by (auto simp: memblock_merge_regions_def)

lemma insert_split_max:
  "memblock_insert_region (t\<lparr>mt_regions := rs, mt_total_size := n\<rparr>) i b z f = Some t' \<Longrightarrow> mt_max t' = mt_max t"
  by (drule memblock_insert_region_cnt) simp

lemma isolate_loop_max: "isolate_loop b e i st en t = Some (t', x) \<Longrightarrow> mt_max t' = mt_max t"
proof (induction b e i st en t arbitrary: t' x rule: isolate_loop.induct)
  case (1 b e i st en t)
  note IH = "1.IH"(1) [OF _ refl refl refl] "1.IH"(2) [OF _ refl refl refl _ _ _ refl refl]
    "1.IH"(3) [OF _ refl refl refl _ _ _ _ refl refl] "1.IH"(4) [OF _ refl refl refl]
  show ?case
    using "1.prems" unfolding isolate_loop.simps [of b e i st en t] Let_def
    by (auto split: if_split_asm option.split_asm
        dest: IH(1,4) trans [OF IH(2) insert_split_max] trans [OF IH(3) insert_split_max])
qed

lemma remove_down_max [simp]: "mt_max (remove_down st en t) = mt_max t"
  by (induction en arbitrary: t) (simp_all add: memblock_remove_region_def Let_def)

locale growing_resizer =
  fixes dbl :: resizer
  assumes dbl_max: "dbl s b z m = Inr (m', ret) \<Longrightarrow> arrays_le m m'"
begin

lemma grow_max: "grow n dbl s need b z m = Inr (m', ok) \<Longrightarrow> arrays_le m m'"
proof (induction n arbitrary: m)
  case (Suc n)
  then show ?case by (auto split: if_splits intro: arrays_le_trans dest: dbl_max)
qed simp

lemma add_range_max: "memblock_add_range dbl s b z f m = Inr (m', ret) \<Longrightarrow> arrays_le m m'"
  by (auto simp: memblock_add_range_def Let_def split: if_splits
      dest!: grow_max add_pass_max merge_regions_max intro: arrays_le_trans)

lemma isolate_range_max: "memblock_isolate_range dbl s b z m = Inr (m', ret, st, en) \<Longrightarrow> arrays_le m m'"
  by (auto simp: memblock_isolate_range_def Let_def split: if_splits
      dest!: grow_max isolate_loop_max intro: arrays_le_trans)

lemma remove_range_max: "memblock_remove_range dbl s b z m = Inr (m', ret) \<Longrightarrow> arrays_le m m'"
  by (auto simp: memblock_remove_range_def split: if_splits
      dest!: isolate_range_max intro: arrays_le_trans)

end

text \<open>The cases of a doubling that returns.\<close>

definition array_bytes :: "memblock_type \<Rightarrow> int" where
  "array_bytes t = ALIGN (u32_mul (int (mt_max t)) sizeof_region) PAGE_SIZE"

definition doubled_bytes :: "memblock_type \<Rightarrow> int" where
  "doubled_bytes t = ALIGN (u32_mul (u32_mul (int (mt_max t)) sizeof_region) 2) PAGE_SIZE"

definition moved :: "mb_sel \<Rightarrow> int \<Rightarrow> memblock \<Rightarrow> memblock" where
  "moved s addr m = set_type s ((get_type s m)\<lparr>mt_array := Some addr, mt_max := 2 * mt_max (get_type s m)\<rparr>) m"

lemma double_array_cases:
  assumes "memblock_double_array (Suc n) E s b z m = Inr (m', ret)"
  obtains (fail) "m' = m" "ret = -1"
  | (ok) addr m2 m3 where
    "double_array_addr E s b z (u32_mul (u32_mul (int (mt_max (get_type s m))) sizeof_region) 2)
       (doubled_bytes (get_type s m)) m = Inr addr" "addr \<noteq> 0"
    "m2 = moved s addr m \<or> (\<exists>pa r. mt_array (get_type s m) = Some pa \<and>
       memblock_remove_range (memblock_double_array n E) Reserved pa (array_bytes (get_type s m)) (moved s addr m) = Inr (m2, r))"
    "slab_is_available E \<and> m3 = m2 \<or>
       memblock_add_range (memblock_double_array n E) Reserved addr (doubled_bytes (get_type s m)) MEMBLOCK_NONE m2 = Inr (m3, 0)"
    "m' = set_in_slab s (slab_is_available E) m3" "ret = 0"
proof (cases "memblock_can_resize m")
  case False
  then show ?thesis using assms fail by simp
next
  case True
  let ?t = "get_type s m"
  from assms True obtain addr
    where a: "double_array_addr E s b z (u32_mul (u32_mul (int (mt_max ?t)) sizeof_region) 2) (doubled_bytes ?t) m = Inr addr"
      and rest: "(if addr = 0 then Inr (m, -1) else
        bindK (if in_slab s m then Inr (moved s addr m)
               else case mt_array ?t of
                 None \<Rightarrow> Inr (moved s addr m)
               | Some pa \<Rightarrow>
                   bindK (memblock_remove_range (memblock_double_array n E) Reserved pa (array_bytes ?t) (moved s addr m))
                     (\<lambda>(m2, ret). Inr m2)) (\<lambda>m2.
        bindK (if slab_is_available E then Inr m2
               else
                 bindK (memblock_add_range (memblock_double_array n E) Reserved addr (doubled_bytes ?t) MEMBLOCK_NONE m2)
                   (\<lambda>(m3, ret). if ret \<noteq> 0 then Inl BUG else Inr m3)) (\<lambda>m3.
        Inr (set_in_slab s (slab_is_available E) m3, 0)))) = Inr (m', ret)"
    unfolding memblock_double_array.simps Let_def doubled_bytes_def array_bytes_def moved_def
    by (simp only: not_True_eq_False if_False bindK_eq_Inr) blast
  show ?thesis
  proof (cases "addr = 0")
    case True
    then show ?thesis using rest fail by simp
  next
    case False
    with rest obtain m2 m3 where
      m2: "(if in_slab s m then Inr (moved s addr m)
           else case mt_array ?t of
             None \<Rightarrow> Inr (moved s addr m)
           | Some pa \<Rightarrow>
               bindK (memblock_remove_range (memblock_double_array n E) Reserved pa (array_bytes ?t) (moved s addr m))
                 (\<lambda>(m2, ret). Inr m2)) = Inr m2"
      and m3: "(if slab_is_available E then Inr m2
           else
             bindK (memblock_add_range (memblock_double_array n E) Reserved addr (doubled_bytes ?t) MEMBLOCK_NONE m2)
               (\<lambda>(m3, ret). if ret \<noteq> 0 then Inl BUG else Inr m3)) = Inr m3"
      and m': "m' = set_in_slab s (slab_is_available E) m3" "ret = 0"
      by (simp only: if_False bindK_eq_Inr) blast
    show ?thesis
    proof (rule ok [OF a False _ _ m'])
      show "m2 = moved s addr m \<or> (\<exists>pa r. mt_array ?t = Some pa \<and>
          memblock_remove_range (memblock_double_array n E) Reserved pa (array_bytes ?t) (moved s addr m) = Inr (m2, r))"
        using m2 by (auto split: if_splits option.splits)
      show "slab_is_available E \<and> m3 = m2 \<or>
          memblock_add_range (memblock_double_array n E) Reserved addr (doubled_bytes ?t) MEMBLOCK_NONE m2 = Inr (m3, 0)"
        using m3 by (auto split: if_splits)
    qed
  qed
qed

lemma double_array_max: "growing_resizer (memblock_double_array n E)"
proof (induction n)
  case 0
  then show ?case by unfold_locales simp
next
  case (Suc n)
  have rm: "memblock_remove_range (memblock_double_array n E) s b z m = Inr (m', ret) \<Longrightarrow> arrays_le m m'" for s b z m m' ret
    by (rule growing_resizer.remove_range_max [OF Suc])
  have ad: "memblock_add_range (memblock_double_array n E) s b z f m = Inr (m', ret) \<Longrightarrow> arrays_le m m'" for s b z f m m' ret
    by (rule growing_resizer.add_range_max [OF Suc])
  have up: "arrays_le m (moved s a m)" for s m a
    by (cases s) (simp_all add: arrays_le_def moved_def)
  show ?case
  proof
    fix s b z m m' ret
    assume "memblock_double_array (Suc n) E s b z m = Inr (m', ret)"
    then show "arrays_le m m'"
    proof (cases rule: double_array_cases)
      case (ok addr m2 m3)
      have "arrays_le m m2" using ok(3) up arrays_le_trans [OF up rm] by blast
      moreover have "arrays_le m2 m3" using ok(4) ad by auto
      ultimately show ?thesis using ok(5) arrays_le_trans by simp
    qed simp
  qed
qed

section \<open>Sizes of the arrays\<close>

definition sized :: "memblock \<Rightarrow> bool" where
  "sized m \<longleftrightarrow> int (mt_max (mb_memory m)) \<le> 134217728 \<and> int (mt_max (mb_reserved m)) \<le> 134217728"

lemma sized_mono: "arrays_le m m' \<Longrightarrow> sized m' \<Longrightarrow> sized m"
  by (simp add: arrays_le_def sized_def)

lemma ALIGN_page:
  assumes "0 \<le> x" "x + 4095 \<le> U32_MAX"
  shows "x \<le> ALIGN x PAGE_SIZE \<and> ALIGN x PAGE_SIZE \<le> x + 4095"
proof -
  obtain r where r: "(x + 4095) mod 4096 = r" "0 \<le> r" "r \<le> 4095"
    using pos_mod_bound [of 4096 "x + 4095"] pos_mod_sign [of 4096 "x + 4095"] by force
  have "ALIGN x PAGE_SIZE = (x + 4095 - r) mod 4294967296"
    using and_not_mask_int [of "x + 4095" 12] r(1) by (simp add: ALIGN_def PAGE_SIZE_def)
  also have "\<dots> = x + 4095 - r"
    using assms r(2,3) by (intro mod_4294967296_id; linarith)
  finally show ?thesis using r(2,3) by linarith
qed

lemma ALIGN_u32: "is_u32 (ALIGN x a)"
  by (simp add: ALIGN_def is_u32_def U32_MAX_def)

lemma array_bytes_u32 [simp]: "is_u32 (array_bytes t)" "is_u32 (doubled_bytes t)"
  by (simp_all add: array_bytes_def doubled_bytes_def ALIGN_u32)

lemma doubled_bytes_pos:
  assumes "0 < mt_max t" "int (mt_max t) \<le> 134217728"
  shows "0 < doubled_bytes t"
proof -
  have "u32_mul (u32_mul (int (mt_max t)) sizeof_region) 2 = 24 * int (mt_max t)"
    using assms by (simp add: u32_mul_def sizeof_region_def)
  then show ?thesis
    using ALIGN_page [of "24 * int (mt_max t)"] assms by (simp add: doubled_bytes_def U32_MAX_def)
qed

lemma array_bytes_moved: "array_bytes (t\<lparr>mt_array := a, mt_max := 2 * mt_max t\<rparr>) = doubled_bytes t"
  by (simp add: array_bytes_def doubled_bytes_def u32_mul_def mod_mult_left_eq mult.assoc mult.commute [of 2])

text \<open>The reservations that are not for the storage of the arrays themselves.\<close>

definition array_storage :: "memblock_type \<Rightarrow> int set" where
  "array_storage t = (case mt_array t of None \<Rightarrow> {} | Some pa \<Rightarrow> {pa..<pa + array_bytes t})"

definition storage :: "mb_sel \<Rightarrow> memblock \<Rightarrow> int set" where
  "storage s m = array_storage (get_type s m)"

definition clients :: "memblock \<Rightarrow> int set" where
  "clients m = dom (tmap (mb_reserved m)) - storage Memory m - storage Reserved m"

section \<open>The contract of the function that doubles an array\<close>

locale array_resizer = growing_resizer +
  assumes dbl_inv: "mb_inv m \<Longrightarrow> is_u32 b \<Longrightarrow> is_u32 z \<Longrightarrow> dbl s b z m = Inr (m', ret) \<Longrightarrow> sized m' \<Longrightarrow> mb_inv m'"
    and dbl_memory: "mb_inv m \<Longrightarrow> is_u32 b \<Longrightarrow> is_u32 z \<Longrightarrow> dbl s b z m = Inr (m', ret) \<Longrightarrow> sized m' \<Longrightarrow>
      mt_regions (mb_memory m') = mt_regions (mb_memory m)"
    and dbl_nonempty: "mb_inv m \<Longrightarrow> is_u32 b \<Longrightarrow> is_u32 z \<Longrightarrow> dbl s b z m = Inr (m', ret) \<Longrightarrow> sized m' \<Longrightarrow>
      mt_regions (get_type s m) \<noteq> [dummy_region] \<Longrightarrow> mt_regions (get_type s m') \<noteq> [dummy_region]"
    and dbl_clients: "mb_inv m \<Longrightarrow> is_u32 b \<Longrightarrow> is_u32 z \<Longrightarrow> dbl Reserved b z m = Inr (m', ret) \<Longrightarrow> sized m' \<Longrightarrow>
      clients m \<subseteq> clients m'"
begin

lemma grow_inv:
  assumes "mb_inv m" "is_u32 b" "is_u32 z" and "grow n dbl s need b z m = Inr (m', ok)" "sized m'"
  shows "mb_inv m' \<and> mt_regions (mb_memory m') = mt_regions (mb_memory m) \<and>
    (ok \<longrightarrow> mt_cnt (get_type s m') + need \<le> mt_max (get_type s m')) \<and>
    (mt_regions (get_type s m) \<noteq> [dummy_region] \<longrightarrow> mt_regions (get_type s m') \<noteq> [dummy_region]) \<and>
    (s = Reserved \<longrightarrow> clients m \<subseteq> clients m')"
  using assms
proof (induction n arbitrary: m)
  case (Suc n)
  show ?case
  proof (cases "mt_cnt (get_type s m) + need > mt_max (get_type s m)")
    case True
    with Suc.prems(4) obtain m1 ret where dbl: "dbl s b z m = Inr (m1, ret)"
      and rest: "if ret < 0 then m' = m1 \<and> \<not> ok else grow n dbl s need b z m1 = Inr (m', ok)"
      by (auto split: if_splits)
    have "sized m1" using rest sized_mono [OF grow_max Suc.prems(5)] Suc.prems(5) by (cases "ret < 0") auto
    then have one: "mb_inv m1" "mt_regions (mb_memory m1) = mt_regions (mb_memory m)"
      "mt_regions (get_type s m) \<noteq> [dummy_region] \<longrightarrow> mt_regions (get_type s m1) \<noteq> [dummy_region]"
      "s = Reserved \<longrightarrow> clients m \<subseteq> clients m1"
      using dbl_inv [OF Suc.prems(1-3) dbl] dbl_memory [OF Suc.prems(1-3) dbl] dbl_nonempty [OF Suc.prems(1-3) dbl]
        dbl_clients [OF Suc.prems(1-3)] dbl by blast+
    show ?thesis
      using rest one Suc.IH [OF one(1) Suc.prems(2,3) _ Suc.prems(5)] by (cases "ret < 0") auto
  next
    case False
    then show ?thesis using Suc.prems by simp
  qed
qed simp

text \<open>Adding a range, with growth: what the result is from the state after the growth.\<close>

lemma add_range_cases:
  assumes "mb_inv m" "is_u32 base" "is_u32 sz" and "memblock_add_range dbl s base sz f m = Inr (m', ret)" "sized m'"
    and nz: "memblock_cap_size base sz \<noteq> 0"
  obtains (ok) m1 where "mb_inv m1" "mt_regions (mb_memory m1) = mt_regions (mb_memory m)"
      "has_room base (base + memblock_cap_size base sz) (get_type s m1)"
      "m' = set_type s (type_fill base (base + memblock_cap_size base sz) f (get_type s m1)) m1" "ret = 0"
      "s = Reserved \<longrightarrow> clients m \<subseteq> clients m1"
    | (full) "mb_inv m'" "mt_regions (mb_memory m') = mt_regions (mb_memory m)" "ret = - ENOMEM"
      "s = Reserved \<longrightarrow> clients m \<subseteq> clients m'"
proof (cases "has_room base (base + memblock_cap_size base sz) (get_type s m)")
  case True
  then show thesis using ok [of m] add_range_room [OF assms(1-3) nz True, of dbl f] assms(1,4) by simp
next
  case noroom: False
  let ?z = "memblock_cap_size base sz"
  let ?e = "base + ?z" and ?t = "get_type s m"
  let ?nr = "length (fill base ?e f (mt_regions ?t)) - mt_cnt ?t"
  have be: "0 \<le> base" "base < ?e" "?e \<le> U32_MAX" "is_u32 ?z"
    using assms(2,3) nz capped [OF assms(2,3)] by (auto simp: is_u32_def)
  have nd: "mt_regions ?t \<noteq> [dummy_region]" using noroom by (simp add: has_room_def)
  have nr: "?nr \<noteq> 0"
    using noroom mb_inv_get [OF assms(1), of s] by (auto simp: has_room_def length_fill_flag [of base ?e f] type_inv_def)
  note run = assms(4) [unfolded add_range_count [OF assms(1-3) nz nd] Let_def if_not_P [OF nr]]
  then obtain m1 k where g: "grow GROW_ROUNDS dbl s ?nr base ?z m = Inr (m1, k)"
    and rest: "if k then bindK (or_bug (add_pass True ?e f base (get_type s m1))) (\<lambda>(t1, nr_new').
            if nr_new' = 0 then Inr (set_type s t1 m1, 0)
            else bindK (or_bug (memblock_merge_regions t1)) (\<lambda>t2. Inr (set_type s t2 m1, 0))) = Inr (m', ret)
          else m' = m1 \<and> ret = - ENOMEM"
    by (auto split: if_splits)
  have sz1: "sized m1"
  proof (cases k)
    case True
    then have "arrays_le m1 m'"
      using rest by (auto split: if_splits dest!: add_pass_max merge_regions_max)
    then show ?thesis using assms(5) by (rule sized_mono)
  qed (use rest assms(5) in simp)
  note g1 = grow_inv [OF assms(1,2) be(4) g sz1]
  show thesis
  proof (cases k)
    case False
    then show thesis using full rest g1 by auto
  next
    case True
    have inv1: "type_inv (get_type s m1)" and nd1: "mt_regions (get_type s m1) \<noteq> [dummy_region]"
      using g1 nd mb_inv_get by blast+
    then have "length (fill base ?e f (mt_regions (get_type s m1))) \<le> mt_max (get_type s m1)"
      using True rest be add_pass_fits [OF inv1 _ _ be(1,3)] by (fastforce simp: type_inv_def)
    note tail = add_tail [OF inv1 be(1-3) nd1 this] and room = this
    show thesis
      using ok [of m1] True rest tail [of s m1] g1 room by (simp add: has_room_def length_fill_flag [of base ?e f])
  qed
qed

end

lemma set_get_type [simp]: "set_type s (get_type s m) m = m" by (cases s) simp_all

lemma memory_set_type:
  "mt_regions (mb_memory (set_type Reserved t m)) = mt_regions (mb_memory m)" by simp

lemma clients_set_reserved:
  assumes "mt_array t = mt_array (mb_reserved m)" "mt_max t = mt_max (mb_reserved m)"
  shows "clients (m\<lparr>mb_reserved := t\<rparr>) = dom (tmap t) - storage Memory m - storage Reserved m"
proof -
  have "storage Memory (m\<lparr>mb_reserved := t\<rparr>) = storage Memory m"
    by (simp add: storage_def)
  moreover have "storage Reserved (m\<lparr>mb_reserved := t\<rparr>) = storage Reserved m"
    using assms by (cases "mt_array (mb_reserved m)") (simp_all add: storage_def array_storage_def array_bytes_def)
  ultimately show ?thesis unfolding clients_def by simp
qed

context array_resizer
begin

lemma isolate_range_cases:
  assumes "mb_inv m" "is_u32 base" "is_u32 sz" and "memblock_isolate_range dbl s base sz m = Inr (m', ret, st, en)" "sized m'"
    and nz: "memblock_cap_size base sz \<noteq> 0"
  obtains (ok) m1 t where "mb_inv m1" "mt_regions (mb_memory m1) = mt_regions (mb_memory m)"
      "mt_cnt (get_type s m1) + 2 \<le> mt_max (get_type s m1)"
      "isolate_loop base (base + memblock_cap_size base sz) 0 0 0 (get_type s m1) = Some (t, st, en)"
      "m' = set_type s t m1" "ret = 0" "s = Reserved \<longrightarrow> clients m \<subseteq> clients m1"
    | (full) "mb_inv m'" "mt_regions (mb_memory m') = mt_regions (mb_memory m)" "ret = - ENOMEM"
      "s = Reserved \<longrightarrow> clients m \<subseteq> clients m'"
proof -
  let ?z = "memblock_cap_size base sz"
  let ?e = "base + ?z"
  have z: "is_u32 ?z" using assms(2,3) capped [OF assms(2,3)] by (auto simp: is_u32_def)
  note run = assms(4) [unfolded memblock_isolate_range_def Let_def if_not_P [OF nz] capped(2) [OF assms(2,3)]]
  then obtain m1 k where g: "grow GROW_ROUNDS dbl s 2 base ?z m = Inr (m1, k)"
    and rest: "if k then \<exists>t. isolate_loop base ?e 0 0 0 (get_type s m1) = Some (t, st, en) \<and>
          m' = set_type s t m1 \<and> ret = 0
        else m' = m1 \<and> ret = - ENOMEM"
    by (auto split: if_splits)
  have sz1: "sized m1"
  proof (cases k)
    case True
    then have "arrays_le m1 m'" using rest by (auto dest!: isolate_loop_max)
    then show ?thesis using assms(5) by (rule sized_mono)
  qed (use rest assms(5) in simp)
  note g1 = grow_inv [OF assms(1,2) z g sz1]
  show thesis
  proof (cases k)
    case False
    then show thesis using full rest g1 by auto
  next
    case True
    then show thesis using ok [of m1] g1 rest by auto
  qed
qed

lemma remove_range_cases:
  assumes "mb_inv m" "is_u32 base" "is_u32 sz" and "memblock_remove_range dbl s base sz m = Inr (m', ret)" "sized m'"
    and nz: "memblock_cap_size base sz \<noteq> 0"
  obtains (ok) m1 where "mb_inv m1" "mt_regions (mb_memory m1) = mt_regions (mb_memory m)"
      "mt_cnt (get_type s m1) + 2 \<le> mt_max (get_type s m1)"
      "m' = set_type s (type_remove base (base + memblock_cap_size base sz) (get_type s m1)) m1" "ret = 0"
      "s = Reserved \<longrightarrow> clients m \<subseteq> clients m1"
    | (full) "mb_inv m'" "mt_regions (mb_memory m') = mt_regions (mb_memory m)" "ret = - ENOMEM"
      "s = Reserved \<longrightarrow> clients m \<subseteq> clients m'"
proof -
  let ?e = "base + memblock_cap_size base sz"
  have be: "0 \<le> base" "base < ?e" "?e \<le> U32_MAX"
    using assms(2,3) nz capped [OF assms(2,3)] by (auto simp: is_u32_def)
  obtain m0 r st en where iso: "memblock_isolate_range dbl s base sz m = Inr (m0, r, st, en)"
    and m': "if r \<noteq> 0 then m' = m0 \<and> ret = r else m' = set_type s (remove_down st en (get_type s m0)) m0 \<and> ret = 0"
    using assms(4) by (auto simp: memblock_remove_range_def split: if_splits)
  have "arrays_le m0 m'" using m' by (cases "r = 0") simp_all
  note sz0 = sized_mono [OF this assms(5)]
  show thesis
    using assms(1-3) iso sz0 nz
  proof (cases rule: isolate_range_cases)
    case (ok m1 t)
    have "remove_down st en t = type_remove base ?e (get_type s m1)"
      using isolate_remove [OF mb_inv_get [OF ok(1)] be ok(3)] ok(4) by auto
    then have "m' = set_type s (type_remove base ?e (get_type s m1)) m1 \<and> ret = 0" using ok m' by simp
    then show thesis using that(1) [of m1] ok by blast
  next
    case full
    then show thesis using that(2) m' by (simp add: ENOMEM_def)
  qed
qed

lemma add_range_inv:
  assumes "mb_inv m" "is_u32 base" "is_u32 sz" and "memblock_add_range dbl s base sz f m = Inr (m', ret)" "sized m'"
  shows "mb_inv m'" "ret = 0 \<or> ret = - ENOMEM"
    "s = Reserved \<or> ret \<noteq> 0 \<Longrightarrow> mt_regions (mb_memory m') = mt_regions (mb_memory m)"
    "s = Reserved \<Longrightarrow> clients m \<subseteq> clients m'"
    "s = Memory \<Longrightarrow> ret = 0 \<Longrightarrow> tmap (mb_memory m') = range_map base (base + memblock_cap_size base sz) f ++ tmap (mb_memory m)"
    "s = Reserved \<Longrightarrow> ret = 0 \<Longrightarrow> {base..<base + memblock_cap_size base sz} \<subseteq> dom (tmap (mb_reserved m'))"
proof -
  let ?e = "base + memblock_cap_size base sz"
  have "mb_inv m' \<and> (ret = 0 \<or> ret = - ENOMEM) \<and>
    (s = Reserved \<or> ret \<noteq> 0 \<longrightarrow> mt_regions (mb_memory m') = mt_regions (mb_memory m)) \<and>
    (s = Reserved \<longrightarrow> clients m \<subseteq> clients m') \<and>
    (s = Memory \<longrightarrow> ret = 0 \<longrightarrow> tmap (mb_memory m') = range_map base ?e f ++ tmap (mb_memory m)) \<and>
    (s = Reserved \<longrightarrow> ret = 0 \<longrightarrow> {base..<?e} \<subseteq> dom (tmap (mb_reserved m')))"
  proof (cases "memblock_cap_size base sz = 0")
    case True
    then have "m' = m \<and> ret = 0" using assms(4) by (simp add: memblock_add_range_def)
    moreover have "range_map base base f = Map.empty" by (auto simp: range_map_def)
    ultimately show ?thesis using True assms(1) by auto
  next
    case nz: False
    have be: "0 \<le> base" "base < ?e" "?e \<le> U32_MAX"
      using assms(2,3) nz capped [OF assms(2,3)] by (auto simp: is_u32_def)
    show ?thesis
      using assms nz
    proof (cases rule: add_range_cases)
      case (ok m1)
      have t: "type_inv (get_type s m1)" using ok(1) by (rule mb_inv_get)
      have inv: "type_inv (type_fill base ?e f (get_type s m1))"
        using t be ok(3) by (intro type_fill_inv) (auto simp: has_room_def length_fill_flag [of base ?e f])
      have map: "tmap (type_fill base ?e f (get_type s m1)) = range_map base ?e f ++ tmap (get_type s m1)"
        using type_fill_map [OF t be] .
      have arr: "mt_array (type_fill base ?e f t) = mt_array t" "mt_max (type_fill base ?e f t) = mt_max t" for t
        by (simp_all add: type_fill_def type_add_def Let_def)
      have cl: "s = Reserved \<longrightarrow> clients m1 \<subseteq> clients m'"
        using map arr [of "get_type s m1"] unfolding ok(4) by (auto simp: clients_set_reserved clients_def [of m1])
      have dm: "{base..<?e} \<subseteq> dom (range_map base ?e f)" by (auto simp: range_map_def)
      show ?thesis
        using ok inv map cl dm by (cases s) (auto simp: mb_inv_def tmap_def)
    next
      case full
      then show ?thesis by (auto simp: ENOMEM_def)
    qed
  qed
  then show "mb_inv m'" "ret = 0 \<or> ret = - ENOMEM"
    "s = Reserved \<or> ret \<noteq> 0 \<Longrightarrow> mt_regions (mb_memory m') = mt_regions (mb_memory m)"
    "s = Reserved \<Longrightarrow> clients m \<subseteq> clients m'"
    "s = Memory \<Longrightarrow> ret = 0 \<Longrightarrow> tmap (mb_memory m') = range_map base ?e f ++ tmap (mb_memory m)"
    "s = Reserved \<Longrightarrow> ret = 0 \<Longrightarrow> {base..<?e} \<subseteq> dom (tmap (mb_reserved m'))" by blast+
qed

lemma remove_range_inv:
  assumes "mb_inv m" "is_u32 base" "is_u32 sz" and "memblock_remove_range dbl s base sz m = Inr (m', ret)" "sized m'"
  shows "mb_inv m'" "ret = 0 \<or> ret = - ENOMEM"
    "s = Reserved \<or> ret \<noteq> 0 \<Longrightarrow> mt_regions (mb_memory m') = mt_regions (mb_memory m)"
    "s = Reserved \<Longrightarrow> clients m - {base..<base + memblock_cap_size base sz} \<subseteq> clients m'"
    "s = Memory \<Longrightarrow> ret = 0 \<Longrightarrow> tmap (mb_memory m') = tmap (mb_memory m) |` (- {base..<base + memblock_cap_size base sz})"
    "s = Reserved \<Longrightarrow> ret = 0 \<Longrightarrow> dom (tmap (mb_reserved m')) \<inter> {base..<base + memblock_cap_size base sz} = {}"
proof -
  let ?e = "base + memblock_cap_size base sz"
  have "mb_inv m' \<and> (ret = 0 \<or> ret = - ENOMEM) \<and>
    (s = Reserved \<or> ret \<noteq> 0 \<longrightarrow> mt_regions (mb_memory m') = mt_regions (mb_memory m)) \<and>
    (s = Reserved \<longrightarrow> clients m - {base..<?e} \<subseteq> clients m') \<and>
    (s = Memory \<longrightarrow> ret = 0 \<longrightarrow> tmap (mb_memory m') = tmap (mb_memory m) |` (- {base..<?e})) \<and>
    (s = Reserved \<longrightarrow> ret = 0 \<longrightarrow> dom (tmap (mb_reserved m')) \<inter> {base..<?e} = {})"
  proof (cases "memblock_cap_size base sz = 0")
    case True
    then have "m' = m \<and> ret = 0" using assms(4) remove_range_zero by simp
    then show ?thesis using True assms(1) by (auto simp: restrict_map_def)
  next
    case nz: False
    have be: "0 \<le> base" "base < ?e" "?e \<le> U32_MAX"
      using assms(2,3) nz capped [OF assms(2,3)] by (auto simp: is_u32_def)
    show ?thesis
      using assms nz
    proof (cases rule: remove_range_cases)
      case (ok m1)
      have t: "type_inv (get_type s m1)" using ok(1) by (rule mb_inv_get)
      have inv: "type_inv (type_remove base ?e (get_type s m1))"
        using t be ok(3) by (intro type_remove_inv) auto
      have map: "tmap (type_remove base ?e (get_type s m1)) = tmap (get_type s m1) |` (- {base..<?e})"
        using type_remove_map [OF t be] .
      have arr: "mt_array (type_remove base ?e t) = mt_array t" "mt_max (type_remove base ?e t) = mt_max t" for t
        by (simp_all add: type_remove_def Let_def)
      have cl: "s = Reserved \<longrightarrow> clients m1 - {base..<?e} \<subseteq> clients m'"
        using map arr [of "get_type s m1"] unfolding ok(4) by (auto simp: clients_set_reserved clients_def [of m1])
      show ?thesis
        using ok inv map cl by (cases s) (auto simp: mb_inv_def tmap_def)
    next
      case full
      then show ?thesis by (auto simp: ENOMEM_def)
    qed
  qed
  then show "mb_inv m'" "ret = 0 \<or> ret = - ENOMEM"
    "s = Reserved \<or> ret \<noteq> 0 \<Longrightarrow> mt_regions (mb_memory m') = mt_regions (mb_memory m)"
    "s = Reserved \<Longrightarrow> clients m - {base..<?e} \<subseteq> clients m'"
    "s = Memory \<Longrightarrow> ret = 0 \<Longrightarrow> tmap (mb_memory m') = tmap (mb_memory m) |` (- {base..<?e})"
    "s = Reserved \<Longrightarrow> ret = 0 \<Longrightarrow> dom (tmap (mb_reserved m')) \<inter> {base..<?e} = {}" by blast+
qed

end

section \<open>Where a new array goes\<close>

definition free_block :: "memblock \<Rightarrow> int \<Rightarrow> int \<Rightarrow> bool" where
  "free_block m a n \<longleftrightarrow> PAGE_SIZE \<le> a \<and> a mod PAGE_SIZE = 0 \<and> a + n \<le> current_limit m \<and>
     {a..<a + n} \<subseteq> dom (tmap (mb_memory m)) \<and> {a..<a + n} \<inter> dom (tmap (mb_reserved m)) = {}"

lemma fits_free_block:
  assumes "fits m nid flags start end n PAGE_SIZE a" "PAGE_SIZE \<le> start" "end \<le> current_limit m"
  shows "free_block m a n"
proof -
  obtain r where r: "r \<in> set (mt_regions (mb_memory m))" "rg_base r \<le> a" "a + n \<le> rg_base r + rg_size r"
    using assms(1) by (auto simp: fits_def)
  have "tmap (mb_memory m) x \<noteq> None" if "a \<le> x" "x < a + n" for x
    unfolding tmap_def rmap_Some_iff using r that by (intro bexI [of _ r]) auto
  then show ?thesis using assms by (auto simp: fits_def free_block_def)
qed

lemma double_addr_spec:
  assumes inv: "mb_inv m" and "\<not> slab_is_available E" "is_u32 (kernel_end E)" "is_u32 b" "is_u32 z" "0 < n" "is_u32 n"
  shows "\<exists>a. double_array_addr E s b z y n m = Inr a \<and> (a \<noteq> 0 \<longrightarrow> free_block m a n)"
proof -
  have pg: "PAGE_SIZE = 2 ^ 12" "is_u32 PAGE_SIZE" by (simp_all add: PAGE_SIZE_def is_u32_def U32_MAX_def)
  let ?st = "if s \<noteq> Reserved then 0 else b" and ?sz = "if s \<noteq> Reserved then 0 else z"
  have u: "is_u32 (u32_add ?st ?sz)" "is_u32 (current_limit m)" "is_u32 (min ?st (current_limit m))" "is_u32 0"
    using inv assms(4) u32_add_bounds by (auto simp: mb_inv_def is_u32_def U32_MAX_def min_def u32_add_def)
  have se: "search_end m (current_limit m) = current_limit m" "search_end m (min x (current_limit m)) \<le> current_limit m" for x
    using inv by (auto simp: search_end_def mb_inv_def is_u32_def MEMBLOCK_ALLOC_ACCESSIBLE_def)
  obtain c where c: "memblock_find_in_range E m (u32_add ?st ?sz) (current_limit m) n PAGE_SIZE = Inr c"
    "c \<noteq> 0 \<Longrightarrow> free_block m c n"
    using find_in_range_spec [OF inv u(1,2) assms(6,7) pg assms(3)] fits_free_block se by (metis max.cobounded2 order_refl)
  obtain d where d: "memblock_find_in_range E m 0 (min ?st (current_limit m)) n PAGE_SIZE = Inr d"
    "d \<noteq> 0 \<Longrightarrow> free_block m d n"
    using find_in_range_spec [OF inv u(4,3) assms(6,7) pg assms(3)] fits_free_block se by (metis max.cobounded2)
  show ?thesis using c d assms(2) unfolding double_array_addr_def Let_def by auto
qed

section \<open>The doubling keeps the contract\<close>

lemma moved_inv: "mb_inv m \<Longrightarrow> is_u32 a \<Longrightarrow> mb_inv (moved s a m)"
  by (cases s) (auto simp: mb_inv_def moved_def type_inv_def mt_cnt_def)

lemma moved_regions [simp]:
  "mt_regions (mb_memory (moved s a m)) = mt_regions (mb_memory m)"
  "mt_regions (mb_reserved (moved s a m)) = mt_regions (mb_reserved m)"
  by (cases s; simp add: moved_def)+

lemma moved_sized: "sized (moved s a m) \<Longrightarrow> int (mt_max (get_type s m)) \<le> 134217728"
  by (cases s) (simp_all add: moved_def sized_def)

lemma slab_simps [simp]:
  "mb_memory (set_in_slab s v m) = mb_memory m" "mb_reserved (set_in_slab s v m) = mb_reserved m"
  by (cases s; simp add: set_in_slab_def)+

lemma get_type_slab [simp]: "get_type s' (set_in_slab s v m) = get_type s' m"
  by (cases s') simp_all

lemma sized_slab [simp]: "sized (set_in_slab s v m) = sized m" by (simp add: sized_def)

lemma clients_slab [simp]: "clients (set_in_slab s v m) = clients m" by (simp add: clients_def storage_def)

lemma clients_moved:
  assumes "free_block m a (doubled_bytes (mb_reserved m))"
  shows "clients m \<subseteq> clients (moved Reserved a m)"
proof -
  have "storage Memory (moved Reserved a m) = storage Memory m" by (simp add: storage_def moved_def)
  moreover have "storage Reserved (moved Reserved a m) = {a..<a + doubled_bytes (mb_reserved m)}"
    by (simp add: storage_def array_storage_def moved_def array_bytes_moved)
  ultimately show ?thesis using assms by (auto simp: clients_def free_block_def tmap_def)
qed

lemma mb_inv_slab: "mb_inv m \<Longrightarrow> mb_inv (set_in_slab s False m)"
  by (cases s) (simp_all add: mb_inv_def set_in_slab_def)

lemma double_array_step:
  assumes R: "array_resizer (memblock_double_array n E)" and E: "\<not> slab_is_available E" "is_u32 (kernel_end E)"
    and "mb_inv m" "is_u32 b" "is_u32 z" "memblock_double_array (Suc n) E s b z m = Inr (m', ret)" "sized m'"
  shows "mb_inv m' \<and> mt_regions (mb_memory m') = mt_regions (mb_memory m) \<and>
    (mt_regions (get_type s m) \<noteq> [dummy_region] \<longrightarrow> mt_regions (get_type s m') \<noteq> [dummy_region]) \<and>
    (s = Reserved \<longrightarrow> clients m \<subseteq> clients m')"
  using assms(7)
proof (cases rule: double_array_cases)
  case fail
  then show ?thesis using assms(4) by simp
next
  case (ok addr m2 m3)
  let ?t = "get_type s m" and ?m1 = "moved s addr m"
  have G: "growing_resizer (memblock_double_array n E)" by (rule double_array_max)
  have t: "type_inv ?t" using assms(4) by (rule mb_inv_get)
  have sz3: "sized m3" using assms(8) ok(5) by simp
  have sz2: "sized m2" using ok(4) E(1) sized_mono [OF growing_resizer.add_range_max [OF G] sz3] by auto
  have sz1: "sized ?m1" using ok(3) sized_mono [OF growing_resizer.remove_range_max [OF G] sz2] sz2 by auto
  have pos: "0 < doubled_bytes ?t"
    using doubled_bytes_pos [OF _ moved_sized [OF sz1]] t by (simp add: type_inv_def)
  have fb: "free_block m addr (doubled_bytes ?t)"
    using double_addr_spec [OF assms(4) E assms(5,6) pos array_bytes_u32(2), of s
        "u32_mul (u32_mul (int (mt_max ?t)) sizeof_region) 2"] ok(1,2) by auto
  then have addr: "is_u32 addr" "memblock_cap_size addr (doubled_bytes ?t) = doubled_bytes ?t"
    using assms(4) pos capped(5) [of addr "doubled_bytes ?t"]
    by (auto simp: free_block_def mb_inv_def is_u32_def PAGE_SIZE_def)
  have m1: "mb_inv ?m1" using assms(4) addr(1) by (rule moved_inv)
  have m2: "mb_inv m2 \<and> mt_regions (mb_memory m2) = mt_regions (mb_memory m) \<and> clients ?m1 - storage s m \<subseteq> clients m2"
    using ok(3)
  proof (elim disjE exE conjE)
    assume "m2 = ?m1"
    then show ?thesis using m1 by auto
  next
    fix pa r
    assume pa: "mt_array ?t = Some pa"
      and rm: "memblock_remove_range (memblock_double_array n E) Reserved pa (array_bytes ?t) ?m1 = Inr (m2, r)"
    have u: "is_u32 pa" using t pa by (simp add: type_inv_def)
    note r = array_resizer.remove_range_inv [OF R m1 u array_bytes_u32(1) rm sz2]
    have "{pa..<pa + memblock_cap_size pa (array_bytes ?t)} \<subseteq> storage s m"
      using capped(4) [OF u array_bytes_u32(1), of ?t] pa by (auto simp: storage_def array_storage_def)
    then show ?thesis using r by auto
  qed
  have ad: "memblock_add_range (memblock_double_array n E) Reserved addr (doubled_bytes ?t) MEMBLOCK_NONE m2 = Inr (m3, 0)"
    using ok(4) E by simp
  note m3 = array_resizer.add_range_inv [OF R m2 [THEN conjunct1] addr(1) array_bytes_u32(2) ad sz3]
  have mem: "mt_regions (mb_memory m3) = mt_regions (mb_memory m)" using m3(3) m2 by simp
  have "tmap (mb_reserved m3) addr \<noteq> None" using m3(6) addr(2) pos by (auto simp: subset_iff)
  then have nd: "mt_regions (mb_reserved m3) \<noteq> [dummy_region]" by (auto simp: tmap_def simp del: rmap.simps(2))
  have "clients m \<subseteq> clients m3" if s: "s = Reserved"
  proof -
    have "clients m \<subseteq> clients ?m1 - storage s m"
      using clients_moved [of m addr] fb s by (auto simp: clients_def)
    then show ?thesis using m2 m3(4) by blast
  qed
  then show ?thesis using ok(5) E mem nd m3(1) mb_inv_slab by (cases s) auto
qed

lemma double_array_resizer:
  assumes "\<not> slab_is_available E" "is_u32 (kernel_end E)"
  shows "array_resizer (memblock_double_array n E)"
proof (induction n)
  case 0
  show ?case
    by (intro array_resizer.intro double_array_max) (simp add: array_resizer_axioms_def)
next
  case (Suc n)
  note step = double_array_step [OF Suc assms]
  show ?case
    by (intro array_resizer.intro double_array_max)
      (auto simp: array_resizer_axioms_def simp del: memblock_double_array.simps dest: step)
qed

text \<open>
  The environment before the slab allocator is up: what \<^verbatim>\<open>memblock\<close> is for.  The contract holds there
  for the doubling the public operations use.
\<close>

definition early_boot :: "boot_env \<Rightarrow> bool" where
  "early_boot E \<longleftrightarrow> \<not> slab_is_available E \<and> is_u32 (kernel_end E)"

lemma resize_contract: "early_boot E \<Longrightarrow> array_resizer (resize E)"
  unfolding resize_def early_boot_def using double_array_resizer by blast

definition boot_with :: "int \<Rightarrow> boot_env" where
  "boot_with k = \<lparr>kernel_end = k mod 4294967296, slab_is_available = False, kmalloc_pa = (\<lambda>_. 0)\<rparr>"

lemma early_boot_with: "early_boot (boot_with k)"
  by (simp add: early_boot_def boot_with_def is_u32_def U32_MAX_def)

interpretation any_growth: growing_resizer "memblock_double_array n E" for n E
  by (rule double_array_max)

interpretation boot_growth: array_resizer "resize (boot_with k)" for k
  by (rule resize_contract [OF early_boot_with])

end
