(* ===== verification/Memblock_Api.thy ===== *)
theory Memblock_Api
  imports Memblock_Resize
begin

text \<open>
  The public operations of \<open>Memblock\<close>: the binary search, allocation, flags of a range, the walk over
  free memory as a list, and the memory limit.
\<close>

section \<open>Looking an address up\<close>

definition region_has :: "memblock_region \<Rightarrow> int \<Rightarrow> bool" where
  "region_has r a \<longleftrightarrow> rg_base r \<le> a \<and> a < rg_base r + rg_size r"

lemma search_loop_spec:
  assumes inv: "type_inv t" and "l < r" "r \<le> mt_cnt t"
    and "\<And>i. i < mt_cnt t \<Longrightarrow> region_has (mt_regions t ! i) addr \<Longrightarrow> l \<le> i \<and> i < r"
  shows "(search_loop (mt_regions t) addr l r = -1 \<and> (\<forall>i < mt_cnt t. \<not> region_has (mt_regions t ! i) addr)) \<or>
    (\<exists>i < mt_cnt t. search_loop (mt_regions t) addr l r = int i \<and> region_has (mt_regions t ! i) addr)"
  using assms(2-)
proof (induction "mt_regions t" addr l r rule: search_loop.induct)
  case (1 addr l r)
  let ?mid = "(r + l) div 2"
  let ?m = "mt_regions t ! ?mid"
  have mid: "l \<le> ?mid" "?mid < r" "?mid < mt_cnt t" using "1.prems" by auto
  have e: "rg_end ?m = rg_base ?m + rg_size ?m" "0 \<le> rg_size ?m"
    using type_inv_end [OF inv, of ?m] mid(3) by (simp_all add: mt_cnt_def)
  have left: "i < ?mid" if "i < mt_cnt t" "region_has (mt_regions t ! i) addr" "addr < rg_base ?m" for i
    using type_inv_sorted [OF inv, of ?mid i] type_inv_end [OF inv, of "mt_regions t ! i"] that e
    by (cases "i = ?mid"; cases "?mid < i") (auto simp: region_has_def mt_cnt_def)
  have right: "?mid < i" if "i < mt_cnt t" "region_has (mt_regions t ! i) addr" "rg_base ?m + rg_size ?m \<le> addr" for i
    using type_inv_sorted [OF inv, of i ?mid] that mid(3) e
    by (cases "i = ?mid"; cases "i < ?mid") (auto simp: region_has_def)
  consider (below) "addr < rg_base ?m" | (above) "rg_base ?m + rg_size ?m \<le> addr" "\<not> addr < rg_base ?m"
    | (hit) "region_has ?m addr" "\<not> addr < rg_base ?m" "\<not> rg_base ?m + rg_size ?m \<le> addr"
    by (auto simp: region_has_def)
  then show ?case
  proof cases
    case below
    then have eq: "search_loop (mt_regions t) addr l r = (if l < ?mid then search_loop (mt_regions t) addr l ?mid else -1)"
      by (subst search_loop.simps) (simp add: Let_def)
    show ?thesis
    proof (cases "l < ?mid")
      case True
      have "l \<le> i \<and> i < ?mid" if "i < mt_cnt t" "region_has (mt_regions t ! i) addr" for i
        using left [OF that below] "1.prems"(3) [OF that] by simp
      then show ?thesis unfolding eq if_P [OF True] using "1.hyps"(1) [OF refl below True True] mid by simp
    next
      case False
      then show ?thesis using eq left [OF _ _ below] "1.prems"(3) by fastforce
    qed
  next
    case above
    then have eq: "search_loop (mt_regions t) addr l r =
        (if Suc ?mid < r then search_loop (mt_regions t) addr (Suc ?mid) r else -1)"
      using e by (subst search_loop.simps) (simp add: Let_def)
    show ?thesis
    proof (cases "Suc ?mid < r")
      case True
      have "Suc ?mid \<le> i \<and> i < r" if "i < mt_cnt t" "region_has (mt_regions t ! i) addr" for i
        using right [OF that above(1)] "1.prems"(3) [OF that] by simp
      then show ?thesis unfolding eq if_P [OF True]
        using "1.hyps"(2) [OF refl above(2) _ True True] e above "1.prems"(2) by simp
    next
      case False
      then show ?thesis using eq right [OF _ _ above(1)] "1.prems"(3) by fastforce
    qed
  next
    case hit
    then have "search_loop (mt_regions t) addr l r = int ?mid"
      using e by (subst search_loop.simps) (simp add: Let_def)
    then show ?thesis using hit mid by blast
  qed
qed

lemma search_spec:
  assumes "type_inv t"
  shows "(memblock_search t addr = -1 \<and> (\<forall>i < mt_cnt t. \<not> region_has (mt_regions t ! i) addr)) \<or>
    (\<exists>i < mt_cnt t. memblock_search t addr = int i \<and> region_has (mt_regions t ! i) addr)"
  unfolding memblock_search_def
  by (rule search_loop_spec [OF assms]) (use assms in \<open>auto simp: type_inv_def mt_cnt_def\<close>)

lemma tmap_has: "tmap t a \<noteq> None \<longleftrightarrow> (\<exists>i < mt_cnt t. region_has (mt_regions t ! i) a)"
  unfolding tmap_def rmap_Some_iff mt_cnt_def region_has_def by (metis in_set_conv_nth)

lemma region_unique:
  "type_inv t \<Longrightarrow> i < mt_cnt t \<Longrightarrow> j < mt_cnt t \<Longrightarrow> region_has (mt_regions t ! i) a \<Longrightarrow> region_has (mt_regions t ! j) a \<Longrightarrow> i = j"
  using type_inv_sorted [of t i j] type_inv_sorted [of t j i] by (cases i j rule: linorder_cases) (auto simp: region_has_def)

lemma search_tmap: "type_inv t \<Longrightarrow> memblock_search t addr \<noteq> -1 \<longleftrightarrow> tmap t addr \<noteq> None"
  using search_spec [of t addr] unfolding tmap_has by auto

lemma overlaps_loop_iff: "overlaps_loop rs b z \<longleftrightarrow> (\<exists>r \<in> set rs. memblock_addrs_overlap b z (rg_base r) (rg_size r))"
  by (induction rs) auto

lemma region_reserved_spec:
  assumes "mb_inv m" "is_u32 base" "is_u32 sz" "memblock_cap_size base sz \<noteq> 0"
  shows "memblock_is_region_reserved m base sz \<longleftrightarrow>
    (\<exists>a. base \<le> a \<and> a < base + memblock_cap_size base sz \<and> tmap (mb_reserved m) a \<noteq> None)"
proof -
  let ?e = "base + memblock_cap_size base sz"
  have inv: "type_inv (mb_reserved m)" using assms(1) by (simp add: mb_inv_def)
  have lt: "base < ?e" using capped(1) [OF assms(2,3)] assms(4) by simp
  have ov: "memblock_addrs_overlap base (memblock_cap_size base sz) (rg_base r) (rg_size r) \<longleftrightarrow>
      (\<exists>a. base \<le> a \<and> a < ?e \<and> rg_base r \<le> a \<and> a < rg_base r + rg_size r)" (is "?L \<longleftrightarrow> ?R")
    if r: "r \<in> set (mt_regions (mb_reserved m))" for r
  proof -
    have e: "u32_add (rg_base r) (rg_size r) = rg_base r + rg_size r" "0 \<le> rg_base r"
      using type_inv_end [OF inv r] by (simp_all add: rg_end_def)
    have d: "rg_size r = 0 \<Longrightarrow> rg_base r = 0"
      using inv r by (auto simp: type_inv_def regions_wf_def region_ok_def)
    have L: "?L \<longleftrightarrow> base < rg_base r + rg_size r \<and> rg_base r < ?e"
      unfolding memblock_addrs_overlap_def e capped(2) [OF assms(2,3)] ..
    show ?thesis
    proof
      assume ?L
      then have "base \<le> max base (rg_base r) \<and> max base (rg_base r) < ?e \<and> rg_base r \<le> max base (rg_base r) \<and>
          max base (rg_base r) < rg_base r + rg_size r"
        using L lt d assms(2) type_inv_end [OF inv r] by (cases "rg_size r = 0") (auto simp: is_u32_def)
      then show ?R by blast
    qed (use L in auto)
  qed
  have "memblock_is_region_reserved m base sz \<longleftrightarrow>
      (\<exists>r \<in> set (mt_regions (mb_reserved m)). memblock_addrs_overlap base (memblock_cap_size base sz) (rg_base r) (rg_size r))"
    by (simp add: memblock_is_region_reserved_def memblock_overlaps_region_def overlaps_loop_iff)
  also have "\<dots> \<longleftrightarrow> (\<exists>r \<in> set (mt_regions (mb_reserved m)). \<exists>a. base \<le> a \<and> a < ?e \<and> rg_base r \<le> a \<and> a < rg_base r + rg_size r)"
    using ov by blast
  finally show ?thesis unfolding tmap_def rmap_Some_iff by blast
qed

lemma region_memory_spec:
  assumes "mb_inv m" "is_u32 base" "is_u32 sz"
  shows "memblock_is_region_memory m base sz \<longleftrightarrow>
    (\<exists>r \<in> set (mt_regions (mb_memory m)). region_has r base \<and> base + memblock_cap_size base sz \<le> rg_base r + rg_size r)"
proof -
  let ?t = "mb_memory m"
  have inv: "type_inv ?t" using assms(1) by (simp add: mb_inv_def)
  have cap: "u32_add base (memblock_cap_size base sz) = base + memblock_cap_size base sz" using capped(2) [OF assms(2,3)] .
  from search_spec [OF inv, of base] show ?thesis
  proof (elim disjE exE conjE)
    assume "memblock_search ?t base = -1" "\<forall>i < mt_cnt ?t. \<not> region_has (mt_regions ?t ! i) base"
    then show ?thesis by (auto simp: memblock_is_region_memory_def in_set_conv_nth mt_cnt_def Let_def)
  next
    fix i assume i: "i < mt_cnt ?t" "memblock_search ?t base = int i" "region_has (mt_regions ?t ! i) base"
    have u: "r = mt_regions ?t ! i" if "r \<in> set (mt_regions ?t)" "region_has r base" for r
      using region_unique [OF inv i(1) _ i(3)] that by (auto simp: in_set_conv_nth mt_cnt_def)
    have "mt_regions ?t ! i \<in> set (mt_regions ?t)" using i by (simp add: mt_cnt_def)
    moreover have "memblock_is_region_memory m base sz \<longleftrightarrow>
        base + memblock_cap_size base sz \<le> rg_base (mt_regions ?t ! i) + rg_size (mt_regions ?t ! i)"
      using i(2,3) type_inv_end [OF inv calculation] unfolding memblock_is_region_memory_def Let_def cap
      by (simp add: region_has_def)
    ultimately show ?thesis using i(3) u by blast
  qed
qed

section \<open>Allocation\<close>

lemma fill_above: "\<forall>r \<in> set rs. e \<le> rg_base r \<Longrightarrow> b < e \<Longrightarrow> fill b e f rs = new_region b e f # rs"
  by (cases rs) auto

lemma length_fill_free:
  "regions_wf rs \<Longrightarrow> \<forall>x \<in> {b..<e}. rmap rs x = None \<Longrightarrow> b < e \<Longrightarrow> length (fill b e f rs) = Suc (length rs)"
proof (induction rs)
  case (Cons r rs)
  have ok: "0 < rg_size r" using Cons.prems(1) by (simp add: region_ok_def)
  have free: "\<forall>x \<in> {b..<e}. \<not> (rg_base r \<le> x \<and> x < rg_base r + rg_size r) \<and> rmap rs x = None"
    using Cons.prems(2) by (auto split: if_splits)
  have "e \<le> rg_base r \<or> rg_base r + rg_size r \<le> b"
  proof (rule ccontr)
    assume "\<not> ?thesis"
    then have "max b (rg_base r) \<in> {b..<e}" "rg_base r \<le> max b (rg_base r)" "max b (rg_base r) < rg_base r + rg_size r"
      using Cons.prems(3) ok by auto
    then show False using free by blast
  qed
  then show ?case using Cons free by auto
qed simp

lemma fits_bounds: "fits m nid flags start end sz align c \<Longrightarrow> PAGE_SIZE \<le> start \<Longrightarrow> end \<le> U32_MAX \<Longrightarrow> is_u32 sz \<Longrightarrow>
   is_u32 c \<and> c + sz \<le> U32_MAX \<and> memblock_cap_size c sz = sz"
  using capped(5) [of c sz] by (auto simp: fits_def is_u32_def PAGE_SIZE_def)

lemma reserve_free_room:
  assumes "mb_inv m" "is_u32 c" "is_u32 sz" "0 < sz" "c + sz \<le> U32_MAX"
    and "\<forall>x \<in> {c..<c + sz}. tmap (mb_reserved m) x = None" and "mt_cnt (mb_reserved m) < mt_max (mb_reserved m)"
  shows "memblock_reserve E c sz m = Inr (m\<lparr>mb_reserved := type_fill c (c + sz) 0 (mb_reserved m)\<rparr>, 0)"
    and "mb_inv (m\<lparr>mb_reserved := type_fill c (c + sz) 0 (mb_reserved m)\<rparr>)"
    and "tmap (type_fill c (c + sz) 0 (mb_reserved m)) = range_map c (c + sz) 0 ++ tmap (mb_reserved m)"
proof -
  let ?t = "mb_reserved m"
  have t: "type_inv ?t" using assms(1) by (simp add: mb_inv_def)
  have cap: "memblock_cap_size c sz = sz" using capped(5) [OF assms(2,3)] assms(5) by simp
  have be: "0 \<le> c" "c < c + sz" "c + sz \<le> U32_MAX" using assms by (auto simp: is_u32_def)
  have room: "has_room c (c + sz) ?t"
  proof (cases "mt_regions ?t = [dummy_region]")
    case False
    then have "regions_wf (mt_regions ?t)" using t by (simp add: type_inv_def)
    then show ?thesis
      using length_fill_free [of "mt_regions ?t" c "c + sz"] assms(4,6,7) by (simp add: has_room_def tmap_def mt_cnt_def)
  qed (simp add: has_room_def)
  show "memblock_reserve E c sz m = Inr (m\<lparr>mb_reserved := type_fill c (c + sz) 0 ?t\<rparr>, 0)"
    using add_range_room [OF assms(1-3), of Reserved "resize E" 0] cap room assms(4)
    by (simp add: memblock_reserve_def)
  have "type_inv (type_fill c (c + sz) 0 ?t)"
    using t be room by (intro type_fill_inv) (auto simp: has_room_def)
  then show "mb_inv (m\<lparr>mb_reserved := type_fill c (c + sz) 0 ?t\<rparr>)" using assms(1) by (simp add: mb_inv_def)
  show "tmap (type_fill c (c + sz) 0 ?t) = range_map c (c + sz) 0 ++ tmap ?t" by (rule type_fill_map [OF t be])
qed

definition align_ok :: "int \<Rightarrow> bool" where
  "align_ok a \<longleftrightarrow> (\<exists>k < 32. a = 2 ^ k)"

lemma align_okD:
  assumes "align_ok a"
  obtains k where "a = 2 ^ k" "is_u32 a"
proof -
  obtain k where k: "k < 32" "a = 2 ^ k" using assms by (auto simp: align_ok_def)
  have "(2 :: int) ^ k \<le> 2 ^ 31" using k(1) by (intro power_increasing) auto
  then show thesis using that k by (simp add: is_u32_def U32_MAX_def)
qed

definition alloc_align :: "int \<Rightarrow> int" where
  "alloc_align a = (if a = 0 then SMP_CACHE_BYTES else a)"

lemma alloc_align_ok: "a = 0 \<or> align_ok a \<Longrightarrow> align_ok (alloc_align a)"
  by (cases "a = 0") (simp_all add: alloc_align_def align_ok_def SMP_CACHE_BYTES_def exI [of _ 6])

lemma find_node_alloc:
  assumes "mb_inv m" "is_u32 (kernel_end E)" "is_u32 start" "is_u32 end" "0 < sz" "is_u32 sz"
    and "a = 0 \<or> align_ok a" "nid \<noteq> MAX_NUMNODES"
  shows "\<exists>c. memblock_find_in_range_node E m sz (alloc_align a) start end nid flags = Inr c \<and>
    (c = 0 \<longrightarrow> (\<forall>x. \<not> fits m nid flags (max start PAGE_SIZE) (search_end m end) sz (alloc_align a) x)) \<and>
    (c \<noteq> 0 \<longrightarrow> fits m nid flags (max start PAGE_SIZE) (search_end m end) sz (alloc_align a) c \<and>
       is_u32 c \<and> c + sz \<le> U32_MAX)"
proof -
  obtain k where k: "alloc_align a = 2 ^ k" "is_u32 (alloc_align a)" using align_okD [OF alloc_align_ok [OF assms(7)]] .
  have se: "search_end m end \<le> U32_MAX"
    using assms(1,4) by (auto simp: search_end_def mb_inv_def is_u32_def)
  show ?thesis
    using find_in_range_node_spec [OF assms(1,3,4,5,6) k assms(8,2), of flags]
      fits_bounds [of m nid flags "max start PAGE_SIZE" "search_end m end" sz "alloc_align a"] se assms(6)
    by (metis max.cobounded2)
qed

lemma alloc_range_nid_room:
  assumes "mb_inv m" "is_u32 (kernel_end E)" "is_u32 start" "is_u32 end" "0 < sz" "is_u32 sz"
    and "a = 0 \<or> align_ok a" "nid \<noteq> MAX_NUMNODES" and "mt_cnt (mb_reserved m) < mt_max (mb_reserved m)"
  shows "\<exists>m' c. memblock_alloc_range_nid E sz a start end nid flags m = Inr (m', c) \<and> mb_inv m' \<and>
    (c = 0 \<longrightarrow> m' = m \<and> (\<forall>x. \<not> fits m nid flags (max start PAGE_SIZE) (search_end m end) sz (alloc_align a) x)) \<and>
    (c \<noteq> 0 \<longrightarrow> fits m nid flags (max start PAGE_SIZE) (search_end m end) sz (alloc_align a) c \<and>
       tmap (mb_reserved m') = range_map c (c + sz) 0 ++ tmap (mb_reserved m) \<and> mb_memory m' = mb_memory m)"
proof -
  obtain c where c: "memblock_find_in_range_node E m sz (alloc_align a) start end nid flags = Inr c"
    "c = 0 \<longrightarrow> (\<forall>x. \<not> fits m nid flags (max start PAGE_SIZE) (search_end m end) sz (alloc_align a) x)"
    "c \<noteq> 0 \<longrightarrow> fits m nid flags (max start PAGE_SIZE) (search_end m end) sz (alloc_align a) c \<and>
       is_u32 c \<and> c + sz \<le> U32_MAX"
    using find_node_alloc [OF assms(1-8)] by blast
  show ?thesis
  proof (cases "c = 0")
    case True
    then show ?thesis using c assms(1) unfolding memblock_alloc_range_nid_def alloc_align_def [symmetric] Let_def by simp
  next
    case False
    then have "\<forall>x \<in> {c..<c + sz}. tmap (mb_reserved m) x = None" using c(3) by (simp add: fits_def)
    note r = reserve_free_room [OF assms(1) _ assms(6,5) _ this assms(9)]
    show ?thesis using c False r unfolding memblock_alloc_range_nid_def alloc_align_def [symmetric] Let_def by simp
  qed
qed

section \<open>Flags of a range\<close>

definition flag_upd :: "bool \<Rightarrow> 32 word \<Rightarrow> 32 word \<Rightarrow> 32 word" where
  "flag_upd st flag w = (if st then w OR flag else w AND NOT flag)"

definition range_upd :: "int \<Rightarrow> int \<Rightarrow> (32 word \<Rightarrow> 32 word) \<Rightarrow> (int \<rightharpoonup> 32 word) \<Rightarrow> int \<rightharpoonup> 32 word" where
  "range_upd b e g M = (\<lambda>a. if b \<le> a \<and> a < e then map_option g (M a) else M a)"

definition reflag :: "(32 word \<Rightarrow> 32 word) \<Rightarrow> memblock_region \<Rightarrow> memblock_region" where
  "reflag g r = r\<lparr>rg_flags := g (rg_flags r)\<rparr>"

lemma reflag_simps [simp]: "rg_base (reflag g r) = rg_base r" "rg_size (reflag g r) = rg_size r"
  "rg_flags (reflag g r) = g (rg_flags r)"
  by (simp_all add: reflag_def)

lemma rmap_reflag: "rmap (map (reflag g) rs) = (\<lambda>a. map_option g (rmap rs a))"
  by (induction rs) (auto simp: fun_eq_iff)

lemma reflag_wf: "regions_wf (L @ map (reflag g) M @ R) = regions_wf (L @ M @ R)"
  by (simp add: regions_wf_def region_ok_def sorted_wrt_append sorted_wrt_map before_def [abs_def] ball_Un)

lemma isolate_result:
  assumes "type_inv t" and "0 \<le> B" "B < E" "E \<le> U32_MAX" and "mt_cnt t + 2 \<le> mt_max t"
    and "isolate_loop B E 0 0 0 t = Some (t1, st, en)" "regions_wf (mt_regions t)"
  shows "t1 = t\<lparr>mt_regions := isolated B E (mt_regions t)\<rparr> \<and>
    map_range st en f (mt_regions t1) =
      clip 0 B (mt_regions t) @ map f (clip B E (mt_regions t)) @ clip E U32_MAX (mt_regions t)"
proof -
  let ?L = "clip 0 B (mt_regions t)" and ?M = "clip B E (mt_regions t)" and ?R = "clip E U32_MAX (mt_regions t)"
  have "isolate_loop B E 0 0 0 t = Some (t\<lparr>mt_regions := isolated B E (mt_regions t)\<rparr>,
      st_upd 0 (length ?L) (length ?M) 0 0, en_upd 0 (length ?L) (length ?M) 0)"
    using isolate_loop_list [of "mt_regions t" t "[]" B E 0 0] assms length_isolated_2 [OF assms(7,2-4)]
      type_inv_total [OF assms(1)]
    by (simp add: mt_cnt_def)
  then show ?thesis using assms(6) by (cases "?M = []") (auto simp: st_upd_def en_upd_def isolated_def)
qed

lemma isolated_wf:
  assumes "regions_wf rs" "0 \<le> B" "B < E" "E \<le> U32_MAX"
  shows "regions_wf (isolated B E rs)"
proof -
  have "before x y" if "x \<in> set (clip lo hi rs)" "y \<in> set (clip lo' hi' rs)" "hi \<le> lo'" for x y lo hi lo' hi'
    using set_clip [OF that(1)] set_clip [OF that(2)] that(3) by (auto simp: before_def)
  then show ?thesis using clip_wf [OF assms(1)] assms(3) by (fastforce simp: isolated_def)
qed

lemma rmap_isolated:
  assumes "regions_wf rs" "0 \<le> B" "B < E" "E \<le> U32_MAX"
  shows "rmap (clip 0 B rs @ map (reflag g) (clip B E rs) @ clip E U32_MAX rs) = range_upd B E g (rmap rs)"
proof
  fix a
  have "rmap rs a = None" if "a < 0 \<or> U32_MAX \<le> a" using rmap_clip_all [OF assms(1), of a] that by (cases "rmap rs a") auto
  then show "rmap (clip 0 B rs @ map (reflag g) (clip B E rs) @ clip E U32_MAX rs) a = range_upd B E g (rmap rs) a"
    using assms(2-4) by (cases "a < 0"; cases "U32_MAX \<le> a")
      (auto simp: rmap_append rmap_reflag rmap_clip range_upd_def map_add_def restrict_map_def split: option.split)
qed

lemma length_reflag_isolated:
  "length (clip 0 B rs @ map f (clip B E rs) @ clip E U32_MAX rs) = length (isolated B E rs)"
  by (simp add: isolated_def)

definition type_reflag :: "int \<Rightarrow> int \<Rightarrow> (32 word \<Rightarrow> 32 word) \<Rightarrow> memblock_type \<Rightarrow> memblock_type" where
  "type_reflag b e g t = t\<lparr>mt_regions := if mt_regions t = [dummy_region] then [dummy_region]
     else merge_list (clip 0 b (mt_regions t) @ map (reflag g) (clip b e (mt_regions t)) @ clip e U32_MAX (mt_regions t))\<rparr>"

lemma rtotal_reflag: "rtotal (map (reflag g) rs) = rtotal rs" by (induction rs) simp_all

lemma type_reflag_ok:
  assumes t: "type_inv t" and be: "0 \<le> b" "b < e" "e \<le> U32_MAX" and "mt_cnt t + 2 \<le> mt_max t"
  shows "type_inv (type_reflag b e g t)" and "tmap (type_reflag b e g t) = range_upd b e g (tmap t)"
proof -
  let ?rs = "mt_regions t"
  let ?x = "clip 0 b ?rs @ map (reflag g) (clip b e ?rs) @ clip e U32_MAX ?rs"
  have "type_inv (type_reflag b e g t) \<and> tmap (type_reflag b e g t) = range_upd b e g (tmap t)"
  proof (cases "?rs = [dummy_region]")
    case True
    moreover have "range_upd b e g Map.empty = Map.empty" by (simp add: range_upd_def fun_eq_iff)
    ultimately show ?thesis using t by (simp add: type_reflag_def tmap_def t_same del: rmap.simps(2))
  next
    case False
    then have wf: "regions_wf ?rs" using t by (simp add: type_inv_def)
    have wfx: "regions_wf ?x"
      unfolding reflag_wf using isolated_wf [OF wf be] by (simp add: isolated_def)
    have "length (merge_list ?x) \<le> mt_max t"
      using length_merge_list [of ?x] length_isolated_2 [OF wf be] assms(5)
      unfolding length_reflag_isolated by (simp add: mt_cnt_def)
    moreover have "0 < length ?x"
      unfolding length_reflag_isolated using length_isolated [OF wf be] t by (auto simp: type_inv_def)
    moreover have "rtotal ?x = rtotal ?rs" using total_clip_split [OF wf, of b e] be by (simp add: rtotal_reflag)
    ultimately show ?thesis
      using t False merge_list_wf [OF wfx] merge_list_Nil [of ?x] rmap_merge_list [OF wfx] rmap_isolated [OF wf be, of g]
      by (simp add: type_inv_def type_reflag_def tmap_def mt_cnt_def total_merge_list)
  qed
  then show "type_inv (type_reflag b e g t)" "tmap (type_reflag b e g t) = range_upd b e g (tmap t)" by simp_all
qed

lemma setclr_merge:
  assumes "regions_wf rs"
  shows "memblock_merge_regions (t\<lparr>mt_regions := rs\<rparr>) = Some (t\<lparr>mt_regions := merge_list rs\<rparr>)"
  using merge_regions_list [of "t\<lparr>mt_regions := rs\<rparr>"] assms by simp

lemma merge_dummy: "mt_regions t = [dummy_region] \<Longrightarrow> memblock_merge_regions t = Some t"
  by (simp add: memblock_merge_regions_def merge_loop.simps t_same)

lemma merge_keeps:
  assumes "type_inv t" "memblock_merge_regions t = Some t2"
  shows "type_inv t2 \<and> tmap t2 = tmap t"
proof (cases "mt_regions t = [dummy_region]")
  case True
  then have "t2 = t" using assms(2) merge_dummy by simp
  then show ?thesis using assms(1) by simp
next
  case False
  then have wf: "regions_wf (mt_regions t)" using assms(1) by (simp add: type_inv_def)
  then have "t2 = t\<lparr>mt_regions := merge_list (mt_regions t)\<rparr>" using merge_regions_list [OF wf] assms(2) by simp
  then show ?thesis
    using assms(1) merge_list_wf [OF wf] rmap_merge_list [OF wf] length_merge_list [of "mt_regions t"]
    by (simp add: type_inv_def tmap_def mt_cnt_def total_merge_list)
qed

lemma setclr_reflag:
  assumes "type_inv t" and be: "0 \<le> b" "b < e" "e \<le> U32_MAX" and "mt_cnt t + 2 \<le> mt_max t"
    and iso: "isolate_loop b e 0 0 0 t = Some (t1, s0, e0)"
    and mrg: "memblock_merge_regions (t1\<lparr>mt_regions := map_range s0 e0 (reflag g) (mt_regions t1)\<rparr>) = Some t2"
  shows "t2 = type_reflag b e g t"
proof (cases "mt_regions t = [dummy_region]")
  case True
  have "isolate_loop b e 0 0 0 t = Some (t, 0, 0)"
    using True be by (simp add: isolate_loop.simps [of b e 0] isolate_end [of t "mt_regions t", simplified True, simplified] mt_cnt_def)
  then show ?thesis using iso mrg True by (simp add: merge_dummy type_reflag_def t_same)
next
  case False
  then have wf: "regions_wf (mt_regions t)" using assms(1) by (simp add: type_inv_def)
  let ?x = "clip 0 b (mt_regions t) @ map (reflag g) (clip b e (mt_regions t)) @ clip e U32_MAX (mt_regions t)"
  have "regions_wf ?x" unfolding reflag_wf using isolated_wf [OF wf be] by (simp add: isolated_def)
  note m = setclr_merge [OF this]
  note r = isolate_result [OF assms(1) be assms(5) iso wf, of "reflag g"]
  then have "t1\<lparr>mt_regions := map_range s0 e0 (reflag g) (mt_regions t1)\<rparr> = t\<lparr>mt_regions := ?x\<rparr>"
    by (simp only: r) simp
  then show ?thesis using mrg m [of t] False by (simp add: type_reflag_def del: map_range.simps)
qed

lemma range_upd_empty: "range_upd b b g M = M"
  by (auto simp: range_upd_def fun_eq_iff)

lemma flag_reflag:
  "(if st then memblock_set_region_flags r flag else memblock_clear_region_flags r flag) = reflag (flag_upd st flag) r"
  by (simp add: reflag_def flag_upd_def memblock_set_region_flags_def memblock_clear_region_flags_def)

lemma setclr_flag_spec:
  assumes E: "early_boot E" and "mb_inv m" "is_u32 base" "is_u32 sz"
    and run: "memblock_setclr_flag E base sz st flag m = Inr (m', ret)" and "sized m'"
  shows "mb_inv m' \<and> (ret = 0 \<or> ret = - ENOMEM) \<and>
    tmap (mb_memory m') = (if ret = 0 then range_upd base (base + memblock_cap_size base sz) (flag_upd st flag) (tmap (mb_memory m))
      else tmap (mb_memory m))"
proof -
  let ?e = "base + memblock_cap_size base sz" and ?f = "reflag (flag_upd st flag)"
  obtain m0 r s0 e0 where iso: "memblock_isolate_range (resize E) Memory base sz m = Inr (m0, r, s0, e0)"
    and m': "if r \<noteq> 0 then m' = m0 \<and> ret = r
      else \<exists>t2. memblock_merge_regions ((mb_memory m0)\<lparr>mt_regions := map_range s0 e0 ?f (mt_regions (mb_memory m0))\<rparr>) = Some t2 \<and>
        m' = m0\<lparr>mb_memory := t2\<rparr> \<and> ret = 0"
    using run unfolding memblock_setclr_flag_def flag_reflag Let_def by (auto split: if_splits simp del: map_range.simps)
  have "arrays_le m0 m'" using m' by (cases "r = 0") (auto dest!: merge_regions_max simp: arrays_le_def)
  note sz0 = sized_mono [OF this assms(6)]
  show ?thesis
  proof (cases "memblock_cap_size base sz = 0")
    case True
    then have "m0 = m" "r = 0" "s0 = 0" "e0 = 0" using iso by (simp_all add: memblock_isolate_range_def)
    then obtain t2 where t2: "memblock_merge_regions (mb_memory m) = Some t2" "m' = m\<lparr>mb_memory := t2\<rparr>" "ret = 0"
      using m' by auto
    have t: "type_inv (mb_memory m)" using assms(2) by (simp add: mb_inv_def)
    have "type_inv t2 \<and> tmap t2 = tmap (mb_memory m)" using merge_keeps [OF t t2(1)] .
    then show ?thesis using t2 True assms(2) by (simp add: mb_inv_def range_upd_empty)
  next
    case nz: False
    have be: "0 \<le> base" "base < ?e" "?e \<le> U32_MAX"
      using assms(3,4) nz capped [OF assms(3,4)] by (auto simp: is_u32_def)
    show ?thesis
    proof (rule array_resizer.isolate_range_cases [OF resize_contract [OF E] assms(2-4) iso sz0 nz], goal_cases)
      case ok: (1 m1 t)
      let ?t1 = "mb_memory m1"
      have t1: "type_inv ?t1" "mt_cnt ?t1 + 2 \<le> mt_max ?t1" "isolate_loop base ?e 0 0 0 ?t1 = Some (t, s0, e0)"
        using ok by (simp_all add: mb_inv_def)
      obtain t2 where t2: "memblock_merge_regions (t\<lparr>mt_regions := map_range s0 e0 ?f (mt_regions t)\<rparr>) = Some t2"
        "m' = m1\<lparr>mb_memory := t2\<rparr>" "ret = 0" using m' ok(5,6) by auto
      have "t2 = type_reflag base ?e (flag_upd st flag) ?t1" using setclr_reflag [OF t1(1) be t1(2,3) t2(1)] .
      then show ?case
        using t2(2,3) ok(1,2) type_reflag_ok [OF t1(1) be t1(2), of "flag_upd st flag"] by (simp add: mb_inv_def tmap_def)
    next
      case 2
      then show ?case using m' by (auto simp: tmap_def ENOMEM_def)
    qed
  qed
qed

section \<open>The walk over free memory\<close>

definition in_ranges :: "(int \<times> int) list \<Rightarrow> int \<Rightarrow> bool" where
  "in_ranges xs a \<longleftrightarrow> (\<exists>(s, e) \<in> set xs. s \<le> a \<and> a < e)"

definition ascending :: "(int \<times> int) list \<Rightarrow> bool" where
  "ascending xs \<longleftrightarrow> (\<forall>(s, e) \<in> set xs. s \<le> e) \<and> sorted_wrt (\<lambda>(s, e) (s', e'). s < e \<and> s' < e' \<longrightarrow> e \<le> s') xs"

definition pair_has :: "memblock_type \<Rightarrow> memblock_type \<Rightarrow> nat \<Rightarrow> nat \<Rightarrow> int \<Rightarrow> bool" where
  "pair_has ta tb i j a \<longleftrightarrow> pair_lo ta tb i j \<le> a \<and> a < pair_hi ta tb i j"

lemma pair_has_ok: "pair_has ta tb i j a \<Longrightarrow> \<not> skip (mt_regions ta ! i) \<Longrightarrow> pair_ok skip ta tb i j"
  by (simp add: pair_has_def pair_ok_def)

lemma walk_list:
  assumes inv: "mb_inv m" and nid: "nid \<noteq> MAX_NUMNODES"
    and "a \<le> mt_cnt (mb_memory m)" "b \<le> mt_cnt (mb_reserved m) + 1"
    and "mt_cnt (mb_memory m) + mt_cnt (mb_reserved m) + 1 < n + (a + b)"
  shows "\<exists>xs. for_each_mem_range n m (mb_memory m) (Some (mb_reserved m)) nid flags (a, b) = Inr xs \<and> ascending xs \<and>
    (\<forall>x. in_ranges xs x \<longleftrightarrow> (\<exists>i j. ahead (skip_region m nid flags) (mb_memory m) (mb_reserved m) a b i j \<and>
       pair_has (mb_memory m) (mb_reserved m) i j x))"
  using assms(3-)
proof (induction n arbitrary: a b)
  case (Suc n)
  let ?ta = "mb_memory m" and ?tb = "mb_reserved m" and ?skip = "skip_region m nid flags"
  have invs: "type_inv ?ta" "type_inv ?tb" using inv by (simp_all add: mb_inv_def)
  have walk: "walked_up ?skip ?ta ?tb a b (next_range_loop ?skip ?ta (Some ?tb) a b)"
    using loop_walk [OF invs] Suc.prems by simp
  show ?case
  proof (cases "next_range_loop ?skip ?ta (Some ?tb) a b")
    case None
    then have "\<not> ahead ?skip ?ta ?tb a b i j" for i j using walk by (simp add: walked_up_def)
    moreover have "for_each_mem_range (Suc n) m ?ta (Some ?tb) nid flags (a, b) = Inr []"
      using None nid by (simp add: next_mem_range_def)
    ultimately show ?thesis by (simp add: ascending_def in_ranges_def del: for_each_mem_range.simps)
  next
    case (Some y)
    obtain a' b' s e where y: "y = (a', b', s, e)" by (cases y) auto
    obtain i j where le: "a \<le> a'" "b \<le> b'" "a + b < a' + b'" "a' \<le> mt_cnt ?ta" "b' \<le> mt_cnt ?tb + 1"
      and ij: "a \<le> i" "i < mt_cnt ?ta" "b \<le> j" "j \<le> mt_cnt ?tb" "\<not> ?skip (mt_regions ?ta ! i)"
        "s = pair_lo ?ta ?tb i j" "e = pair_hi ?ta ?tb i j" "s \<le> e"
      and rest: "\<And>k l. ahead ?skip ?ta ?tb a b k l \<Longrightarrow> k = i \<and> l = j \<or> ahead ?skip ?ta ?tb a' b' k l"
      and ord: "\<And>k l. ahead ?skip ?ta ?tb a' b' k l \<Longrightarrow> e \<le> pair_lo ?ta ?tb k l"
      using walk unfolding walked_up_def Some y option.case prod.case by blast
    obtain xs where xs: "for_each_mem_range n m ?ta (Some ?tb) nid flags (a', b') = Inr xs" "ascending xs"
      "\<And>x. in_ranges xs x \<longleftrightarrow> (\<exists>i j. ahead ?skip ?ta ?tb a' b' i j \<and> pair_has ?ta ?tb i j x)"
      using Suc.IH [of a' b'] le Suc.prems by auto
    have eq: "for_each_mem_range (Suc n) m ?ta (Some ?tb) nid flags (a, b) = Inr ((s, e) # xs)"
      using Some y nid xs(1) by (simp add: next_mem_range_def)
    have here: "s \<le> x \<and> x < e \<longleftrightarrow> pair_has ?ta ?tb i j x" for x using ij by (simp add: pair_has_def)
    have up: "ahead ?skip ?ta ?tb a' b' k l \<Longrightarrow> ahead ?skip ?ta ?tb a b k l" for k l using le by (simp add: ahead_def)
    have me: "pair_has ?ta ?tb i j x \<Longrightarrow> ahead ?skip ?ta ?tb a b i j" for x
      using ij pair_has_ok [of ?ta ?tb i j x ?skip] by (simp add: ahead_def)
    have "in_ranges ((s, e) # xs) x \<longleftrightarrow> (\<exists>i j. ahead ?skip ?ta ?tb a b i j \<and> pair_has ?ta ?tb i j x)" for x
    proof -
      have "in_ranges ((s, e) # xs) x \<longleftrightarrow> pair_has ?ta ?tb i j x \<or> in_ranges xs x"
        using here by (simp add: in_ranges_def)
      then show ?thesis unfolding xs(3) using rest up me by blast
    qed
    moreover have "ascending ((s, e) # xs)"
    proof -
      have "e \<le> s'" if "(s', e') \<in> set xs" "s' < e'" for s' e'
      proof -
        have "in_ranges xs s'" using that by (auto simp: in_ranges_def)
        then show ?thesis using xs(3) ord by (fastforce simp: pair_has_def)
      qed
      then show ?thesis using xs(2) ij(8) by (auto simp: ascending_def)
    qed
    ultimately show ?thesis using eq by blast
  qed
qed simp

lemma all_one: "(\<forall>y \<in> {x..<x + 1 :: int}. P y) \<longleftrightarrow> P x"
  by (metis atLeastLessThan_iff order_antisym order_refl zle_add1_eq_le zless_add1_eq)

lemma free_address_pairs:
  assumes "mb_inv m"
  shows "(\<exists>i j. ahead skip (mb_memory m) (mb_reserved m) 0 0 i j \<and> pair_has (mb_memory m) (mb_reserved m) i j x) \<longleftrightarrow>
    (\<exists>r \<in> set (mt_regions (mb_memory m)). \<not> skip r \<and> region_has r x) \<and> tmap (mb_reserved m) x = None"
    (is "?L \<longleftrightarrow> ?R")
proof
  have inv: "type_inv (mb_memory m)" "type_inv (mb_reserved m)" using assms by (simp_all add: mb_inv_def)
  { assume ?L
    then obtain i j where ij: "i < mt_cnt (mb_memory m)" "j \<le> mt_cnt (mb_reserved m)"
      "\<not> skip (mt_regions (mb_memory m) ! i)" "pair_has (mb_memory m) (mb_reserved m) i j x"
      by (auto simp: ahead_def pair_ok_def)
    then have "region_has (mt_regions (mb_memory m) ! i) x" "gap_at (mb_reserved m) j x"
      by (simp_all add: pair_has_def pair_lo_def pair_hi_def region_has_def gap_at_def)
    then show ?R using ij gap_free [OF inv(2) ij(2)] by (auto simp: mt_cnt_def) }
  assume ?R
  then obtain i where i: "i < mt_cnt (mb_memory m)" "\<not> skip (mt_regions (mb_memory m) ! i)"
    "region_has (mt_regions (mb_memory m) ! i) x" "tmap (mb_reserved m) x = None"
    by (auto simp: in_set_conv_nth mt_cnt_def)
  have "0 \<le> x" "x + 1 \<le> U32_MAX"
    using i type_inv_end [OF inv(1), of "mt_regions (mb_memory m) ! i"] by (auto simp: region_has_def mt_cnt_def)
  then obtain j where j: "j \<le> mt_cnt (mb_reserved m)" "gap_start (mb_reserved m) j \<le> x" "x + 1 \<le> gap_end (mb_reserved m) j"
    using free_range_gap [OF inv(2), of x 1] i(4) by (auto simp: all_one)
  have "pair_has (mb_memory m) (mb_reserved m) i j x"
    using i j by (simp add: pair_has_def pair_lo_def pair_hi_def region_has_def)
  then show ?L using i j pair_has_ok [of _ _ i j x skip] by (auto simp: ahead_def)
qed

section \<open>The memory limit\<close>

lemma max_addr_loop:
  assumes "regions_wf rs" "0 < limit" "limit \<le> rtotal rs"
  shows "\<exists>r \<in> set rs. rg_base r < find_max_addr_loop rs limit \<and> find_max_addr_loop rs limit \<le> rg_base r + rg_size r"
    and "rtotal (clip 0 (find_max_addr_loop rs limit) rs) = limit"
proof -
  have "(\<exists>r \<in> set rs. rg_base r < find_max_addr_loop rs limit \<and> find_max_addr_loop rs limit \<le> rg_base r + rg_size r) \<and>
      rtotal (clip 0 (find_max_addr_loop rs limit) rs) = limit"
    using assms
  proof (induction rs arbitrary: limit)
    case (Cons r rs)
    have ok: "0 \<le> rg_base r" "0 < rg_size r" "rg_base r + rg_size r \<le> U32_MAX" and wf: "regions_wf rs"
      using Cons.prems(1) by (simp_all add: region_ok_def)
    show ?case
    proof (cases "limit \<le> rg_size r")
      case True
      have a: "u32_add (rg_base r) limit = rg_base r + limit"
        using True ok Cons.prems(2) by (intro u32_add_nowrap) auto
      have "clip 0 (rg_base r + limit) rs = []"
        using Cons.prems(1) True ok by (intro clip_above) (auto simp: before_def)
      then show ?thesis using True a ok Cons.prems(2) by auto
    next
      case False
      have ls: "u32_sub limit (rg_size r) = limit - rg_size r"
        using False ok Cons.prems wf_total_u32 [OF Cons.prems(1)] by (intro u32_sub_nowrap) (auto simp: is_u32_def)
      let ?x = "find_max_addr_loop rs (limit - rg_size r)"
      have IH: "\<exists>q \<in> set rs. rg_base q < ?x \<and> ?x \<le> rg_base q + rg_size q" "rtotal (clip 0 ?x rs) = limit - rg_size r"
        using Cons.IH [OF wf, of "limit - rg_size r"] False Cons.prems by auto
      moreover have "rg_base r + rg_size r \<le> ?x" using IH(1) Cons.prems(1) by (force simp: before_def)
      ultimately show ?thesis using False ls ok by auto
    qed
  qed simp
  then show "\<exists>r \<in> set rs. rg_base r < find_max_addr_loop rs limit \<and> find_max_addr_loop rs limit \<le> rg_base r + rg_size r"
    and "rtotal (clip 0 (find_max_addr_loop rs limit) rs) = limit" by simp_all
qed

lemma enforce_limit_room:
  assumes "mb_inv m" "0 < limit" "limit \<le> mt_total_size (mb_memory m)"
    and "find_max_addr m limit \<noteq> U32_MAX"
    and "mt_cnt (mb_memory m) + 2 \<le> mt_max (mb_memory m)" "mt_cnt (mb_reserved m) + 2 \<le> mt_max (mb_reserved m)"
  shows "\<exists>m'. memblock_enforce_memory_limit E limit m = Inr m' \<and> mb_inv m' \<and> mt_total_size (mb_memory m') = limit \<and>
    tmap (mb_memory m') = tmap (mb_memory m) |` {..<find_max_addr m limit} \<and>
    tmap (mb_reserved m') = tmap (mb_reserved m) |` {..<find_max_addr m limit}"
proof -
  let ?a = "find_max_addr m limit" and ?tm = "mb_memory m" and ?tr = "mb_reserved m"
  have t: "type_inv ?tm" "type_inv ?tr" using assms(1) by (simp_all add: mb_inv_def)
  have wf: "regions_wf (mt_regions ?tm)" using t(1) assms(2,3) by (auto simp: type_inv_def)
  have tot: "limit \<le> rtotal (mt_regions ?tm)" using t(1) assms(3) by (simp add: type_inv_def)
  obtain r where r: "r \<in> set (mt_regions ?tm)" "rg_base r < ?a" "?a \<le> rg_base r + rg_size r"
    using max_addr_loop(1) [OF wf assms(2) tot] by (auto simp: find_max_addr_def)
  have a: "0 \<le> ?a" "?a < U32_MAX" "is_u32 ?a" "is_u32 U32_MAX"
    using r type_inv_end [OF t(1) r(1)] assms(4) by (auto simp: is_u32_def U32_MAX_def)
  have cap: "memblock_cap_size ?a U32_MAX = U32_MAX - ?a" using capped(5) [OF a(3,4)] a by simp
  let ?m1 = "m\<lparr>mb_memory := type_remove ?a U32_MAX ?tm\<rparr>"
  let ?m2 = "?m1\<lparr>mb_reserved := type_remove ?a U32_MAX ?tr\<rparr>"
  have inv1: "type_inv (type_remove ?a U32_MAX ?tm)" "type_inv (type_remove ?a U32_MAX ?tr)"
    using type_remove_inv [OF t(1) a(1,2)] type_remove_inv [OF t(2) a(1,2)] assms(5,6) by simp_all
  have m1: "mb_inv ?m1" "mb_inv ?m2" using assms(1) inv1 by (simp_all add: mb_inv_def)
  have nz: "memblock_cap_size ?a U32_MAX \<noteq> 0" using cap a by simp
  have "memblock_enforce_memory_limit E limit m = Inr ?m2"
    using remove_range_room [OF assms(1) a(3,4) nz, of Memory "resize E"] remove_range_room [OF m1(1) a(3,4) nz, of Reserved "resize E"]
      assms(2,4-6) cap by (simp add: memblock_enforce_memory_limit_def Let_def)
  moreover have "mt_total_size (type_remove ?a U32_MAX ?tm) = limit"
  proof -
    have "rg_base x + rg_size x \<le> U32_MAX" if "x \<in> set (mt_regions ?tm)" for x using type_inv_end [OF t(1) that] by simp
    then have "clip U32_MAX U32_MAX rs = []" for rs by (induction rs) auto
    then show ?thesis using max_addr_loop(2) [OF wf assms(2) tot] by (simp add: type_remove_def Let_def find_max_addr_def)
  qed
  moreover have "tmap (type_remove ?a U32_MAX t) = tmap t |` {..<?a}" if "type_inv t" for t
  proof -
    have "tmap t x = None" if "U32_MAX \<le> x" for x
      using that \<open>type_inv t\<close> type_inv_end [OF \<open>type_inv t\<close>] unfolding tmap_def
      by (metis not_le order_less_le_trans rmap_Some_iff)
    then show ?thesis unfolding type_remove_map [OF that a(1,2) order_refl]
      by (auto simp: restrict_map_def fun_eq_iff)
  qed
  ultimately show ?thesis using m1(2) t by (intro exI [of _ ?m2]) simp
qed

end
