(* ===== verification/Memblock_Props.thy ===== *)
theory Memblock_Props
  imports Memblock_Api
begin

text \<open>
  The properties of the boot-time memory allocator, each with a concrete state in which its
  hypotheses hold, and a state in which doubling an array goes wrong.
\<close>

section \<open>Properties\<close>

text \<open>A state after two banks of memory were registered and the kernel image was reserved.\<close>

definition two_banks :: memblock where
  "two_banks = memblock_init
     \<lparr>mb_memory := \<lparr>mt_max = 128, mt_total_size = 1073741824 + 268435456,
        mt_regions = [\<lparr>rg_base = 0, rg_size = 268435456, rg_flags = 0\<rparr>,
                      \<lparr>rg_base = 1073741824, rg_size = 1073741824, rg_flags = 0\<rparr>], mt_array = None\<rparr>,
      mb_reserved := \<lparr>mt_max = 128, mt_total_size = 16777216,
        mt_regions = [\<lparr>rg_base = 1048576, rg_size = 16777216, rg_flags = 0\<rparr>], mt_array = None\<rparr>,
      current_limit := 2147483648\<rparr>"

lemma two_banks_inv: "mb_inv two_banks"
  by (simp add: two_banks_def memblock_init_def mb_inv_def type_inv_def mt_cnt_def rtotal_def region_ok_def
      before_def U32_MAX_def is_u32_def)

lemma two_banks_sized: "sized two_banks"
  by (simp add: two_banks_def sized_def)


lemma two_banks_max [simp]: "mt_max (mb_memory two_banks) = 128" "mt_max (mb_reserved two_banks) = 128"
  by (simp_all add: two_banks_def)

lemma two_banks_cnt [simp]: "mt_cnt (mb_memory two_banks) = 2" "mt_cnt (mb_reserved two_banks) = 1"
  by (simp_all add: two_banks_def mt_cnt_def)

lemma u32_literals [simp]:
  "is_u32 0" "is_u32 1048576" "is_u32 4096" "is_u32 33554432" "is_u32 2147483648" "is_u32 1073741824" "is_u32 65536"
  by (simp_all add: is_u32_def U32_MAX_def)

lemma cap_literals [simp]:
  "memblock_cap_size 2147483648 1048576 = 1048576" "memblock_cap_size 1073741824 1048576 = 1048576"
  "memblock_cap_size 1048576 1048576 = 1048576" "memblock_cap_size 33554432 1048576 = 1048576"
  by code_simp+

lemma two_banks_add:
  "memblock_add (boot_with 33554432) 2147483648 1048576 two_banks =
   Inr (two_banks\<lparr>mb_memory := \<lparr>mt_max = 128, mt_total_size = 1343225856,
        mt_regions = [\<lparr>rg_base = 0, rg_size = 268435456, rg_flags = 0\<rparr>,
                      \<lparr>rg_base = 1073741824, rg_size = 1074790400, rg_flags = 0\<rparr>], mt_array = None\<rparr>\<rparr>, 0)"
  by code_simp



lemma two_banks_remove:
  "memblock_remove (boot_with 33554432) 1048576 1048576 two_banks =
   Inr (two_banks\<lparr>mb_memory := \<lparr>mt_max = 128, mt_total_size = 1341128704,
        mt_regions = [\<lparr>rg_base = 0, rg_size = 1048576, rg_flags = 0\<rparr>,
                      \<lparr>rg_base = 2097152, rg_size = 266338304, rg_flags = 0\<rparr>,
                      \<lparr>rg_base = 1073741824, rg_size = 1073741824, rg_flags = 0\<rparr>], mt_array = None\<rparr>\<rparr>, 0)"
  by code_simp



lemma two_banks_reserve:
  "memblock_reserve (boot_with 33554432) 1073741824 1048576 two_banks =
   Inr (two_banks\<lparr>mb_reserved := \<lparr>mt_max = 128, mt_total_size = 17825792,
        mt_regions = [\<lparr>rg_base = 1048576, rg_size = 16777216, rg_flags = 0\<rparr>,
                      \<lparr>rg_base = 1073741824, rg_size = 1048576, rg_flags = 0\<rparr>], mt_array = None\<rparr>\<rparr>, 0)"
  by code_simp



lemma two_banks_free:
  "memblock_free (boot_with 33554432) 1048576 1048576 two_banks =
   Inr (two_banks\<lparr>mb_reserved := \<lparr>mt_max = 128, mt_total_size = 15728640,
        mt_regions = [\<lparr>rg_base = 2097152, rg_size = 15728640, rg_flags = 0\<rparr>], mt_array = None\<rparr>\<rparr>, 0)"
  by code_simp


lemma minimal_fill: "minimal (mt_regions t) \<Longrightarrow> minimal (mt_regions (type_fill b e f t))"
  by (auto simp: type_fill_def type_add_def Let_def minimal_merge_list)



text \<open>C6 \<^verbatim>\<open>memblock_find_in_range\<close> always returns: the address of a block of the size asked for, aligned, in
  the window, inside one region of mapped memory and free of reservations, or 0 when there is none.\<close>

theorem memblock_find_in_range_correct:
  assumes "mb_inv m" "is_u32 start" "is_u32 end" "0 < sz" "is_u32 sz" "align_ok align" "is_u32 (kernel_end E)"
  shows "\<exists>c. memblock_find_in_range E m start end sz align = Inr c \<and>
    (if c = 0 then \<forall>x. \<not> fits m NUMA_NO_NODE 0 (max start PAGE_SIZE) (search_end m end) sz align x
     else fits m NUMA_NO_NODE 0 (max start PAGE_SIZE) (search_end m end) sz align c)"
proof -
  obtain k where "align = 2 ^ k" "is_u32 align" using align_okD [OF assms(6)] .
  then show ?thesis using find_in_range_spec [OF assms(1-5) _ _ assms(7)] by blast
qed

lemma align_ok_literals [simp]: "align_ok 4096" "align_ok 64"
  unfolding align_ok_def by (rule exI [of _ 12], simp, rule exI [of _ 6], simp)

theorem memblock_find_in_range_correct_witness:
  "\<exists>c. memblock_find_in_range (boot_with 33554432) two_banks 0 0 1048576 4096 = Inr c \<and> c = 2146435072 \<and>
     fits two_banks NUMA_NO_NODE 0 PAGE_SIZE 2147483648 1048576 4096 c"
proof -
  have run: "memblock_find_in_range (boot_with 33554432) two_banks 0 0 1048576 4096 = Inr 2146435072" by code_simp
  have "search_end two_banks 0 = 2147483648" "max 0 PAGE_SIZE = PAGE_SIZE" by code_simp+
  then show ?thesis
    using memblock_find_in_range_correct [OF two_banks_inv, of 0 0 1048576 4096 "boot_with 33554432"] run
      early_boot_with [of 33554432] by (simp add: early_boot_def)
qed

text \<open>C7 \<^verbatim>\<open>memblock_alloc_range_nid\<close>, with one free entry in the reserved array, always returns: 0 with nothing
  changed when no block fits, or the address of a block that fitted, now reserved, with every other
  reservation and the memory as they were.\<close>

theorem memblock_alloc_range_nid_correct:
  assumes "mb_inv m" "is_u32 (kernel_end E)" "is_u32 start" "is_u32 end" "0 < sz" "is_u32 sz"
    and "a = 0 \<or> align_ok a" "nid \<noteq> MAX_NUMNODES" and "mt_cnt (mb_reserved m) < mt_max (mb_reserved m)"
  shows "\<exists>m' c. memblock_alloc_range_nid E sz a start end nid flags m = Inr (m', c) \<and> mb_inv m' \<and>
    (if c = 0
     then m' = m \<and> (\<forall>x. \<not> fits m nid flags (max start PAGE_SIZE) (search_end m end) sz (alloc_align a) x)
     else fits m nid flags (max start PAGE_SIZE) (search_end m end) sz (alloc_align a) c \<and>
       tmap (mb_reserved m') = range_map c (c + sz) 0 ++ tmap (mb_reserved m) \<and> mb_memory m' = mb_memory m)"
  using alloc_range_nid_room [OF assms, of flags] by force

theorem memblock_alloc_range_nid_correct_witness:
  "\<exists>m' c. memblock_alloc_range_nid (boot_with 33554432) 65536 0 0 0 NUMA_NO_NODE 0 two_banks = Inr (m', c) \<and>
     mb_inv m' \<and> c = 2147418112 \<and>
     tmap (mb_reserved m') = range_map c (c + 65536) 0 ++ tmap (mb_reserved two_banks)"
proof -
  have run: "map_sum id snd (memblock_alloc_range_nid (boot_with 33554432) 65536 0 0 0 NUMA_NO_NODE 0 two_banks) = Inr 2147418112"
    by code_simp
  have "NUMA_NO_NODE \<noteq> MAX_NUMNODES" by code_simp
  then obtain m' c where *: "memblock_alloc_range_nid (boot_with 33554432) 65536 0 0 0 NUMA_NO_NODE 0 two_banks = Inr (m', c)"
    "mb_inv m'" "c \<noteq> 0 \<longrightarrow> tmap (mb_reserved m') = range_map c (c + 65536) 0 ++ tmap (mb_reserved two_banks)"
    using memblock_alloc_range_nid_correct [OF two_banks_inv, of "boot_with 33554432" 0 0 65536 0 NUMA_NO_NODE 0]
      early_boot_with [of 33554432] by (auto simp: early_boot_def split: if_splits)
  then have "c = 2147418112" using run by simp
  then show ?thesis using * by simp
qed

text \<open>The binary search behind \<^verbatim>\<open>memblock_is_memory\<close> and \<^verbatim>\<open>memblock_is_reserved\<close> agrees with the map of the
  array, and \<^verbatim>\<open>memblock_is_region_memory\<close> holds exactly when one region holds the whole range.\<close>

theorem memblock_lookup_correct:
  assumes "mb_inv m" "is_u32 base" "is_u32 sz"
  shows "(memblock_is_memory m addr \<longleftrightarrow> tmap (mb_memory m) addr \<noteq> None) \<and>
    (memblock_is_reserved m addr \<longleftrightarrow> tmap (mb_reserved m) addr \<noteq> None) \<and>
    (memblock_is_region_memory m base sz \<longleftrightarrow>
      (\<exists>r \<in> set (mt_regions (mb_memory m)). region_has r base \<and> base + memblock_cap_size base sz \<le> rg_base r + rg_size r))"
  using search_tmap region_memory_spec [OF assms] assms(1)
  by (simp add: memblock_is_memory_def memblock_is_reserved_def mb_inv_def)

theorem memblock_lookup_correct_witness:
  "memblock_is_memory two_banks 1073741824 \<and> tmap (mb_memory two_banks) 1073741824 \<noteq> None \<and>
   memblock_is_region_memory two_banks 1073741824 1048576"
proof -
  have "memblock_is_memory two_banks 1073741824" "memblock_is_region_memory two_banks 1073741824 1048576" by code_simp+
  then show ?thesis
    using memblock_lookup_correct [OF two_banks_inv, of 1073741824 1048576 1073741824] by simp
qed

text \<open>\<^verbatim>\<open>memblock_is_region_reserved\<close> for a range that is not empty holds exactly when some address of it is
  reserved.\<close>

theorem memblock_is_region_reserved_correct:
  assumes "mb_inv m" "is_u32 base" "is_u32 sz" "memblock_cap_size base sz \<noteq> 0"
  shows "memblock_is_region_reserved m base sz \<longleftrightarrow>
    (\<exists>a. base \<le> a \<and> a < base + memblock_cap_size base sz \<and> tmap (mb_reserved m) a \<noteq> None)"
  by (rule region_reserved_spec [OF assms])

theorem memblock_is_region_reserved_correct_witness:
  "memblock_is_region_reserved two_banks 1048576 1048576 \<and>
   (\<exists>a. 1048576 \<le> a \<and> a < 2097152 \<and> tmap (mb_reserved two_banks) a \<noteq> None)"
proof -
  have "memblock_is_region_reserved two_banks 1048576 1048576" by code_simp
  then show ?thesis using memblock_is_region_reserved_correct [OF two_banks_inv, of 1048576 1048576] by simp
qed

text \<open>C23 \<^verbatim>\<open>for_each_free_mem_range\<close> ends, and its ranges, in ascending order and disjoint, hold exactly the addresses
  of selected memory regions that are not reserved.\<close>

theorem free_mem_ranges_exact:
  assumes "mb_inv m" "nid \<noteq> MAX_NUMNODES"
  shows "\<exists>xs. for_each_free_mem_range m nid flags = Inr xs \<and> ascending xs \<and>
    (\<forall>a. in_ranges xs a \<longleftrightarrow>
      (\<exists>r \<in> set (mt_regions (mb_memory m)). \<not> skip_region m nid flags r \<and> region_has r a) \<and>
      tmap (mb_reserved m) a = None)"
  using walk_list [OF assms, of 0 0 "walk_budget m" flags] free_address_pairs [OF assms(1)]
  by (simp add: for_each_free_mem_range_def walk_budget_def del: for_each_mem_range.simps)

theorem free_mem_ranges_exact_witness:
  "\<exists>xs. for_each_free_mem_range two_banks NUMA_NO_NODE 0 = Inr xs \<and> ascending xs \<and>
     xs = [(0, 1048576), (17825792, 268435456), (1073741824, 2147483648)]"
proof -
  have run: "for_each_free_mem_range two_banks NUMA_NO_NODE 0 =
      Inr [(0, 1048576), (17825792, 268435456), (1073741824, 2147483648)]" by code_simp
  have "NUMA_NO_NODE \<noteq> MAX_NUMNODES" by code_simp
  then show ?thesis using free_mem_ranges_exact [OF two_banks_inv, of NUMA_NO_NODE 0] run by auto
qed

text \<open>\<^verbatim>\<open>memblock_setclr_flag\<close>, which marks memory as hotpluggable, mirrored or not to be mapped, keeps the
  invariant and changes the flags of exactly the memory in the range, or reports \<^verbatim>\<open>-ENOMEM\<close> and
  changes no flag.\<close>

theorem memblock_setclr_flag_correct:
  assumes "early_boot E" "mb_inv m" "is_u32 base" "is_u32 sz"
    and "memblock_setclr_flag E base sz st flag m = Inr (m', ret)" "sized m'"
  shows "mb_inv m' \<and> (ret = 0 \<or> ret = - ENOMEM) \<and>
    tmap (mb_memory m') = (if ret = 0
      then range_upd base (base + memblock_cap_size base sz) (flag_upd st flag) (tmap (mb_memory m))
      else tmap (mb_memory m))"
  by (rule setclr_flag_spec [OF assms])

lemma two_banks_nomap:
  "memblock_setclr_flag (boot_with 33554432) 1048576 1048576 True MEMBLOCK_NOMAP two_banks =
   Inr (two_banks\<lparr>mb_memory := \<lparr>mt_max = 128, mt_total_size = 1342177280,
        mt_regions = [\<lparr>rg_base = 0, rg_size = 1048576, rg_flags = 0\<rparr>,
                      \<lparr>rg_base = 1048576, rg_size = 1048576, rg_flags = 4\<rparr>,
                      \<lparr>rg_base = 2097152, rg_size = 266338304, rg_flags = 0\<rparr>,
                      \<lparr>rg_base = 1073741824, rg_size = 1073741824, rg_flags = 0\<rparr>], mt_array = None\<rparr>\<rparr>, 0)"
  by code_simp

theorem memblock_setclr_flag_correct_witness:
  "\<exists>m'. memblock_setclr_flag (boot_with 33554432) 1048576 1048576 True MEMBLOCK_NOMAP two_banks = Inr (m', 0) \<and> mb_inv m' \<and>
     tmap (mb_memory m') = range_upd 1048576 2097152 (flag_upd True MEMBLOCK_NOMAP) (tmap (mb_memory two_banks))"
  using memblock_setclr_flag_correct [OF early_boot_with two_banks_inv _ _ two_banks_nomap]
  by (simp add: two_banks_nomap sized_def)



section \<open>Two arrays in one place\<close>

text \<open>
  Doubling the memory array a second time frees the storage of the old array before it reserves that
  of the new one.  When the reserved array is full, freeing doubles it first, and the search for its
  new storage still finds the block just chosen for the memory array: the two arrays overlap.
\<close>

definition crowded :: memblock where
  "crowded = memblock_init
     \<lparr>mb_memory := \<lparr>mt_max = 256, mt_total_size = 255 * 65536 + 16777216,
        mt_regions = map (\<lambda>i. \<lparr>rg_base = int i * 131072, rg_size = 65536, rg_flags = 0\<rparr>) [0..<255] @
          [\<lparr>rg_base = 268435456, rg_size = 16777216, rg_flags = 0\<rparr>], mt_array = Some 268435456\<rparr>,
      mb_reserved := \<lparr>mt_max = 128, mt_total_size = 126 * 4096 + 8192,
        mt_regions = map (\<lambda>i. \<lparr>rg_base = int i * 131072, rg_size = 4096, rg_flags = 0\<rparr>) [0..<126] @
          [\<lparr>rg_base = 268435456, rg_size = 8192, rg_flags = 0\<rparr>], mt_array = None\<rparr>,
      current_limit := 2147483648, memblock_can_resize := True\<rparr>"

lemma crowded_grid: "regions_wf (map (\<lambda>i. \<lparr>rg_base = int i * 131072, rg_size = z, rg_flags = 0\<rparr>) [0..<n])"
  if "0 < z" "z \<le> 131072" "n < 256"
  using that
proof (induction n)
  case (Suc n)
  then have "int n * 131072 + z \<le> U32_MAX" "\<And>i. i < n \<Longrightarrow> int i * 131072 + z \<le> int n * 131072"
    by (auto simp: U32_MAX_def)
  then show ?case using Suc by (auto simp: region_ok_def before_def)
qed simp

lemma crowded_inv: "mb_inv crowded"
proof -
  have tot: "rtotal (map (\<lambda>i. \<lparr>rg_base = int i * 131072, rg_size = z, rg_flags = 0\<rparr>) [0..<n]) = int n * z" for z n
    by (induction n) (simp_all add: algebra_simps)
  show ?thesis
    using crowded_grid [of 65536 255] crowded_grid [of 4096 126]
    by (auto simp: crowded_def mb_inv_def type_inv_def mt_cnt_def tot region_ok_def before_def U32_MAX_def is_u32_def
        memblock_init_def)
qed

lemma crowded_doubling:
  "map_sum id (\<lambda>(m', ret). (mt_array (mb_memory m'), array_bytes (mb_memory m'),
       mt_array (mb_reserved m'), array_bytes (mb_reserved m'), ret))
     (resize (boot_with 33554432) Memory 0 0 crowded) =
   Inr (Some 285204480, 8192, Some 285208576, 4096, 0)"
  by code_simp

text \<open>C26 Doubling the memory array can put it over the storage of the array of reservations: in the state
  \<open>crowded\<close>, which satisfies the invariant, \<^verbatim>\<open>memblock_double_array\<close> returns 0 and the two arrays share
  addresses.\<close>

theorem double_array_overlap:
  "mb_inv crowded \<and> (\<exists>m'. resize (boot_with 33554432) Memory 0 0 crowded = Inr (m', 0) \<and>
     storage Memory m' \<inter> storage Reserved m' \<noteq> {})"
proof -
  obtain m' where "resize (boot_with 33554432) Memory 0 0 crowded = Inr (m', 0)"
    "mt_array (mb_memory m') = Some 285204480" "array_bytes (mb_memory m') = 8192"
    "mt_array (mb_reserved m') = Some 285208576" "array_bytes (mb_reserved m') = 4096"
    using crowded_doubling by (cases "resize (boot_with 33554432) Memory 0 0 crowded") auto
  then have "285208576 \<in> storage Memory m' \<inter> storage Reserved m'"
    by (simp add: storage_def array_storage_def)
  then show ?thesis using crowded_inv \<open>resize _ _ _ _ crowded = _\<close> by blast
qed

end
