(* ===== verification/Group_Lists.thy ===== *)
theory Group_Lists
  imports Kernel_Prelude "HOL-Library.Multiset"
begin

text \<open>
  The supplementary groups of a task, \<^verbatim>\<open>kernel/groups.c\<close>: the Shell sort a new group list goes
  through and the binary search of a membership test.  A group list is the list of its \<^verbatim>\<open>ngroups\<close>
  identifiers; without user namespaces (the configured build) a \<^verbatim>\<open>kgid_t\<close> is the 32-bit identifier.
\<close>

section \<open>Operations\<close>

text \<open>The inner loop: \<^verbatim>\<open>left\<close> is always \<open>right - stride\<close>, negative when \<open>right < stride\<close>.\<close>

function shift_loop :: "nat \<Rightarrow> 32 word \<Rightarrow> nat \<Rightarrow> 32 word list \<Rightarrow> nat \<times> 32 word list" where
  "shift_loop stride tmp right gid =
     (if 0 < stride \<and> stride \<le> right \<and> gid ! (right - stride) > tmp
      then shift_loop stride tmp (right - stride) (gid[right := gid ! (right - stride)])
      else (right, gid))"
  by pat_completeness auto
termination by (relation "measure (\<lambda>(stride, tmp, right, gid). right)") auto

declare shift_loop.simps [simp del]

definition sort_step :: "nat \<Rightarrow> nat \<Rightarrow> 32 word list \<Rightarrow> 32 word list" where
  "sort_step stride base gid =
     (let tmp = gid ! (base + stride); (right, gid') = shift_loop stride tmp (base + stride) gid
      in gid'[right := tmp])"

primrec sort_pass :: "nat \<Rightarrow> nat \<Rightarrow> 32 word list \<Rightarrow> 32 word list" where
  "sort_pass stride 0 gid = gid"
| "sort_pass stride (Suc base) gid = sort_step stride base (sort_pass stride base gid)"

function first_stride :: "nat \<Rightarrow> nat \<Rightarrow> nat" where
  "first_stride n stride = (if stride < n then first_stride n (3 * stride + 1) else stride)"
  by pat_completeness auto
termination by (relation "measure (\<lambda>(n, stride). n - stride)") auto

declare first_stride.simps [simp del]

function stride_loop :: "nat \<Rightarrow> 32 word list \<Rightarrow> 32 word list" where
  "stride_loop stride gid =
     (if stride = 0 then gid
      else stride_loop (stride div 3) (sort_pass stride (length gid - stride) gid))"
  by pat_completeness auto
termination by (relation "measure fst") auto

declare stride_loop.simps [simp del]

definition groups_sort :: "32 word list \<Rightarrow> 32 word list" where
  "groups_sort gid = stride_loop (first_stride (length gid) 1 div 3) gid"

function groups_search_loop :: "32 word list \<Rightarrow> 32 word \<Rightarrow> nat \<Rightarrow> nat \<Rightarrow> bool" where
  "groups_search_loop gid grp left right =
     (if left < right then
        let mid = (left + right) div 2 in
        if grp > gid ! mid then groups_search_loop gid grp (mid + 1) right
        else if grp < gid ! mid then groups_search_loop gid grp left mid
        else True
      else False)"
  by pat_completeness auto
termination by (relation "measure (\<lambda>(gid, grp, left, right). right - left)") auto

declare groups_search_loop.simps [simp del]

definition groups_search :: "32 word list option \<Rightarrow> 32 word \<Rightarrow> bool" where
  "groups_search gi grp = (case gi of None \<Rightarrow> False | Some gid \<Rightarrow> groups_search_loop gid grp 0 (length gid))"

text \<open>The credentials of the running task that permission checks read.\<close>

record cred =
  fsuid :: "32 word"
  fsgid :: "32 word"
  egid :: "32 word"
  group_info :: "32 word list option"
  capabilities :: "nat set"
  cr_umask :: "16 word"

definition in_group_p :: "cred \<Rightarrow> 32 word \<Rightarrow> bool" where
  "in_group_p c grp = (if grp \<noteq> fsgid c then groups_search (group_info c) grp else True)"

definition in_egroup_p :: "cred \<Rightarrow> 32 word \<Rightarrow> bool" where
  "in_egroup_p c grp = (if grp \<noteq> egid c then groups_search (group_info c) grp else True)"

text \<open>
  The system calls.  A user array maps an index to its cell, \<^const>\<open>None\<close> where the page cannot be accessed.  Without
  user namespaces \<^verbatim>\<open>make_kgid\<close> is the identity and an identifier is valid when it is not \<open>-1\<close>.
\<close>

type_synonym user_gids = "nat \<Rightarrow> 32 word option"

definition NGROUPS_MAX :: "32 word" where "NGROUPS_MAX = 65536"

definition CAP_SETGID :: nat where "CAP_SETGID = 6"

definition gid_valid :: "32 word \<Rightarrow> bool" where
  "gid_valid gid \<longleftrightarrow> gid \<noteq> -1"

primrec groups_from_user :: "nat \<Rightarrow> user_gids \<Rightarrow> int + 32 word list" where
  "groups_from_user 0 grouplist = Inr []"
| "groups_from_user (Suc i) grouplist =
     (case groups_from_user i grouplist of
        Inl e \<Rightarrow> Inl e
      | Inr gid \<Rightarrow>
          (case grouplist i of
             None \<Rightarrow> Inl (- EFAULT)
           | Some g \<Rightarrow> if gid_valid g then Inr (gid @ [g]) else Inl (- EINVAL)))"

definition from_kgid_munged :: "32 word \<Rightarrow> 32 word \<Rightarrow> 32 word" where
  "from_kgid_munged overflowgid kgid = (if kgid = -1 then overflowgid else kgid)"

fun groups_to_user :: "32 word \<Rightarrow> nat \<Rightarrow> 32 word list \<Rightarrow> user_gids \<Rightarrow> int \<times> user_gids" where
  "groups_to_user overflowgid i [] grouplist = (0, grouplist)"
| "groups_to_user overflowgid i (g # gid) grouplist =
     (if grouplist i = None then (- EFAULT, grouplist)
      else groups_to_user overflowgid (i + 1) gid (grouplist(i := Some (from_kgid_munged overflowgid g))))"

definition getgroups :: "32 word \<Rightarrow> cred \<Rightarrow> 32 word \<Rightarrow> user_gids \<Rightarrow> int \<times> user_gids" where
  "getgroups overflowgid c gidsetsize grouplist =
     (let gid = (case group_info c of None \<Rightarrow> [] | Some gid \<Rightarrow> gid) in
      if sint gidsetsize < 0 then (- EINVAL, grouplist)
      else if gidsetsize \<noteq> 0 then
        if int (length gid) > sint gidsetsize then (- EINVAL, grouplist)
        else case groups_to_user overflowgid 0 gid grouplist of
               (err, grouplist') \<Rightarrow> (if err \<noteq> 0 then - EFAULT else int (length gid), grouplist')
      else (int (length gid), grouplist))"

definition set_groups :: "cred \<Rightarrow> 32 word list \<Rightarrow> cred" where
  "set_groups new gid = new\<lparr>group_info := Some gid\<rparr>"

definition set_current_groups :: "bool \<Rightarrow> cred \<Rightarrow> 32 word list \<Rightarrow> int \<times> cred" where
  "set_current_groups prepare_ok c gid = (if \<not> prepare_ok then (- ENOMEM, c) else (0, set_groups c gid))"

definition may_setgroups :: "cred \<Rightarrow> bool" where
  "may_setgroups c \<longleftrightarrow> CAP_SETGID \<in> capabilities c"

text \<open>\<^verbatim>\<open>alloc_ok\<close> and \<^verbatim>\<open>prepare_ok\<close> say whether \<^verbatim>\<open>groups_alloc\<close> and \<^verbatim>\<open>prepare_creds\<close> find memory.\<close>

definition setgroups :: "bool \<Rightarrow> bool \<Rightarrow> cred \<Rightarrow> 32 word \<Rightarrow> user_gids \<Rightarrow> int \<times> cred" where
  "setgroups alloc_ok prepare_ok c gidsetsize grouplist =
     (if \<not> may_setgroups c then (- EPERM, c)
      else if gidsetsize > NGROUPS_MAX then (- EINVAL, c)
      else if \<not> alloc_ok then (- ENOMEM, c)
      else case groups_from_user (unat gidsetsize) grouplist of
             Inl e \<Rightarrow> (e, c)
           | Inr gid \<Rightarrow> set_current_groups prepare_ok c (groups_sort gid))"

section \<open>The sort\<close>

lemma shift_loop_length: "length (snd (shift_loop stride tmp right gid)) = length gid"
  by (induction stride tmp right gid rule: shift_loop.induct) (subst shift_loop.simps, simp)

lemma sort_step_length [simp]: "length (sort_step stride base gid) = length gid"
  using shift_loop_length [of stride "gid ! (base + stride)" "base + stride" gid]
  by (cases "shift_loop stride (gid ! (base + stride)) (base + stride) gid") (simp add: sort_step_def)

lemma sort_pass_length [simp]: "length (sort_pass stride n gid) = length gid"
  by (induction n) simp_all

text \<open>With the slot at \<open>right\<close> taken out, the loop keeps the elements.\<close>

lemma shift_loop_mset:
  assumes "right < length gid" and "shift_loop stride tmp right gid = (r, gid')"
  shows "r < length gid' \<and> mset (gid'[r := tmp]) = mset (gid[right := tmp])"
  using assms
proof (induction stride tmp right gid rule: shift_loop.induct)
  case (1 stride tmp right gid)
  show ?case
  proof (cases "0 < stride \<and> stride \<le> right \<and> gid ! (right - stride) > tmp")
    case True
    let ?l = "right - stride" and ?g = "gid[right := gid ! (right - stride)]"
    have "shift_loop stride tmp ?l ?g = (r, gid')" using "1.prems"(2) True by (simp add: shift_loop.simps [of stride tmp right])
    then have IH: "r < length gid' \<and> mset (gid'[r := tmp]) = mset (?g[?l := tmp])"
      using "1.IH" [OF True] "1.prems"(1) by simp
    have "mset ((gid[right := tmp])[right := gid[right := tmp] ! ?l, ?l := gid[right := tmp] ! right]) = mset (gid[right := tmp])"
      using "1.prems"(1) True by (intro mset_swap) auto
    moreover have "(gid[right := tmp])[right := gid[right := tmp] ! ?l, ?l := gid[right := tmp] ! right] = ?g[?l := tmp]"
      using True "1.prems"(1) by (auto simp: nth_list_update)
    ultimately show ?thesis using IH by simp
  next
    case False
    then show ?thesis using "1.prems" unfolding shift_loop.simps [of stride tmp right] if_not_P [OF False] by simp
  qed
qed

lemma sort_step_mset: "base + stride < length gid \<Longrightarrow> mset (sort_step stride base gid) = mset gid"
  using shift_loop_mset [of "base + stride" gid stride "gid ! (base + stride)"]
  by (auto simp: sort_step_def Let_def split: prod.split)

lemma sort_pass_mset: "n + stride \<le> length gid \<Longrightarrow> mset (sort_pass stride n gid) = mset gid"
  by (induction n) (simp_all add: sort_step_mset)

text \<open>The last pass has stride 1: it inserts each element into the sorted part before it.\<close>

lemma insort_snoc: "x < y \<Longrightarrow> insort x (xs @ [y]) = insort x xs @ [y]"
  by (induction xs) auto

lemma insort_end: "sorted xs \<Longrightarrow> \<forall>y \<in> set xs. y \<le> x \<Longrightarrow> insort x xs = xs @ [x :: 32 word]"
  using properties_for_sort [of "insort x xs" "x # xs"] properties_for_sort [of "xs @ [x]" "x # xs"]
  by (simp add: sorted_insort sorted_append)

lemma shift_loop_insort:
  assumes "right < length gid" "sorted (take right gid)" and "shift_loop 1 tmp right gid = (r, gid')"
  shows "gid'[r := tmp] = insort tmp (take right gid) @ drop (Suc right) gid"
  using assms
proof (induction right arbitrary: gid)
  case 0
  then show ?case by (cases gid) (auto simp: shift_loop.simps [of "Suc 0" tmp 0])
next
  case (Suc right)
  have tk: "take (Suc right) gid = take right gid @ [gid ! right]" using Suc.prems(1) by (simp add: take_Suc_conv_app_nth)
  show ?case
  proof (cases "gid ! right > tmp")
    case True
    let ?g = "gid[Suc right := gid ! right]"
    have "shift_loop 1 tmp right ?g = (r, gid')" using Suc.prems(3) True by (simp add: shift_loop.simps [of "Suc 0" tmp "Suc right"])
    then have "gid'[r := tmp] = insort tmp (take right ?g) @ drop (Suc right) ?g"
      using Suc.prems tk by (intro Suc.IH) (auto simp: sorted_append)
    moreover have "drop (Suc right) ?g = gid ! right # drop (Suc (Suc right)) gid"
      using Suc.prems(1) by (simp add: Cons_nth_drop_Suc [symmetric])
    ultimately show ?thesis using True by (simp add: tk insort_snoc)
  next
    case False
    then have "r = Suc right \<and> gid' = gid" using Suc.prems(3) by (simp add: shift_loop.simps [of "Suc 0" tmp "Suc right"])
    moreover have "\<forall>y \<in> set (take (Suc right) gid). y \<le> tmp"
      using Suc.prems(2) False by (auto simp: tk sorted_append)
    ultimately show ?thesis
      using insort_end [OF Suc.prems(2)] Suc.prems(1) by (simp add: upd_conv_take_nth_drop)
  qed
qed

lemma sort_pass_1:
  "n + 1 \<le> length gid \<Longrightarrow> sorted (take (Suc n) (sort_pass 1 n gid)) \<and> drop (Suc n) (sort_pass 1 n gid) = drop (Suc n) gid"
proof (induction n)
  case 0
  then show ?case by (cases gid) auto
next
  case (Suc n)
  let ?g = "sort_pass 1 n gid"
  obtain r g' where sl: "shift_loop 1 (?g ! Suc n) (Suc n) ?g = (r, g')" by fastforce
  have "g'[r := ?g ! Suc n] = insort (?g ! Suc n) (take (Suc n) ?g) @ drop (Suc (Suc n)) ?g"
    using Suc sl by (intro shift_loop_insort) auto
  then have "sort_pass 1 (Suc n) gid = insort (?g ! Suc n) (take (Suc n) ?g) @ drop (Suc (Suc n)) ?g"
    using sl by (simp add: sort_step_def)
  moreover have "drop (Suc (Suc n)) ?g = drop (Suc (Suc n)) gid"
    using Suc by (metis Suc_leD add.commute drop_drop plus_1_eq_Suc)
  moreover have "length (insort (?g ! Suc n) (take (Suc n) ?g)) = Suc (Suc n)" using Suc.prems by simp
  ultimately show ?case using Suc by (simp add: sorted_insort del: sort_pass.simps)
qed

inductive knuth_stride :: "nat \<Rightarrow> bool" where
  one: "knuth_stride 1"
| more: "knuth_stride s \<Longrightarrow> knuth_stride (3 * s + 1)"

lemma knuth_stride_pos: "knuth_stride s \<Longrightarrow> 0 < s"
  by (induction rule: knuth_stride.induct) simp_all

lemma stride_loop_sorts:
  "knuth_stride stride \<Longrightarrow> stride < length gid \<Longrightarrow>
   sorted (stride_loop stride gid) \<and> mset (stride_loop stride gid) = mset gid"
proof (induction arbitrary: gid rule: knuth_stride.induct)
  case one
  have "sorted (take (Suc (length gid - 1)) (sort_pass 1 (length gid - 1) gid))"
    using sort_pass_1 [of "length gid - 1" gid] one by simp
  then have "sorted (sort_pass 1 (length gid - 1) gid)" using one by simp
  moreover have "mset (sort_pass 1 (length gid - 1) gid) = mset gid" using sort_pass_mset [of "length gid - 1" 1 gid] one by simp
  ultimately show ?case by (simp add: stride_loop.simps [of "Suc 0"] stride_loop.simps [of 0])
next
  case (more s)
  let ?g = "sort_pass (3 * s + 1) (length gid - (3 * s + 1)) gid"
  have "(3 * s + 1) div 3 = s" by simp
  then have "stride_loop (3 * s + 1) gid = stride_loop s ?g"
    using stride_loop.simps [of "3 * s + 1" gid] by (metis Suc_eq_plus1 Zero_not_Suc)
  moreover have "mset ?g = mset gid" using more.prems by (intro sort_pass_mset) simp
  moreover have "sorted (stride_loop s ?g) \<and> mset (stride_loop s ?g) = mset ?g" using more by simp
  ultimately show ?case by simp
qed

lemma first_stride_knuth:
  "knuth_stride s \<Longrightarrow> s < n \<Longrightarrow> knuth_stride (first_stride n s div 3) \<and> first_stride n s div 3 < n"
proof (induction n s rule: first_stride.induct)
  case (1 n s)
  show ?case
  proof (cases "3 * s + 1 < n")
    case True
    then show ?thesis using 1 knuth_stride.more by (simp add: first_stride.simps [of n s])
  next
    case False
    then have "first_stride n s = 3 * s + 1" using "1.prems"
      by (simp add: first_stride.simps [of n s] first_stride.simps [of n "3 * s + 1"] first_stride.simps [of n "Suc (3 * s)"])
    moreover have "(3 * s + 1) div 3 = s" by simp
    ultimately show ?thesis using "1.prems" by metis
  qed
qed

lemma groups_sort_sorts: "sorted (groups_sort gid) \<and> mset (groups_sort gid) = mset gid"
proof (cases "1 < length gid")
  case True
  show ?thesis
    unfolding groups_sort_def
    by (rule stride_loop_sorts) (use first_stride_knuth [OF knuth_stride.one True] in auto)
next
  case False
  then have "groups_sort gid = gid"
    by (simp add: groups_sort_def first_stride.simps [of _ "Suc 0"] stride_loop.simps [of 0])
  moreover have "sorted gid" using False by (cases gid) (auto simp: Suc_le_eq)
  ultimately show ?thesis by simp
qed

section \<open>The search\<close>

lemma groups_search_loop_iff:
  assumes "sorted gid" "right \<le> length gid"
  shows "groups_search_loop gid grp left right \<longleftrightarrow> (\<exists>i. left \<le> i \<and> i < right \<and> gid ! i = grp)"
  using assms
proof (induction gid grp left right rule: groups_search_loop.induct)
  case (1 gid grp left right)
  let ?mid = "(left + right) div 2"
  note unfold = groups_search_loop.simps [of gid grp left right]
  show ?case
  proof (cases "left < right")
    case False
    then show ?thesis by (simp add: unfold)
  next
    case True
    then have mid: "left \<le> ?mid" "?mid < right" "?mid < length gid" using "1.prems" by auto
    have mono: "i \<le> j \<Longrightarrow> j < length gid \<Longrightarrow> gid ! i \<le> gid ! j" for i j using "1.prems"(1) by (simp add: sorted_nth_mono)
    consider (gt) "grp > gid ! ?mid" | (lt) "grp < gid ! ?mid" "\<not> grp > gid ! ?mid" | (eq) "grp = gid ! ?mid"
      by (meson linorder_cases not_less_iff_gr_or_eq)
    then show ?thesis
    proof cases
      case gt
      have above: "?mid < i" if "gid ! i = grp" for i
        using mono [of i ?mid] gt that mid by (meson leI leD)
      have "groups_search_loop gid grp left right \<longleftrightarrow> (\<exists>i. ?mid + 1 \<le> i \<and> i < right \<and> gid ! i = grp)"
        using "1.IH"(1) [OF True refl gt] "1.prems" True gt by (simp add: unfold Let_def)
      also have "\<dots> \<longleftrightarrow> (\<exists>i. left \<le> i \<and> i < right \<and> gid ! i = grp)"
        using above mid(1) by (intro iff_exI) (metis Suc_eq_plus1 Suc_leI le_trans less_imp_le_nat)
      finally show ?thesis .
    next
      case lt
      have "i < ?mid" if "left \<le> i" "i < right" "gid ! i = grp" for i
        using mono [of ?mid i] lt that "1.prems"(2) by (meson leI leD order_less_le_trans)
      then show ?thesis using "1.IH"(2) [OF True refl lt(2,1)] "1.prems" True lt mid
        by (auto simp: unfold Let_def)
    next
      case eq
      have "groups_search_loop gid grp left right" unfolding unfold Let_def if_P [OF True] using eq by simp
      then show ?thesis using eq mid by blast
    qed
  qed
qed

lemma groups_search_member: "sorted gid \<Longrightarrow> groups_search (Some gid) grp \<longleftrightarrow> grp \<in> set gid"
  by (auto simp: groups_search_def groups_search_loop_iff in_set_conv_nth)

section \<open>The system calls\<close>

lemma groups_from_user_Inr:
  "groups_from_user n grouplist = Inr gid \<longleftrightarrow>
   (\<forall>i < n. \<exists>g. grouplist i = Some g \<and> gid_valid g) \<and> gid = map (\<lambda>i. the (grouplist i)) [0..<n]"
proof (induction n arbitrary: gid)
  case (Suc n)
  show ?case
  proof (cases "groups_from_user n grouplist")
    case (Inl e)
    then have "\<not> (\<forall>i < n. \<exists>g. grouplist i = Some g \<and> gid_valid g)" using Suc by fastforce
    then show ?thesis using Inl less_Suc_eq by auto
  next
    case (Inr gs)
    then show ?thesis using Suc [of gs] by (auto simp: less_Suc_eq split: option.splits if_splits)
  qed
qed auto

lemma groups_from_user_Inl: "groups_from_user n grouplist = Inl e \<Longrightarrow> e = - EFAULT \<or> e = - EINVAL"
  by (induction n) (auto split: sum.splits option.splits if_splits)

lemma groups_sort_set: "set (groups_sort gid) = set gid"
  using groups_sort_sorts mset_eq_setD by blast

lemma groups_sort_length: "length (groups_sort gid) = length gid"
  using groups_sort_sorts mset_eq_length by blast

lemma small_sint: "uint w < 2 ^ 31 \<Longrightarrow> sint (w :: 32 word) = uint w"
  using signed_take_bit_int_eq_self [of 31 "uint w"] order_trans [of "- (2 ^ 31)" 0 "uint w"] by (simp add: sint_uint)

lemma groups_to_user_ok:
  assumes "\<forall>j < length gid. grouplist (i + j) \<noteq> None"
  shows "groups_to_user ov i gid grouplist =
    (0, \<lambda>k. if i \<le> k \<and> k < i + length gid then Some (from_kgid_munged ov (gid ! (k - i))) else grouplist k)"
  using assms
proof (induction gid arbitrary: i grouplist)
  case (Cons g gid)
  let ?g = "grouplist(i := Some (from_kgid_munged ov g))"
  obtain y where "grouplist i = Some y" using Cons.prems [rule_format, of 0] by auto
  then have "groups_to_user ov i (g # gid) grouplist = groups_to_user ov (i + 1) gid ?g" by simp
  also have "\<dots> = (0, \<lambda>k. if i + 1 \<le> k \<and> k < i + 1 + length gid
      then Some (from_kgid_munged ov (gid ! (k - (i + 1)))) else ?g k)"
    using Cons.prems [rule_format, of "Suc _"] by (intro Cons.IH) simp
  finally show ?case by (auto simp: fun_eq_iff nth_Cons')
qed (auto simp: fun_eq_iff)

section \<open>Properties\<close>

text \<open>C27 The Shell sort returns a sorted permutation of any group list, and the membership test of a task that
  has the sorted list (a binary search) accepts exactly the file system group and the members of the list.\<close>

theorem groups_sort_search:
  "sorted (groups_sort gid) \<and> mset (groups_sort gid) = mset gid \<and>
   (in_group_p (set_groups c (groups_sort gid)) grp \<longleftrightarrow> grp = fsgid c \<or> grp \<in> set gid)"
  using groups_sort_sorts [of gid] groups_search_member [of "groups_sort gid" grp]
  by (auto simp: in_group_p_def set_groups_def groups_sort_set)

text \<open>C28 A \<^verbatim>\<open>setgroups\<close> call that fails returns one of its errors and changes no credential; one that succeeds was
  made by a task with the capability, read only valid identifiers, and a following \<^verbatim>\<open>getgroups\<close> with a buffer of the
  same size hands out exactly the same identifiers, in ascending order.\<close>

theorem setgroups_getgroups:
  assumes "setgroups alloc_ok prepare_ok c gidsetsize grouplist = (ret, c')"
  shows "if ret \<noteq> 0 then c' = c \<and> ret \<in> {- EPERM, - EINVAL, - ENOMEM, - EFAULT}
    else CAP_SETGID \<in> capabilities c \<and> (\<forall>i < unat gidsetsize. \<exists>g. grouplist i = Some g \<and> gid_valid g) \<and>
      (\<exists>out grouplist'. getgroups overflowgid c' gidsetsize grouplist = (int (unat gidsetsize), grouplist') \<and>
         sorted out \<and> mset out = mset (map (\<lambda>i. the (grouplist i)) [0..<unat gidsetsize]) \<and>
         (gidsetsize = 0 \<or> map grouplist' [0..<unat gidsetsize] = map Some out))"
proof (cases "ret = 0")
  case False
  then show ?thesis using assms
    by (auto simp: setgroups_def set_current_groups_def split: if_splits sum.splits dest: groups_from_user_Inl)
next
  case True
  let ?n = "unat gidsetsize"
  let ?in = "map (\<lambda>i. the (grouplist i)) [0..<?n]"
  have cap: "CAP_SETGID \<in> capabilities c" and max: "gidsetsize \<le> NGROUPS_MAX"
    and valid: "\<forall>i < ?n. \<exists>g. grouplist i = Some g \<and> gid_valid g" and new: "group_info c' = Some (groups_sort ?in)"
    using assms True
    by (auto simp: setgroups_def set_current_groups_def set_groups_def may_setgroups_def errno_defs groups_from_user_Inr
        split: if_splits sum.splits dest: groups_from_user_Inl)
  have "uint gidsetsize < 2 ^ 31" using max by (simp add: NGROUPS_MAX_def word_le_def)
  then have sint: "sint gidsetsize = int ?n" by (simp add: small_sint)
  have munged: "from_kgid_munged overflowgid (groups_sort ?in ! k) = groups_sort ?in ! k" if "k < ?n" for k
    using valid nth_mem [of k "groups_sort ?in"] that
    by (auto simp: groups_sort_set groups_sort_length from_kgid_munged_def gid_valid_def)
  have user: "groups_to_user overflowgid 0 (groups_sort ?in) grouplist =
      (0, \<lambda>k. if k < ?n then Some (groups_sort ?in ! k) else grouplist k)"
    using valid by (subst groups_to_user_ok) (auto simp: groups_sort_length munged fun_eq_iff)
  let ?out = "\<lambda>k. if gidsetsize \<noteq> 0 \<and> k < ?n then Some (groups_sort ?in ! k) else grouplist k"
  have "getgroups overflowgid c' gidsetsize grouplist = (int ?n, ?out)"
    using user unfolding getgroups_def new Let_def by (auto simp: sint groups_sort_length)
  moreover have "gidsetsize = 0 \<or> map ?out [0..<?n] = map Some (groups_sort ?in)"
    by (auto simp: groups_sort_length intro!: nth_equalityI)
  ultimately show ?thesis
    using True cap valid groups_sort_sorts [of ?in] by auto
qed

text \<open>A task with the capability sets three groups.\<close>

definition group_setter :: cred where
  "group_setter = \<lparr>fsuid = 0, fsgid = 0, egid = 0, group_info = Some [], capabilities = {CAP_SETGID}, cr_umask = 18\<rparr>"

theorem setgroups_getgroups_witness:
  "fst (setgroups True True group_setter 3 [0 \<mapsto> 30, 1 \<mapsto> 10, 2 \<mapsto> 20]) = 0 \<and>
   fst (getgroups 65534 (snd (setgroups True True group_setter 3 [0 \<mapsto> 30, 1 \<mapsto> 10, 2 \<mapsto> 20])) 3
          [0 \<mapsto> 30, 1 \<mapsto> 10, 2 \<mapsto> 20]) = 3"
proof -
  let ?u = "[0 \<mapsto> 30, 1 \<mapsto> 10, 2 \<mapsto> 20] :: user_gids"
  have "fst (setgroups True True group_setter 3 ?u) = 0"
    by code_simp
  moreover note setgroups_getgroups [of True True group_setter 3 ?u "fst (setgroups True True group_setter 3 ?u)"
      "snd (setgroups True True group_setter 3 ?u)" 65534, OF prod.collapse [symmetric]]
  ultimately show ?thesis by auto
qed

end
