(* ===== verification/Posix_Acl.thy ===== *)
theory Posix_Acl
  imports Group_Lists "HOL-Library.Word"
begin

text \<open>
  The access control lists of \<^verbatim>\<open>fs/posix_acl.c\<close>.  An ACL is the list of its \<^verbatim>\<open>a_count\<close> entries; the handle
  \<^verbatim>\<open>struct posix_acl *\<close> is an option, and a pointer that may also hold an error is \<open>int + acl option\<close>.  Reference counts
  and RCU are left out: every holder has its own copy of an immutable list.  Memory the allocator hands out is
  \<open>Some f\<close> with its old contents \<open>f\<close>, or \<open>None\<close> when there is none, so that a field the code leaves unset keeps what
  was there.  The operations \<^verbatim>\<open>get_acl\<close> and \<^verbatim>\<open>set_acl\<close> of a file system are arguments.  Without user namespaces
  (the configured build) identifiers are mapped to themselves.
\<close>

unbundle bit_operations_syntax

section \<open>Data\<close>

definition ACL_USER_OBJ :: "16 word" where "ACL_USER_OBJ = 0x01"
definition ACL_USER :: "16 word" where "ACL_USER = 0x02"
definition ACL_GROUP_OBJ :: "16 word" where "ACL_GROUP_OBJ = 0x04"
definition ACL_GROUP :: "16 word" where "ACL_GROUP = 0x08"
definition ACL_MASK :: "16 word" where "ACL_MASK = 0x10"
definition ACL_OTHER :: "16 word" where "ACL_OTHER = 0x20"

lemmas acl_tags = ACL_USER_OBJ_def ACL_USER_def ACL_GROUP_OBJ_def ACL_GROUP_def ACL_MASK_def ACL_OTHER_def

definition S_IRWXU :: "16 word" where "S_IRWXU = 448"
definition S_IRWXG :: "16 word" where "S_IRWXG = 56"
definition S_IRWXO :: "16 word" where "S_IRWXO = 7"
definition S_IRWXUGO :: "16 word" where "S_IRWXUGO = 511"
definition S_IXUGO :: "16 word" where "S_IXUGO = 73"
definition S_IXGRP :: "16 word" where "S_IXGRP = 8"
definition S_ISVTX :: "16 word" where "S_ISVTX = 0x200"
definition S_ISUID :: "16 word" where "S_ISUID = 0x800"
definition S_ISGID :: "16 word" where "S_ISGID = 0x400"
definition S_IFMT :: "16 word" where "S_IFMT = 0xF000"
definition S_IFREG :: "16 word" where "S_IFREG = 0x8000"
definition S_IFLNK :: "16 word" where "S_IFLNK = 0xA000"
definition S_IFDIR :: "16 word" where "S_IFDIR = 0x4000"

lemmas mode_defs = S_IRWXU_def S_IRWXG_def S_IRWXO_def S_IRWXUGO_def S_IXUGO_def S_IXGRP_def S_ISVTX_def S_ISUID_def S_ISGID_def
  S_IFMT_def S_IFREG_def S_IFLNK_def S_IFDIR_def

definition S_ISLNK :: "16 word \<Rightarrow> bool" where "S_ISLNK m \<longleftrightarrow> m AND S_IFMT = S_IFLNK"
definition S_ISREG :: "16 word \<Rightarrow> bool" where "S_ISREG m \<longleftrightarrow> m AND S_IFMT = S_IFREG"
definition S_ISDIR :: "16 word \<Rightarrow> bool" where "S_ISDIR m \<longleftrightarrow> m AND S_IFMT = S_IFDIR"

definition MAY_EXEC :: "32 word" where "MAY_EXEC = 1"
definition MAY_WRITE :: "32 word" where "MAY_WRITE = 2"
definition MAY_READ :: "32 word" where "MAY_READ = 4"
definition MAY_NOT_BLOCK :: "32 word" where "MAY_NOT_BLOCK = 0x80"

lemmas may_defs = MAY_EXEC_def MAY_WRITE_def MAY_READ_def MAY_NOT_BLOCK_def

definition CAP_CHOWN :: nat where "CAP_CHOWN = 0"
definition CAP_DAC_OVERRIDE :: nat where "CAP_DAC_OVERRIDE = 1"
definition CAP_DAC_READ_SEARCH :: nat where "CAP_DAC_READ_SEARCH = 2"
definition CAP_FOWNER :: nat where "CAP_FOWNER = 3"
definition CAP_FSETID :: nat where "CAP_FSETID = 4"

record acl_entry =
  e_tag :: "16 word"
  e_perm :: "16 word"
  e_id :: "32 word"

type_synonym acl = "acl_entry list"

type_synonym fresh_memory = "(nat \<Rightarrow> acl_entry) option"

datatype acl_type = ACL_TYPE_ACCESS | ACL_TYPE_DEFAULT

text \<open>What a cache field of an inode holds: one of the two marks, the sentinel of a task that is reading the ACL, or
  the cached handle.\<close>

datatype acl_cache = ACL_NOT_CACHED | ACL_DONT_CACHE | Sentinel nat | Cached "acl option"

record timespec =
  tv_sec :: int
  tv_nsec :: int

record inode =
  i_mode :: "16 word"
  i_uid :: "32 word"
  i_gid :: "32 word"
  i_size :: int
  i_atime :: timespec
  i_mtime :: timespec
  i_ctime :: timespec
  i_posixacl :: bool
  i_acl :: acl_cache
  i_default_acl :: acl_cache
  i_immutable :: bool
  i_append :: bool
  i_swapfile :: bool
  i_dead :: bool
  i_nosec :: bool
  i_fastperm :: bool
  s_rdonly :: bool
  s_maxbytes :: int
  s_time_gran :: int

type_synonym get_acl_op = "(inode \<Rightarrow> acl_type \<Rightarrow> (int + acl option) \<times> inode) option"
type_synonym set_acl_op = "(inode \<Rightarrow> acl option \<Rightarrow> acl_type \<Rightarrow> int \<times> inode) option"

section \<open>Identifiers and capabilities\<close>

definition uid_valid :: "32 word \<Rightarrow> bool" where
  "uid_valid uid \<longleftrightarrow> uid \<noteq> -1"

definition kuid_has_mapping :: "32 word \<Rightarrow> bool" where
  "kuid_has_mapping uid \<longleftrightarrow> uid_valid uid"

definition kgid_has_mapping :: "32 word \<Rightarrow> bool" where
  "kgid_has_mapping gid \<longleftrightarrow> gid_valid gid"

definition privileged_wrt_inode_uidgid :: "inode \<Rightarrow> bool" where
  "privileged_wrt_inode_uidgid inode \<longleftrightarrow> kuid_has_mapping (i_uid inode) \<and> kgid_has_mapping (i_gid inode)"

definition capable_wrt_inode_uidgid :: "cred \<Rightarrow> inode \<Rightarrow> nat \<Rightarrow> bool" where
  "capable_wrt_inode_uidgid c inode cap \<longleftrightarrow> cap \<in> capabilities c \<and> privileged_wrt_inode_uidgid inode"

definition inode_owner_or_capable :: "cred \<Rightarrow> inode \<Rightarrow> bool" where
  "inode_owner_or_capable c inode =
     (if fsuid c = i_uid inode then True
      else if CAP_FOWNER \<in> capabilities c \<and> kuid_has_mapping (i_uid inode) then True
      else False)"

section \<open>The cache of an inode\<close>

definition is_uncached_acl :: "acl_cache \<Rightarrow> bool" where
  "is_uncached_acl a = (case a of Cached _ \<Rightarrow> False | _ \<Rightarrow> True)"

definition acl_by_type :: "inode \<Rightarrow> acl_type \<Rightarrow> acl_cache" where
  "acl_by_type inode type = (case type of ACL_TYPE_ACCESS \<Rightarrow> i_acl inode | ACL_TYPE_DEFAULT \<Rightarrow> i_default_acl inode)"

definition store_acl_by_type :: "inode \<Rightarrow> acl_type \<Rightarrow> acl_cache \<Rightarrow> inode" where
  "store_acl_by_type inode type a =
     (case type of ACL_TYPE_ACCESS \<Rightarrow> inode\<lparr>i_acl := a\<rparr> | ACL_TYPE_DEFAULT \<Rightarrow> inode\<lparr>i_default_acl := a\<rparr>)"

definition get_cached_acl :: "inode \<Rightarrow> acl_type \<Rightarrow> acl_cache" where
  "get_cached_acl inode type = acl_by_type inode type"

definition get_cached_acl_rcu :: "inode \<Rightarrow> acl_type \<Rightarrow> acl_cache" where
  "get_cached_acl_rcu inode type = acl_by_type inode type"

definition set_cached_acl :: "inode \<Rightarrow> acl_type \<Rightarrow> acl option \<Rightarrow> inode" where
  "set_cached_acl inode type acl = store_acl_by_type inode type (Cached acl)"

definition forget_cached_acl :: "inode \<Rightarrow> acl_type \<Rightarrow> inode" where
  "forget_cached_acl inode type = store_acl_by_type inode type ACL_NOT_CACHED"

definition forget_all_cached_acls :: "inode \<Rightarrow> inode" where
  "forget_all_cached_acls inode = forget_cached_acl (forget_cached_acl inode ACL_TYPE_ACCESS) ACL_TYPE_DEFAULT"

definition cmpxchg_acl :: "inode \<Rightarrow> acl_type \<Rightarrow> acl_cache \<Rightarrow> acl_cache \<Rightarrow> inode" where
  "cmpxchg_acl inode type old new = (if acl_by_type inode type = old then store_acl_by_type inode type new else inode)"

text \<open>The operation of the file system may change the inode, its caches included: that is where another task can
  come in between.\<close>

definition get_acl :: "nat \<Rightarrow> get_acl_op \<Rightarrow> inode \<Rightarrow> acl_type \<Rightarrow> (int + acl option) \<times> inode" where
  "get_acl task op inode type =
     (case get_cached_acl inode type of
        Cached acl \<Rightarrow> (Inr acl, inode)
      | _ \<Rightarrow>
        if \<not> i_posixacl inode then (Inr None, inode)
        else
          let inode1 = cmpxchg_acl inode type ACL_NOT_CACHED (Sentinel task) in
          (case op of
             None \<Rightarrow> (Inr None, set_cached_acl inode1 type None)
           | Some get \<Rightarrow>
               (case get inode1 type of
                  (Inl err, inode2) \<Rightarrow> (Inl err, cmpxchg_acl inode2 type (Sentinel task) ACL_NOT_CACHED)
                | (Inr acl, inode2) \<Rightarrow> (Inr acl, cmpxchg_acl inode2 type (Sentinel task) (Cached acl)))))"

section \<open>Lists of entries\<close>

definition posix_acl_alloc :: "fresh_memory \<Rightarrow> nat \<Rightarrow> acl option" where
  "posix_acl_alloc mem a_count = map_option (\<lambda>m. map m [0..<a_count]) mem"

definition posix_acl_clone :: "bool \<Rightarrow> acl option \<Rightarrow> acl option" where
  "posix_acl_clone memory_ok acl = (case acl of None \<Rightarrow> None | Some a \<Rightarrow> if memory_ok then Some a else None)"

fun valid_loop :: "16 word \<Rightarrow> bool \<Rightarrow> acl \<Rightarrow> int" where
  "valid_loop state needs_mask [] = (if state = 0 then 0 else - EINVAL)"
| "valid_loop state needs_mask (pa # rest) =
     (if e_perm pa AND NOT 7 \<noteq> 0 then - EINVAL
      else if e_tag pa = ACL_USER_OBJ then
        if state = ACL_USER_OBJ then valid_loop ACL_USER needs_mask rest else - EINVAL
      else if e_tag pa = ACL_USER then
        if state \<noteq> ACL_USER then - EINVAL
        else if \<not> kuid_has_mapping (e_id pa) then - EINVAL
        else valid_loop state True rest
      else if e_tag pa = ACL_GROUP_OBJ then
        if state = ACL_USER then valid_loop ACL_GROUP needs_mask rest else - EINVAL
      else if e_tag pa = ACL_GROUP then
        if state \<noteq> ACL_GROUP then - EINVAL
        else if \<not> kgid_has_mapping (e_id pa) then - EINVAL
        else valid_loop state True rest
      else if e_tag pa = ACL_MASK then
        if state \<noteq> ACL_GROUP then - EINVAL else valid_loop ACL_OTHER needs_mask rest
      else if e_tag pa = ACL_OTHER then
        if state = ACL_OTHER \<or> state = ACL_GROUP \<and> \<not> needs_mask then valid_loop 0 needs_mask rest else - EINVAL
      else - EINVAL)"

definition posix_acl_valid :: "acl \<Rightarrow> int" where
  "posix_acl_valid acl = valid_loop ACL_USER_OBJ False acl"

text \<open>The result is the return value and the mode bits collected, as the caller gets them in \<^verbatim>\<open>*mode_p\<close>.\<close>

fun equiv_loop :: "16 word \<Rightarrow> int \<Rightarrow> acl \<Rightarrow> int + 16 word \<times> int" where
  "equiv_loop mode not_equiv [] = Inr (mode, not_equiv)"
| "equiv_loop mode not_equiv (pa # rest) =
     (if e_tag pa = ACL_USER_OBJ then equiv_loop (mode OR push_bit 6 (e_perm pa AND S_IRWXO)) not_equiv rest
      else if e_tag pa = ACL_GROUP_OBJ then equiv_loop (mode OR push_bit 3 (e_perm pa AND S_IRWXO)) not_equiv rest
      else if e_tag pa = ACL_OTHER then equiv_loop (mode OR (e_perm pa AND S_IRWXO)) not_equiv rest
      else if e_tag pa = ACL_MASK then
        equiv_loop (mode AND NOT S_IRWXG OR push_bit 3 (e_perm pa AND S_IRWXO)) 1 rest
      else if e_tag pa = ACL_USER \<or> e_tag pa = ACL_GROUP then equiv_loop mode 1 rest
      else Inl (- EINVAL))"

definition posix_acl_equiv_mode :: "acl option \<Rightarrow> 16 word \<Rightarrow> int \<times> 16 word" where
  "posix_acl_equiv_mode acl mode_p =
     (case acl of
        None \<Rightarrow> (0, mode_p)
      | Some a \<Rightarrow>
          (case equiv_loop 0 0 a of
             Inl err \<Rightarrow> (err, mode_p)
           | Inr (mode, not_equiv) \<Rightarrow> (not_equiv, mode_p AND NOT S_IRWXUGO OR mode)))"

definition posix_acl_from_mode :: "fresh_memory \<Rightarrow> 16 word \<Rightarrow> int + acl" where
  "posix_acl_from_mode mem mode =
     (case posix_acl_alloc mem 3 of
        None \<Rightarrow> Inl (- ENOMEM)
      | Some acl \<Rightarrow>
          Inr [(acl ! 0)\<lparr>e_tag := ACL_USER_OBJ, e_perm := drop_bit 6 (mode AND S_IRWXU)\<rparr>,
               (acl ! 1)\<lparr>e_tag := ACL_GROUP_OBJ, e_perm := drop_bit 3 (mode AND S_IRWXG)\<rparr>,
               (acl ! 2)\<lparr>e_tag := ACL_OTHER, e_perm := mode AND S_IRWXO\<rparr>])"

section \<open>The permission check\<close>

definition grants :: "16 word \<Rightarrow> 32 word \<Rightarrow> bool" where
  "grants perm want \<longleftrightarrow> ucast perm AND want = want"

definition check_perm :: "acl_entry \<Rightarrow> 32 word \<Rightarrow> int" where
  "check_perm pa want = (if grants (e_perm pa) want then 0 else - EACCES)"

fun mask_label :: "acl_entry \<Rightarrow> acl \<Rightarrow> 32 word \<Rightarrow> int" where
  "mask_label pa [] want = check_perm pa want"
| "mask_label pa (mask_obj # rest) want =
     (if e_tag mask_obj = ACL_MASK then
        if grants (e_perm pa AND e_perm mask_obj) want then 0 else - EACCES
      else mask_label pa rest want)"

fun permission_loop :: "cred \<Rightarrow> inode \<Rightarrow> 32 word \<Rightarrow> bool \<Rightarrow> acl \<Rightarrow> int" where
  "permission_loop c inode want found [] = - EIO"
| "permission_loop c inode want found (pa # rest) =
     (if e_tag pa = ACL_USER_OBJ then
        if i_uid inode = fsuid c then check_perm pa want else permission_loop c inode want found rest
      else if e_tag pa = ACL_USER then
        if e_id pa = fsuid c then mask_label pa rest want else permission_loop c inode want found rest
      else if e_tag pa = ACL_GROUP_OBJ then
        if in_group_p c (i_gid inode) then
          if grants (e_perm pa) want then mask_label pa rest want else permission_loop c inode want True rest
        else permission_loop c inode want found rest
      else if e_tag pa = ACL_GROUP then
        if in_group_p c (e_id pa) then
          if grants (e_perm pa) want then mask_label pa rest want else permission_loop c inode want True rest
        else permission_loop c inode want found rest
      else if e_tag pa = ACL_MASK then permission_loop c inode want found rest
      else if e_tag pa = ACL_OTHER then if found then - EACCES else check_perm pa want
      else - EIO)"

definition posix_acl_permission :: "cred \<Rightarrow> inode \<Rightarrow> acl \<Rightarrow> 32 word \<Rightarrow> int" where
  "posix_acl_permission c inode acl want =
     permission_loop c inode (want AND (MAY_READ OR MAY_WRITE OR MAY_EXEC OR MAY_NOT_BLOCK)) False acl"

section \<open>Changing an ACL\<close>

text \<open>The variables of the loops that mask an ACL: the mode, the entries the pointers \<^verbatim>\<open>group_obj\<close> and \<^verbatim>\<open>mask_obj\<close>
  refer to and the return value.\<close>

record masq =
  mq_mode :: "16 word"
  mq_group_obj :: "nat option"
  mq_mask_obj :: "nat option"
  mq_not_equiv :: int

definition create_masq_entry :: "nat \<Rightarrow> acl_entry \<Rightarrow> masq \<Rightarrow> int + acl_entry \<times> masq" where
  "create_masq_entry i pa q =
     (if e_tag pa = ACL_USER_OBJ then
        let perm = e_perm pa AND (drop_bit 6 (mq_mode q) OR NOT S_IRWXO) in
        Inr (pa\<lparr>e_perm := perm\<rparr>, q\<lparr>mq_mode := mq_mode q AND (push_bit 6 perm OR NOT S_IRWXU)\<rparr>)
      else if e_tag pa = ACL_USER \<or> e_tag pa = ACL_GROUP then Inr (pa, q\<lparr>mq_not_equiv := 1\<rparr>)
      else if e_tag pa = ACL_GROUP_OBJ then Inr (pa, q\<lparr>mq_group_obj := Some i\<rparr>)
      else if e_tag pa = ACL_OTHER then
        let perm = e_perm pa AND (mq_mode q OR NOT S_IRWXO) in
        Inr (pa\<lparr>e_perm := perm\<rparr>, q\<lparr>mq_mode := mq_mode q AND (perm OR NOT S_IRWXO)\<rparr>)
      else if e_tag pa = ACL_MASK then Inr (pa, q\<lparr>mq_mask_obj := Some i, mq_not_equiv := 1\<rparr>)
      else Inl (- EIO))"

definition chmod_masq_entry :: "16 word \<Rightarrow> nat \<Rightarrow> acl_entry \<Rightarrow> masq \<Rightarrow> int + acl_entry \<times> masq" where
  "chmod_masq_entry mode i pa q =
     (if e_tag pa = ACL_USER_OBJ then Inr (pa\<lparr>e_perm := drop_bit 6 (mode AND S_IRWXU)\<rparr>, q)
      else if e_tag pa = ACL_USER \<or> e_tag pa = ACL_GROUP then Inr (pa, q)
      else if e_tag pa = ACL_GROUP_OBJ then Inr (pa, q\<lparr>mq_group_obj := Some i\<rparr>)
      else if e_tag pa = ACL_MASK then Inr (pa, q\<lparr>mq_mask_obj := Some i\<rparr>)
      else if e_tag pa = ACL_OTHER then Inr (pa\<lparr>e_perm := mode AND S_IRWXO\<rparr>, q)
      else Inl (- EIO))"

text \<open>The \<^verbatim>\<open>FOREACH_ACL_ENTRY\<close> loop of both: it changes each entry in place.\<close>

fun masq_loop :: "(nat \<Rightarrow> acl_entry \<Rightarrow> masq \<Rightarrow> int + acl_entry \<times> masq) \<Rightarrow> nat \<Rightarrow> acl \<Rightarrow> masq \<Rightarrow> int + acl \<times> masq" where
  "masq_loop body i [] q = Inr ([], q)"
| "masq_loop body i (pa # rest) q =
     (case body i pa q of
        Inl err \<Rightarrow> Inl err
      | Inr (pa', q') \<Rightarrow>
          (case masq_loop body (i + 1) rest q' of
             Inl err \<Rightarrow> Inl err
           | Inr (rest', q'') \<Rightarrow> Inr (pa' # rest', q'')))"

definition posix_acl_create_masq :: "acl \<Rightarrow> 16 word \<Rightarrow> int + int \<times> acl \<times> 16 word" where
  "posix_acl_create_masq acl mode_p =
     (case masq_loop create_masq_entry 0 acl
             \<lparr>mq_mode = mode_p, mq_group_obj = None, mq_mask_obj = None, mq_not_equiv = 0\<rparr> of
        Inl err \<Rightarrow> Inl err
      | Inr (a, q) \<Rightarrow>
          (case (case mq_mask_obj q of Some i \<Rightarrow> Some i | None \<Rightarrow> mq_group_obj q) of
             None \<Rightarrow> Inl (- EIO)
           | Some i \<Rightarrow>
               let perm = e_perm (a ! i) AND (drop_bit 3 (mq_mode q) OR NOT S_IRWXO);
                   mode = mq_mode q AND (push_bit 3 perm OR NOT S_IRWXG)
               in Inr (mq_not_equiv q, a[i := (a ! i)\<lparr>e_perm := perm\<rparr>], mode_p AND NOT S_IRWXUGO OR mode)))"

definition posix_acl_chmod_masq :: "acl \<Rightarrow> 16 word \<Rightarrow> int + acl" where
  "posix_acl_chmod_masq acl mode =
     (case masq_loop (chmod_masq_entry mode) 0 acl
             \<lparr>mq_mode = mode, mq_group_obj = None, mq_mask_obj = None, mq_not_equiv = 0\<rparr> of
        Inl err \<Rightarrow> Inl err
      | Inr (a, q) \<Rightarrow>
          (case (case mq_mask_obj q of Some i \<Rightarrow> Some i | None \<Rightarrow> mq_group_obj q) of
             None \<Rightarrow> Inl (- EIO)
           | Some i \<Rightarrow> Inr (a[i := (a ! i)\<lparr>e_perm := drop_bit 3 (mode AND S_IRWXG)\<rparr>])))"

text \<open>\<^verbatim>\<open>__posix_acl_create\<close> and \<^verbatim>\<open>__posix_acl_chmod\<close>: the result, the new value of \<^verbatim>\<open>*acl\<close> and of \<^verbatim>\<open>*mode_p\<close>.\<close>

definition posix_acl_create_copy :: "bool \<Rightarrow> acl option \<Rightarrow> 16 word \<Rightarrow> int \<times> acl option \<times> 16 word" where
  "posix_acl_create_copy memory_ok acl mode_p =
     (case posix_acl_clone memory_ok acl of
        None \<Rightarrow> (- ENOMEM, None, mode_p)
      | Some clone \<Rightarrow>
          (case posix_acl_create_masq clone mode_p of
             Inl err \<Rightarrow> (err, None, mode_p)
           | Inr (err, clone', mode) \<Rightarrow> (err, Some clone', mode)))"

definition posix_acl_chmod_copy :: "bool \<Rightarrow> acl option \<Rightarrow> 16 word \<Rightarrow> int \<times> acl option" where
  "posix_acl_chmod_copy memory_ok acl mode =
     (case posix_acl_clone memory_ok acl of
        None \<Rightarrow> (- ENOMEM, None)
      | Some clone \<Rightarrow> (case posix_acl_chmod_masq clone mode of Inl err \<Rightarrow> (err, None) | Inr clone' \<Rightarrow> (0, Some clone')))"

section \<open>Operations on inodes\<close>

definition posix_acl_chmod :: "nat \<Rightarrow> bool \<Rightarrow> get_acl_op \<Rightarrow> set_acl_op \<Rightarrow> inode \<Rightarrow> 16 word \<Rightarrow> int \<times> inode" where
  "posix_acl_chmod task memory_ok gop sop inode mode =
     (if \<not> i_posixacl inode then (0, inode)
      else case sop of
        None \<Rightarrow> (- EOPNOTSUPP, inode)
      | Some set_acl \<Rightarrow>
          (case get_acl task gop inode ACL_TYPE_ACCESS of
             (Inl err, inode1) \<Rightarrow> (if err = - EOPNOTSUPP then 0 else err, inode1)
           | (Inr None, inode1) \<Rightarrow> (0, inode1)
           | (Inr (Some acl), inode1) \<Rightarrow>
               (case posix_acl_chmod_copy memory_ok (Some acl) mode of
                  (ret, acl') \<Rightarrow> if ret \<noteq> 0 then (ret, inode1) else set_acl inode1 acl' ACL_TYPE_ACCESS)))"

text \<open>The result of \<^verbatim>\<open>posix_acl_create\<close>: its value, the mode, the default and the access ACL of the new inode and the
  directory, whose cache may be filled.\<close>

definition posix_acl_create ::
  "nat \<Rightarrow> bool \<Rightarrow> get_acl_op \<Rightarrow> cred \<Rightarrow> inode \<Rightarrow> 16 word \<Rightarrow> int \<times> 16 word \<times> acl option \<times> acl option \<times> inode" where
  "posix_acl_create task memory_ok gop c dir mode =
     (if S_ISLNK mode \<or> \<not> i_posixacl dir then (0, mode, None, None, dir)
      else case get_acl task gop dir ACL_TYPE_DEFAULT of
        (Inr None, dir1) \<Rightarrow> (0, mode AND NOT (cr_umask c), None, None, dir1)
      | (Inl err, dir1) \<Rightarrow>
          if err = - EOPNOTSUPP then (0, mode AND NOT (cr_umask c), None, None, dir1) else (err, mode, None, None, dir1)
      | (Inr (Some p), dir1) \<Rightarrow>
          (case posix_acl_clone memory_ok (Some p) of
             None \<Rightarrow> (- ENOMEM, mode, None, None, dir1)
           | Some clone \<Rightarrow>
               (case posix_acl_create_masq clone mode of
                  Inl err \<Rightarrow> (err, mode, None, None, dir1)
                | Inr (ret, clone', mode') \<Rightarrow>
                    (0, mode', if \<not> S_ISDIR mode' then None else Some p, if ret = 0 then None else Some clone', dir1))))"

text \<open>The result of \<^verbatim>\<open>posix_acl_update_mode\<close>: its value, the new mode and the ACL that is to be stored.\<close>

definition posix_acl_update_mode :: "cred \<Rightarrow> inode \<Rightarrow> 16 word \<Rightarrow> acl option \<Rightarrow> int \<times> 16 word \<times> acl option" where
  "posix_acl_update_mode c inode mode_p acl =
     (case posix_acl_equiv_mode acl (i_mode inode) of
        (err, mode) \<Rightarrow>
          if err < 0 then (err, mode_p, acl)
          else
            (0,
             if \<not> in_group_p c (i_gid inode) \<and> \<not> capable_wrt_inode_uidgid c inode CAP_FSETID
               then mode AND NOT S_ISGID else mode,
             if err = 0 then None else acl))"

definition set_posix_acl :: "set_acl_op \<Rightarrow> cred \<Rightarrow> inode \<Rightarrow> acl_type \<Rightarrow> acl option \<Rightarrow> int \<times> inode" where
  "set_posix_acl sop c inode type acl =
     (if \<not> i_posixacl inode then (- EOPNOTSUPP, inode)
      else case sop of
        None \<Rightarrow> (- EOPNOTSUPP, inode)
      | Some set_acl \<Rightarrow>
          if type = ACL_TYPE_DEFAULT \<and> \<not> S_ISDIR (i_mode inode) then
            (if acl \<noteq> None then - EACCES else 0, inode)
          else if \<not> inode_owner_or_capable c inode then (- EPERM, inode)
          else case acl of
            Some a \<Rightarrow>
              if posix_acl_valid a \<noteq> 0 then (posix_acl_valid a, inode) else set_acl inode acl type
          | None \<Rightarrow> set_acl inode acl type)"

text \<open>The memory file systems keep their ACLs in the cache only.\<close>

definition simple_set_acl :: "cred \<Rightarrow> timespec \<Rightarrow> inode \<Rightarrow> acl option \<Rightarrow> acl_type \<Rightarrow> int \<times> inode" where
  "simple_set_acl c now inode acl type =
     (case (if type = ACL_TYPE_ACCESS then posix_acl_update_mode c inode (i_mode inode) acl
            else (0, i_mode inode, acl)) of
        (err, mode, acl') \<Rightarrow>
          if err \<noteq> 0 then (err, inode)
          else (0, set_cached_acl (inode\<lparr>i_mode := mode, i_ctime := now\<rparr>) type acl'))"

definition simple_acl_create ::
  "nat \<Rightarrow> bool \<Rightarrow> get_acl_op \<Rightarrow> cred \<Rightarrow> inode \<Rightarrow> inode \<Rightarrow> int \<times> inode \<times> inode" where
  "simple_acl_create task memory_ok gop c dir inode =
     (case posix_acl_create task memory_ok gop c dir (i_mode inode) of
        (err, mode, default_acl, acl, dir1) \<Rightarrow>
          if err \<noteq> 0 then (err, dir1, inode\<lparr>i_mode := mode\<rparr>)
          else (0, dir1, set_cached_acl (set_cached_acl (inode\<lparr>i_mode := mode\<rparr>) ACL_TYPE_DEFAULT default_acl)
                  ACL_TYPE_ACCESS acl))"

end
