(* ===== verification/Posix_Acl_Facts.thy ===== *)
theory Posix_Acl_Facts
  imports Posix_Acl
begin

text \<open>
  Lemmas on access control lists: the shape of a valid list, the permission check against the algorithm of the POSIX
  draft, the mode bits of a list, and what masking a list on creation and on chmod does.
\<close>

unbundle bit_operations_syntax

section \<open>The shape of a valid list\<close>

definition rwx :: "acl_entry \<Rightarrow> bool" where
  "rwx e \<longleftrightarrow> e_perm e AND NOT 7 = 0"

definition tagged :: "16 word \<Rightarrow> acl_entry \<Rightarrow> bool" where
  "tagged t e \<longleftrightarrow> e_tag e = t \<and> rwx e"

definition named :: "16 word \<Rightarrow> acl_entry \<Rightarrow> bool" where
  "named t e \<longleftrightarrow> tagged t e \<and> e_id e \<noteq> -1"

text \<open>An owner entry, named users, the owning group, named groups, at most one mask (at least one when there are named
  entries) and the entry for the others.\<close>

definition acl_shape :: "acl_entry \<Rightarrow> acl \<Rightarrow> acl_entry \<Rightarrow> acl \<Rightarrow> acl \<Rightarrow> acl_entry \<Rightarrow> bool" where
  "acl_shape uo us go gs ms ot \<longleftrightarrow>
     tagged ACL_USER_OBJ uo \<and> (\<forall>u \<in> set us. named ACL_USER u) \<and> tagged ACL_GROUP_OBJ go \<and>
     (\<forall>g \<in> set gs. named ACL_GROUP g) \<and> (\<forall>m \<in> set ms. tagged ACL_MASK m) \<and> length ms \<le> 1 \<and>
     tagged ACL_OTHER ot \<and> (us \<noteq> [] \<or> gs \<noteq> [] \<longrightarrow> ms \<noteq> [])"

abbreviation acl_of :: "acl_entry \<Rightarrow> acl \<Rightarrow> acl_entry \<Rightarrow> acl \<Rightarrow> acl \<Rightarrow> acl_entry \<Rightarrow> acl" where
  "acl_of uo us go gs ms ot \<equiv> uo # us @ go # gs @ ms @ [ot]"

lemma tag_neq [simp]:
  "ACL_USER_OBJ \<noteq> ACL_USER" "ACL_USER_OBJ \<noteq> ACL_GROUP_OBJ" "ACL_USER_OBJ \<noteq> ACL_GROUP" "ACL_USER_OBJ \<noteq> ACL_MASK"
  "ACL_USER_OBJ \<noteq> ACL_OTHER" "ACL_USER \<noteq> ACL_USER_OBJ" "ACL_USER \<noteq> ACL_GROUP_OBJ" "ACL_USER \<noteq> ACL_GROUP"
  "ACL_USER \<noteq> ACL_MASK" "ACL_USER \<noteq> ACL_OTHER" "ACL_GROUP_OBJ \<noteq> ACL_USER_OBJ" "ACL_GROUP_OBJ \<noteq> ACL_USER"
  "ACL_GROUP_OBJ \<noteq> ACL_GROUP" "ACL_GROUP_OBJ \<noteq> ACL_MASK" "ACL_GROUP_OBJ \<noteq> ACL_OTHER" "ACL_GROUP \<noteq> ACL_USER_OBJ"
  "ACL_GROUP \<noteq> ACL_USER" "ACL_GROUP \<noteq> ACL_GROUP_OBJ" "ACL_GROUP \<noteq> ACL_MASK" "ACL_GROUP \<noteq> ACL_OTHER"
  "ACL_MASK \<noteq> ACL_USER_OBJ" "ACL_MASK \<noteq> ACL_USER" "ACL_MASK \<noteq> ACL_GROUP_OBJ" "ACL_MASK \<noteq> ACL_GROUP"
  "ACL_MASK \<noteq> ACL_OTHER" "ACL_OTHER \<noteq> ACL_USER_OBJ" "ACL_OTHER \<noteq> ACL_USER" "ACL_OTHER \<noteq> ACL_GROUP_OBJ"
  "ACL_OTHER \<noteq> ACL_GROUP" "ACL_OTHER \<noteq> ACL_MASK" "ACL_USER_OBJ \<noteq> 0" "ACL_USER \<noteq> 0" "ACL_GROUP \<noteq> 0" "ACL_OTHER \<noteq> 0"
  by (simp_all add: acl_tags)

lemma EINVAL_not_0 [simp]: "EINVAL \<noteq> 0"
  by (simp add: EINVAL_def)

lemma rwx_iff: "rwx e \<longleftrightarrow> e_perm e AND NOT 7 = 0"
  by (simp add: rwx_def)

lemma valid_0: "valid_loop 0 nm acl = 0 \<longleftrightarrow> acl = []"
  by (cases acl) auto

lemma valid_OTHER: "valid_loop ACL_OTHER nm acl = 0 \<longleftrightarrow> (\<exists>ot. acl = [ot] \<and> tagged ACL_OTHER ot)"
  by (cases acl) (auto simp: valid_0 tagged_def rwx_def)

text \<open>The entries after the owning group.\<close>

definition tail_shape :: "bool \<Rightarrow> acl \<Rightarrow> acl \<Rightarrow> acl_entry \<Rightarrow> bool" where
  "tail_shape nm gs ms ot \<longleftrightarrow> (\<forall>g \<in> set gs. named ACL_GROUP g) \<and> (\<forall>m \<in> set ms. tagged ACL_MASK m) \<and> length ms \<le> 1 \<and>
     tagged ACL_OTHER ot \<and> (nm \<or> gs \<noteq> [] \<longrightarrow> ms \<noteq> [])"

lemma tail_shape_simps:
  "tail_shape nm [] [] ot \<longleftrightarrow> \<not> nm \<and> tagged ACL_OTHER ot"
  "tail_shape nm [] [m] ot \<longleftrightarrow> tagged ACL_MASK m \<and> tagged ACL_OTHER ot"
  "tail_shape nm (g # gs) ms ot \<longleftrightarrow> named ACL_GROUP g \<and> tail_shape True gs ms ot"
  by (auto simp: tail_shape_def)

lemma valid_GROUP_sound:
  "valid_loop ACL_GROUP nm acl = 0 \<Longrightarrow> \<exists>gs ms ot. acl = gs @ ms @ [ot] \<and> tail_shape nm gs ms ot"
proof (induction acl arbitrary: nm)
  case (Cons pa rest)
  have rwx: "rwx pa" using Cons.prems by (auto simp: rwx_def split: if_splits)
  consider (grp) "e_tag pa = ACL_GROUP" "e_id pa \<noteq> -1" "valid_loop ACL_GROUP True rest = 0"
    | (msk) "e_tag pa = ACL_MASK" "valid_loop ACL_OTHER nm rest = 0"
    | (oth) "e_tag pa = ACL_OTHER" "\<not> nm" "valid_loop 0 nm rest = 0"
    using Cons.prems by (auto simp: kgid_has_mapping_def gid_valid_def split: if_splits)
  then show ?case
  proof cases
    case grp
    obtain gs ms ot where "rest = gs @ ms @ [ot]" "tail_shape True gs ms ot" using Cons.IH grp(3) by blast
    then have "pa # rest = (pa # gs) @ ms @ [ot] \<and> tail_shape nm (pa # gs) ms ot"
      using grp rwx by (simp add: tail_shape_simps named_def tagged_def)
    then show ?thesis by blast
  next
    case msk
    obtain ot where "rest = [ot]" "tagged ACL_OTHER ot" using msk(2) valid_OTHER by blast
    then have "pa # rest = [] @ [pa] @ [ot] \<and> tail_shape nm [] [pa] ot"
      using msk rwx by (simp add: tail_shape_simps tagged_def)
    then show ?thesis by blast
  next
    case oth
    then have "pa # rest = [] @ [] @ [pa] \<and> tail_shape nm [] [] pa"
      using rwx by (simp add: tail_shape_simps tagged_def valid_0)
    then show ?thesis by blast
  qed
qed simp

lemma valid_GROUP_complete:
  "tail_shape nm gs ms ot \<Longrightarrow> valid_loop ACL_GROUP nm (gs @ ms @ [ot]) = 0"
proof (induction gs arbitrary: nm)
  case Nil
  show ?case
  proof (cases ms)
    case Nil
    then show ?thesis using \<open>tail_shape nm [] ms ot\<close> by (simp add: tail_shape_simps tagged_def rwx_def)
  next
    case (Cons m ms')
    then have "ms = [m]" using \<open>tail_shape nm [] ms ot\<close> by (simp add: tail_shape_def)
    then show ?thesis using \<open>tail_shape nm [] ms ot\<close> by (simp add: tail_shape_simps tagged_def rwx_def)
  qed
next
  case (Cons g gs)
  then show ?case by (simp add: tail_shape_simps named_def tagged_def rwx_def kgid_has_mapping_def gid_valid_def)
qed

lemma valid_USER_sound:
  "valid_loop ACL_USER nm acl = 0 \<Longrightarrow>
   \<exists>us go gs ms ot. acl = us @ go # gs @ ms @ [ot] \<and> (\<forall>u \<in> set us. named ACL_USER u) \<and> tagged ACL_GROUP_OBJ go \<and>
     tail_shape (nm \<or> us \<noteq> []) gs ms ot"
proof (induction acl arbitrary: nm)
  case (Cons pa rest)
  have rwx: "rwx pa" using Cons.prems by (auto simp: rwx_def split: if_splits)
  consider (usr) "e_tag pa = ACL_USER" "e_id pa \<noteq> -1" "valid_loop ACL_USER True rest = 0"
    | (grp) "e_tag pa = ACL_GROUP_OBJ" "valid_loop ACL_GROUP nm rest = 0"
    using Cons.prems by (auto simp: kuid_has_mapping_def uid_valid_def split: if_splits)
  then show ?case
  proof cases
    case usr
    obtain us go gs ms ot where "rest = us @ go # gs @ ms @ [ot]" "\<forall>u \<in> set us. named ACL_USER u"
      "tagged ACL_GROUP_OBJ go" "tail_shape True gs ms ot" using Cons.IH [OF usr(3)] by auto
    then have "pa # rest = (pa # us) @ go # gs @ ms @ [ot] \<and> (\<forall>u \<in> set (pa # us). named ACL_USER u) \<and>
        tagged ACL_GROUP_OBJ go \<and> tail_shape (nm \<or> pa # us \<noteq> []) gs ms ot"
      using usr rwx by (simp add: named_def tagged_def)
    then show ?thesis by blast
  next
    case grp
    obtain gs ms ot where "rest = gs @ ms @ [ot]" "tail_shape nm gs ms ot" using valid_GROUP_sound [OF grp(2)] by blast
    then have "pa # rest = [] @ pa # gs @ ms @ [ot] \<and> (\<forall>u \<in> set []. named ACL_USER u) \<and>
        tagged ACL_GROUP_OBJ pa \<and> tail_shape (nm \<or> [] \<noteq> ([] :: acl)) gs ms ot"
      using grp rwx by (simp add: tagged_def)
    then show ?thesis by blast
  qed
qed simp

lemma valid_USER_complete:
  "\<forall>u \<in> set us. named ACL_USER u \<Longrightarrow> tagged ACL_GROUP_OBJ go \<Longrightarrow> tail_shape (nm \<or> us \<noteq> []) gs ms ot \<Longrightarrow>
   valid_loop ACL_USER nm (us @ go # gs @ ms @ [ot]) = 0"
proof (induction us arbitrary: nm)
  case Nil
  then show ?case using valid_GROUP_complete [of nm gs ms ot] by (simp add: tagged_def rwx_def)
next
  case (Cons u us)
  then show ?case by (simp add: named_def tagged_def rwx_def kuid_has_mapping_def uid_valid_def)
qed

lemma acl_shape_tail:
  "acl_shape uo us go gs ms ot \<longleftrightarrow> tagged ACL_USER_OBJ uo \<and> (\<forall>u \<in> set us. named ACL_USER u) \<and>
     tagged ACL_GROUP_OBJ go \<and> tail_shape (us \<noteq> []) gs ms ot"
  by (auto simp: acl_shape_def tail_shape_def)

lemma posix_acl_valid_iff:
  "posix_acl_valid acl = 0 \<longleftrightarrow> (\<exists>uo us go gs ms ot. acl = acl_of uo us go gs ms ot \<and> acl_shape uo us go gs ms ot)"
proof
  assume "posix_acl_valid acl = 0"
  then obtain uo rest where acl: "acl = uo # rest" and uo: "tagged ACL_USER_OBJ uo" and "valid_loop ACL_USER False rest = 0"
    by (cases acl) (auto simp: posix_acl_valid_def tagged_def rwx_def split: if_splits)
  then obtain us go gs ms ot where "rest = us @ go # gs @ ms @ [ot]" "\<forall>u \<in> set us. named ACL_USER u"
    "tagged ACL_GROUP_OBJ go" "tail_shape (us \<noteq> []) gs ms ot" using valid_USER_sound [of False rest] by auto
  then have "acl = acl_of uo us go gs ms ot \<and> acl_shape uo us go gs ms ot" using acl uo by (simp add: acl_shape_tail)
  then show "\<exists>uo us go gs ms ot. acl = acl_of uo us go gs ms ot \<and> acl_shape uo us go gs ms ot" by blast
next
  assume "\<exists>uo us go gs ms ot. acl = acl_of uo us go gs ms ot \<and> acl_shape uo us go gs ms ot"
  then obtain uo us go gs ms ot where acl: "acl = acl_of uo us go gs ms ot" and s: "acl_shape uo us go gs ms ot" by blast
  then have "valid_loop ACL_USER False (us @ go # gs @ ms @ [ot]) = 0"
    using valid_USER_complete [of us go False gs ms ot] by (simp add: acl_shape_tail)
  then show "posix_acl_valid acl = 0" using s by (simp add: posix_acl_valid_def acl acl_shape_tail tagged_def rwx_def)
qed

lemma posix_acl_valid_cases: "posix_acl_valid acl = 0 \<or> posix_acl_valid acl = - EINVAL"
proof -
  have "valid_loop st nm acl = 0 \<or> valid_loop st nm acl = - EINVAL" for st nm
    by (induction st nm acl rule: valid_loop.induct) auto
  then show ?thesis by (simp add: posix_acl_valid_def)
qed

section \<open>The permission check\<close>

lemma grants_bits: "grants p want \<longleftrightarrow> (\<forall>n < 32. bit want n \<longrightarrow> bit p n)"
  by (auto simp: grants_def bit_eq_iff bit_simps)

lemma grants_and: "grants (a AND b) want \<longleftrightarrow> grants a want \<and> grants b want"
  by (auto simp: grants_bits bit_simps)

lemma mask_label_eq:
  "mask_label pa rest want =
     (if grants (e_perm pa) want \<and> (\<forall>m \<in> set (take 1 (filter (\<lambda>e. e_tag e = ACL_MASK) rest)). grants (e_perm m) want)
      then 0 else - EACCES)"
  by (induction pa rest want rule: mask_label.induct) (auto simp: check_perm_def grants_and)

text \<open>The access check of the POSIX 1003.1e draft, on the parts of a list.\<close>

definition masked_grant :: "acl \<Rightarrow> 32 word \<Rightarrow> acl_entry \<Rightarrow> bool" where
  "masked_grant ms want e \<longleftrightarrow> grants (e_perm e) want \<and> (\<forall>m \<in> set ms. grants (e_perm m) want)"

definition group_match :: "cred \<Rightarrow> inode \<Rightarrow> acl_entry \<Rightarrow> bool" where
  "group_match c inode e \<longleftrightarrow> in_group_p c (if e_tag e = ACL_GROUP_OBJ then i_gid inode else e_id e)"

definition draft_access ::
  "cred \<Rightarrow> inode \<Rightarrow> acl_entry \<Rightarrow> acl \<Rightarrow> acl_entry \<Rightarrow> acl \<Rightarrow> acl \<Rightarrow> acl_entry \<Rightarrow> 32 word \<Rightarrow> bool" where
  "draft_access c inode uo us go gs ms ot want =
     (if fsuid c = i_uid inode then grants (e_perm uo) want
      else if \<exists>u \<in> set us. e_id u = fsuid c then masked_grant ms want (hd (filter (\<lambda>u. e_id u = fsuid c) us))
      else if \<exists>e \<in> set (go # gs). group_match c inode e
        then \<exists>e \<in> set (go # gs). group_match c inode e \<and> masked_grant ms want e
      else grants (e_perm ot) want)"

abbreviation access_result :: "bool \<Rightarrow> int" where
  "access_result granted \<equiv> (if granted then 0 else - EACCES)"

lemma tail_masks:
  assumes "tail_shape nm gs ms ot"
  shows "take 1 (filter (\<lambda>e. e_tag e = ACL_MASK) (gs @ ms @ [ot])) = ms"
proof -
  have "filter (\<lambda>e. e_tag e = ACL_MASK) gs = []" using assms by (auto simp: tail_shape_def named_def tagged_def filter_empty_conv)
  moreover have "filter (\<lambda>e. e_tag e = ACL_MASK) ms = ms" using assms by (auto simp: tail_shape_def tagged_def filter_id_conv)
  ultimately show ?thesis using assms by (cases ms) (auto simp: tail_shape_def tagged_def)
qed

lemma permission_OTHER:
  assumes "tail_shape nm [] ms ot"
  shows "permission_loop c inode want found (ms @ [ot]) = access_result (\<not> found \<and> grants (e_perm ot) want)"
proof -
  have "ms = [] \<or> (\<exists>m. ms = [m] \<and> e_tag m = ACL_MASK)" using assms by (cases ms) (auto simp: tail_shape_def tagged_def)
  moreover have "e_tag ot = ACL_OTHER" using assms by (simp add: tail_shape_def tagged_def)
  ultimately show ?thesis by (auto simp: check_perm_def)
qed

lemma permission_GROUP:
  "tail_shape nm gs ms ot \<Longrightarrow>
   permission_loop c inode want found (gs @ ms @ [ot]) =
     access_result (if found \<or> (\<exists>e \<in> set gs. group_match c inode e)
        then \<exists>e \<in> set gs. group_match c inode e \<and> masked_grant ms want e else grants (e_perm ot) want)"
proof (induction gs arbitrary: nm found)
  case Nil
  then show ?case using permission_OTHER [of nm ms ot] by simp
next
  case (Cons g gs)
  have g: "e_tag g = ACL_GROUP" and tl: "tail_shape True gs ms ot"
    using Cons.prems by (simp_all add: tail_shape_simps named_def tagged_def)
  note IH = Cons.IH [OF tl]
  have mask: "mask_label g (gs @ ms @ [ot]) want = access_result (masked_grant ms want g)"
    by (simp only: mask_label_eq tail_masks [OF tl] masked_grant_def)
  show ?case
  proof (cases "in_group_p c (e_id g)")
    case True
    show ?thesis
    proof (cases "masked_grant ms want g")
      case granted: True
      then have "grants (e_perm g) want" by (simp add: masked_grant_def)
      then show ?thesis using True granted g mask by (auto simp: group_match_def)
    next
      case denied: False
      show ?thesis
      proof (cases "grants (e_perm g) want")
        case gr: True
        then have "\<not> masked_grant ms want e" for e using denied by (auto simp: masked_grant_def)
        then show ?thesis using True gr denied g mask by (auto simp: group_match_def)
      next
        case False
        then show ?thesis using True denied g IH [of True] by (auto simp: group_match_def)
      qed
    qed
  next
    case False
    then show ?thesis using g IH [of found] by (auto simp: group_match_def)
  qed
qed

lemma permission_GROUP_OBJ:
  assumes go: "tagged ACL_GROUP_OBJ go" and tl: "tail_shape nm gs ms ot"
  shows "permission_loop c inode want False (go # gs @ ms @ [ot]) =
     access_result (if \<exists>e \<in> set (go # gs). group_match c inode e
        then \<exists>e \<in> set (go # gs). group_match c inode e \<and> masked_grant ms want e else grants (e_perm ot) want)"
proof -
  have tag: "e_tag go = ACL_GROUP_OBJ" using go by (simp add: tagged_def)
  have mask: "mask_label go (gs @ ms @ [ot]) want = access_result (masked_grant ms want go)"
    by (simp only: mask_label_eq tail_masks [OF tl] masked_grant_def)
  note loop = permission_GROUP [OF tl]
  show ?thesis
  proof (cases "in_group_p c (i_gid inode)")
    case True
    show ?thesis
    proof (cases "grants (e_perm go) want")
      case gr: True
      have "masked_grant ms want e \<Longrightarrow> masked_grant ms want go" for e using gr by (simp add: masked_grant_def)
      then show ?thesis using True gr tag mask by (auto simp: group_match_def)
    next
      case False
      then have "\<not> masked_grant ms want go" by (simp add: masked_grant_def)
      then show ?thesis using True False tag loop [of c inode want True] by (auto simp: group_match_def)
    qed
  next
    case False
    then show ?thesis using tag loop [of c inode want False] by (auto simp: group_match_def)
  qed
qed

lemma permission_USER:
  assumes us: "\<forall>u \<in> set us. named ACL_USER u" and go: "tagged ACL_GROUP_OBJ go" and tl: "tail_shape nm gs ms ot"
  shows "permission_loop c inode want False (us @ go # gs @ ms @ [ot]) =
     access_result (if \<exists>u \<in> set us. e_id u = fsuid c then masked_grant ms want (hd (filter (\<lambda>u. e_id u = fsuid c) us))
      else if \<exists>e \<in> set (go # gs). group_match c inode e
        then \<exists>e \<in> set (go # gs). group_match c inode e \<and> masked_grant ms want e
      else grants (e_perm ot) want)"
  using us
proof (induction us)
  case Nil
  show ?case using permission_GROUP_OBJ [OF go tl, of c inode want] by simp
next
  case (Cons u us)
  have tag: "e_tag u = ACL_USER" using Cons.prems by (simp add: named_def tagged_def)
  have "filter (\<lambda>e. e_tag e = ACL_MASK) (us @ [go]) = []"
    using Cons.prems go by (auto simp: named_def tagged_def filter_empty_conv)
  then have "take 1 (filter (\<lambda>e. e_tag e = ACL_MASK) (us @ go # gs @ ms @ [ot])) = ms"
    using tail_masks [OF tl] by (simp split: if_splits)
  then have mask: "mask_label u (us @ go # gs @ ms @ [ot]) want = access_result (masked_grant ms want u)"
    by (simp only: mask_label_eq masked_grant_def)
  show ?case
  proof (cases "e_id u = fsuid c")
    case True
    then show ?thesis using tag mask by simp
  next
    case False
    then show ?thesis using tag Cons by simp
  qed
qed

lemma posix_acl_permission_draft:
  assumes "acl_shape uo us go gs ms ot"
  shows "posix_acl_permission c inode (acl_of uo us go gs ms ot) want =
     access_result (draft_access c inode uo us go gs ms ot (want AND (MAY_READ OR MAY_WRITE OR MAY_EXEC OR MAY_NOT_BLOCK)))"
proof -
  have uo: "e_tag uo = ACL_USER_OBJ" using assms by (simp add: acl_shape_def tagged_def)
  note loop = permission_USER [of us go "us \<noteq> []" gs ms ot c inode]
  show ?thesis using assms loop uo
    by (auto simp: posix_acl_permission_def draft_access_def check_perm_def acl_shape_tail)
qed

section \<open>Mode bits\<close>

lemma bit_modes [simp]:
  "bit S_IRWXO n \<longleftrightarrow> n < 3" "bit S_IRWXG n \<longleftrightarrow> 3 \<le> n \<and> n < 6" "bit S_IRWXU n \<longleftrightarrow> 6 \<le> n \<and> n < 9"
  "bit S_IRWXUGO n \<longleftrightarrow> n < 9" "bit S_ISGID n \<longleftrightarrow> n = 10"
proof -
  have eqs: "S_IRWXO = mask 3" "S_IRWXG = push_bit 3 (mask 3)" "S_IRWXU = push_bit 6 (mask 3)" "S_IRWXUGO = mask 9"
    "S_ISGID = push_bit 10 1"
    by (simp_all add: mode_defs mask_eq_exp_minus_1 push_bit_eq_mult)
  note bits = bit_push_bit_iff bit_mask_iff bit_1_iff
  show "bit S_IRWXO n \<longleftrightarrow> n < 3" unfolding eqs bits by auto
  show "bit S_IRWXG n \<longleftrightarrow> 3 \<le> n \<and> n < 6" unfolding eqs bits by auto
  show "bit S_IRWXU n \<longleftrightarrow> 6 \<le> n \<and> n < 9" unfolding eqs bits by auto
  show "bit S_IRWXUGO n \<longleftrightarrow> n < 9" unfolding eqs bits by auto
  show "bit S_ISGID n \<longleftrightarrow> n = 10" unfolding eqs bits by auto
qed

lemma rwx_bits: "rwx e \<longleftrightarrow> (\<forall>n < 16. bit (e_perm e) n \<longrightarrow> n < 3)"
proof -
  have "(7 :: 16 word) = mask 3" by (simp add: mask_eq_exp_minus_1)
  then show ?thesis by (auto simp: rwx_def bit_eq_iff bit_simps)
qed

lemma rwx_bitD: "rwx e \<Longrightarrow> bit (e_perm e) n \<Longrightarrow> n < 3"
  using bit_imp_le_length [of "e_perm e" n] by (auto simp: rwx_bits)

text \<open>The nine permission bits of an owner, a group and an others triple.\<close>

definition mode_bits :: "16 word \<Rightarrow> 16 word \<Rightarrow> 16 word \<Rightarrow> 16 word" where
  "mode_bits u g o' = push_bit 6 u OR push_bit 3 g OR o'"

lemma mode_bits_split:
  "mode_bits (drop_bit 6 (mode AND S_IRWXU)) (drop_bit 3 (mode AND S_IRWXG)) (mode AND S_IRWXO) = mode AND S_IRWXUGO"
proof (rule bit_word_eqI)
  fix n assume "n < LENGTH(16)"
  consider "n < 3" | "3 \<le> n" "n < 6" | "6 \<le> n" "n < 9" | "9 \<le> n" by linarith
  then show "bit (mode_bits (drop_bit 6 (mode AND S_IRWXU)) (drop_bit 3 (mode AND S_IRWXG)) (mode AND S_IRWXO)) n =
      bit (mode AND S_IRWXUGO) n"
    using \<open>n < LENGTH(16)\<close> by cases (auto simp: mode_bits_def bit_simps)
qed

definition group_class :: "acl_entry \<Rightarrow> acl \<Rightarrow> acl_entry" where
  "group_class go ms = (case ms of [] \<Rightarrow> go | m # _ \<Rightarrow> m)"

lemma equiv_named:
  "\<forall>e \<in> set es. e_tag e = ACL_USER \<or> e_tag e = ACL_GROUP \<Longrightarrow>
   equiv_loop mode ne (es @ rest) = equiv_loop mode (if es = [] then ne else 1) rest"
  by (induction es arbitrary: ne) auto

lemma shape_tags:
  assumes "acl_shape uo us go gs ms ot"
  shows "e_tag uo = ACL_USER_OBJ" "\<forall>u \<in> set us. e_tag u = ACL_USER" "e_tag go = ACL_GROUP_OBJ"
    "\<forall>g \<in> set gs. e_tag g = ACL_GROUP" "\<forall>m \<in> set ms. e_tag m = ACL_MASK" "e_tag ot = ACL_OTHER"
  using assms by (auto simp: acl_shape_def named_def tagged_def)

lemma shape_rwx:
  assumes "acl_shape uo us go gs ms ot"
  shows "rwx uo" "rwx go" "\<forall>m \<in> set ms. rwx m" "rwx ot" "rwx (group_class go ms)"
  using assms by (auto simp: acl_shape_def named_def tagged_def group_class_def split: list.splits)

lemma shape_masks: "acl_shape uo us go gs ms ot \<Longrightarrow> ms = [] \<or> (\<exists>m. ms = [m])"
  by (cases ms) (auto simp: acl_shape_def)

lemma rwx_and: "rwx e \<Longrightarrow> e_perm e AND S_IRWXO = e_perm e"
  by (rule bit_word_eqI) (auto simp: rwx_bits bit_simps)

lemma equiv_mode_shape:
  assumes sh: "acl_shape uo us go gs ms ot"
  shows "posix_acl_equiv_mode (Some (acl_of uo us go gs ms ot)) mode =
    (if us = [] \<and> gs = [] \<and> ms = [] then 0 else 1,
     mode AND NOT S_IRWXUGO OR mode_bits (e_perm uo) (e_perm (group_class go ms)) (e_perm ot))"
proof -
  note tags = shape_tags [OF sh] and rwx = shape_rwx [OF sh]
  have us: "equiv_loop md ne (us @ rest) = equiv_loop md (if us = [] then ne else 1) rest" for md ne rest
    using equiv_named [of us md ne rest] tags(2) by auto
  have gs: "equiv_loop md ne (gs @ rest) = equiv_loop md (if gs = [] then ne else 1) rest" for md ne rest
    using equiv_named [of gs md ne rest] tags(4) by auto
  have "equiv_loop 0 0 (acl_of uo us go gs ms ot) =
      Inr (mode_bits (e_perm uo) (e_perm (group_class go ms)) (e_perm ot), if us = [] \<and> gs = [] \<and> ms = [] then 0 else 1)"
    using shape_masks [OF sh]
  proof
    assume "ms = []"
    then show ?thesis using tags rwx
      by (simp add: us gs rwx_and group_class_def mode_bits_def or.assoc)
  next
    assume "\<exists>m. ms = [m]"
    then obtain m where ms: "ms = [m]" by blast
    have "(push_bit 6 (e_perm uo) OR push_bit 3 (e_perm go)) AND NOT S_IRWXG = push_bit 6 (e_perm uo)"
      using rwx(1,2) by (intro bit_word_eqI) (auto simp: bit_simps dest: rwx_bitD)
    then show ?thesis using tags rwx ms by (simp add: us gs rwx_and group_class_def mode_bits_def or.assoc)
  qed
  then show ?thesis by (simp add: posix_acl_equiv_mode_def)
qed

section \<open>Masking a list\<close>

lemma masq_loop_append:
  "masq_loop b i (xs @ ys) q =
     (case masq_loop b i xs q of
        Inl e \<Rightarrow> Inl e
      | Inr (xs', q') \<Rightarrow>
          (case masq_loop b (i + length xs) ys q' of Inl e \<Rightarrow> Inl e | Inr (ys', q'') \<Rightarrow> Inr (xs' @ ys', q'')))"
  by (induction b i xs q rule: masq_loop.induct) (auto split: sum.splits prod.splits)

lemma create_named:
  "\<forall>e \<in> set es. e_tag e = ACL_USER \<or> e_tag e = ACL_GROUP \<Longrightarrow>
   masq_loop create_masq_entry i es q = Inr (es, if es = [] then q else q\<lparr>mq_not_equiv := 1\<rparr>)"
  by (induction es arbitrary: i q) (auto simp: create_masq_entry_def)

lemma chmod_named:
  "\<forall>e \<in> set es. e_tag e = ACL_USER \<or> e_tag e = ACL_GROUP \<Longrightarrow> masq_loop (chmod_masq_entry mode) i es q = Inr (es, q)"
  by (induction es arbitrary: i q) (auto simp: chmod_masq_entry_def)

text \<open>The entry of the group class, the mask if there is one and the owning group otherwise, gets new permissions.\<close>

definition with_group_perm :: "16 word \<Rightarrow> acl_entry \<Rightarrow> acl \<Rightarrow> acl_entry \<times> acl" where
  "with_group_perm p go ms = (case ms of [] \<Rightarrow> (go\<lparr>e_perm := p\<rparr>, []) | m # ms' \<Rightarrow> (go, m\<lparr>e_perm := p\<rparr> # ms'))"

lemma tagged_perm: "tagged t e \<Longrightarrow> rwx (e\<lparr>e_perm := p\<rparr>) \<Longrightarrow> tagged t (e\<lparr>e_perm := p\<rparr>)"
  by (simp add: tagged_def)

lemma shape_with_perms:
  assumes "acl_shape uo us go gs ms ot" and "with_group_perm g go ms = (go', ms')"
    and "rwx (uo\<lparr>e_perm := u\<rparr>)" "rwx (uo\<lparr>e_perm := g\<rparr>)" "rwx (uo\<lparr>e_perm := p\<rparr>)"
  shows "acl_shape (uo\<lparr>e_perm := u\<rparr>) us go' gs ms' (ot\<lparr>e_perm := p\<rparr>)" and "e_perm (group_class go' ms') = g"
  using assms
  by (auto simp: acl_shape_def tagged_def rwx_def with_group_perm_def group_class_def split: list.splits)

definition create_perm :: "16 word \<Rightarrow> 16 word \<Rightarrow> 16 word" where
  "create_perm perm bits = perm AND (bits OR NOT S_IRWXO)"

lemma create_perm_bits: "rwx e \<Longrightarrow> bit (create_perm (e_perm e) bits) n \<longleftrightarrow> bit (e_perm e) n \<and> bit bits n \<and> n < 3"
  by (auto simp: create_perm_def bit_simps dest: rwx_bitD)

lemma mode_bits_masked:
  assumes u: "\<And>k. bit u k \<Longrightarrow> k < 3 \<and> bit mode (6 + k)" and g: "\<And>k. bit g k \<Longrightarrow> k < 3 \<and> bit mode (3 + k)"
    and p: "\<And>k. bit p k \<Longrightarrow> k < 3 \<and> bit mode k"
  shows "mode AND NOT S_IRWXUGO OR ((mode AND (push_bit 6 u OR NOT S_IRWXU)) AND (p OR NOT S_IRWXO)) AND (push_bit 3 g OR NOT S_IRWXG)
    = mode AND NOT S_IRWXUGO OR mode_bits u g p"
proof (rule bit_word_eqI)
  fix n assume "n < LENGTH(16)"
  then have n: "n < 16" by simp
  consider "n < 3" | "3 \<le> n" "n < 6" | "6 \<le> n" "n < 9" | "9 \<le> n" by linarith
  then show "bit (mode AND NOT S_IRWXUGO OR ((mode AND (push_bit 6 u OR NOT S_IRWXU)) AND (p OR NOT S_IRWXO)) AND (push_bit 3 g OR NOT S_IRWXG)) n
    = bit (mode AND NOT S_IRWXUGO OR mode_bits u g p) n"
    using n u [of "n - 6"] g [of "n - 3"] p [of n]
    by cases (auto simp: mode_bits_def bit_simps)
qed

text \<open>The loop of \<^verbatim>\<open>posix_acl_create_masq\<close> on a list of that shape.\<close>

lemma create_loop:
  fixes mode :: "16 word"
  assumes sh: "acl_shape uo us go gs ms ot"
  defines "u \<equiv> create_perm (e_perm uo) (drop_bit 6 mode)"
  defines "m1 \<equiv> mode AND (push_bit 6 u OR NOT S_IRWXU)"
  defines "p \<equiv> create_perm (e_perm ot) m1"
  shows "masq_loop create_masq_entry 0 (acl_of uo us go gs ms ot)
           \<lparr>mq_mode = mode, mq_group_obj = None, mq_mask_obj = None, mq_not_equiv = 0\<rparr> =
    Inr (acl_of (uo\<lparr>e_perm := u\<rparr>) us go gs ms (ot\<lparr>e_perm := p\<rparr>),
         \<lparr>mq_mode = m1 AND (p OR NOT S_IRWXO), mq_group_obj = Some (Suc (length us)),
          mq_mask_obj = (if ms = [] then None else Some (Suc (Suc (length us + length gs)))),
          mq_not_equiv = (if us = [] \<and> gs = [] \<and> ms = [] then 0 else 1)\<rparr>)"
proof -
  note tags = shape_tags [OF sh]
  have us: "masq_loop create_masq_entry i us q = Inr (us, if us = [] then q else q\<lparr>mq_not_equiv := 1\<rparr>)" for i q
    using create_named tags(2) by simp
  have gs: "masq_loop create_masq_entry i gs q = Inr (gs, if gs = [] then q else q\<lparr>mq_not_equiv := 1\<rparr>)" for i q
    using create_named tags(4) by simp
  show ?thesis
    using shape_masks [OF sh] tags
    by (auto simp: masq_loop_append us gs create_masq_entry_def create_perm_def Let_def u_def m1_def p_def)
qed

lemma chmod_loop:
  assumes sh: "acl_shape uo us go gs ms ot"
  shows "masq_loop (chmod_masq_entry mode) 0 (acl_of uo us go gs ms ot)
           \<lparr>mq_mode = mode, mq_group_obj = None, mq_mask_obj = None, mq_not_equiv = 0\<rparr> =
    Inr (acl_of (uo\<lparr>e_perm := drop_bit 6 (mode AND S_IRWXU)\<rparr>) us go gs ms (ot\<lparr>e_perm := mode AND S_IRWXO\<rparr>),
         \<lparr>mq_mode = mode, mq_group_obj = Some (Suc (length us)),
          mq_mask_obj = (if ms = [] then None else Some (Suc (Suc (length us + length gs)))), mq_not_equiv = 0\<rparr>)"
proof -
  note tags = shape_tags [OF sh]
  have us: "masq_loop (chmod_masq_entry mode) i us q = Inr (us, q)" for i q using chmod_named tags(2) by simp
  have gs: "masq_loop (chmod_masq_entry mode) i gs q = Inr (gs, q)" for i q using chmod_named tags(4) by simp
  show ?thesis using shape_masks [OF sh] tags by (auto simp: masq_loop_append us gs chmod_masq_entry_def)
qed

text \<open>The entry both routines change after their loop.\<close>

definition group_index :: "acl \<Rightarrow> acl \<Rightarrow> acl \<Rightarrow> nat" where
  "group_index us gs ms = (if ms = [] then Suc (length us) else Suc (Suc (length us + length gs)))"

lemma group_entry:
  assumes "ms = [] \<or> (\<exists>m. ms = [m])"
  shows "acl_of uo us go gs ms ot ! group_index us gs ms = group_class go ms"
    and "(acl_of uo us go gs ms ot)[group_index us gs ms := (group_class go ms)\<lparr>e_perm := p\<rparr>] =
         acl_of uo us (fst (with_group_perm p go ms)) gs (snd (with_group_perm p go ms)) ot"
  using assms by (auto simp: nth_append list_update_append group_index_def group_class_def with_group_perm_def)

lemma create_masq_shape:
  fixes mode :: "16 word"
  assumes sh: "acl_shape uo us go gs ms ot"
  defines "u \<equiv> create_perm (e_perm uo) (drop_bit 6 mode)"
    and "p \<equiv> create_perm (e_perm ot) mode"
    and "g \<equiv> create_perm (e_perm (group_class go ms)) (drop_bit 3 mode)"
  shows "posix_acl_create_masq (acl_of uo us go gs ms ot) mode =
    Inr (if us = [] \<and> gs = [] \<and> ms = [] then 0 else 1,
         acl_of (uo\<lparr>e_perm := u\<rparr>) us (fst (with_group_perm g go ms)) gs (snd (with_group_perm g go ms)) (ot\<lparr>e_perm := p\<rparr>),
         mode AND NOT S_IRWXUGO OR mode_bits u g p)"
proof -
  note rwx = shape_rwx [OF sh]
  define m1 where "m1 = mode AND (push_bit 6 u OR NOT S_IRWXU)"
  define m2 where "m2 = m1 AND (p OR NOT S_IRWXO)"
  have p: "create_perm (e_perm ot) m1 = p"
    by (rule bit_word_eqI) (use rwx(4) in \<open>auto simp: p_def m1_def create_perm_def bit_simps dest: rwx_bitD\<close>)
  have g: "create_perm (e_perm (group_class go ms)) (drop_bit 3 m2) = g"
    by (rule bit_word_eqI) (use rwx(5) in \<open>auto simp: g_def m1_def m2_def create_perm_def bit_simps dest!: rwx_bitD\<close>)
  have mode: "mode AND NOT S_IRWXUGO OR (m2 AND (push_bit 3 g OR NOT S_IRWXG)) = mode AND NOT S_IRWXUGO OR mode_bits u g p"
    unfolding m2_def m1_def u_def g_def p_def
    by (rule mode_bits_masked) (use rwx in \<open>auto simp: create_perm_bits bit_simps\<close>)
  let ?i = "group_index us gs ms"
  have "posix_acl_create_masq (acl_of uo us go gs ms ot) mode =
    (let a = acl_of (uo\<lparr>e_perm := u\<rparr>) us go gs ms (ot\<lparr>e_perm := p\<rparr>);
         perm = create_perm (e_perm (a ! ?i)) (drop_bit 3 m2)
     in Inr (if us = [] \<and> gs = [] \<and> ms = [] then 0 else 1, a[?i := (a ! ?i)\<lparr>e_perm := perm\<rparr>],
             mode AND NOT S_IRWXUGO OR (m2 AND (push_bit 3 perm OR NOT S_IRWXG))))"
    unfolding posix_acl_create_masq_def create_loop [OF sh] u_def [symmetric] m1_def [symmetric] p m2_def [symmetric]
    by (simp add: create_perm_def group_index_def Let_def)
  then show ?thesis
    using group_entry [OF shape_masks [OF sh]] by (simp add: Let_def g mode)
qed

lemma chmod_masq_shape:
  fixes mode :: "16 word"
  assumes sh: "acl_shape uo us go gs ms ot"
  defines "g \<equiv> drop_bit 3 (mode AND S_IRWXG)"
  shows "posix_acl_chmod_masq (acl_of uo us go gs ms ot) mode =
    Inr (acl_of (uo\<lparr>e_perm := drop_bit 6 (mode AND S_IRWXU)\<rparr>) us (fst (with_group_perm g go ms)) gs
          (snd (with_group_perm g go ms)) (ot\<lparr>e_perm := mode AND S_IRWXO\<rparr>))"
proof -
  let ?a = "acl_of (uo\<lparr>e_perm := drop_bit 6 (mode AND S_IRWXU)\<rparr>) us go gs ms (ot\<lparr>e_perm := mode AND S_IRWXO\<rparr>)"
  let ?i = "group_index us gs ms"
  have "posix_acl_chmod_masq (acl_of uo us go gs ms ot) mode = Inr (?a[?i := (?a ! ?i)\<lparr>e_perm := g\<rparr>])"
    unfolding posix_acl_chmod_masq_def chmod_loop [OF sh] g_def by (simp add: group_index_def)
  then show ?thesis by (simp only: group_entry [OF shape_masks [OF sh]])
qed

end
