(* ===== verification/File_Access.thy ===== *)
theory File_Access
  imports Posix_Acl_Facts
begin

text \<open>
  The decisions on access to files: the permission check of \<^verbatim>\<open>fs/namei.c\<close> with ACLs and capabilities, the checks before
  a name is created or deleted, the owner and mode of a new inode (\<^verbatim>\<open>fs/inode.c\<close>), and the change of attributes
  (\<^verbatim>\<open>fs/attr.c\<close>, \<^verbatim>\<open>fs/libfs.c\<close>).  The security modules, the device cgroup, the operations of a file system and the
  delegations of NFS are arguments.
\<close>

unbundle bit_operations_syntax

section \<open>The permission check\<close>

definition HAS_UNMAPPED_ID :: "inode \<Rightarrow> bool" where
  "HAS_UNMAPPED_ID inode \<longleftrightarrow> \<not> uid_valid (i_uid inode) \<or> \<not> gid_valid (i_gid inode)"

definition check_acl :: "nat \<Rightarrow> get_acl_op \<Rightarrow> cred \<Rightarrow> inode \<Rightarrow> 32 word \<Rightarrow> int \<times> inode" where
  "check_acl task gop c inode want =
     (if want AND MAY_NOT_BLOCK \<noteq> 0 then
        (case get_cached_acl_rcu inode ACL_TYPE_ACCESS of
           Cached None \<Rightarrow> (- EAGAIN, inode)
         | Cached (Some acl) \<Rightarrow> (posix_acl_permission c inode acl (want AND NOT MAY_NOT_BLOCK), inode)
         | _ \<Rightarrow> (- ECHILD, inode))
      else
        (case get_acl task gop inode ACL_TYPE_ACCESS of
           (Inl err, inode1) \<Rightarrow> (err, inode1)
         | (Inr (Some acl), inode1) \<Rightarrow> (posix_acl_permission c inode1 acl want, inode1)
         | (Inr None, inode1) \<Rightarrow> (- EAGAIN, inode1)))"

definition mode_check :: "32 word \<Rightarrow> 32 word \<Rightarrow> int" where
  "mode_check mode want = (if want AND NOT mode AND (MAY_READ OR MAY_WRITE OR MAY_EXEC) = 0 then 0 else - EACCES)"

definition acl_permission_check :: "nat \<Rightarrow> get_acl_op \<Rightarrow> cred \<Rightarrow> inode \<Rightarrow> 32 word \<Rightarrow> int \<times> inode" where
  "acl_permission_check task gop c inode want =
     (let mode = ucast (i_mode inode) :: 32 word in
      if fsuid c = i_uid inode then (mode_check (drop_bit 6 mode) want, inode)
      else
        case (if i_posixacl inode \<and> mode AND ucast S_IRWXG \<noteq> 0 then check_acl task gop c inode want
              else (- EAGAIN, inode)) of
          (err, inode1) \<Rightarrow>
            if err \<noteq> - EAGAIN then (err, inode1)
            else (mode_check (if in_group_p c (i_gid inode1) then drop_bit 3 mode else mode) want, inode1))"

definition generic_permission :: "nat \<Rightarrow> get_acl_op \<Rightarrow> cred \<Rightarrow> inode \<Rightarrow> 32 word \<Rightarrow> int \<times> inode" where
  "generic_permission task gop c inode want =
     (case acl_permission_check task gop c inode want of
        (ret, inode1) \<Rightarrow>
          if ret \<noteq> - EACCES then (ret, inode1)
          else if S_ISDIR (i_mode inode1) then
            if capable_wrt_inode_uidgid c inode1 CAP_DAC_OVERRIDE then (0, inode1)
            else if want AND MAY_WRITE = 0 \<and> capable_wrt_inode_uidgid c inode1 CAP_DAC_READ_SEARCH then (0, inode1)
            else (- EACCES, inode1)
          else if (want AND MAY_EXEC = 0 \<or> i_mode inode1 AND S_IXUGO \<noteq> 0) \<and>
                  capable_wrt_inode_uidgid c inode1 CAP_DAC_OVERRIDE then (0, inode1)
          else if want AND (MAY_READ OR MAY_WRITE OR MAY_EXEC) = MAY_READ \<and>
                  capable_wrt_inode_uidgid c inode1 CAP_DAC_READ_SEARCH then (0, inode1)
          else (- EACCES, inode1))"

text \<open>The permission operations of a file system (the first is used with a mount) and the checks of the device cgroup
  and of the security modules.\<close>

record perm_hooks =
  op_permission2 :: "(inode \<Rightarrow> 32 word \<Rightarrow> int \<times> inode) option"
  op_permission :: "(inode \<Rightarrow> 32 word \<Rightarrow> int \<times> inode) option"
  devcgroup_inode_permission :: "inode \<Rightarrow> 32 word \<Rightarrow> int"
  security_inode_permission :: "inode \<Rightarrow> 32 word \<Rightarrow> int"

definition do_inode_permission ::
  "nat \<Rightarrow> get_acl_op \<Rightarrow> perm_hooks \<Rightarrow> bool \<Rightarrow> cred \<Rightarrow> inode \<Rightarrow> 32 word \<Rightarrow> int \<times> inode" where
  "do_inode_permission task gop h mnt c inode want =
     (if \<not> i_fastperm inode then
        case (if mnt then op_permission2 h else None) of
          Some perm \<Rightarrow> perm inode want
        | None \<Rightarrow>
            (case op_permission h of
               Some perm \<Rightarrow> perm inode want
             | None \<Rightarrow> generic_permission task gop c (inode\<lparr>i_fastperm := True\<rparr>) want)
      else generic_permission task gop c inode want)"

definition inode_permission_nosb ::
  "nat \<Rightarrow> get_acl_op \<Rightarrow> perm_hooks \<Rightarrow> bool \<Rightarrow> cred \<Rightarrow> inode \<Rightarrow> 32 word \<Rightarrow> int \<times> inode" where
  "inode_permission_nosb task gop h mnt c inode want =
     (if want AND MAY_WRITE \<noteq> 0 \<and> i_immutable inode then (- EPERM, inode)
      else if want AND MAY_WRITE \<noteq> 0 \<and> HAS_UNMAPPED_ID inode then (- EACCES, inode)
      else case do_inode_permission task gop h mnt c inode want of
        (retval, inode1) \<Rightarrow>
          if retval \<noteq> 0 then (retval, inode1)
          else if devcgroup_inode_permission h inode1 want \<noteq> 0 then (devcgroup_inode_permission h inode1 want, inode1)
          else (security_inode_permission h inode1 want, inode1))"

definition sb_permission :: "inode \<Rightarrow> 32 word \<Rightarrow> int" where
  "sb_permission inode want =
     (if want AND MAY_WRITE \<noteq> 0 \<and> s_rdonly inode \<and>
         (S_ISREG (i_mode inode) \<or> S_ISDIR (i_mode inode) \<or> S_ISLNK (i_mode inode)) then - EROFS else 0)"

definition inode_permission2 ::
  "nat \<Rightarrow> get_acl_op \<Rightarrow> perm_hooks \<Rightarrow> bool \<Rightarrow> cred \<Rightarrow> inode \<Rightarrow> 32 word \<Rightarrow> int \<times> inode" where
  "inode_permission2 task gop h mnt c inode want =
     (if sb_permission inode want \<noteq> 0 then (sb_permission inode want, inode)
      else inode_permission_nosb task gop h mnt c inode want)"

section \<open>Creating and deleting names\<close>

definition check_sticky_owner :: "cred \<Rightarrow> inode \<Rightarrow> inode \<Rightarrow> bool" where
  "check_sticky_owner c dir inode =
     (if i_uid inode = fsuid c then False
      else if i_uid dir = fsuid c then False
      else \<not> capable_wrt_inode_uidgid c inode CAP_FOWNER)"

definition check_sticky :: "cred \<Rightarrow> inode \<Rightarrow> inode \<Rightarrow> bool" where
  "check_sticky c dir inode = (if i_mode dir AND S_ISVTX = 0 then False else check_sticky_owner c dir inode)"

text \<open>A directory entry: its inode, if it is positive, and the properties of it that the checks read.\<close>

record dentry =
  d_inode :: "inode option"
  d_is_dir :: bool
  d_is_root :: bool
  d_nfs_renamed :: bool

definition may_delete ::
  "nat \<Rightarrow> get_acl_op \<Rightarrow> perm_hooks \<Rightarrow> bool \<Rightarrow> cred \<Rightarrow> inode \<Rightarrow> dentry \<Rightarrow> bool \<Rightarrow> int \<times> inode" where
  "may_delete task gop h mnt c dir victim isdir =
     (case d_inode victim of
        None \<Rightarrow> (- ENOENT, dir)
      | Some inode \<Rightarrow>
          (case inode_permission2 task gop h mnt c dir (MAY_WRITE OR MAY_EXEC) of
             (error, dir1) \<Rightarrow>
               if error \<noteq> 0 then (error, dir1)
               else if i_append dir1 then (- EPERM, dir1)
               else if check_sticky c dir1 inode \<or> i_append inode \<or> i_immutable inode \<or> i_swapfile inode \<or>
                       HAS_UNMAPPED_ID inode then (- EPERM, dir1)
               else if isdir \<and> \<not> d_is_dir victim then (- ENOTDIR, dir1)
               else if isdir \<and> d_is_root victim then (- EBUSY, dir1)
               else if \<not> isdir \<and> d_is_dir victim then (- EISDIR, dir1)
               else if i_dead dir1 then (- ENOENT, dir1)
               else if d_nfs_renamed victim then (- EBUSY, dir1)
               else (0, dir1)))"

definition may_create :: "nat \<Rightarrow> get_acl_op \<Rightarrow> perm_hooks \<Rightarrow> bool \<Rightarrow> cred \<Rightarrow> inode \<Rightarrow> dentry \<Rightarrow> int \<times> inode" where
  "may_create task gop h mnt c dir child =
     (if d_inode child \<noteq> None then (- EEXIST, dir)
      else if i_dead dir then (- ENOENT, dir)
      else if \<not> kuid_has_mapping (fsuid c) \<or> \<not> kgid_has_mapping (fsgid c) then (- EOVERFLOW, dir)
      else inode_permission2 task gop h mnt c dir (MAY_WRITE OR MAY_EXEC))"

definition inode_init_owner :: "cred \<Rightarrow> inode \<Rightarrow> inode option \<Rightarrow> 16 word \<Rightarrow> inode" where
  "inode_init_owner c inode dir mode =
     (let inode1 = inode\<lparr>i_uid := fsuid c\<rparr> in
      case dir of
        Some d \<Rightarrow>
          if i_mode d AND S_ISGID \<noteq> 0 then
            let inode2 = inode1\<lparr>i_gid := i_gid d\<rparr> in
            inode2\<lparr>i_mode :=
              (if S_ISDIR mode then mode OR S_ISGID
               else if mode AND (S_ISGID OR S_IXGRP) = S_ISGID OR S_IXGRP \<and> \<not> in_group_p c (i_gid inode2) \<and>
                       \<not> capable_wrt_inode_uidgid c d CAP_FSETID then mode AND NOT S_ISGID
               else mode)\<rparr>
          else inode1\<lparr>i_gid := fsgid c, i_mode := mode\<rparr>
      | None \<Rightarrow> inode1\<lparr>i_gid := fsgid c, i_mode := mode\<rparr>)"

section \<open>Changing attributes\<close>

definition ATTR_MODE :: "32 word" where "ATTR_MODE = 0x1"
definition ATTR_UID :: "32 word" where "ATTR_UID = 0x2"
definition ATTR_GID :: "32 word" where "ATTR_GID = 0x4"
definition ATTR_SIZE :: "32 word" where "ATTR_SIZE = 0x8"
definition ATTR_ATIME :: "32 word" where "ATTR_ATIME = 0x10"
definition ATTR_MTIME :: "32 word" where "ATTR_MTIME = 0x20"
definition ATTR_CTIME :: "32 word" where "ATTR_CTIME = 0x40"
definition ATTR_ATIME_SET :: "32 word" where "ATTR_ATIME_SET = 0x80"
definition ATTR_MTIME_SET :: "32 word" where "ATTR_MTIME_SET = 0x100"
definition ATTR_FORCE :: "32 word" where "ATTR_FORCE = 0x200"
definition ATTR_KILL_SUID :: "32 word" where "ATTR_KILL_SUID = 0x800"
definition ATTR_KILL_SGID :: "32 word" where "ATTR_KILL_SGID = 0x1000"
definition ATTR_KILL_PRIV :: "32 word" where "ATTR_KILL_PRIV = 0x4000"
definition ATTR_TIMES_SET :: "32 word" where "ATTR_TIMES_SET = 0x10000"
definition ATTR_TOUCH :: "32 word" where "ATTR_TOUCH = 0x20000"

lemmas attr_defs = ATTR_MODE_def ATTR_UID_def ATTR_GID_def ATTR_SIZE_def ATTR_ATIME_def ATTR_MTIME_def ATTR_CTIME_def
  ATTR_ATIME_SET_def ATTR_MTIME_SET_def ATTR_FORCE_def ATTR_KILL_SUID_def ATTR_KILL_SGID_def ATTR_KILL_PRIV_def
  ATTR_TIMES_SET_def ATTR_TOUCH_def

record iattr =
  ia_valid :: "32 word"
  ia_mode :: "16 word"
  ia_uid :: "32 word"
  ia_gid :: "32 word"
  ia_size :: int
  ia_atime :: timespec
  ia_mtime :: timespec
  ia_ctime :: timespec

abbreviation has_attr :: "iattr \<Rightarrow> 32 word \<Rightarrow> bool" where
  "has_attr attr flags \<equiv> ia_valid attr AND flags \<noteq> 0"

definition NSEC_PER_SEC :: int where "NSEC_PER_SEC = 1000000000"

definition timespec_trunc :: "timespec \<Rightarrow> int \<Rightarrow> timespec" where
  "timespec_trunc t gran =
     (if gran = 1 then t
      else if gran = NSEC_PER_SEC then t\<lparr>tv_nsec := 0\<rparr>
      else if gran > 1 \<and> gran < NSEC_PER_SEC then t\<lparr>tv_nsec := tv_nsec t - tv_nsec t mod gran\<rparr>
      else t)"

text \<open>The limit \<^verbatim>\<open>RLIMIT_FSIZE\<close> of the task, \<open>RLIM_INFINITY\<close> when it is \<open>2 ^ 32 - 1\<close>.  The signal \<^verbatim>\<open>SIGXFSZ\<close> that goes
  with one of the \<^verbatim>\<open>-EFBIG\<close> results is not part of the model.\<close>

definition RLIM_INFINITY :: int where "RLIM_INFINITY = 4294967295"

definition inode_newsize_ok :: "int \<Rightarrow> inode \<Rightarrow> int \<Rightarrow> int" where
  "inode_newsize_ok limit inode offset =
     (if i_size inode < offset then
        if limit \<noteq> RLIM_INFINITY \<and> offset > limit then - EFBIG
        else if offset > s_maxbytes inode then - EFBIG
        else 0
      else if i_swapfile inode then - ETXTBSY
      else 0)"

text \<open>The result and the attributes, whose mode may lose the set-group-ID bit; \<^verbatim>\<open>killpriv\<close> is the result of
  \<^verbatim>\<open>security_inode_killpriv\<close>.\<close>

definition setattr_prepare :: "int \<Rightarrow> int \<Rightarrow> cred \<Rightarrow> inode \<Rightarrow> iattr \<Rightarrow> int \<times> iattr" where
  "setattr_prepare limit killpriv c inode attr =
     (let kill_priv = (\<lambda>attr. (if has_attr attr ATTR_KILL_PRIV \<and> killpriv \<noteq> 0 then killpriv else 0, attr)) in
      if has_attr attr ATTR_SIZE \<and> inode_newsize_ok limit inode (ia_size attr) \<noteq> 0 then
        (inode_newsize_ok limit inode (ia_size attr), attr)
      else if has_attr attr ATTR_FORCE then kill_priv attr
      else if has_attr attr ATTR_UID \<and> (fsuid c \<noteq> i_uid inode \<or> ia_uid attr \<noteq> i_uid inode) \<and>
              \<not> capable_wrt_inode_uidgid c inode CAP_CHOWN then (- EPERM, attr)
      else if has_attr attr ATTR_GID \<and>
              (fsuid c \<noteq> i_uid inode \<or> \<not> in_group_p c (ia_gid attr) \<and> ia_gid attr \<noteq> i_gid inode) \<and>
              \<not> capable_wrt_inode_uidgid c inode CAP_CHOWN then (- EPERM, attr)
      else if has_attr attr ATTR_MODE \<and> \<not> inode_owner_or_capable c inode then (- EPERM, attr)
      else
        let attr1 =
          (if has_attr attr ATTR_MODE \<and>
              \<not> in_group_p c (if has_attr attr ATTR_GID then ia_gid attr else i_gid inode) \<and>
              \<not> capable_wrt_inode_uidgid c inode CAP_FSETID
           then attr\<lparr>ia_mode := ia_mode attr AND NOT S_ISGID\<rparr> else attr)
        in if has_attr attr (ATTR_MTIME_SET OR ATTR_ATIME_SET OR ATTR_TIMES_SET) \<and> \<not> inode_owner_or_capable c inode
           then (- EPERM, attr1)
           else kill_priv attr1)"

definition setattr_copy :: "cred \<Rightarrow> inode \<Rightarrow> iattr \<Rightarrow> inode" where
  "setattr_copy c inode attr =
     (let inode1 = (if has_attr attr ATTR_UID then inode\<lparr>i_uid := ia_uid attr\<rparr> else inode);
          inode2 = (if has_attr attr ATTR_GID then inode1\<lparr>i_gid := ia_gid attr\<rparr> else inode1);
          inode3 = (if has_attr attr ATTR_ATIME
                    then inode2\<lparr>i_atime := timespec_trunc (ia_atime attr) (s_time_gran inode2)\<rparr> else inode2);
          inode4 = (if has_attr attr ATTR_MTIME
                    then inode3\<lparr>i_mtime := timespec_trunc (ia_mtime attr) (s_time_gran inode3)\<rparr> else inode3);
          inode5 = (if has_attr attr ATTR_CTIME
                    then inode4\<lparr>i_ctime := timespec_trunc (ia_ctime attr) (s_time_gran inode4)\<rparr> else inode4)
      in if has_attr attr ATTR_MODE
         then inode5\<lparr>i_mode :=
           (if \<not> in_group_p c (i_gid inode5) \<and> \<not> capable_wrt_inode_uidgid c inode5 CAP_FSETID
            then ia_mode attr AND NOT S_ISGID else ia_mode attr)\<rparr>
         else inode5)"

definition simple_setattr :: "int \<Rightarrow> int \<Rightarrow> cred \<Rightarrow> inode \<Rightarrow> iattr \<Rightarrow> int \<times> inode" where
  "simple_setattr limit killpriv c inode attr =
     (case setattr_prepare limit killpriv c inode attr of
        (error, attr1) \<Rightarrow>
          if error \<noteq> 0 then (error, inode)
          else (0, setattr_copy c (if has_attr attr1 ATTR_SIZE then inode\<lparr>i_size := ia_size attr1\<rparr> else inode) attr1))"

definition is_sxid :: "16 word \<Rightarrow> bool" where
  "is_sxid mode \<longleftrightarrow> mode AND S_ISUID \<noteq> 0 \<or> mode AND S_ISGID \<noteq> 0 \<and> mode AND S_IXGRP \<noteq> 0"

text \<open>What \<^verbatim>\<open>notify_change2\<close> gets from elsewhere: the clock, the results of the security hooks and of breaking a
  delegation, and the operation of the file system that applies the change.\<close>

record change_env =
  ce_now :: timespec
  ce_need_killpriv :: int
  ce_security_setattr :: int
  ce_break_deleg :: int
  ce_setattr2 :: "(inode \<Rightarrow> iattr \<Rightarrow> int \<times> inode) option"
  ce_setattr :: "(inode \<Rightarrow> iattr \<Rightarrow> int \<times> inode) option"
  ce_limit :: int
  ce_killpriv :: int

definition change_times :: "timespec \<Rightarrow> iattr \<Rightarrow> iattr" where
  "change_times now attr =
     attr\<lparr>ia_ctime := now,
          ia_atime := (if has_attr attr ATTR_ATIME_SET then ia_atime attr else now),
          ia_mtime := (if has_attr attr ATTR_MTIME_SET then ia_mtime attr else now)\<rparr>"

definition kill_suid :: "inode \<Rightarrow> iattr \<Rightarrow> iattr" where
  "kill_suid inode attr =
     (if has_attr attr ATTR_KILL_SUID \<and> i_mode inode AND S_ISUID \<noteq> 0
      then attr\<lparr>ia_valid := ia_valid attr OR ATTR_MODE, ia_mode := i_mode inode AND NOT S_ISUID\<rparr>
      else attr)"

definition kill_sgid :: "inode \<Rightarrow> iattr \<Rightarrow> iattr" where
  "kill_sgid inode attr =
     (if has_attr attr ATTR_KILL_SGID \<and> i_mode inode AND (S_ISGID OR S_IXGRP) = S_ISGID OR S_IXGRP
      then let attr1 = (if \<not> has_attr attr ATTR_MODE
                        then attr\<lparr>ia_valid := ia_valid attr OR ATTR_MODE, ia_mode := i_mode inode\<rparr> else attr)
           in attr1\<lparr>ia_mode := ia_mode attr1 AND NOT S_ISGID\<rparr>
      else attr)"

text \<open>From the checks of the identifiers on.\<close>

definition apply_change :: "change_env \<Rightarrow> bool \<Rightarrow> cred \<Rightarrow> inode \<Rightarrow> iattr \<Rightarrow> int \<times> inode" where
  "apply_change ce mnt c inode attr =
     (if ia_valid attr AND NOT (ATTR_KILL_SUID OR ATTR_KILL_SGID) = 0 then (0, inode)
      else if has_attr attr ATTR_UID \<and> \<not> kuid_has_mapping (ia_uid attr) then (- EOVERFLOW, inode)
      else if has_attr attr ATTR_GID \<and> \<not> kgid_has_mapping (ia_gid attr) then (- EOVERFLOW, inode)
      else if \<not> has_attr attr ATTR_UID \<and> \<not> uid_valid (i_uid inode) then (- EOVERFLOW, inode)
      else if \<not> has_attr attr ATTR_GID \<and> \<not> gid_valid (i_gid inode) then (- EOVERFLOW, inode)
      else if ce_security_setattr ce \<noteq> 0 then (ce_security_setattr ce, inode)
      else if ce_break_deleg ce \<noteq> 0 then (ce_break_deleg ce, inode)
      else case (if mnt then ce_setattr2 ce else None) of
        Some f \<Rightarrow> f inode attr
      | None \<Rightarrow>
          (case ce_setattr ce of
             Some f \<Rightarrow> f inode attr
           | None \<Rightarrow> simple_setattr (ce_limit ce) (ce_killpriv ce) c inode attr))"

definition notify_change2 ::
  "nat \<Rightarrow> get_acl_op \<Rightarrow> perm_hooks \<Rightarrow> change_env \<Rightarrow> bool \<Rightarrow> cred \<Rightarrow> inode \<Rightarrow> iattr \<Rightarrow> (int \<times> inode) kres" where
  "notify_change2 task gop h ce mnt c inode attr =
     (if has_attr attr (ATTR_MODE OR ATTR_UID OR ATTR_GID OR ATTR_TIMES_SET) \<and> (i_immutable inode \<or> i_append inode)
      then Inr (- EPERM, inode)
      else if has_attr attr ATTR_TOUCH \<and> i_immutable inode then Inr (- EPERM, inode)
      else
        case (if has_attr attr ATTR_TOUCH \<and> \<not> inode_owner_or_capable c inode
              then inode_permission2 task gop h mnt c inode MAY_WRITE else (0, inode)) of
          (error, inode1) \<Rightarrow>
            if error \<noteq> 0 then Inr (error, inode1)
            else
              let inode2 = (if has_attr attr ATTR_MODE \<and> is_sxid (ia_mode attr) then inode1\<lparr>i_nosec := False\<rparr> else inode1);
                  attr1 = change_times (ce_now ce) attr
              in if has_attr attr1 ATTR_KILL_PRIV \<and> ce_need_killpriv ce < 0 then Inr (ce_need_killpriv ce, inode2)
                 else
                   let attr2 = (if has_attr attr1 ATTR_KILL_PRIV \<and> ce_need_killpriv ce = 0
                                then attr1\<lparr>ia_valid := ia_valid attr1 AND NOT ATTR_KILL_PRIV\<rparr> else attr1)
                   in if has_attr attr2 (ATTR_KILL_SUID OR ATTR_KILL_SGID) \<and> has_attr attr2 ATTR_MODE then Inl BUG
                      else Inr (apply_change ce mnt c inode2 (kill_sgid inode2 (kill_suid inode2 attr2))))"

text \<open>\<^verbatim>\<open>should_remove_suid\<close>: the bits a write to the file removes.\<close>

definition should_remove_suid :: "cred \<Rightarrow> inode \<Rightarrow> 32 word" where
  "should_remove_suid c inode =
     (let kill = (if i_mode inode AND S_ISUID \<noteq> 0 then ATTR_KILL_SUID else 0) OR
                 (if i_mode inode AND S_ISGID \<noteq> 0 \<and> i_mode inode AND S_IXGRP \<noteq> 0 then ATTR_KILL_SGID else 0)
      in if kill \<noteq> 0 \<and> CAP_FSETID \<notin> capabilities c \<and> S_ISREG (i_mode inode) then kill else 0)"

end
