(* ===== verification/Acl_Codec.thy ===== *)
theory Acl_Codec
  imports Posix_Acl_Facts
begin

text \<open>
  Access control lists as bytes: the extended attribute that user space reads and writes (\<^verbatim>\<open>fs/posix_acl.c\<close>) and the
  format on an ext4 disk (\<^verbatim>\<open>fs/ext4/acl.c\<close>, \<^verbatim>\<open>fs/ext4/acl.h\<close>).  The attribute store of ext4 (\<^verbatim>\<open>fs/ext4/xattr.c\<close>) and its
  journal are arguments: a lookup \<open>xget\<close>, an update \<open>xset\<close> of a state of any type, and the errors of starting a
  transaction.
\<close>

unbundle bit_operations_syntax

section \<open>Little-endian numbers\<close>

definition le16_to_cpu :: "8 word \<Rightarrow> 8 word \<Rightarrow> 16 word" where
  "le16_to_cpu b0 b1 = ucast b0 OR push_bit 8 (ucast b1)"

definition cpu_to_le16 :: "16 word \<Rightarrow> 8 word list" where
  "cpu_to_le16 w = [ucast w, ucast (drop_bit 8 w)]"

definition le32_to_cpu :: "8 word \<Rightarrow> 8 word \<Rightarrow> 8 word \<Rightarrow> 8 word \<Rightarrow> 32 word" where
  "le32_to_cpu b0 b1 b2 b3 = ucast b0 OR push_bit 8 (ucast b1) OR push_bit 16 (ucast b2) OR push_bit 24 (ucast b3)"

definition cpu_to_le32 :: "32 word \<Rightarrow> 8 word list" where
  "cpu_to_le32 w = [ucast w, ucast (drop_bit 8 w), ucast (drop_bit 16 w), ucast (drop_bit 24 w)]"

section \<open>Extended attributes\<close>

definition POSIX_ACL_XATTR_VERSION :: "32 word" where "POSIX_ACL_XATTR_VERSION = 2"

definition posix_acl_xattr_size :: "nat \<Rightarrow> nat" where
  "posix_acl_xattr_size a_count = 4 + a_count * 8"

definition posix_acl_xattr_count :: "nat \<Rightarrow> int" where
  "posix_acl_xattr_count sz =
     (if sz < 4 then - 1 else if (sz - 4) mod 8 \<noteq> 0 then - 1 else int ((sz - 4) div 8))"

fun from_xattr_loop :: "(nat \<Rightarrow> acl_entry) \<Rightarrow> nat \<Rightarrow> 8 word list \<Rightarrow> acl option" where
  "from_xattr_loop m n (t0 # t1 # p0 # p1 # i0 # i1 # i2 # i3 # rest) =
     (let e = (m n)\<lparr>e_tag := le16_to_cpu t0 t1, e_perm := le16_to_cpu p0 p1\<rparr>;
          ident = le32_to_cpu i0 i1 i2 i3;
          continue = (\<lambda>e. map_option (\<lambda>es. e # es) (from_xattr_loop m (n + 1) rest))
      in if e_tag e = ACL_USER_OBJ \<or> e_tag e = ACL_GROUP_OBJ \<or> e_tag e = ACL_MASK \<or> e_tag e = ACL_OTHER then continue e
         else if e_tag e = ACL_USER then if uid_valid ident then continue (e\<lparr>e_id := ident\<rparr>) else None
         else if e_tag e = ACL_GROUP then if gid_valid ident then continue (e\<lparr>e_id := ident\<rparr>) else None
         else None)"
| "from_xattr_loop m n _ = Some []"

definition posix_acl_from_xattr :: "fresh_memory \<Rightarrow> 8 word list option \<Rightarrow> int + acl option" where
  "posix_acl_from_xattr mem value =
     (case value of
        None \<Rightarrow> Inr None
      | Some v \<Rightarrow>
          if length v < 4 then Inl (- EINVAL)
          else if le32_to_cpu (v ! 0) (v ! 1) (v ! 2) (v ! 3) \<noteq> POSIX_ACL_XATTR_VERSION then Inl (- EOPNOTSUPP)
          else if posix_acl_xattr_count (length v) < 0 then Inl (- EINVAL)
          else if posix_acl_xattr_count (length v) = 0 then Inr None
          else case mem of
            None \<Rightarrow> Inl (- ENOMEM)
          | Some m \<Rightarrow> (case from_xattr_loop m 0 (drop 4 v) of None \<Rightarrow> Inl (- EINVAL) | Some acl \<Rightarrow> Inr (Some acl)))"

definition xattr_entry :: "acl_entry \<Rightarrow> 8 word list" where
  "xattr_entry e =
     cpu_to_le16 (e_tag e) @ cpu_to_le16 (e_perm e) @
     cpu_to_le32 (if e_tag e = ACL_USER then e_id e else if e_tag e = ACL_GROUP then e_id e else -1)"

text \<open>The result and the buffer; without a buffer the size that is needed.\<close>

definition posix_acl_to_xattr :: "acl \<Rightarrow> 8 word list option \<Rightarrow> int \<times> 8 word list option" where
  "posix_acl_to_xattr acl buffer =
     (let real_size = posix_acl_xattr_size (length acl) in
      case buffer of
        None \<Rightarrow> (int real_size, None)
      | Some b \<Rightarrow>
          if real_size > length b then (- ERANGE, buffer)
          else (int real_size,
                Some (cpu_to_le32 POSIX_ACL_XATTR_VERSION @ concat (map xattr_entry acl) @ drop real_size b)))"

definition posix_acl_xattr_get ::
  "nat \<Rightarrow> get_acl_op \<Rightarrow> inode \<Rightarrow> acl_type \<Rightarrow> 8 word list option \<Rightarrow> int \<times> 8 word list option \<times> inode" where
  "posix_acl_xattr_get task gop inode type buffer =
     (if \<not> i_posixacl inode then (- EOPNOTSUPP, buffer, inode)
      else if S_ISLNK (i_mode inode) then (- EOPNOTSUPP, buffer, inode)
      else case get_acl task gop inode type of
        (Inl err, inode1) \<Rightarrow> (err, buffer, inode1)
      | (Inr None, inode1) \<Rightarrow> (- ENODATA, buffer, inode1)
      | (Inr (Some acl), inode1) \<Rightarrow> (case posix_acl_to_xattr acl buffer of (error, buffer') \<Rightarrow> (error, buffer', inode1)))"

definition posix_acl_xattr_set ::
  "fresh_memory \<Rightarrow> set_acl_op \<Rightarrow> cred \<Rightarrow> inode \<Rightarrow> acl_type \<Rightarrow> 8 word list option \<Rightarrow> int \<times> inode" where
  "posix_acl_xattr_set mem sop c inode type value =
     (case posix_acl_from_xattr mem value of
        Inl err \<Rightarrow> (err, inode)
      | Inr acl \<Rightarrow> set_posix_acl sop c inode type acl)"

section \<open>The ext4 format\<close>

definition EXT4_ACL_VERSION :: "32 word" where "EXT4_ACL_VERSION = 1"

definition ext4_acl_size :: "nat \<Rightarrow> nat" where
  "ext4_acl_size a_count = (if a_count \<le> 4 then 4 + a_count * 4 else 4 + 4 * 4 + (a_count - 4) * 8)"

definition ext4_acl_count :: "nat \<Rightarrow> int" where
  "ext4_acl_count sz =
     (let size1 = int sz - 4; s = size1 - 4 * 4 in
      if s < 0 then if size1 mod 4 \<noteq> 0 then - 1 else size1 div 4
      else if s mod 8 \<noteq> 0 then - 1 else s div 8 + 4)"

primrec from_disk_loop :: "(nat \<Rightarrow> acl_entry) \<Rightarrow> nat \<Rightarrow> nat \<Rightarrow> 8 word list \<Rightarrow> acl option" where
  "from_disk_loop m n 0 v = (if v = [] then Some [] else None)"
| "from_disk_loop m n (Suc k) v =
     (if length v < 4 then None
      else
        let e = (m n)\<lparr>e_tag := le16_to_cpu (v ! 0) (v ! 1), e_perm := le16_to_cpu (v ! 2) (v ! 3)\<rparr> in
        if e_tag e = ACL_USER_OBJ \<or> e_tag e = ACL_GROUP_OBJ \<or> e_tag e = ACL_MASK \<or> e_tag e = ACL_OTHER then
          map_option (\<lambda>es. e # es) (from_disk_loop m (n + 1) k (drop 4 v))
        else if e_tag e = ACL_USER \<or> e_tag e = ACL_GROUP then
          if length v < 8 then None
          else map_option (\<lambda>es. e\<lparr>e_id := le32_to_cpu (v ! 4) (v ! 5) (v ! 6) (v ! 7)\<rparr> # es)
                 (from_disk_loop m (n + 1) k (drop 8 v))
        else None)"

definition ext4_acl_from_disk :: "fresh_memory \<Rightarrow> 8 word list option \<Rightarrow> int + acl option" where
  "ext4_acl_from_disk mem value =
     (case value of
        None \<Rightarrow> Inr None
      | Some v \<Rightarrow>
          if length v < 4 then Inl (- EINVAL)
          else if le32_to_cpu (v ! 0) (v ! 1) (v ! 2) (v ! 3) \<noteq> EXT4_ACL_VERSION then Inl (- EINVAL)
          else
            let a_count = ext4_acl_count (length v) in
            if a_count < 0 then Inl (- EINVAL)
            else if a_count = 0 then Inr None
            else case mem of
              None \<Rightarrow> Inl (- ENOMEM)
            | Some m \<Rightarrow>
                (case from_disk_loop m 0 (nat a_count) (drop 4 v) of
                   None \<Rightarrow> Inl (- EINVAL)
                 | Some acl \<Rightarrow> Inr (Some acl)))"

primrec to_disk_loop :: "acl \<Rightarrow> 8 word list option" where
  "to_disk_loop [] = Some []"
| "to_disk_loop (e # rest) =
     (let short = cpu_to_le16 (e_tag e) @ cpu_to_le16 (e_perm e) in
      if e_tag e = ACL_USER \<or> e_tag e = ACL_GROUP then
        map_option (\<lambda>bs. short @ cpu_to_le32 (e_id e) @ bs) (to_disk_loop rest)
      else if e_tag e = ACL_USER_OBJ \<or> e_tag e = ACL_GROUP_OBJ \<or> e_tag e = ACL_MASK \<or> e_tag e = ACL_OTHER then
        map_option (\<lambda>bs. short @ bs) (to_disk_loop rest)
      else None)"

text \<open>The block has room for \<^verbatim>\<open>a_count\<close> long entries; its first \<^verbatim>\<open>ext4_acl_size\<close> bytes are the value, whatever the
  loop has left unwritten keeps the old contents of the block.\<close>

definition ext4_acl_to_disk :: "(nat \<Rightarrow> 8 word) option \<Rightarrow> acl \<Rightarrow> int + 8 word list" where
  "ext4_acl_to_disk mem acl =
     (case mem of
        None \<Rightarrow> Inl (- ENOMEM)
      | Some m \<Rightarrow>
          (case to_disk_loop acl of
             None \<Rightarrow> Inl (- EINVAL)
           | Some bs \<Rightarrow>
               let written = cpu_to_le32 EXT4_ACL_VERSION @ bs in
               Inr (take (ext4_acl_size (length acl)) (written @ map m [length written..<4 + 8 * length acl]))))"

definition ENOSYS :: int where "ENOSYS = 38"
definition ENOSPC :: int where "ENOSPC = 28"

definition ext4_get_acl ::
  "('s \<Rightarrow> acl_type \<Rightarrow> int + 8 word list) \<Rightarrow> bool \<Rightarrow> fresh_memory \<Rightarrow> 's \<Rightarrow> acl_type \<Rightarrow> int + acl option" where
  "ext4_get_acl xget memory_ok mem store type =
     (case xget store type of
        Inl retval \<Rightarrow> if retval = - ENODATA \<or> retval = - ENOSYS then Inr None else Inl retval
      | Inr value \<Rightarrow>
          if value = [] then Inr None
          else if \<not> memory_ok then Inl (- ENOMEM)
          else ext4_acl_from_disk mem (Some value))"

definition ext4_set_acl_handle ::
  "('s \<Rightarrow> acl_type \<Rightarrow> 8 word list option \<Rightarrow> int \<times> 's) \<Rightarrow> (nat \<Rightarrow> 8 word) option \<Rightarrow> inode \<times> 's \<Rightarrow> acl_type \<Rightarrow>
   acl option \<Rightarrow> int \<times> inode \<times> 's" where
  "ext4_set_acl_handle xset mem = (\<lambda>(inode, store) type acl.
     (if type = ACL_TYPE_DEFAULT \<and> \<not> S_ISDIR (i_mode inode) then (if acl \<noteq> None then - EACCES else 0, inode, store)
      else case (case acl of None \<Rightarrow> Inr None | Some a \<Rightarrow> map_sum id Some (ext4_acl_to_disk mem a)) of
        Inl err \<Rightarrow> (err, inode, store)
      | Inr value \<Rightarrow>
          (case xset store type value of
             (error, store') \<Rightarrow> (error, if error = 0 then set_cached_acl inode type acl else inode, store'))))"

text \<open>One pass from the label \<^verbatim>\<open>retry\<close> on; the local variables \<^verbatim>\<open>acl\<close>, \<^verbatim>\<open>mode\<close> and \<^verbatim>\<open>update_mode\<close> live across passes.
  The list says for each pass whether the journal grants a transaction (or the error) and whether
  \<^verbatim>\<open>ext4_should_retry_alloc\<close> asks for another one.\<close>

fun ext4_set_acl ::
  "('s \<Rightarrow> acl_type \<Rightarrow> 8 word list option \<Rightarrow> int \<times> 's) \<Rightarrow> (nat \<Rightarrow> 8 word) option \<Rightarrow> timespec \<Rightarrow> cred \<Rightarrow>
   (int \<times> bool) list \<Rightarrow> inode \<times> 's \<Rightarrow> acl_type \<Rightarrow> acl option \<Rightarrow> 16 word \<Rightarrow> bool \<Rightarrow> (int \<times> inode \<times> 's) option" where
  "ext4_set_acl xset mem now c [] (inode, store) type acl mode update_mode = None"
| "ext4_set_acl xset mem now c ((journal, again) # passes) (inode, store) type acl mode update_mode =
     (if journal \<noteq> 0 then Some (journal, inode, store)
      else
        case (if type = ACL_TYPE_ACCESS \<and> acl \<noteq> None then posix_acl_update_mode c inode mode acl else (0, mode, acl)) of
          (error, mode1, acl1) \<Rightarrow>
            if error \<noteq> 0 then Some (error, inode, store)
            else
              let update_mode1 = (update_mode \<or> type = ACL_TYPE_ACCESS \<and> acl \<noteq> None) in
              case ext4_set_acl_handle xset mem (inode, store) type acl1 of
                (error, inode1, store1) \<Rightarrow>
                  if error = 0 then
                    Some (0, if update_mode1 then inode1\<lparr>i_mode := mode1, i_ctime := now\<rparr> else inode1, store1)
                  else if error = - ENOSPC \<and> again then
                    ext4_set_acl xset mem now c passes (inode1, store1) type acl1 mode1 update_mode1
                  else Some (error, inode1, store1))"

definition ext4_init_acl ::
  "('s \<Rightarrow> acl_type \<Rightarrow> 8 word list option \<Rightarrow> int \<times> 's) \<Rightarrow> (nat \<Rightarrow> 8 word) option \<Rightarrow> nat \<Rightarrow> bool \<Rightarrow> get_acl_op \<Rightarrow> cred \<Rightarrow>
   inode \<times> 's \<Rightarrow> inode \<Rightarrow> int \<times> (inode \<times> 's) \<times> inode" where
  "ext4_init_acl xset mem task memory_ok gop c = (\<lambda>(inode, store) dir.
     (case posix_acl_create task memory_ok gop c dir (i_mode inode) of
        (error, mode, default_acl, acl, dir1) \<Rightarrow>
          let start = (inode\<lparr>i_mode := mode\<rparr>, store) in
          if error \<noteq> 0 then (error, start, dir1)
          else
            case (case default_acl of
                    None \<Rightarrow> (0, start)
                  | Some d \<Rightarrow> ext4_set_acl_handle xset mem start ACL_TYPE_DEFAULT (Some d)) of
              (error1, state1) \<Rightarrow>
                if acl \<noteq> None \<and> error1 = 0 then
                  case ext4_set_acl_handle xset mem state1 ACL_TYPE_ACCESS acl of (error2, state2) \<Rightarrow> (error2, state2, dir1)
                else (error1, state1, dir1)))"

section \<open>Numbers\<close>

lemma le16_roundtrip [simp]: "le16_to_cpu (ucast w) (ucast (drop_bit 8 w)) = w"
  by (rule bit_word_eqI) (auto simp: le16_to_cpu_def bit_simps not_less)

lemma le32_roundtrip [simp]:
  "le32_to_cpu (ucast w) (ucast (drop_bit 8 w)) (ucast (drop_bit 16 w)) (ucast (drop_bit 24 w)) = w"
proof (rule bit_word_eqI)
  fix n assume "n < LENGTH(32)"
  then consider "n < 8" | "8 \<le> n" "n < 16" | "16 \<le> n" "n < 24" | "24 \<le> n" "n < 32" by fastforce
  then show "bit (le32_to_cpu (ucast w) (ucast (drop_bit 8 w)) (ucast (drop_bit 16 w)) (ucast (drop_bit 24 w))) n = bit w n"
    by cases (auto simp: le32_to_cpu_def bit_simps)
qed

lemma cpu_to_le_length [simp]: "length (cpu_to_le16 w) = 2" "length (cpu_to_le32 x) = 4"
  by (simp_all add: cpu_to_le16_def cpu_to_le32_def)

section \<open>Reading back what was written\<close>

text \<open>Two lists that say the same: the identifier of an entry that names nobody is not part of it.\<close>

abbreviation names_somebody :: "acl_entry \<Rightarrow> bool" where
  "names_somebody e \<equiv> e_tag e = ACL_USER \<or> e_tag e = ACL_GROUP"

definition same_entry :: "acl_entry \<Rightarrow> acl_entry \<Rightarrow> bool" where
  "same_entry e e' \<longleftrightarrow> e_tag e' = e_tag e \<and> e_perm e' = e_perm e \<and>
     (e_tag e = ACL_USER \<or> e_tag e = ACL_GROUP \<longrightarrow> e_id e' = e_id e)"

definition same_acl :: "acl \<Rightarrow> acl \<Rightarrow> bool" where
  "same_acl = list_all2 same_entry"

definition readable :: "acl_entry \<Rightarrow> bool" where
  "readable e \<longleftrightarrow> e_tag e = ACL_USER_OBJ \<or> e_tag e = ACL_GROUP_OBJ \<or> e_tag e = ACL_MASK \<or> e_tag e = ACL_OTHER \<or>
     (e_tag e = ACL_USER \<or> e_tag e = ACL_GROUP) \<and> e_id e \<noteq> -1"

primrec reread :: "(nat \<Rightarrow> acl_entry) \<Rightarrow> nat \<Rightarrow> acl \<Rightarrow> acl" where
  "reread m n [] = []"
| "reread m n (e # es) =
     (m n)\<lparr>e_tag := e_tag e, e_perm := e_perm e,
           e_id := (if e_tag e = ACL_USER \<or> e_tag e = ACL_GROUP then e_id e else e_id (m n))\<rparr> # reread m (n + 1) es"

lemma reread_same: "same_acl acl (reread m n acl)"
  by (induction acl arbitrary: n) (auto simp: same_acl_def same_entry_def)

lemma same_acl_valid: "same_acl acl acl' \<Longrightarrow> posix_acl_valid acl' = posix_acl_valid acl"
proof -
  have "list_all2 same_entry acl acl' \<Longrightarrow> valid_loop st nm acl' = valid_loop st nm acl" for st nm
  proof (induction acl acl' arbitrary: st nm rule: list_all2_induct)
    case (Cons x xs y ys)
    then have "e_tag y = e_tag x" "e_perm y = e_perm x" "names_somebody x \<Longrightarrow> e_id y = e_id x" by (auto simp: same_entry_def)
    then show ?case using Cons.IH by auto
  qed simp
  then show "same_acl acl acl' \<Longrightarrow> posix_acl_valid acl' = posix_acl_valid acl" by (simp add: same_acl_def posix_acl_valid_def)
qed

lemma shape_readable: "acl_shape uo us go gs ms ot \<Longrightarrow> \<forall>e \<in> set (acl_of uo us go gs ms ot). readable e"
  by (auto simp: acl_shape_def named_def tagged_def readable_def)

lemma xattr_loop_roundtrip:
  "\<forall>e \<in> set acl. readable e \<Longrightarrow> from_xattr_loop m n (concat (map xattr_entry acl)) = Some (reread m n acl)"
  by (induction acl arbitrary: n)
    (auto simp: xattr_entry_def cpu_to_le16_def cpu_to_le32_def readable_def Let_def uid_valid_def gid_valid_def)

lemma from_disk_short:
  assumes "t = ACL_USER_OBJ \<or> t = ACL_GROUP_OBJ \<or> t = ACL_MASK \<or> t = ACL_OTHER"
  shows "from_disk_loop m n (Suc k) (cpu_to_le16 t @ cpu_to_le16 p @ bs) =
    map_option (\<lambda>es. (m n)\<lparr>e_tag := t, e_perm := p\<rparr> # es) (from_disk_loop m (n + 1) k bs)"
  using assms by (simp add: cpu_to_le16_def)

lemma from_disk_long:
  assumes "t = ACL_USER \<or> t = ACL_GROUP"
  shows "from_disk_loop m n (Suc k) (cpu_to_le16 t @ cpu_to_le16 p @ cpu_to_le32 i @ bs) =
    map_option (\<lambda>es. (m n)\<lparr>e_tag := t, e_perm := p, e_id := i\<rparr> # es) (from_disk_loop m (n + 1) k bs)"
  using assms by (auto simp add: cpu_to_le16_def cpu_to_le32_def)

lemma disk_loop_roundtrip:
  "\<forall>e \<in> set acl. readable e \<Longrightarrow> \<exists>bs. to_disk_loop acl = Some bs \<and>
     from_disk_loop m n (length acl) bs = Some (reread m n acl) \<and>
     length bs = 4 * length acl + 4 * length (filter names_somebody acl)"
proof (induction acl arbitrary: n)
  case (Cons e acl)
  have "\<forall>e \<in> set acl. readable e" using Cons.prems by simp
  from Cons.IH [OF this, of "Suc n"] obtain bs where bs: "to_disk_loop acl = Some bs" "from_disk_loop m (Suc n) (length acl) bs = Some (reread m (Suc n) acl)"
    "length bs = 4 * length acl + 4 * length (filter names_somebody acl)"
    by blast
  show ?case
  proof (cases "names_somebody e")
    case True
    have "to_disk_loop (e # acl) = Some (cpu_to_le16 (e_tag e) @ cpu_to_le16 (e_perm e) @ cpu_to_le32 (e_id e) @ bs)"
      using True bs(1) by (simp add: Let_def)
    then show ?thesis using True bs by (auto simp del: from_disk_loop.simps simp: from_disk_long)
  next
    case False
    then have short: "e_tag e = ACL_USER_OBJ \<or> e_tag e = ACL_GROUP_OBJ \<or> e_tag e = ACL_MASK \<or> e_tag e = ACL_OTHER"
      using Cons.prems by (auto simp: readable_def)
    have "to_disk_loop (e # acl) = Some (cpu_to_le16 (e_tag e) @ cpu_to_le16 (e_perm e) @ bs)"
      using False short bs(1) by (auto simp: Let_def)
    then show ?thesis using False short bs by (auto simp del: from_disk_loop.simps simp: from_disk_short)
  qed
qed auto

lemma disk_size:
  assumes sh: "acl_shape uo us go gs ms ot" and acl: "acl = acl_of uo us go gs ms ot"
  shows "4 + (4 * length acl + 4 * length (filter names_somebody acl)) = ext4_acl_size (length acl)"
    and "ext4_acl_count (ext4_acl_size (length acl)) = int (length acl)"
proof -
  note tags = shape_tags [OF sh]
  have "filter names_somebody us = us" "filter names_somebody gs = gs" using tags by (simp_all add: filter_id_conv)
  moreover have "filter names_somebody ms = []" using tags by (simp add: filter_empty_conv)
  ultimately have named: "length (filter names_somebody acl) = length us + length gs" using tags acl by simp
  have len: "length acl = 3 + length us + length gs + length ms" using acl by simp
  have ms: "length ms \<le> 1" "us \<noteq> [] \<or> gs \<noteq> [] \<Longrightarrow> length ms = 1"
    using sh shape_masks [OF sh] by (auto simp: acl_shape_def)
  show size: "4 + (4 * length acl + 4 * length (filter names_somebody acl)) = ext4_acl_size (length acl)"
  proof (cases "us = [] \<and> gs = []")
    case True
    then show ?thesis using named len ms(1) by (simp add: ext4_acl_size_def)
  next
    case False
    then have "length ms = 1" "length us + length gs > 0" using ms(2) by auto
    then show ?thesis using named len by (simp add: ext4_acl_size_def)
  qed
  show "ext4_acl_count (ext4_acl_size (length acl)) = int (length acl)"
  proof (cases "length acl \<le> 4")
    case True
    then have "length acl < 4 \<or> length acl = 4" by linarith
    then show ?thesis by (auto simp: ext4_acl_size_def ext4_acl_count_def Let_def)
  next
    case False
    then obtain k where "length acl = 4 + k" using le_Suc_ex [of 4 "length acl"] by auto
    then show ?thesis by (simp add: ext4_acl_size_def ext4_acl_count_def Let_def)
  qed
qed

end
