(* ===== verification/Acl_Access.thy ===== *)
theory Acl_Access
  imports File_Access Acl_Codec
begin

text \<open>
  From a list that is stored to the decision that is made: what a file system promises when it stores an access ACL
  (a locale), that the memory file systems and ext4 keep the promise, and that the permission check then decides as
  the POSIX draft says.
\<close>

unbundle bit_operations_syntax

section \<open>Requests and mode bits\<close>

lemma may_all_bits:
  "bit (MAY_READ OR MAY_WRITE OR MAY_EXEC) n \<longleftrightarrow> n < 3"
  "bit (MAY_READ OR MAY_WRITE OR MAY_EXEC OR MAY_NOT_BLOCK) n \<longleftrightarrow> n < 3 \<or> n = 7"
  "bit MAY_NOT_BLOCK n \<longleftrightarrow> n = 7"
proof -
  have nb: "MAY_NOT_BLOCK = push_bit 7 1" and rwx: "MAY_READ OR MAY_WRITE OR MAY_EXEC = mask 3"
    by (simp_all add: may_defs mask_eq_exp_minus_1)
  have all: "MAY_READ OR MAY_WRITE OR MAY_EXEC OR MAY_NOT_BLOCK = mask 3 OR push_bit 7 1"
    unfolding nb [symmetric] rwx [symmetric] by (simp add: or.assoc)
  note bits = bit_push_bit_iff bit_mask_iff bit_1_iff bit_or_iff
  show "bit (MAY_READ OR MAY_WRITE OR MAY_EXEC) n \<longleftrightarrow> n < 3" unfolding rwx bits by auto
  show "bit (MAY_READ OR MAY_WRITE OR MAY_EXEC OR MAY_NOT_BLOCK) n \<longleftrightarrow> n < 3 \<or> n = 7" unfolding all bits by auto
  show "bit MAY_NOT_BLOCK n \<longleftrightarrow> n = 7" unfolding nb bits by auto
qed

definition rwx_want :: "32 word \<Rightarrow> 32 word" where
  "rwx_want want = want AND (MAY_READ OR MAY_WRITE OR MAY_EXEC)"

lemma bit_rwx_want: "bit (rwx_want want) n \<longleftrightarrow> bit want n \<and> n < 3"
  unfolding rwx_want_def bit_and_iff may_all_bits by simp

lemma word_zero_bits: "(w :: 'a::len word) = 0 \<longleftrightarrow> (\<forall>n. \<not> bit w n)"
  by (auto intro: bit_word_eqI)

lemma not_block_bit: "want AND MAY_NOT_BLOCK = 0 \<longleftrightarrow> \<not> bit want 7"
  unfolding word_zero_bits [of "want AND MAY_NOT_BLOCK"] bit_and_iff may_all_bits by auto

lemma want_rwx:
  assumes "want AND MAY_NOT_BLOCK = 0"
  shows "want AND (MAY_READ OR MAY_WRITE OR MAY_EXEC OR MAY_NOT_BLOCK) = rwx_want want"
  using assms unfolding not_block_bit
  by (intro bit_word_eqI) (auto simp: bit_and_iff may_all_bits bit_rwx_want)

lemma mode_check_grants:
  assumes "\<And>n. n < 3 \<Longrightarrow> bit mode n = bit (p :: 16 word) n"
  shows "mode_check mode want = access_result (grants p (rwx_want want))"
proof -
  have "want AND NOT mode AND (MAY_READ OR MAY_WRITE OR MAY_EXEC) = 0 \<longleftrightarrow> (\<forall>n < 3. bit want n \<longrightarrow> bit mode n)"
    unfolding word_zero_bits [of "want AND NOT mode AND _"] bit_and_iff may_all_bits
    using bit_imp_le_length [of want] by (fastforce simp: bit_simps)
  also have "\<dots> \<longleftrightarrow> grants p (rwx_want want)"
    using assms by (auto simp: grants_bits bit_rwx_want)
  finally show ?thesis by (simp add: mode_check_def)
qed

section \<open>The draft on whole lists\<close>

definition draft_acl :: "acl \<Rightarrow> bool" where
  "draft_acl acl \<longleftrightarrow> (\<exists>uo us go gs ms ot. acl = acl_of uo us go gs ms ot \<and> acl_shape uo us go gs ms ot)"

definition draft_grants :: "cred \<Rightarrow> inode \<Rightarrow> acl \<Rightarrow> 32 word \<Rightarrow> bool" where
  "draft_grants c inode acl want \<longleftrightarrow> (\<exists>uo us go gs ms ot. acl = acl_of uo us go gs ms ot \<and> acl_shape uo us go gs ms ot \<and>
     draft_access c inode uo us go gs ms ot (rwx_want want))"

lemma draft_acl_I: "acl_shape uo us go gs ms ot \<Longrightarrow> draft_acl (acl_of uo us go gs ms ot)"
  unfolding draft_acl_def by blast

lemma draft_acl_valid: "posix_acl_valid acl = 0 \<longleftrightarrow> draft_acl acl"
  unfolding draft_acl_def by (rule posix_acl_valid_iff)

lemma rwx_want_idem: "rwx_want (rwx_want want) = rwx_want want"
  by (rule bit_word_eqI) (simp add: bit_rwx_want)

lemma permission_rwx:
  assumes "acl_shape uo us go gs ms ot"
  shows "posix_acl_permission c inode (acl_of uo us go gs ms ot) (rwx_want want) =
    access_result (draft_access c inode uo us go gs ms ot (rwx_want want))"
proof -
  have "rwx_want want AND MAY_NOT_BLOCK = 0" by (simp add: not_block_bit bit_rwx_want)
  then show ?thesis using posix_acl_permission_draft [OF assms, of c inode "rwx_want want"] by (simp add: want_rwx rwx_want_idem)
qed

text \<open>The parts of a list are determined by it, as far as the decision is concerned.\<close>

lemma draft_grants_eq:
  assumes "acl_shape uo us go gs ms ot"
  shows "draft_grants c inode (acl_of uo us go gs ms ot) want \<longleftrightarrow> draft_access c inode uo us go gs ms ot (rwx_want want)"
proof
  assume "draft_grants c inode (acl_of uo us go gs ms ot) want"
  then obtain uo' us' go' gs' ms' ot' where "acl_of uo us go gs ms ot = acl_of uo' us' go' gs' ms' ot'"
    "acl_shape uo' us' go' gs' ms' ot'" "draft_access c inode uo' us' go' gs' ms' ot' (rwx_want want)"
    unfolding draft_grants_def by blast
  then have "posix_acl_permission c inode (acl_of uo us go gs ms ot) (rwx_want want) = 0"
    using permission_rwx [of uo' us' go' gs' ms' ot' c inode want] by (simp only: if_True)
  then show "draft_access c inode uo us go gs ms ot (rwx_want want)"
    using permission_rwx [OF assms, of c inode want] by (auto simp: EACCES_def split: if_splits)
next
  assume "draft_access c inode uo us go gs ms ot (rwx_want want)"
  then show "draft_grants c inode (acl_of uo us go gs ms ot) want" unfolding draft_grants_def using assms by blast
qed

lemma permission_draft_grants:
  assumes "posix_acl_valid acl = 0" and "want AND MAY_NOT_BLOCK = 0"
  shows "posix_acl_permission c inode acl want = access_result (draft_grants c inode acl want)"
proof -
  obtain uo us go gs ms ot where "acl = acl_of uo us go gs ms ot" "acl_shape uo us go gs ms ot"
    using assms(1) posix_acl_valid_iff by blast
  then show ?thesis
    using posix_acl_permission_draft [of uo us go gs ms ot c inode want] want_rwx [OF assms(2)] by (simp add: draft_grants_eq)
qed

text \<open>A list with smaller permissions grants less.\<close>

definition weaker :: "acl_entry \<Rightarrow> acl_entry \<Rightarrow> bool" where
  "weaker e e' \<longleftrightarrow> e_tag e' = e_tag e \<and> e_id e' = e_id e \<and> e_perm e' AND e_perm e = e_perm e'"

lemma weaker_refl [simp]: "weaker e e"
  by (simp add: weaker_def)

lemma weaker_grants: "weaker e e' \<Longrightarrow> grants (e_perm e') want \<Longrightarrow> grants (e_perm e) want"
  using grants_and [of "e_perm e'" "e_perm e" want] by (simp add: weaker_def)

lemma draft_access_mono:
  assumes "draft_access c inode uo' us go' gs ms' ot' want"
    and "weaker uo uo'" "weaker go go'" "weaker ot ot'" "list_all2 weaker ms ms'"
  shows "draft_access c inode uo us go gs ms ot want"
proof -
  have masks: "\<forall>m \<in> set ms. grants (e_perm m) want" if "\<forall>m \<in> set ms'. grants (e_perm m) want"
    using assms(5) that by (induction rule: list_all2_induct) (auto dest: weaker_grants)
  have same: "masked_grant ms' want e \<Longrightarrow> masked_grant ms want e" for e using masks by (auto simp: masked_grant_def)
  have go: "masked_grant ms' want go' \<Longrightarrow> masked_grant ms want go"
    using masks weaker_grants [OF assms(3)] by (auto simp: masked_grant_def)
  have gm: "group_match c inode go' = group_match c inode go" using assms(3) by (simp add: group_match_def weaker_def)
  note d = assms(1) [unfolded draft_access_def]
  consider (owner) "fsuid c = i_uid inode" | (user) "fsuid c \<noteq> i_uid inode" "\<exists>u \<in> set us. e_id u = fsuid c"
    | (grp) "fsuid c \<noteq> i_uid inode" "\<not> (\<exists>u \<in> set us. e_id u = fsuid c)" "\<exists>e \<in> set (go # gs). group_match c inode e"
    | (other) "fsuid c \<noteq> i_uid inode" "\<not> (\<exists>u \<in> set us. e_id u = fsuid c)" "\<not> (\<exists>e \<in> set (go # gs). group_match c inode e)"
    by blast
  then show ?thesis
  proof cases
    case owner
    then show ?thesis using d weaker_grants [OF assms(2), of want] by (simp add: draft_access_def)
  next
    case user
    then show ?thesis using d same by (simp add: draft_access_def)
  next
    case grp
    then have "\<exists>e \<in> set (go' # gs). group_match c inode e \<and> masked_grant ms' want e" using d gm by auto
    then have "\<exists>e \<in> set (go # gs). group_match c inode e \<and> masked_grant ms want e" using same go gm by auto
    then show ?thesis using grp unfolding draft_access_def by argo
  next
    case other
    then show ?thesis using d gm weaker_grants [OF assms(4), of want] by (auto simp: draft_access_def)
  qed
qed

section \<open>Modes\<close>

lemma mode_entry_bits:
  assumes m: "m AND S_IRWXUGO = mode_bits (e_perm uo) (e_perm gc) (e_perm ot)" and "rwx uo" "rwx gc" "rwx ot" and n: "n < 3"
  shows "bit (drop_bit 6 (ucast m :: 32 word)) n = bit (e_perm uo) n"
    and "bit (drop_bit 3 (ucast m :: 32 word)) n = bit (e_perm gc) n"
    and "bit (ucast m :: 32 word) n = bit (e_perm ot) n"
proof -
  have b: "k < 9 \<Longrightarrow> bit m k \<longleftrightarrow> bit (mode_bits (e_perm uo) (e_perm gc) (e_perm ot)) k" for k
    unfolding m [symmetric] by (simp add: bit_and_iff)
  have hi: "bit (e_perm e) k \<longleftrightarrow> False" if "rwx e" "3 \<le> k" for e k using rwx_bitD [OF that(1), of k] that(2) by auto
  show "bit (drop_bit 6 (ucast m :: 32 word)) n = bit (e_perm uo) n"
    using assms b [of "6 + n"] by (auto simp: mode_bits_def bit_simps hi)
  show "bit (drop_bit 3 (ucast m :: 32 word)) n = bit (e_perm gc) n"
    using assms b [of "3 + n"] by (auto simp: mode_bits_def bit_simps hi)
  show "bit (ucast m :: 32 word) n = bit (e_perm ot) n"
    using assms b [of n] by (auto simp: mode_bits_def bit_simps hi)
qed

lemma group_bits_zero:
  assumes m: "m AND S_IRWXUGO = mode_bits (e_perm uo) (e_perm gc) (e_perm ot)" and rwx: "rwx uo" "rwx gc" "rwx ot"
  shows "(ucast m :: 32 word) AND ucast S_IRWXG = 0 \<longleftrightarrow> e_perm gc = 0"
proof -
  have "(ucast m :: 32 word) AND ucast S_IRWXG = 0 \<longleftrightarrow> (\<forall>k < 3. \<not> bit (drop_bit 3 (ucast m :: 32 word)) k)"
  proof
    assume z: "(ucast m :: 32 word) AND ucast S_IRWXG = 0"
    show "\<forall>k < 3. \<not> bit (drop_bit 3 (ucast m :: 32 word)) k"
    proof (intro allI impI)
      fix k :: nat assume k: "k < 3"
      have "\<not> bit ((ucast m :: 32 word) AND ucast S_IRWXG) (3 + k)" unfolding z by simp
      then show "\<not> bit (drop_bit 3 (ucast m :: 32 word)) k" using k by (auto simp: bit_simps)
    qed
  next
    assume z: "\<forall>k < 3. \<not> bit (drop_bit 3 (ucast m :: 32 word)) k"
    show "(ucast m :: 32 word) AND ucast S_IRWXG = 0"
      unfolding word_zero_bits [of "ucast m AND ucast S_IRWXG"]
    proof
      fix n
      show "\<not> bit ((ucast m :: 32 word) AND ucast S_IRWXG) n" using z [rule_format, of "n - 3"] less_diff_conv2 [of 3 n 3]
        by (auto simp: bit_simps)
    qed
  qed
  also have "\<dots> \<longleftrightarrow> (\<forall>k < 3. \<not> bit (e_perm gc) k)" using mode_entry_bits(2) [OF m rwx] by auto
  also have "\<dots> \<longleftrightarrow> e_perm gc = 0" using rwx_bitD [OF rwx(2)] by (auto simp: word_zero_bits [of "e_perm gc"])
  finally show ?thesis .
qed

lemma group_bits_ucast: "(ucast m :: 32 word) AND ucast S_IRWXG = 0 \<Longrightarrow> m AND S_IRWXG = 0"
proof -
  assume z: "(ucast m :: 32 word) AND ucast S_IRWXG = 0"
  have "\<not> bit (m AND S_IRWXG) n" for n
  proof -
    have "\<not> bit ((ucast m :: 32 word) AND ucast S_IRWXG) n" unfolding z by simp
    then show ?thesis by (auto simp: bit_simps)
  qed
  then show ?thesis by (simp only: word_zero_bits [of "m AND S_IRWXG"]) simp
qed

section \<open>Storing an access ACL\<close>

text \<open>What a file system promises when it stores an access ACL successfully: the mode and the list that
  \<^verbatim>\<open>posix_acl_update_mode\<close> computes are in the inode and in its cache, and the owner stays.\<close>

locale acl_backend =
  fixes set_access_acl :: "cred \<Rightarrow> inode \<Rightarrow> acl \<Rightarrow> int \<times> inode"
  assumes stores: "set_access_acl c inode a = (0, inode') \<Longrightarrow>
    \<exists>mode acl. posix_acl_update_mode c inode (i_mode inode) (Some a) = (0, mode, acl) \<and>
      i_mode inode' = mode \<and> i_acl inode' = Cached acl \<and> i_uid inode' = i_uid inode \<and> i_gid inode' = i_gid inode \<and>
      i_posixacl inode' = i_posixacl inode"
begin

lemma stored_state:
  assumes set: "set_access_acl c inode (acl_of uo us go gs ms ot) = (0, inode')" and sh: "acl_shape uo us go gs ms ot"
  shows "i_acl inode' = Cached (if ms = [] then None else Some (acl_of uo us go gs ms ot))"
    and "i_mode inode' AND S_IRWXUGO = mode_bits (e_perm uo) (e_perm (group_class go ms)) (e_perm ot)"
    and "i_uid inode' = i_uid inode" "i_gid inode' = i_gid inode" "i_posixacl inode' = i_posixacl inode"
proof -
  obtain mode acl where upd: "posix_acl_update_mode c inode (i_mode inode) (Some (acl_of uo us go gs ms ot)) = (0, mode, acl)"
    and st: "i_mode inode' = mode" "i_acl inode' = Cached acl" "i_uid inode' = i_uid inode" "i_gid inode' = i_gid inode"
      "i_posixacl inode' = i_posixacl inode"
    using stores [OF set] by blast
  show "i_uid inode' = i_uid inode" "i_gid inode' = i_gid inode" "i_posixacl inode' = i_posixacl inode" using st by auto
  note rwx = shape_rwx [OF sh]
  let ?m = "i_mode inode AND NOT S_IRWXUGO OR mode_bits (e_perm uo) (e_perm (group_class go ms)) (e_perm ot)"
  have "mode = ?m \<or> mode = ?m AND NOT S_ISGID" and acl: "acl = (if ms = [] then None else Some (acl_of uo us go gs ms ot))"
    using upd sh unfolding posix_acl_update_mode_def equiv_mode_shape [OF sh]
    by (auto simp: acl_shape_def split: if_splits)
  moreover have "?m AND S_IRWXUGO = mode_bits (e_perm uo) (e_perm (group_class go ms)) (e_perm ot)"
    "(?m AND NOT S_ISGID) AND S_IRWXUGO = mode_bits (e_perm uo) (e_perm (group_class go ms)) (e_perm ot)"
    using rwx(1,4,5) by (auto intro!: bit_word_eqI simp: mode_bits_def bit_simps dest!: rwx_bitD)
  ultimately show "i_mode inode' AND S_IRWXUGO = mode_bits (e_perm uo) (e_perm (group_class go ms)) (e_perm ot)"
    using st by auto
  show "i_acl inode' = Cached (if ms = [] then None else Some (acl_of uo us go gs ms ot))" using st acl by simp
qed

text \<open>The check of the mode bits alone decides as the draft does for a list without named entries and mask.\<close>

lemma access_after_set:
  assumes set: "set_access_acl c inode (acl_of uo us go gs ms ot) = (0, inode')" and sh: "acl_shape uo us go gs ms ot"
    and acl: "i_posixacl inode" and want: "want AND MAY_NOT_BLOCK = 0" and gc: "ms = [] \<or> e_perm (group_class go ms) \<noteq> 0"
  shows "acl_permission_check task gop c' inode' want =
    (access_result (draft_access c' inode' uo us go gs ms ot (rwx_want want)), inode')"
proof -
  note st = stored_state [OF set sh] and rwx = shape_rwx [OF sh]
  note bits = mode_entry_bits [OF st(2) rwx(1,5,4)]
  let ?m = "ucast (i_mode inode') :: 32 word"
  have check: "mode_check (drop_bit 6 ?m) want = access_result (grants (e_perm uo) (rwx_want want))"
    "mode_check (drop_bit 3 ?m) want = access_result (grants (e_perm (group_class go ms)) (rwx_want want))"
    "mode_check ?m want = access_result (grants (e_perm ot) (rwx_want want))"
    by (rule mode_check_grants, rule bits, assumption)+
  show ?thesis
  proof (cases "fsuid c' = i_uid inode'")
    case True
    then show ?thesis using check(1) by (simp add: acl_permission_check_def draft_access_def Let_def)
  next
    case other: False
    show ?thesis
    proof (cases "ms = []")
      case True
      then have empty: "us = []" "gs = []" "group_class go ms = go" using sh by (auto simp: acl_shape_def group_class_def)
      have "draft_access c' inode' uo us go gs ms ot (rwx_want want) =
          (if in_group_p c' (i_gid inode') then grants (e_perm go) (rwx_want want) else grants (e_perm ot) (rwx_want want))"
        using other empty True shape_tags(3) [OF sh] by (auto simp: draft_access_def group_match_def masked_grant_def)
      moreover have "check_acl task gop c' inode' want = (- EAGAIN, inode')"
        using want st(1) True by (simp add: check_acl_def get_acl_def get_cached_acl_def acl_by_type_def)
      ultimately show ?thesis using check other empty by (auto simp: acl_permission_check_def Let_def)
    next
      case False
      then have "?m AND ucast S_IRWXG \<noteq> 0" using gc group_bits_zero [OF st(2) rwx(1,5,4)] by simp
      moreover have "check_acl task gop c' inode' want =
          (access_result (draft_access c' inode' uo us go gs ms ot (rwx_want want)), inode')"
        using want st(1) False posix_acl_permission_draft [OF sh, of c' inode' want]
        by (simp add: check_acl_def get_acl_def get_cached_acl_def acl_by_type_def want_rwx)
      ultimately show ?thesis using other st(5) acl by (simp add: acl_permission_check_def Let_def errno_defs)
    qed
  qed
qed

end

section \<open>The file systems\<close>

interpretation tmpfs: acl_backend "\<lambda>c inode a. simple_set_acl c now inode (Some a) ACL_TYPE_ACCESS" for now
proof
  fix c inode a inode'
  assume "simple_set_acl c now inode (Some a) ACL_TYPE_ACCESS = (0, inode')"
  then show "\<exists>mode acl. posix_acl_update_mode c inode (i_mode inode) (Some a) = (0, mode, acl) \<and>
      i_mode inode' = mode \<and> i_acl inode' = Cached acl \<and> i_uid inode' = i_uid inode \<and> i_gid inode' = i_gid inode \<and>
      i_posixacl inode' = i_posixacl inode"
    by (auto simp: simple_set_acl_def set_cached_acl_def store_acl_by_type_def split: prod.splits if_splits)
qed

text \<open>ext4, whatever its attribute store and its journal do.\<close>

definition ext4_set_access ::
  "('s \<Rightarrow> acl_type \<Rightarrow> 8 word list option \<Rightarrow> int \<times> 's) \<Rightarrow> (nat \<Rightarrow> 8 word) option \<Rightarrow> timespec \<Rightarrow> (int \<times> bool) list \<Rightarrow> 's \<Rightarrow>
   cred \<Rightarrow> inode \<Rightarrow> acl \<Rightarrow> int \<times> inode" where
  "ext4_set_access xset mem now passes store c inode a =
     (case ext4_set_acl xset mem now c passes (inode, store) ACL_TYPE_ACCESS (Some a) (i_mode inode) False of
        None \<Rightarrow> (- ENOSPC, inode)
      | Some (err, inode', _) \<Rightarrow> (err, inode'))"

lemma update_mode_arg:
  "posix_acl_update_mode c inode mode_p acl = (0, mode, acl') \<Longrightarrow> posix_acl_update_mode c inode mode_q acl = (0, mode, acl')"
  by (auto simp: posix_acl_update_mode_def split: prod.splits if_splits)

lemma update_mode_acl:
  "posix_acl_update_mode c inode mode_p acl = (0, mode, acl') \<Longrightarrow> acl' = None \<or> acl' = acl"
  by (auto simp: posix_acl_update_mode_def split: prod.splits if_splits)

lemma to_disk_error: "map_sum id Some (ext4_acl_to_disk mem a) \<noteq> Inl 0"
  by (auto simp: ext4_acl_to_disk_def errno_defs Let_def split: option.splits)

lemma ext4_handle_access:
  assumes "ext4_set_acl_handle xset mem (inode, store) ACL_TYPE_ACCESS acl = (err, inode1, store1)"
  shows "inode1 = (if err = 0 then set_cached_acl inode ACL_TYPE_ACCESS acl else inode) \<or>
    err \<noteq> 0 \<and> inode1 = inode"
  using assms by (auto simp: ext4_set_acl_handle_def to_disk_error split: sum.splits option.splits prod.splits if_splits)

text \<open>Every pass after the first starts with the mode and the list the first one computed.\<close>

lemma ext4_set_acl_retry:
  assumes "posix_acl_update_mode c inode mode_p (Some a) = (0, mode, acl)"
    and "ext4_set_acl xset mem now c passes (inode, store) ACL_TYPE_ACCESS acl mode True = Some (0, inode', store')"
  shows "inode' = (set_cached_acl inode ACL_TYPE_ACCESS acl)\<lparr>i_mode := mode, i_ctime := now\<rparr>"
  using assms(2)
proof (induction passes arbitrary: store)
  case (Cons p passes)
  obtain journal again where p: "p = (journal, again)" by force
  have upd: "(if ACL_TYPE_ACCESS = ACL_TYPE_ACCESS \<and> acl \<noteq> None then posix_acl_update_mode c inode mode acl else (0, mode, acl)) =
      (0, mode, acl)"
    using update_mode_acl [OF assms(1)] update_mode_arg [OF assms(1)] by auto
  obtain err inode1 store1 where h: "ext4_set_acl_handle xset mem (inode, store) ACL_TYPE_ACCESS acl = (err, inode1, store1)"
    by (metis prod_cases3)
  have j: "journal = 0" using Cons.prems p by (auto split: if_splits)
  show ?case
  proof (cases "err = 0")
    case True
    then show ?thesis using Cons.prems j ext4_handle_access [OF h] unfolding p ext4_set_acl.simps upd by (simp add: h)
  next
    case False
    then have "inode1 = inode" using ext4_handle_access [OF h] by auto
    then show ?thesis using Cons.prems Cons.IH [of store1] False j unfolding p ext4_set_acl.simps upd
      by (auto simp: h split: if_splits)
  qed
qed simp

interpretation ext4: acl_backend "ext4_set_access xset mem now passes store" for xset mem now passes store
proof
  fix c inode a inode'
  assume set: "ext4_set_access xset mem now passes store c inode a = (0, inode')"
  then obtain store' where run: "ext4_set_acl xset mem now c passes (inode, store) ACL_TYPE_ACCESS (Some a) (i_mode inode) False =
      Some (0, inode', store')"
    by (auto simp: ext4_set_access_def ENOSPC_def split: option.splits)
  then obtain journal again more where p: "passes = (journal, again) # more" by (cases passes) auto
  have j: "journal = 0" using run p by (auto split: if_splits)
  obtain err mode acl where upd: "posix_acl_update_mode c inode (i_mode inode) (Some a) = (err, mode, acl)" by (metis prod_cases3)
  have err: "err = 0" using run p j upd by (auto split: if_splits)
  obtain e inode1 store1 where h: "ext4_set_acl_handle xset mem (inode, store) ACL_TYPE_ACCESS acl = (e, inode1, store1)"
    by (metis prod_cases3)
  have "inode' = (set_cached_acl inode ACL_TYPE_ACCESS acl)\<lparr>i_mode := mode, i_ctime := now\<rparr>"
  proof (cases "e = 0")
    case True
    then show ?thesis using run p j upd err h ext4_handle_access [OF h] by simp
  next
    case False
    then have "inode1 = inode" using ext4_handle_access [OF h] by auto
    then have "ext4_set_acl xset mem now c more (inode, store1) ACL_TYPE_ACCESS acl mode True = Some (0, inode', store')"
      using run p j upd err h False by (auto split: if_splits)
    then show ?thesis by (rule ext4_set_acl_retry [OF upd [unfolded err]])
  qed
  then show "\<exists>mode acl. posix_acl_update_mode c inode (i_mode inode) (Some a) = (0, mode, acl) \<and>
      i_mode inode' = mode \<and> i_acl inode' = Cached acl \<and> i_uid inode' = i_uid inode \<and> i_gid inode' = i_gid inode \<and>
      i_posixacl inode' = i_posixacl inode"
    using upd err by (simp add: set_cached_acl_def store_acl_by_type_def)
qed

section \<open>The walk under RCU\<close>

lemma not_block_not_0 [simp]: "MAY_NOT_BLOCK \<noteq> 0"
  by (simp add: MAY_NOT_BLOCK_def)

lemma not_block_or:
  assumes "want AND MAY_NOT_BLOCK = 0"
  shows "(want OR MAY_NOT_BLOCK) AND MAY_NOT_BLOCK \<noteq> 0" "(want OR MAY_NOT_BLOCK) AND NOT MAY_NOT_BLOCK = want"
    "mode_check mode (want OR MAY_NOT_BLOCK) = mode_check mode want"
    "(want OR MAY_NOT_BLOCK) AND MAY_WRITE = want AND MAY_WRITE" "(want OR MAY_NOT_BLOCK) AND MAY_EXEC = want AND MAY_EXEC"
    "(want OR MAY_NOT_BLOCK) AND (MAY_READ OR MAY_WRITE OR MAY_EXEC) = want AND (MAY_READ OR MAY_WRITE OR MAY_EXEC)"
proof -
  have "(want OR MAY_NOT_BLOCK) AND MAY_NOT_BLOCK = MAY_NOT_BLOCK" by (rule bit_word_eqI) (simp add: bit_and_iff bit_or_iff)
  then show "(want OR MAY_NOT_BLOCK) AND MAY_NOT_BLOCK \<noteq> 0" by (simp add: MAY_NOT_BLOCK_def)
  show "(want OR MAY_NOT_BLOCK) AND NOT MAY_NOT_BLOCK = want"
    using assms unfolding not_block_bit by (intro bit_word_eqI) (auto simp: bit_and_iff bit_or_iff bit_not_iff may_all_bits)
  have drop: "(want OR MAY_NOT_BLOCK) AND x = want AND x" if "MAY_NOT_BLOCK AND x = 0" for x
    using that by (simp add: bit.conj_disj_distrib2)
  have "MAY_NOT_BLOCK AND MAY_WRITE = 0" "MAY_NOT_BLOCK AND MAY_EXEC = 0"
    "MAY_NOT_BLOCK AND (MAY_READ OR MAY_WRITE OR MAY_EXEC) = 0" by (simp_all add: may_defs)
  note d = this [THEN drop]
  show "(want OR MAY_NOT_BLOCK) AND MAY_WRITE = want AND MAY_WRITE" "(want OR MAY_NOT_BLOCK) AND MAY_EXEC = want AND MAY_EXEC"
    "(want OR MAY_NOT_BLOCK) AND (MAY_READ OR MAY_WRITE OR MAY_EXEC) = want AND (MAY_READ OR MAY_WRITE OR MAY_EXEC)"
    by (rule d)+
  show "mode_check mode (want OR MAY_NOT_BLOCK) = mode_check mode want"
    using d(3) by (simp add: mode_check_def and.left_commute [of _ "NOT mode"] and.assoc)
qed

lemma check_acl_rcu:
  assumes "want AND MAY_NOT_BLOCK = 0"
  shows "check_acl task gop c inode (want OR MAY_NOT_BLOCK) = (- ECHILD, inode) \<or>
    check_acl task gop c inode (want OR MAY_NOT_BLOCK) = check_acl task gop c inode want \<and>
      snd (check_acl task gop c inode want) = inode"
proof (cases "i_acl inode")
  case (Cached acl)
  have "\<not> want AND MAY_NOT_BLOCK \<noteq> 0" using assms by simp
  then show ?thesis
    using Cached not_block_or(2) [OF assms]
    unfolding check_acl_def if_P [OF not_block_or(1) [OF assms]]
    by (cases acl) (simp_all add: get_cached_acl_rcu_def get_acl_def get_cached_acl_def acl_by_type_def)
qed (simp_all add: check_acl_def not_block_or(1) [OF assms] get_cached_acl_rcu_def acl_by_type_def)

lemma acl_permission_check_rcu:
  assumes "want AND MAY_NOT_BLOCK = 0"
  shows "acl_permission_check task gop c inode (want OR MAY_NOT_BLOCK) = (- ECHILD, inode) \<or>
    acl_permission_check task gop c inode (want OR MAY_NOT_BLOCK) = acl_permission_check task gop c inode want \<and>
      snd (acl_permission_check task gop c inode want) = inode"
  using check_acl_rcu [OF assms, of task gop c inode] not_block_or(3) [OF assms]
  by (auto simp: acl_permission_check_def Let_def errno_defs split: prod.splits)

section \<open>Changing attributes\<close>

text \<open>On a file system without operations of its own a check may fill the cache and set the flag of the fast path, but leaves
  the owner, the group and the mode.\<close>

definition same_owner :: "inode \<Rightarrow> inode \<Rightarrow> bool" where
  "same_owner i j \<longleftrightarrow> i_uid j = i_uid i \<and> i_gid j = i_gid i \<and> i_mode j = i_mode i"

definition plain_hooks :: "perm_hooks \<Rightarrow> bool" where
  "plain_hooks h \<longleftrightarrow> op_permission2 h = None \<and> op_permission h = None"

lemma get_acl_keeps: "same_owner inode (snd (get_acl task None inode type))"
  by (auto simp: get_acl_def cmpxchg_acl_def set_cached_acl_def store_acl_by_type_def same_owner_def Let_def
      split: acl_cache.splits acl_type.splits)

lemma check_acl_keeps: "same_owner inode (snd (check_acl task None c inode want))"
  using get_acl_keeps [of inode task ACL_TYPE_ACCESS]
  by (auto simp: check_acl_def same_owner_def split: acl_cache.splits option.splits prod.splits sum.splits)

lemma acl_permission_check_keeps: "same_owner inode (snd (acl_permission_check task None c inode want))"
  using check_acl_keeps [of inode task c want]
  by (auto simp: acl_permission_check_def same_owner_def Let_def split: prod.splits)

lemma generic_permission_keeps: "same_owner inode (snd (generic_permission task None c inode want))"
  using acl_permission_check_keeps [of inode task c want]
  by (auto simp: generic_permission_def split: prod.splits)

lemma inode_permission2_keeps:
  assumes "plain_hooks h"
  shows "same_owner inode (snd (inode_permission2 task None h mnt c inode want))"
proof -
  have "same_owner inode (snd (do_inode_permission task None h mnt c inode want))"
    using assms generic_permission_keeps [of "inode\<lparr>i_fastperm := True\<rparr>" task c want] generic_permission_keeps [of inode task c want]
    by (auto simp: do_inode_permission_def plain_hooks_def same_owner_def)
  then show ?thesis
    by (auto simp: inode_permission2_def inode_permission_nosb_def same_owner_def split: prod.splits)
qed

text \<open>What a caller must be to change the owner, the group, the mode or to set the set-group-ID bit.\<close>

definition authorised :: "cred \<Rightarrow> inode \<Rightarrow> inode \<Rightarrow> bool" where
  "authorised c inode inode' \<longleftrightarrow>
     (i_uid inode' \<noteq> i_uid inode \<longrightarrow> CAP_CHOWN \<in> capabilities c) \<and>
     (i_gid inode' \<noteq> i_gid inode \<longrightarrow>
        CAP_CHOWN \<in> capabilities c \<or> fsuid c = i_uid inode \<and> in_group_p c (i_gid inode')) \<and>
     (i_mode inode' \<noteq> i_mode inode \<longrightarrow> fsuid c = i_uid inode \<or> CAP_FOWNER \<in> capabilities c) \<and>
     (bit (i_mode inode') 10 \<and> \<not> bit (i_mode inode) 10 \<longrightarrow> in_group_p c (i_gid inode') \<or> CAP_FSETID \<in> capabilities c)"

lemma authorised_same: "same_owner inode inode' \<Longrightarrow> authorised c inode' k = authorised c inode k"
  by (simp add: authorised_def same_owner_def)

lemma setattr_prepare_ok:
  assumes "setattr_prepare limit killpriv c inode attr = (0, attr1)" and "\<not> has_attr attr ATTR_FORCE"
  shows "ia_valid attr1 = ia_valid attr" "ia_uid attr1 = ia_uid attr" "ia_gid attr1 = ia_gid attr"
    and "has_attr attr ATTR_UID \<Longrightarrow> ia_uid attr = i_uid inode \<or> CAP_CHOWN \<in> capabilities c"
    and "has_attr attr ATTR_GID \<Longrightarrow> ia_gid attr = i_gid inode \<or> CAP_CHOWN \<in> capabilities c \<or>
      fsuid c = i_uid inode \<and> in_group_p c (ia_gid attr)"
    and "has_attr attr ATTR_MODE \<Longrightarrow> fsuid c = i_uid inode \<or> CAP_FOWNER \<in> capabilities c"
  using assms
  by (auto simp: setattr_prepare_def inode_owner_or_capable_def capable_wrt_inode_uidgid_def errno_defs Let_def
      split: if_splits)

lemma setattr_copy_fields:
  "i_uid (setattr_copy c inode attr) = (if has_attr attr ATTR_UID then ia_uid attr else i_uid inode)"
  "i_gid (setattr_copy c inode attr) = (if has_attr attr ATTR_GID then ia_gid attr else i_gid inode)"
  "\<not> has_attr attr ATTR_MODE \<Longrightarrow> i_mode (setattr_copy c inode attr) = i_mode inode"
  "has_attr attr ATTR_MODE \<Longrightarrow> bit (i_mode (setattr_copy c inode attr)) 10 \<Longrightarrow>
     in_group_p c (i_gid (setattr_copy c inode attr)) \<or> CAP_FSETID \<in> capabilities c"
  by (auto simp: setattr_copy_def capable_wrt_inode_uidgid_def bit_simps Let_def split: if_splits)

lemma simple_setattr_authorised:
  assumes "simple_setattr limit killpriv c inode attr = (0, inode')" and "\<not> has_attr attr ATTR_FORCE"
  shows "authorised c inode inode'"
proof -
  obtain attr1 where prep: "setattr_prepare limit killpriv c inode attr = (0, attr1)"
    using assms(1) by (cases "setattr_prepare limit killpriv c inode attr") (auto simp: simple_setattr_def split: if_splits)
  note p = setattr_prepare_ok [OF prep assms(2)]
  define j where "j = (if has_attr attr1 ATTR_SIZE then inode\<lparr>i_size := ia_size attr1\<rparr> else inode)"
  have new: "inode' = setattr_copy c j attr1" using assms(1) prep by (simp add: simple_setattr_def j_def)
  have i: "i_uid j = i_uid inode" "i_gid j = i_gid inode" "i_mode j = i_mode inode" by (simp_all add: j_def)
  note f = setattr_copy_fields [where c = c and inode = j and attr = attr1, folded new, unfolded i p(1-3)]
  show ?thesis unfolding authorised_def
  proof (intro conjI impI)
    assume "i_uid inode' \<noteq> i_uid inode"
    then show "CAP_CHOWN \<in> capabilities c" using f(1) p(4) by (auto split: if_splits)
  next
    assume "i_gid inode' \<noteq> i_gid inode"
    then show "CAP_CHOWN \<in> capabilities c \<or> fsuid c = i_uid inode \<and> in_group_p c (i_gid inode')"
      using f(2) p(5) by (auto split: if_splits)
  next
    assume "i_mode inode' \<noteq> i_mode inode"
    then show "fsuid c = i_uid inode \<or> CAP_FOWNER \<in> capabilities c" using f(3) p(6) by blast
  next
    assume "bit (i_mode inode') 10 \<and> \<not> bit (i_mode inode) 10"
    then show "in_group_p c (i_gid inode') \<or> CAP_FSETID \<in> capabilities c" using f(3,4) by metis
  qed
qed

lemma force_flag:
  "(v OR ATTR_MODE) AND ATTR_FORCE = v AND ATTR_FORCE" "(v AND NOT ATTR_KILL_PRIV) AND ATTR_FORCE = v AND ATTR_FORCE"
proof -
  have "ATTR_MODE AND ATTR_FORCE = 0" "NOT ATTR_KILL_PRIV AND ATTR_FORCE = ATTR_FORCE" by (simp_all add: attr_defs)
  then show "(v OR ATTR_MODE) AND ATTR_FORCE = v AND ATTR_FORCE" "(v AND NOT ATTR_KILL_PRIV) AND ATTR_FORCE = v AND ATTR_FORCE"
    by (simp_all add: bit.conj_disj_distrib2 and.assoc)
qed

lemma kill_force: "has_attr (kill_sgid inode (kill_suid inode attr)) ATTR_FORCE = has_attr attr ATTR_FORCE"
  by (auto simp: kill_sgid_def kill_suid_def Let_def force_flag)

lemma apply_change_authorised:
  assumes "apply_change ce mnt c inode attr = (0, inode')" and "ce_setattr2 ce = None" "ce_setattr ce = None"
    and "\<not> has_attr attr ATTR_FORCE"
  shows "authorised c inode inode'"
proof -
  have "inode' = inode \<or> simple_setattr (ce_limit ce) (ce_killpriv ce) c inode attr = (0, inode')"
    using assms(1-3) by (auto simp: apply_change_def errno_defs split: if_splits)
  moreover have "authorised c inode inode" by (simp add: authorised_def)
  ultimately show ?thesis using simple_setattr_authorised assms(4) by blast
qed

end
