(* ===== verification/Acl_Props.thy ===== *)
theory Acl_Props
  imports Acl_Access
begin

text \<open>
  The properties of access control lists and of the access decisions, each with a concrete instance.
\<close>

unbundle bit_operations_syntax

section \<open>A list for the instances\<close>

definition entry :: "16 word \<Rightarrow> 16 word \<Rightarrow> 32 word \<Rightarrow> acl_entry" where
  "entry t p i = \<lparr>e_tag = t, e_perm = p, e_id = i\<rparr>"

text \<open>The owner may do everything, user 1000 may read and write, the group may read, the others nothing.\<close>

definition shared_acl :: acl where
  "shared_acl = [entry ACL_USER_OBJ 7 0, entry ACL_USER 6 1000, entry ACL_GROUP_OBJ 4 0, entry ACL_MASK 6 0, entry ACL_OTHER 0 0]"

definition midnight :: timespec where
  "midnight = \<lparr>tv_sec = 0, tv_nsec = 0\<rparr>"

definition plain_file :: inode where
  "plain_file = \<lparr>i_mode = 0x81A4, i_uid = 0, i_gid = 0, i_size = 0, i_atime = midnight, i_mtime = midnight, i_ctime = midnight,
     i_posixacl = True, i_acl = ACL_NOT_CACHED, i_default_acl = ACL_NOT_CACHED, i_immutable = False, i_append = False,
     i_swapfile = False, i_dead = False, i_nosec = False, i_fastperm = False, s_rdonly = False, s_maxbytes = 2 ^ 31 - 1,
     s_time_gran = 1\<rparr>"

definition task_of :: "32 word \<Rightarrow> 32 word \<Rightarrow> nat set \<Rightarrow> cred" where
  "task_of uid gid caps = \<lparr>fsuid = uid, fsgid = gid, egid = gid, group_info = Some [], capabilities = caps, cr_umask = 18\<rparr>"

section \<open>Lists\<close>

text \<open>C32 \<^verbatim>\<open>posix_acl_valid\<close> accepts exactly the lists of the POSIX draft: an owner entry, named users, the owning group, named
  groups, a mask (required when somebody is named) and the others, in this order, with permissions among read, write
  and execute and with valid identifiers; every other list gives -EINVAL.\<close>

theorem posix_acl_valid_correct:
  "posix_acl_valid acl = (if draft_acl acl then 0 else - EINVAL)"
  using draft_acl_valid [of acl] posix_acl_valid_cases [of acl] by auto

text \<open>C5 On a valid list \<^verbatim>\<open>posix_acl_permission\<close> never fails with -EIO and decides as the access check of the draft: the owner
  by the owner entry, a named user by the first entry with the name and the mask, a member of a listed group by any matching group
  entry and the mask, anybody else by the last entry.\<close>

theorem posix_acl_permission_correct:
  assumes "posix_acl_valid acl = 0" and "want AND MAY_NOT_BLOCK = 0"
  shows "posix_acl_permission c inode acl want = (if draft_grants c inode acl want then 0 else - EACCES)"
  using assms by (rule permission_draft_grants)

theorem posix_acl_permission_correct_witness:
  "posix_acl_valid shared_acl = 0 \<and> draft_grants (task_of 1000 1000 {}) plain_file shared_acl MAY_WRITE \<and>
   \<not> draft_grants (task_of 1001 1000 {}) plain_file shared_acl MAY_READ"
proof -
  have valid: "posix_acl_valid shared_acl = 0" by code_simp
  have run: "posix_acl_permission (task_of 1000 1000 {}) plain_file shared_acl MAY_WRITE = 0"
    "posix_acl_permission (task_of 1001 1000 {}) plain_file shared_acl MAY_READ \<noteq> 0" by code_simp+
  have "MAY_WRITE AND MAY_NOT_BLOCK = 0" "MAY_READ AND MAY_NOT_BLOCK = 0" by code_simp+
  then show ?thesis
    using posix_acl_permission_correct [OF valid, of MAY_WRITE "task_of 1000 1000 {}" plain_file]
      posix_acl_permission_correct [OF valid, of MAY_READ "task_of 1001 1000 {}" plain_file] run valid
    by (auto simp: EACCES_def split: if_splits)
qed

text \<open>The list made from a mode is valid, gives back exactly the permission bits of the mode, and decides every request
  as the mode bits alone do.\<close>

theorem posix_acl_from_mode_correct:
  assumes "posix_acl_from_mode mem mode = Inr acl" and "want AND MAY_NOT_BLOCK = 0"
  shows "posix_acl_valid acl = 0 \<and>
    posix_acl_equiv_mode (Some acl) m = (0, m AND NOT S_IRWXUGO OR mode AND S_IRWXUGO) \<and>
    posix_acl_permission c (inode\<lparr>i_mode := mode\<rparr>) acl want =
      fst (acl_permission_check task gop c (inode\<lparr>i_mode := mode, i_posixacl := False\<rparr>) want)"
proof -
  obtain e0 e1 e2 where acl: "acl = acl_of (e0\<lparr>e_tag := ACL_USER_OBJ, e_perm := drop_bit 6 (mode AND S_IRWXU)\<rparr>) []
      (e1\<lparr>e_tag := ACL_GROUP_OBJ, e_perm := drop_bit 3 (mode AND S_IRWXG)\<rparr>) [] []
      (e2\<lparr>e_tag := ACL_OTHER, e_perm := mode AND S_IRWXO\<rparr>)"
    using assms(1) by (auto simp: posix_acl_from_mode_def split: option.splits)
  let ?uo = "e0\<lparr>e_tag := ACL_USER_OBJ, e_perm := drop_bit 6 (mode AND S_IRWXU)\<rparr>"
  let ?go = "e1\<lparr>e_tag := ACL_GROUP_OBJ, e_perm := drop_bit 3 (mode AND S_IRWXG)\<rparr>"
  let ?ot = "e2\<lparr>e_tag := ACL_OTHER, e_perm := mode AND S_IRWXO\<rparr>"
  have rwx: "rwx ?uo" "rwx ?go" "rwx ?ot" by (auto simp: rwx_bits bit_simps)
  then have sh: "acl_shape ?uo [] ?go [] [] ?ot" by (simp add: acl_shape_def tagged_def rwx_def)
  have bits: "mode_bits (e_perm ?uo) (e_perm ?go) (e_perm ?ot) = mode AND S_IRWXUGO"
    using mode_bits_split [of mode] by (simp del: drop_bit_and)
  have equiv: "posix_acl_equiv_mode (Some acl) m = (0, m AND NOT S_IRWXUGO OR mode AND S_IRWXUGO)"
    using equiv_mode_shape [OF sh, of m] bits by (simp add: acl group_class_def)
  note mb = mode_entry_bits [OF bits [symmetric] rwx]
  have "mode_check (drop_bit 6 (ucast mode)) want = access_result (grants (e_perm ?uo) (rwx_want want))"
    "mode_check (drop_bit 3 (ucast mode)) want = access_result (grants (e_perm ?go) (rwx_want want))"
    "mode_check (ucast mode) want = access_result (grants (e_perm ?ot) (rwx_want want))"
    by (rule mode_check_grants, rule mb, assumption)+
  then have "fst (acl_permission_check task gop c (inode\<lparr>i_mode := mode, i_posixacl := False\<rparr>) want) =
      access_result (draft_access c (inode\<lparr>i_mode := mode\<rparr>) ?uo [] ?go [] [] ?ot (rwx_want want))"
    by (simp add: acl_permission_check_def draft_access_def group_match_def masked_grant_def Let_def)
  moreover have "posix_acl_permission c (inode\<lparr>i_mode := mode\<rparr>) acl want =
      access_result (draft_access c (inode\<lparr>i_mode := mode\<rparr>) ?uo [] ?go [] [] ?ot (rwx_want want))"
    using posix_acl_permission_draft [OF sh, of c "inode\<lparr>i_mode := mode\<rparr>" want] by (simp add: acl want_rwx [OF assms(2)])
  moreover have "posix_acl_valid acl = 0" using draft_acl_I [OF sh] by (simp add: draft_acl_valid acl)
  ultimately show ?thesis using equiv by simp
qed

theorem posix_acl_from_mode_correct_witness:
  "\<exists>acl. posix_acl_from_mode (Some (\<lambda>_. entry 0 0 0)) 0x81A4 = Inr acl \<and> posix_acl_valid acl = 0 \<and>
     posix_acl_equiv_mode (Some acl) 0 = (0, 420)"
proof -
  obtain acl where acl: "posix_acl_from_mode (Some (\<lambda>_. entry 0 0 0)) 0x81A4 = Inr acl"
    by (simp add: posix_acl_from_mode_def posix_acl_alloc_def)
  have "MAY_READ AND MAY_NOT_BLOCK = 0" "(0 :: 16 word) AND NOT S_IRWXUGO OR 0x81A4 AND S_IRWXUGO = 420" by code_simp+
  then show ?thesis using posix_acl_from_mode_correct [OF acl, of MAY_READ 0] acl by auto
qed

text \<open>C29 A new inode: on a valid default ACL the masking with the requested mode always succeeds and gives a valid list
  with the same names, in which no entry has a permission the default ACL does not give it; the new mode has no bit
  that was not requested and is exactly the mode of the new list, and nobody is granted an access the default ACL
  denies.\<close>

theorem posix_acl_create_masq_correct:
  assumes "posix_acl_valid acl = 0" and "want AND MAY_NOT_BLOCK = 0"
  shows "\<exists>ret acl' mode'. posix_acl_create_masq acl mode = Inr (ret, acl', mode') \<and> posix_acl_valid acl' = 0 \<and>
    posix_acl_equiv_mode (Some acl') mode = (ret, mode') \<and> mode' AND mode = mode' \<and> list_all2 weaker acl acl' \<and>
    (posix_acl_permission c inode acl' want = 0 \<longrightarrow> posix_acl_permission c inode acl want = 0)"
proof -
  obtain uo us go gs ms ot where acl: "acl = acl_of uo us go gs ms ot" and sh: "acl_shape uo us go gs ms ot"
    using assms(1) posix_acl_valid_iff by blast
  note rwx = shape_rwx [OF sh]
  define u where "u = create_perm (e_perm uo) (drop_bit 6 mode)"
  define p where "p = create_perm (e_perm ot) mode"
  define g where "g = create_perm (e_perm (group_class go ms)) (drop_bit 3 mode)"
  obtain go' ms' where gm: "with_group_perm g go ms = (go', ms')" by force
  have new_rwx: "rwx (uo\<lparr>e_perm := u\<rparr>)" "rwx (uo\<lparr>e_perm := g\<rparr>)" "rwx (uo\<lparr>e_perm := p\<rparr>)"
    using rwx(1,4,5) by (auto simp: rwx_bits [of "_\<lparr>e_perm := _\<rparr>"] u_def g_def p_def create_perm_bits)
  note sh' = shape_with_perms [OF sh gm new_rwx]
  let ?acl' = "acl_of (uo\<lparr>e_perm := u\<rparr>) us go' gs ms' (ot\<lparr>e_perm := p\<rparr>)"
  let ?mode' = "mode AND NOT S_IRWXUGO OR mode_bits u g p"
  let ?ret = "if us = [] \<and> gs = [] \<and> ms = [] then 0 else 1 :: int"
  have ms': "ms' = [] \<longleftrightarrow> ms = []" using gm by (auto simp: with_group_perm_def split: list.splits)
  have "posix_acl_create_masq acl mode = Inr (?ret, ?acl', ?mode')"
    using create_masq_shape [OF sh, of mode] gm by (simp only: acl u_def p_def g_def) simp
  moreover have "posix_acl_valid ?acl' = 0" using draft_acl_I [OF sh'(1)] by (simp add: draft_acl_valid)
  moreover have "posix_acl_equiv_mode (Some ?acl') mode = (?ret, ?mode')"
    using equiv_mode_shape [OF sh'(1), of mode] sh'(2) ms' by simp
  moreover have "?mode' AND mode = ?mode'"
    using rwx(1,4,5) by (intro bit_word_eqI) (auto simp: mode_bits_def u_def g_def p_def create_perm_bits bit_simps)
  moreover have weak: "weaker uo (uo\<lparr>e_perm := u\<rparr>)" "weaker ot (ot\<lparr>e_perm := p\<rparr>)" "weaker go go'" "list_all2 weaker ms ms'"
    using gm shape_masks [OF sh]
    by (auto simp: weaker_def u_def p_def g_def create_perm_def with_group_perm_def group_class_def
        intro!: bit_word_eqI simp: bit_simps split: list.splits)
  then have "list_all2 weaker acl ?acl'" by (auto simp: acl intro!: list_all2_appendI list.rel_refl)
  moreover have "posix_acl_permission c inode acl want = 0" if "posix_acl_permission c inode ?acl' want = 0"
  proof -
    have "draft_access c inode (uo\<lparr>e_perm := u\<rparr>) us go' gs ms' (ot\<lparr>e_perm := p\<rparr>) (rwx_want want)"
      using that posix_acl_permission_draft [OF sh'(1), of c inode want] want_rwx [OF assms(2)]
      by (auto simp: EACCES_def split: if_splits)
    then show ?thesis
      using draft_access_mono weak posix_acl_permission_draft [OF sh, of c inode want] want_rwx [OF assms(2)] acl by simp
  qed
  ultimately show ?thesis by blast
qed

theorem posix_acl_create_masq_correct_witness:
  "posix_acl_valid shared_acl = 0 \<and>
   (\<exists>ret acl' mode'. posix_acl_create_masq shared_acl 0x81A0 = Inr (ret, acl', mode') \<and> posix_acl_valid acl' = 0 \<and>
      posix_acl_equiv_mode (Some acl') 0x81A0 = (ret, mode'))"
proof -
  have "posix_acl_valid shared_acl = 0" "MAY_READ AND MAY_NOT_BLOCK = 0" by code_simp+
  then show ?thesis using posix_acl_create_masq_correct [of shared_acl MAY_READ "0x81A0"] by blast
qed

text \<open>A chmod: masking a valid list with a mode always succeeds, gives a valid list with the same names, and the mode
  of that list has exactly the nine permission bits of the chmod.\<close>

theorem posix_acl_chmod_masq_correct:
  assumes "posix_acl_valid acl = 0"
  shows "\<exists>acl'. posix_acl_chmod_masq acl mode = Inr acl' \<and> posix_acl_valid acl' = 0 \<and>
    map (\<lambda>e. (e_tag e, e_id e)) acl' = map (\<lambda>e. (e_tag e, e_id e)) acl \<and>
    snd (posix_acl_equiv_mode (Some acl') m) = m AND NOT S_IRWXUGO OR mode AND S_IRWXUGO"
proof -
  obtain uo us go gs ms ot where acl: "acl = acl_of uo us go gs ms ot" and sh: "acl_shape uo us go gs ms ot"
    using assms posix_acl_valid_iff by blast
  define g where "g = drop_bit 3 (mode AND S_IRWXG)"
  obtain go' ms' where gm: "with_group_perm g go ms = (go', ms')" by force
  let ?u = "drop_bit 6 (mode AND S_IRWXU)" and ?p = "mode AND S_IRWXO"
  have "rwx (uo\<lparr>e_perm := ?u\<rparr>)" "rwx (uo\<lparr>e_perm := g\<rparr>)" "rwx (uo\<lparr>e_perm := ?p\<rparr>)"
    by (auto simp: rwx_bits g_def bit_simps)
  note sh' = shape_with_perms [OF sh gm this]
  let ?acl' = "acl_of (uo\<lparr>e_perm := ?u\<rparr>) us go' gs ms' (ot\<lparr>e_perm := ?p\<rparr>)"
  have "posix_acl_chmod_masq acl mode = Inr ?acl'"
    using chmod_masq_shape [OF sh, of mode] gm by (simp add: acl g_def)
  moreover have "posix_acl_valid ?acl' = 0" using draft_acl_I [OF sh'(1)] by (simp add: draft_acl_valid)
  moreover have "map (\<lambda>e. (e_tag e, e_id e)) ?acl' = map (\<lambda>e. (e_tag e, e_id e)) acl"
    using gm by (auto simp: acl with_group_perm_def split: list.splits)
  moreover have "snd (posix_acl_equiv_mode (Some ?acl') m) = m AND NOT S_IRWXUGO OR mode AND S_IRWXUGO"
    using equiv_mode_shape [OF sh'(1), of m] sh'(2) mode_bits_split [of mode] by (simp add: g_def del: drop_bit_and)
  ultimately show ?thesis by blast
qed

theorem posix_acl_chmod_masq_correct_witness:
  "posix_acl_valid shared_acl = 0 \<and>
   (\<exists>acl'. posix_acl_chmod_masq shared_acl 0x180 = Inr acl' \<and> posix_acl_valid acl' = 0 \<and>
      snd (posix_acl_equiv_mode (Some acl') 0) = 0x180)"
proof -
  have "posix_acl_valid shared_acl = 0" "(0 :: 16 word) AND NOT S_IRWXUGO OR 0x180 AND S_IRWXUGO = 0x180" by code_simp+
  then show ?thesis using posix_acl_chmod_masq_correct [of shared_acl "0x180" 0] by metis
qed

section \<open>Lists as bytes\<close>

text \<open>C33 The extended attribute: a buffer of the size that \<^verbatim>\<open>posix_acl_to_xattr\<close> asks for is filled completely, a smaller one
  is refused, and reading the bytes back gives a valid list that says the same.\<close>

theorem posix_acl_xattr_roundtrip:
  assumes "posix_acl_valid acl = 0" and "fst (posix_acl_to_xattr acl None) = int (length buf)"
  shows "\<exists>bytes acl'. posix_acl_to_xattr acl (Some buf) = (int (length buf), Some bytes) \<and> length bytes = length buf \<and>
    posix_acl_from_xattr (Some m) (Some bytes) = Inr (Some acl') \<and> same_acl acl acl' \<and> posix_acl_valid acl' = 0 \<and>
    (length small < length buf \<longrightarrow> posix_acl_to_xattr acl (Some small) = (- ERANGE, Some small))"
proof -
  obtain uo us go gs ms ot where acl: "acl = acl_of uo us go gs ms ot" and sh: "acl_shape uo us go gs ms ot"
    using assms(1) posix_acl_valid_iff by blast
  have readable: "\<forall>e \<in> set acl. readable e" using shape_readable [OF sh] acl by simp
  have len: "length buf = 4 + length acl * 8"
    using assms(2) by (auto simp: posix_acl_to_xattr_def posix_acl_xattr_size_def Let_def)
  let ?bytes = "cpu_to_le32 POSIX_ACL_XATTR_VERSION @ concat (map xattr_entry acl)"
  have elen: "length (concat (map xattr_entry acl)) = length acl * 8"
    by (induction acl) (auto simp: xattr_entry_def cpu_to_le16_def cpu_to_le32_def)
  have "posix_acl_to_xattr acl (Some buf) = (int (length buf), Some ?bytes)"
    using len by (simp add: posix_acl_to_xattr_def posix_acl_xattr_size_def Let_def)
  moreover have blen: "length ?bytes = length buf" using len elen by simp
  moreover have "posix_acl_from_xattr (Some m) (Some ?bytes) = Inr (Some (reread m 0 acl))"
  proof -
    have "acl \<noteq> []" using acl by simp
    then have "posix_acl_xattr_count (length ?bytes) > 0" using elen by (simp add: posix_acl_xattr_count_def)
    moreover have "le32_to_cpu (?bytes ! 0) (?bytes ! 1) (?bytes ! 2) (?bytes ! 3) = POSIX_ACL_XATTR_VERSION"
      using le32_roundtrip [of POSIX_ACL_XATTR_VERSION] by (simp add: cpu_to_le32_def del: le32_roundtrip)
    moreover have "drop 4 ?bytes = concat (map xattr_entry acl)" by (simp add: cpu_to_le32_def)
    ultimately show ?thesis
      using xattr_loop_roundtrip [OF readable, of m 0] by (simp add: posix_acl_from_xattr_def del: One_nat_def)
  qed
  moreover have "same_acl acl (reread m 0 acl)" by (rule reread_same)
  moreover have "posix_acl_valid (reread m 0 acl) = 0" using assms(1) same_acl_valid [OF reread_same] by simp
  moreover have "length small < length buf \<longrightarrow> posix_acl_to_xattr acl (Some small) = (- ERANGE, Some small)"
    using len by (simp add: posix_acl_to_xattr_def posix_acl_xattr_size_def Let_def)
  ultimately show ?thesis by blast
qed

theorem posix_acl_xattr_roundtrip_witness:
  "fst (posix_acl_to_xattr shared_acl None) = 44 \<and>
   (\<exists>bytes acl'. posix_acl_to_xattr shared_acl (Some (replicate 44 0)) = (44, Some bytes) \<and>
      posix_acl_from_xattr (Some (\<lambda>_. entry 0 0 0)) (Some bytes) = Inr (Some acl') \<and> same_acl shared_acl acl')"
proof -
  have "posix_acl_valid shared_acl = 0" "fst (posix_acl_to_xattr shared_acl None) = 44" by code_simp+
  then show ?thesis
    using posix_acl_xattr_roundtrip [of shared_acl "replicate 44 0" "\<lambda>_. entry 0 0 0" "[]"]
    by (simp only: length_replicate) auto
qed

text \<open>Ext4: a valid list written in the disk format (short entries for the four unnamed classes) is read back as a valid
  list that says the same; the number of entries is recovered from the size of the value alone.\<close>

theorem ext4_acl_disk_roundtrip:
  assumes "posix_acl_valid acl = 0"
  shows "\<exists>bytes acl'. ext4_acl_to_disk (Some junk) acl = Inr bytes \<and> length bytes = ext4_acl_size (length acl) \<and>
    ext4_acl_from_disk (Some m) (Some bytes) = Inr (Some acl') \<and> same_acl acl acl' \<and> posix_acl_valid acl' = 0"
proof -
  obtain uo us go gs ms ot where acl: "acl = acl_of uo us go gs ms ot" and sh: "acl_shape uo us go gs ms ot"
    using assms posix_acl_valid_iff by blast
  have readable: "\<forall>e \<in> set acl. readable e" using shape_readable [OF sh] acl by simp
  obtain bs where bs: "to_disk_loop acl = Some bs" "from_disk_loop m 0 (length acl) bs = Some (reread m 0 acl)"
    "length bs = 4 * length acl + 4 * length (filter names_somebody acl)"
    using disk_loop_roundtrip [OF readable, of m 0] by blast
  note sizes = disk_size [OF sh acl]
  let ?bytes = "cpu_to_le32 EXT4_ACL_VERSION @ bs"
  have len: "length ?bytes = ext4_acl_size (length acl)" using sizes(1) bs(3) by simp
  have "ext4_acl_to_disk (Some junk) acl = Inr ?bytes" using bs(1) len by (simp add: ext4_acl_to_disk_def Let_def)
  moreover have "ext4_acl_from_disk (Some m) (Some ?bytes) = Inr (Some (reread m 0 acl))"
  proof -
    have count: "ext4_acl_count (length ?bytes) = int (length acl)" using sizes(2) len by simp
    have "le32_to_cpu (?bytes ! 0) (?bytes ! 1) (?bytes ! 2) (?bytes ! 3) = EXT4_ACL_VERSION"
      using le32_roundtrip [of EXT4_ACL_VERSION] by (simp add: cpu_to_le32_def del: le32_roundtrip)
    moreover have "drop 4 ?bytes = bs" by (simp add: cpu_to_le32_def)
    moreover have "acl \<noteq> []" using acl by simp
    ultimately show ?thesis
      unfolding ext4_acl_from_disk_def option.case count Let_def using bs(2) by (simp del: One_nat_def)
  qed
  moreover have "posix_acl_valid (reread m 0 acl) = 0" using assms same_acl_valid [OF reread_same] by simp
  ultimately show ?thesis using len reread_same by blast
qed

theorem ext4_acl_disk_roundtrip_witness:
  "\<exists>bytes acl'. ext4_acl_to_disk (Some (\<lambda>_. 0)) shared_acl = Inr bytes \<and> length bytes = 28 \<and>
     ext4_acl_from_disk (Some (\<lambda>_. entry 0 0 0)) (Some bytes) = Inr (Some acl') \<and> same_acl shared_acl acl'"
proof -
  have "posix_acl_valid shared_acl = 0" "ext4_acl_size (length shared_acl) = 28" by code_simp+
  then show ?thesis using ext4_acl_disk_roundtrip [of shared_acl "\<lambda>_. 0" "\<lambda>_. entry 0 0 0"] by metis
qed

section \<open>Decisions\<close>

text \<open>C11 After tmpfs or ext4 has stored a valid access ACL, and unless the group bits of the new mode are all clear, the
  permission check decides every request of every task as the draft does on that list, also when the list was
  equivalent to the mode and not stored at all.\<close>

theorem acl_access_after_set:
  assumes stored: "simple_set_acl c now inode (Some acl) ACL_TYPE_ACCESS = (0, inode') \<or>
      ext4_set_access xset mem now passes store c inode acl = (0, inode')"
    and valid: "posix_acl_valid acl = 0" and "i_posixacl inode" and "want AND MAY_NOT_BLOCK = 0"
    and grp: "i_mode inode' AND S_IRWXG \<noteq> 0"
  shows "acl_permission_check task gop c' inode' want = (if draft_grants c' inode' acl want then 0 else - EACCES, inode')"
proof -
  obtain uo us go gs ms ot where acl: "acl = acl_of uo us go gs ms ot" and sh: "acl_shape uo us go gs ms ot"
    using valid posix_acl_valid_iff by blast
  have "i_mode inode' AND S_IRWXUGO = mode_bits (e_perm uo) (e_perm (group_class go ms)) (e_perm ot)"
    using stored unfolding acl by (elim disjE) (rule tmpfs.stored_state(2) [OF _ sh] ext4.stored_state(2) [OF _ sh], assumption)+
  then have "e_perm (group_class go ms) \<noteq> 0"
    using group_bits_zero [of "i_mode inode'" uo "group_class go ms" ot] shape_rwx [OF sh] grp group_bits_ucast by blast
  then have gc: "ms = [] \<or> e_perm (group_class go ms) \<noteq> 0" by simp
  show ?thesis
    using stored unfolding acl draft_grants_eq [OF sh]
    by (elim disjE) (erule tmpfs.access_after_set [OF _ sh assms(3,4) gc] ext4.access_after_set [OF _ sh assms(3,4) gc])+
qed

definition shared_file :: inode where
  "shared_file = snd (simple_set_acl (task_of 0 0 {}) midnight plain_file (Some shared_acl) ACL_TYPE_ACCESS)"

theorem acl_access_after_set_witness:
  "fst (simple_set_acl (task_of 0 0 {}) midnight plain_file (Some shared_acl) ACL_TYPE_ACCESS) = 0 \<and>
   fst (acl_permission_check 0 None (task_of 1000 1000 {}) shared_file MAY_WRITE) =
     (if draft_grants (task_of 1000 1000 {}) shared_file shared_acl MAY_WRITE then 0 else - EACCES)"
proof -
  have ok: "fst (simple_set_acl (task_of 0 0 {}) midnight plain_file (Some shared_acl) ACL_TYPE_ACCESS) = 0"
    "posix_acl_valid shared_acl = 0" "i_posixacl plain_file" "MAY_WRITE AND MAY_NOT_BLOCK = 0"
    "i_mode shared_file AND S_IRWXG \<noteq> 0" by code_simp+
  then have "simple_set_acl (task_of 0 0 {}) midnight plain_file (Some shared_acl) ACL_TYPE_ACCESS = (0, shared_file)"
    by (simp add: shared_file_def prod_eq_iff)
  then show ?thesis using acl_access_after_set [OF disjI1, of _ _ _ shared_acl shared_file MAY_WRITE 0 None "task_of 1000 1000 {}"] ok by simp
qed


text \<open>The walk under RCU: with MAY_NOT_BLOCK the check changes nothing and either asks to be repeated in blocking mode
  (-ECHILD) or decides as that does.\<close>

theorem generic_permission_rcu:
  assumes "want AND MAY_NOT_BLOCK = 0"
  shows "fst (generic_permission task gop c inode (want OR MAY_NOT_BLOCK)) \<in> {- ECHILD, fst (generic_permission task gop c inode want)} \<and>
    snd (generic_permission task gop c inode (want OR MAY_NOT_BLOCK)) = inode"
proof -
  obtain r inode1 where r: "acl_permission_check task gop c inode want = (r, inode1)" by force
  consider "acl_permission_check task gop c inode (want OR MAY_NOT_BLOCK) = (- ECHILD, inode)"
    | "acl_permission_check task gop c inode (want OR MAY_NOT_BLOCK) = (r, inode)" "inode1 = inode"
    using acl_permission_check_rcu [OF assms, of task gop c inode] r by auto
  then show ?thesis
  proof cases
    case 1
    then show ?thesis by (simp add: generic_permission_def errno_defs)
  next
    case 2
    then have "generic_permission task gop c inode (want OR MAY_NOT_BLOCK) = generic_permission task gop c inode want"
      unfolding generic_permission_def r 2 prod.case not_block_or(4-6) [OF assms] by simp
    moreover have "snd (generic_permission task gop c inode want) = inode" using 2 by (simp add: generic_permission_def r)
    ultimately show ?thesis by simp
  qed
qed

theorem generic_permission_rcu_witness:
  "MAY_WRITE AND MAY_NOT_BLOCK = 0 \<and>
   fst (generic_permission 0 None (task_of 1000 1000 {}) shared_file (MAY_WRITE OR MAY_NOT_BLOCK)) \<in>
     {- ECHILD, fst (generic_permission 0 None (task_of 1000 1000 {}) shared_file MAY_WRITE)}"
proof -
  have "MAY_WRITE AND MAY_NOT_BLOCK = 0" by code_simp
  then show ?thesis using generic_permission_rcu [of MAY_WRITE 0 None "task_of 1000 1000 {}" shared_file] by blast
qed

text \<open>C30 A successful change of attributes on a file system that uses the generic code, unless it is forced: only a task with
  CAP_CHOWN changes the owner; it or the owner, to a group it belongs to, changes the group; only the owner or a task
  with CAP_FOWNER changes the mode; and nobody outside the group gets the set-group-ID bit onto a file without
  CAP_FSETID.\<close>

theorem notify_change_authorised:
  assumes "notify_change2 task None h ce mnt c inode attr = Inr (0, inode')" and "plain_hooks h"
    and "ce_setattr2 ce = None" "ce_setattr ce = None" and "\<not> has_attr attr ATTR_FORCE"
  shows "authorised c inode inode'"
proof -
  obtain e inode1 where perm: "(if has_attr attr ATTR_TOUCH \<and> \<not> inode_owner_or_capable c inode
      then inode_permission2 task None h mnt c inode MAY_WRITE else (0, inode)) = (e, inode1)" by force
  have same: "same_owner inode inode1"
    using perm inode_permission2_keeps [OF assms(2), of inode task mnt c MAY_WRITE]
    by (auto simp: same_owner_def split: if_splits)
  have zero: "EPERM \<noteq> 0" by (simp add: EPERM_def)
  obtain inode2 attr2 where change: "apply_change ce mnt c inode2 (kill_sgid inode2 (kill_suid inode2 attr2)) = (0, inode')"
    and "same_owner inode1 inode2" "has_attr attr2 ATTR_FORCE = has_attr attr ATTR_FORCE"
    using assms(1) zero unfolding notify_change2_def perm
    by (auto simp: Let_def same_owner_def change_times_def force_flag split: if_splits)
  then show ?thesis
    using apply_change_authorised [OF change assms(3,4)] kill_force [of inode2 attr2] same assms(5)
      authorised_same [of inode inode1] authorised_same [of inode1 inode2] by blast
qed

definition plain_env :: change_env where
  "plain_env = \<lparr>ce_now = midnight, ce_need_killpriv = 0, ce_security_setattr = 0, ce_break_deleg = 0, ce_setattr2 = None,
     ce_setattr = None, ce_limit = RLIM_INFINITY, ce_killpriv = 0\<rparr>"

definition no_hooks :: perm_hooks where
  "no_hooks = \<lparr>op_permission2 = None, op_permission = None, devcgroup_inode_permission = (\<lambda>_ _. 0),
     security_inode_permission = (\<lambda>_ _. 0)\<rparr>"

definition chmod_request :: iattr where
  "chmod_request = \<lparr>ia_valid = ATTR_MODE OR ATTR_CTIME, ia_mode = 0x8DB0, ia_uid = 0, ia_gid = 0, ia_size = 0,
     ia_atime = midnight, ia_mtime = midnight, ia_ctime = midnight\<rparr>"

theorem notify_change_authorised_witness:
  "\<exists>inode'. notify_change2 0 None no_hooks plain_env False (task_of 0 5 {}) plain_file chmod_request = Inr (0, inode') \<and>
     i_mode inode' = 0x89B0 \<and> authorised (task_of 0 5 {}) plain_file inode'"
proof -
  let ?run = "notify_change2 0 None no_hooks plain_env False (task_of 0 5 {}) plain_file chmod_request"
  have "case ?run of Inl _ \<Rightarrow> False | Inr (e, i) \<Rightarrow> e = 0 \<and> i_mode i = 0x89B0" by code_simp
  then obtain inode' where run: "?run = Inr (0, inode')" and mode: "i_mode inode' = 0x89B0"
    by (cases ?run) auto
  have "plain_hooks no_hooks" "ce_setattr2 plain_env = None" "ce_setattr plain_env = None" "\<not> has_attr chmod_request ATTR_FORCE"
    by code_simp+
  then have "authorised (task_of 0 5 {}) plain_file inode'" using notify_change_authorised [OF run] by blast
  then show ?thesis using run mode by blast
qed

end
