(* ===== verification/Acl_Cache.thy ===== *)
theory Acl_Cache
  imports Posix_Acl
begin

text \<open>
  Tasks that race for the ACL cache of an inode.  \<^verbatim>\<open>get_acl\<close> is three atomic steps: it places its sentinel by compare and
  exchange, asks the file system, and exchanges the sentinel for the answer; \<^verbatim>\<open>__ext4_set_acl\<close> writes the attribute and then calls
  \<^verbatim>\<open>set_cached_acl\<close>, one task at a time under the lock of the inode; \<^verbatim>\<open>forget_cached_acl\<close> may come at any moment.  The step
  relation interleaves any number of tasks; a task that finds a list in the cache returns it and makes no step, and one that
  found none may place its sentinel in whatever state the cache is by then.
\<close>

section \<open>States and steps\<close>

text \<open>A task is outside \<^verbatim>\<open>get_acl\<close>, or in it with or without the answer of the file system.\<close>

datatype reader = Idle | Reading "acl option option"

record cache_state =
  on_disk :: "acl option"
  cached :: acl_cache
  readers :: "nat \<Rightarrow> reader"
  writer :: "acl option option"

definition cmpxchg :: "acl_cache \<Rightarrow> acl_cache \<Rightarrow> acl_cache \<Rightarrow> acl_cache" where
  "cmpxchg p old new = (if p = old then new else p)"

inductive cache_step :: "cache_state \<Rightarrow> cache_state \<Rightarrow> bool" where
  start: "readers s t = Idle \<Longrightarrow>
    cache_step s (s\<lparr>cached := cmpxchg (cached s) ACL_NOT_CACHED (Sentinel t), readers := (readers s)(t := Reading None)\<rparr>)"
| read: "readers s t = Reading None \<Longrightarrow> cache_step s (s\<lparr>readers := (readers s)(t := Reading (Some (on_disk s)))\<rparr>)"
| fail: "readers s t = Reading None \<Longrightarrow>
    cache_step s (s\<lparr>cached := cmpxchg (cached s) (Sentinel t) ACL_NOT_CACHED, readers := (readers s)(t := Idle)\<rparr>)"
| finish: "readers s t = Reading (Some v) \<Longrightarrow>
    cache_step s (s\<lparr>cached := cmpxchg (cached s) (Sentinel t) (Cached v), readers := (readers s)(t := Idle)\<rparr>)"
| change: "writer s = None \<Longrightarrow> cache_step s (s\<lparr>on_disk := v, writer := Some v\<rparr>)"
| publish: "writer s = Some v \<Longrightarrow> cache_step s (s\<lparr>cached := Cached v, writer := None\<rparr>)"
| forget: "cache_step s (s\<lparr>cached := ACL_NOT_CACHED\<rparr>)"

inductive_cases cache_stepE: "cache_step s s'"

definition cache_init :: "acl option \<Rightarrow> cache_state" where
  "cache_init d = \<lparr>on_disk = d, cached = ACL_NOT_CACHED, readers = (\<lambda>_. Idle), writer = None\<rparr>"

section \<open>The invariant\<close>

text \<open>A cached list is the one on disk unless a writer is about to publish, a sentinel belongs to a task in \<^verbatim>\<open>get_acl\<close>, and
  what that task has read is still right under the same condition.\<close>

definition cache_inv :: "cache_state \<Rightarrow> bool" where
  "cache_inv s \<longleftrightarrow>
     (writer s = None \<longrightarrow> (\<forall>v. cached s = Cached v \<longrightarrow> v = on_disk s)) \<and>
     (\<forall>t. cached s = Sentinel t \<longrightarrow> readers s t \<noteq> Idle \<and>
        (writer s = None \<longrightarrow> (\<forall>v. readers s t = Reading (Some v) \<longrightarrow> v = on_disk s))) \<and>
     (\<forall>v. writer s = Some v \<longrightarrow> v = on_disk s)"

lemma cache_inv_init: "cache_inv (cache_init d)"
  by (simp add: cache_inv_def cache_init_def)

lemma cache_inv_step: "cache_step s s' \<Longrightarrow> cache_inv s \<Longrightarrow> cache_inv s'"
  by (induction rule: cache_step.induct) (auto simp: cache_inv_def cmpxchg_def)

lemma cache_inv_reachable: "cache_step\<^sup>*\<^sup>* (cache_init d) s \<Longrightarrow> cache_inv s"
  by (induction rule: rtranclp_induct) (auto intro: cache_inv_init cache_inv_step)

section \<open>The operations are runs of steps\<close>

text \<open>An undisturbed \<^verbatim>\<open>get_acl\<close> on a file system whose operation returns the list on disk.\<close>

lemma get_acl_run:
  assumes "readers s t = Idle" and "i_posixacl inode" and "acl_by_type inode type = cached s" and "is_uncached_acl (cached s)"
  shows "\<exists>s'. cache_step\<^sup>*\<^sup>* s s' \<and> readers s' t = Idle \<and>
    get_acl t (Some (\<lambda>i _. (Inr (on_disk s), i))) inode type = (Inr (on_disk s), store_acl_by_type inode type (cached s'))"
proof -
  define s1 where "s1 = s\<lparr>cached := cmpxchg (cached s) ACL_NOT_CACHED (Sentinel t), readers := (readers s)(t := Reading None)\<rparr>"
  define s2 where "s2 = s1\<lparr>readers := (readers s1)(t := Reading (Some (on_disk s1)))\<rparr>"
  define s3 where "s3 = s2\<lparr>cached := cmpxchg (cached s2) (Sentinel t) (Cached (on_disk s1)), readers := (readers s2)(t := Idle)\<rparr>"
  have "cache_step s s1" unfolding s1_def using assms(1) by (rule cache_step.start)
  moreover have "cache_step s1 s2" unfolding s2_def by (rule cache_step.read) (simp add: s1_def)
  moreover have "cache_step s2 s3" unfolding s3_def by (rule cache_step.finish) (simp add: s2_def)
  ultimately have "cache_step\<^sup>*\<^sup>* s s3" by (meson converse_rtranclp_into_rtranclp rtranclp.rtrancl_refl)
  moreover have "readers s3 t = Idle" by (simp add: s3_def)
  moreover have "get_acl t (Some (\<lambda>i _. (Inr (on_disk s), i))) inode type =
      (Inr (on_disk s), store_acl_by_type inode type (cached s3))"
    using assms(2-4)
    by (cases "cached s"; cases type)
      (auto simp: get_acl_def get_cached_acl_def cmpxchg_acl_def acl_by_type_def store_acl_by_type_def is_uncached_acl_def
        cmpxchg_def s1_def s2_def s3_def Let_def)
  ultimately show ?thesis by blast
qed

lemma set_cached_acl_run:
  assumes "writer s = Some v"
  shows "\<exists>s'. cache_step s s' \<and> acl_by_type (set_cached_acl inode type v) type = cached s'"
  by (rule exI, rule conjI, rule cache_step.publish [OF assms])
    (simp add: set_cached_acl_def acl_by_type_def store_acl_by_type_def split: acl_type.split)

section \<open>Properties\<close>

text \<open>C31 However the tasks interleave, once no writer is between the disk and the cache a cached ACL is the one on
  disk: a slow reader never installs a list that was replaced meanwhile.\<close>

theorem acl_cache_never_stale:
  assumes "cache_step\<^sup>*\<^sup>* (cache_init d) s" and "writer s = None" and "cached s = Cached v"
  shows "v = on_disk s"
  using cache_inv_reachable [OF assms(1)] assms(2,3) by (simp add: cache_inv_def)

text \<open>A reader starts, a writer changes the list and publishes it, and the reader's answer is thrown away.\<close>

theorem acl_cache_never_stale_witness:
  "\<exists>s. cache_step\<^sup>*\<^sup>* (cache_init None) s \<and> cached s = Cached (Some []) \<and> on_disk s = Some [] \<and> readers s 7 = Idle"
proof -
  define s1 where "s1 = (cache_init None)\<lparr>cached := Sentinel 7, readers := (\<lambda>_. Idle)(7 := Reading None)\<rparr>"
  define s2 where "s2 = s1\<lparr>readers := (\<lambda>_. Idle)(7 := Reading (Some None))\<rparr>"
  define s3 where "s3 = s2\<lparr>on_disk := Some [], writer := Some (Some [])\<rparr>"
  define s4 where "s4 = s3\<lparr>cached := Cached (Some []), writer := None\<rparr>"
  define s5 where "s5 = s4\<lparr>readers := (\<lambda>_. Idle)\<rparr>"
  have "cache_step (cache_init None) s1"
    using cache_step.start [of "cache_init None" 7] by (simp add: s1_def cache_init_def cmpxchg_def)
  moreover have "cache_step s1 s2"
    using cache_step.read [of s1 7] by (simp add: s1_def s2_def cache_init_def)
  moreover have "cache_step s2 s3"
    using cache_step.change [of s2 "Some []"] by (simp add: s1_def s2_def s3_def cache_init_def)
  moreover have "cache_step s3 s4"
    using cache_step.publish [of s3 "Some []"] by (simp add: s3_def s4_def)
  moreover have "cache_step s4 s5"
    using cache_step.finish [of s4 7 None] by (simp add: s1_def s2_def s3_def s4_def s5_def cmpxchg_def fun_upd_idem cache_init_def)
  ultimately have run: "cache_step\<^sup>*\<^sup>* (cache_init None) s5"
    by (meson converse_rtranclp_into_rtranclp rtranclp.rtrancl_refl)
  have state: "writer s5 = None" "cached s5 = Cached (Some [])" "readers s5 7 = Idle"
    by (simp_all add: s1_def s2_def s3_def s4_def s5_def)
  have "Some [] = on_disk s5" using acl_cache_never_stale [OF run state(1,2)] .
  then show ?thesis using run state by auto
qed

end
