(* ===== verification/Idme.thy ===== *)
theory Idme
  imports Kernel_Prelude
begin

text \<open>
  The identification data of the device, a table of named items in a block of the boot partition: the format 2.x of
  \<^verbatim>\<open>features/idme/cmd_idme_v2_0.c\<close> and the operations of \<^verbatim>\<open>features/idme/cmd_idme.c\<close> in the bootloader, as configured for the
  project lagunaf (\<^verbatim>\<open>IDME_UPDATE_TABLE\<close>, 200 blocks of 512 bytes).

  The block is a function from offsets to bytes and every structure access is written with its offset.  A C string that code
  passes in is the list of its bytes before the terminator.  Code that does not come back returns a \<open>idme_stop\<close>: the busy loop
  of \<^verbatim>\<open>IDME_ITEM_INIT\<close> when the table does not fit, and the use of a null pointer as a string.
\<close>

unbundle bit_operations_syntax

section \<open>Memory\<close>

type_synonym bytes = "nat \<Rightarrow> 8 word"

definition memset :: "bytes \<Rightarrow> nat \<Rightarrow> 8 word \<Rightarrow> nat \<Rightarrow> bytes" where
  "memset m p c n = (\<lambda>i. if p \<le> i \<and> i < p + n then c else m i)"

definition memcpy :: "bytes \<Rightarrow> nat \<Rightarrow> bytes \<Rightarrow> nat \<Rightarrow> nat \<Rightarrow> bytes" where
  "memcpy m p src q n = (\<lambda>i. if p \<le> i \<and> i < p + n then src (q + (i - p)) else m i)"

definition cstring :: "8 word list \<Rightarrow> bytes" where
  "cstring s = (\<lambda>i. if i < length s then s ! i else 0)"

definition load32 :: "bytes \<Rightarrow> nat \<Rightarrow> nat" where
  "load32 m p = unat (m p) + 256 * unat (m (p + 1)) + 65536 * unat (m (p + 2)) + 16777216 * unat (m (p + 3))"

definition store32 :: "bytes \<Rightarrow> nat \<Rightarrow> nat \<Rightarrow> bytes" where
  "store32 m p v = m(p := of_nat v, p + 1 := of_nat (v div 256), p + 2 := of_nat (v div 65536), p + 3 := of_nat (v div 16777216))"

text \<open>\<^verbatim>\<open>strcmp\<close> and \<^verbatim>\<open>strncmp\<close> of a string with the bytes at an offset, as tests for equality.\<close>

definition strcmp_eq :: "8 word list \<Rightarrow> bytes \<Rightarrow> nat \<Rightarrow> bool" where
  "strcmp_eq s m p \<longleftrightarrow> (\<forall>i < length s. m (p + i) = s ! i) \<and> m (p + length s) = 0"

definition strncmp_eq :: "8 word list \<Rightarrow> bytes \<Rightarrow> nat \<Rightarrow> nat \<Rightarrow> bool" where
  "strncmp_eq s m p n \<longleftrightarrow> (if n \<le> length s then \<forall>i < n. m (p + i) = s ! i else strcmp_eq s m p)"

section \<open>Layout\<close>

definition IDME_MAX_NAME_LEN :: nat where "IDME_MAX_NAME_LEN = 16"
definition IDME_ALIGN_SIZE :: nat where "IDME_ALIGN_SIZE = 4"
definition CONFIG_IDME_SIZE :: nat where "CONFIG_IDME_SIZE = 102400"

text \<open>\<^verbatim>\<open>struct idme_t\<close>: magic, version, number of items, items; \<^verbatim>\<open>struct item_t\<close>: name, size, exportable, permission, data.\<close>

definition VERSION_OFFSET :: nat where "VERSION_OFFSET = 8"
definition ITEMS_NUM_OFFSET :: nat where "ITEMS_NUM_OFFSET = 12"
definition ITEM_DATA_OFFSET :: nat where "ITEM_DATA_OFFSET = 16"
definition DESC_SIZE :: nat where "DESC_SIZE = 28"

definition item_size :: "bytes \<Rightarrow> nat \<Rightarrow> nat" where "item_size m p = load32 m (p + 16)"
definition item_exportable :: "bytes \<Rightarrow> nat \<Rightarrow> nat" where "item_exportable m p = load32 m (p + 20)"
definition item_permission :: "bytes \<Rightarrow> nat \<Rightarrow> nat" where "item_permission m p = load32 m (p + 24)"
definition items_num :: "bytes \<Rightarrow> nat" where "items_num m = load32 m ITEMS_NUM_OFFSET"

definition align_item :: "nat \<Rightarrow> nat" where
  "align_item n = (n + IDME_ALIGN_SIZE - 1) div IDME_ALIGN_SIZE * IDME_ALIGN_SIZE"

definition IDME_ITEM_NEXT :: "bytes \<Rightarrow> nat \<Rightarrow> nat" where
  "IDME_ITEM_NEXT m p = p + align_item (DESC_SIZE + item_size m p)"

definition IDME_MAGIC_NUMBER :: "8 word list" where
  "IDME_MAGIC_NUMBER = [0x62, 0x65, 0x65, 0x66, 0x64, 0x65, 0x65, 0x64]"

definition IDME_VERSION_2P0 :: "8 word list" where "IDME_VERSION_2P0 = [0x32, 0x2e, 0x30]"
definition IDME_VERSION_2P1 :: "8 word list" where "IDME_VERSION_2P1 = [0x32, 0x2e, 0x31]"

definition idme_check_magic_number :: "bytes option \<Rightarrow> int" where
  "idme_check_magic_number pidme =
     (case pidme of
        None \<Rightarrow> - 1
      | Some m \<Rightarrow> if \<not> strncmp_eq IDME_MAGIC_NUMBER m 0 (length IDME_MAGIC_NUMBER) then - 2 else 0)"

datatype idme_stop = BUSY_LOOP | NULL_POINTER

text \<open>An entry of the table of defaults; a value may be a null pointer.\<close>

record idme_init_value =
  iv_name :: "8 word list"
  iv_size :: nat
  iv_exportable :: nat
  iv_permission :: nat
  iv_value :: "8 word list option"

definition write_desc :: "bytes \<Rightarrow> nat \<Rightarrow> bytes \<Rightarrow> nat \<Rightarrow> nat \<Rightarrow> nat \<Rightarrow> nat \<Rightarrow> bytes" where
  "write_desc m p name name_len sz export perm =
     (let m1 = memset m p 0 IDME_MAX_NAME_LEN;
          m2 = memcpy m1 p name 0 (min IDME_MAX_NAME_LEN name_len)
      in store32 (store32 (store32 m2 (p + 16) sz) (p + 20) export) (p + 24) perm)"

text \<open>The item name is given with its length, the value is one of the table of defaults.\<close>

definition IDME_ITEM_INIT ::
  "bytes \<Rightarrow> nat \<Rightarrow> nat \<Rightarrow> bytes \<Rightarrow> nat \<Rightarrow> nat \<Rightarrow> nat \<Rightarrow> nat \<Rightarrow> 8 word list option \<Rightarrow> idme_stop + bytes" where
  "IDME_ITEM_INIT m p limit name name_len max_size export perm item_value =
     (if p + DESC_SIZE + max_size > limit then Inl BUSY_LOOP
      else
        let m1 = memset m (p + DESC_SIZE) 0 max_size in
        case item_value of
          None \<Rightarrow> Inl NULL_POINTER
        | Some v \<Rightarrow>
            Inr (write_desc (memcpy m1 (p + DESC_SIZE) (cstring v) 0 (min max_size (length v))) p name name_len
                   max_size export perm))"

section \<open>Items\<close>

fun init_loop :: "idme_init_value list \<Rightarrow> bytes \<Rightarrow> nat \<Rightarrow> nat \<Rightarrow> idme_stop + bytes \<times> nat" where
  "init_loop [] m p n = Inr (m, n)"
| "init_loop (d # ds) m p n =
     (case IDME_ITEM_INIT m p CONFIG_IDME_SIZE (cstring (iv_name d)) (length (iv_name d)) (iv_size d)
             (iv_exportable d) (iv_permission d) (iv_value d) of
        Inl e \<Rightarrow> Inl e
      | Inr m1 \<Rightarrow> init_loop ds m1 (if ds \<noteq> [] then IDME_ITEM_NEXT m1 p else p) (n + 1))"

definition idme_init_var_v2p0 :: "idme_init_value list \<Rightarrow> bytes \<Rightarrow> idme_stop + bytes" where
  "idme_init_var_v2p0 defaults m =
     (let m1 = memset m 0 0 CONFIG_IDME_SIZE;
          m2 = memcpy m1 0 (cstring IDME_MAGIC_NUMBER) 0 (length IDME_MAGIC_NUMBER);
          m3 = memcpy m2 VERSION_OFFSET (cstring IDME_VERSION_2P1) 0 (length IDME_VERSION_2P1)
      in case init_loop defaults m3 ITEM_DATA_OFFSET 0 of
           Inl e \<Rightarrow> Inl e
         | Inr (m4, n) \<Rightarrow> Inr (store32 m4 ITEMS_NUM_OFFSET n))"

text \<open>The search all operations share: the first item with the name, if it is among the next \<open>k\<close> ones.\<close>

primrec find_item :: "8 word list \<Rightarrow> bytes \<Rightarrow> nat \<Rightarrow> nat \<Rightarrow> nat option" where
  "find_item name m 0 p = None"
| "find_item name m (Suc k) p = (if strcmp_eq name m p then Some p else find_item name m k (IDME_ITEM_NEXT m p))"

text \<open>The result and the bytes copied to the start of the buffer; the buffer may be a null pointer.\<close>

definition idme_get_var_v2p0 :: "8 word list \<Rightarrow> bool \<Rightarrow> nat \<Rightarrow> bytes option \<Rightarrow> int \<times> 8 word list" where
  "idme_get_var_v2p0 name buf len pdata =
     (if idme_check_magic_number pdata \<noteq> 0 then (- 1, [])
      else if \<not> buf then (- 1, [])
      else let m = the pdata in
        case find_item name m (items_num m) ITEM_DATA_OFFSET of
          None \<Rightarrow> (- 1, [])
        | Some p \<Rightarrow> (0, map (\<lambda>i. m (p + DESC_SIZE + i)) [0..<min (item_size m p) len]))"

definition idme_update_var_v2p0 :: "8 word list \<Rightarrow> bytes option \<Rightarrow> nat \<Rightarrow> bytes option \<Rightarrow> int \<times> bytes option" where
  "idme_update_var_v2p0 name val len pdata =
     (if idme_check_magic_number pdata \<noteq> 0 then (- 1, pdata)
      else case val of
        None \<Rightarrow> (- 1, pdata)
      | Some v \<Rightarrow>
          let m = the pdata in
          (case find_item name m (items_num m) ITEM_DATA_OFFSET of
             None \<Rightarrow> (- 1, pdata)
           | Some p \<Rightarrow>
               (0, Some (memcpy (memset m (p + DESC_SIZE) 0 (item_size m p)) (p + DESC_SIZE) v 0 (min (item_size m p) len)))))"

definition idme_get_item_desc_v2p0 :: "bytes option \<Rightarrow> 8 word list \<Rightarrow> nat option" where
  "idme_get_item_desc_v2p0 pdata name =
     (if idme_check_magic_number pdata \<noteq> 0 then None
      else find_item name (the pdata) (items_num (the pdata)) ITEM_DATA_OFFSET)"

text \<open>\<^verbatim>\<open>idme_permission_to_string\<close>: the characters of the buffer from its end, one triple for each turn of the loop.\<close>

primrec rwx_loop :: "nat \<Rightarrow> nat \<Rightarrow> string" where
  "rwx_loop 0 perm = []"
| "rwx_loop (Suc k) perm =
     rwx_loop k (perm div 8) @
     [if bit perm 2 then CHR ''r'' else CHR ''-'', if bit perm 1 then CHR ''w'' else CHR ''-'',
      if bit perm 0 then CHR ''x'' else CHR ''-'']"

definition idme_permission_to_string :: "nat \<Rightarrow> string" where
  "idme_permission_to_string perm = rwx_loop 3 perm"

section \<open>Update of the table\<close>

text \<open>Inner loop: the first existing item with the name of a default, compared over the length of a name field.\<close>

primrec find_existing :: "8 word list \<Rightarrow> bytes \<Rightarrow> nat \<Rightarrow> nat \<Rightarrow> nat option" where
  "find_existing name m 0 p = None"
| "find_existing name m (Suc k) p =
     (if strncmp_eq name m p IDME_MAX_NAME_LEN then Some p else find_existing name m k (IDME_ITEM_NEXT m p))"

text \<open>\<^verbatim>\<open>strlen\<close> of a name in the table.\<close>

definition name_length :: "bytes \<Rightarrow> nat \<Rightarrow> nat" where
  "name_length m p = length (takeWhile (\<lambda>i. m (p + i) \<noteq> 0) [0..<IDME_MAX_NAME_LEN])"

text \<open>The difference of two unsigned sizes, stored in an \<^verbatim>\<open>int\<close>.\<close>

definition size_difference :: "nat \<Rightarrow> nat \<Rightarrow> int" where
  "size_difference a b = (let d = (int a - int b) mod 2 ^ 32 in if d \<ge> 2 ^ 31 then d - 2 ^ 32 else d)"

record update_state =
  us_new :: bytes
  us_item :: nat
  us_num :: nat
  us_added :: nat
  us_differ :: bool

definition update_entry :: "bytes \<Rightarrow> idme_init_value \<Rightarrow> update_state \<Rightarrow> idme_stop + update_state" where
  "update_entry old d st =
     (case find_existing (iv_name d) old (items_num old) ITEM_DATA_OFFSET of
        Some p \<Rightarrow>
          (case IDME_ITEM_INIT (us_new st) (us_item st) CONFIG_IDME_SIZE (\<lambda>i. old (p + i)) (name_length old p) (iv_size d)
                  (item_exportable old p) (item_permission old p) (iv_value d) of
             Inl e \<Rightarrow> Inl e
           | Inr m1 \<Rightarrow>
               let m2 = (if size_difference (iv_size d) (item_size old p) \<ge> 0
                         then memcpy m1 (us_item st + DESC_SIZE) old (p + DESC_SIZE) (item_size old p) else m1)
               in Inr (st\<lparr>us_new := m2, us_item := IDME_ITEM_NEXT m2 (us_item st), us_num := us_num st + 1,
                          us_differ := us_differ st \<or> size_difference (iv_size d) (item_size old p) \<noteq> 0\<rparr>))
      | None \<Rightarrow>
          (case IDME_ITEM_INIT (us_new st) (us_item st) CONFIG_IDME_SIZE (cstring (iv_name d)) (length (iv_name d)) (iv_size d)
                  (iv_exportable d) (iv_permission d) (iv_value d) of
             Inl e \<Rightarrow> Inl e
           | Inr m1 \<Rightarrow>
               Inr (st\<lparr>us_new := m1, us_item := IDME_ITEM_NEXT m1 (us_item st), us_num := us_num st + 1,
                       us_added := us_added st + 1\<rparr>)))"

fun update_loop :: "bytes \<Rightarrow> idme_init_value list \<Rightarrow> update_state \<Rightarrow> idme_stop + update_state" where
  "update_loop old [] st = Inr st"
| "update_loop old (d # ds) st = (case update_entry old d st of Inl e \<Rightarrow> Inl e | Inr st' \<Rightarrow> update_loop old ds st')"

definition idme_update_table_v2p0 ::
  "idme_init_value list \<Rightarrow> bool \<Rightarrow> bytes option \<Rightarrow> idme_stop + int \<times> bytes option" where
  "idme_update_table_v2p0 defaults memory_ok pdata =
     (if idme_check_magic_number pdata \<noteq> 0 then Inr (- 1, pdata)
      else let m = the pdata in
        if \<not> strncmp_eq IDME_VERSION_2P1 m VERSION_OFFSET (length IDME_VERSION_2P1) then Inr (- 1, pdata)
        else if \<not> memory_ok then Inr (- 1, pdata)
        else
          let new0 = memcpy (memset (\<lambda>_. 0) 0 0 CONFIG_IDME_SIZE) 0 m 0 12 in
          case update_loop m defaults
                 \<lparr>us_new = new0, us_item = ITEM_DATA_OFFSET, us_num = 0, us_added = 0, us_differ = False\<rparr> of
            Inl e \<Rightarrow> Inl e
          | Inr st \<Rightarrow>
              let deleted = int (items_num m) + int (us_added st) - int (us_num st) in
              if us_added st \<noteq> 0 \<or> deleted \<noteq> 0 \<or> us_differ st then
                Inr (0, Some (memcpy m 0 (store32 (us_new st) ITEMS_NUM_OFFSET (us_num st)) 0 CONFIG_IDME_SIZE))
              else Inr (- 2, pdata))"

section \<open>The copy for the kernel\<close>

text \<open>\<^verbatim>\<open>idme_init_atag_v2p0\<close>: offsets in the buffer for the kernel, whose size is an argument.\<close>

fun atag_loop :: "bytes \<Rightarrow> nat \<Rightarrow> nat \<Rightarrow> bytes \<Rightarrow> nat \<Rightarrow> nat \<Rightarrow> int \<times> bytes" where
  "atag_loop m 0 p a q limit = (0, a)"
| "atag_loop m (Suc k) p a q limit =
     (let sz = DESC_SIZE + item_size m p in
      if q + sz > limit then (- 1, a)
      else
        let a1 = (if item_exportable m p \<noteq> 0
                  then store32 (memcpy a q m p sz) ITEMS_NUM_OFFSET (items_num (memcpy a q m p sz) + 1) else a)
        in atag_loop m k (IDME_ITEM_NEXT m p) a1 (q + sz) limit)"

text \<open>The number of items is read before the test for a null pointer.\<close>

definition idme_init_atag_v2p0 :: "bytes \<Rightarrow> bytes option \<Rightarrow> nat \<Rightarrow> idme_stop + int \<times> bytes" where
  "idme_init_atag_v2p0 a pdata sz =
     (case pdata of
        None \<Rightarrow> Inl NULL_POINTER
      | Some m \<Rightarrow>
          if idme_check_magic_number (Some m) \<noteq> 0 then Inr (- 1, a)
          else
            let a1 = memset a 0 0 sz;
                a2 = memcpy a1 0 (cstring IDME_MAGIC_NUMBER) 0 (length IDME_MAGIC_NUMBER);
                a3 = memcpy a2 VERSION_OFFSET (cstring IDME_VERSION_2P0) 0 (length IDME_VERSION_2P0);
                a4 = store32 a3 ITEMS_NUM_OFFSET 0
            in Inr (atag_loop m (items_num m) ITEM_DATA_OFFSET a4 ITEM_DATA_OFFSET sz))"

end
