(* ===== verification/Idme_Cmd.thy ===== *)
theory Idme_Cmd
  imports Idme
begin

text \<open>
  The commands on the identification data, \<^verbatim>\<open>features/idme/cmd_idme.c\<close>, and the access to the boot partition,
  \<^verbatim>\<open>features/idme/idme_platform_amlogic.c\<close>.  The state is the buffer \<^verbatim>\<open>gidme_buff\<close>, whether \<^verbatim>\<open>pidme_data\<close> points to it, whether the
  pointers to the functions of format 2.x are set, and the block on the boot partition.  The MMC driver answers with the
  results an \<open>mmc_env\<close> lists.  Log output and the text of fastboot responses are not part of the model.
\<close>

unbundle bit_operations_syntax

section \<open>The boot partition\<close>

record mmc_env =
  mmc_found :: bool
  switch_boot :: int
  switch_user :: int
  transfer :: int

record idme_dev =
  gidme_buff :: bytes
  pidme_set :: bool
  funcs_set :: bool
  dev_tree_set :: bool
  boot_block :: bytes

definition pidme_data :: "idme_dev \<Rightarrow> bytes option" where
  "pidme_data s = (if pidme_set s then Some (gidme_buff s) else None)"

text \<open>A transfer of fewer blocks than requested is not an error for the code; the data arrive when the count is not
  negative.\<close>

definition idme_platform_read :: "mmc_env \<Rightarrow> bytes \<Rightarrow> bytes \<Rightarrow> int \<times> bytes" where
  "idme_platform_read env block buf =
     (if \<not> mmc_found env then (- 1, buf)
      else if switch_boot env \<noteq> 0 then (- 1, buf)
      else
        let buf1 = (if transfer env \<ge> 0 then memcpy buf 0 block 0 (min CONFIG_IDME_SIZE (512 * nat (transfer env))) else buf) in
        if switch_user env \<noteq> 0 then (- 1, buf1)
        else if transfer env < 0 then (- 1, buf1)
        else (0, buf1))"

definition idme_platform_write :: "mmc_env \<Rightarrow> bytes option \<Rightarrow> bytes \<Rightarrow> int \<times> bytes" where
  "idme_platform_write env pbuf block =
     (case pbuf of
        None \<Rightarrow> (- 1, block)
      | Some buf \<Rightarrow>
          if \<not> mmc_found env then (- 1, block)
          else if switch_boot env \<noteq> 0 then (- 1, block)
          else
            let block1 = (if transfer env \<ge> 0 then memcpy block 0 buf 0 (min CONFIG_IDME_SIZE (512 * nat (transfer env))) else block)
            in if switch_user env \<noteq> 0 then (- 1, block1)
               else if transfer env < 0 then (- 1, block1)
               else (0, block1))"

definition idme_write :: "mmc_env \<Rightarrow> idme_dev \<Rightarrow> int \<times> idme_dev" where
  "idme_write env s =
     (case idme_platform_write env (pidme_data s) (boot_block s) of (ret, block) \<Rightarrow> (ret, s\<lparr>boot_block := block\<rparr>))"

section \<open>Numbers as text\<close>

definition is_digit :: "8 word \<Rightarrow> bool" where
  "is_digit c \<longleftrightarrow> 0x30 \<le> c \<and> c \<le> 0x39"

fun digits_loop :: "int \<Rightarrow> 8 word list \<Rightarrow> int" where
  "digits_loop i [] = i"
| "digits_loop i (c # cs) = (if is_digit c then digits_loop (i * 10 + uint c - 48) cs else i)"

definition atoui :: "8 word list \<Rightarrow> int" where
  "atoui s = digits_loop 0 s"

definition atoi :: "8 word list \<Rightarrow> int" where
  "atoi s = (case s of [] \<Rightarrow> 0 | c # cs \<Rightarrow> if c = 0x2d then - digits_loop 0 cs else digits_loop 0 s)"

text \<open>\<^verbatim>\<open>snprintf\<close> with the format for a decimal number.\<close>

fun decimal :: "nat \<Rightarrow> 8 word list" where
  "decimal n = (if n < 10 then [0x30 + of_nat n] else decimal (n div 10) @ [0x30 + of_nat (n mod 10)])"

declare decimal.simps [simp del]

section \<open>Operations\<close>

definition get_var :: "idme_dev \<Rightarrow> 8 word list \<Rightarrow> nat \<Rightarrow> int \<times> 8 word list" where
  "get_var s name len = idme_get_var_v2p0 name True len (pidme_data s)"

definition idme_get_var_external :: "idme_dev \<Rightarrow> 8 word list \<Rightarrow> nat \<Rightarrow> int \<times> 8 word list" where
  "idme_get_var_external s name len = (if \<not> funcs_set s then (- 2, []) else get_var s name len)"

definition update_var :: "idme_dev \<Rightarrow> 8 word list \<Rightarrow> bytes \<Rightarrow> nat \<Rightarrow> int \<times> idme_dev" where
  "update_var s name v len =
     (case idme_update_var_v2p0 name (Some v) len (pidme_data s) of
        (ret, None) \<Rightarrow> (ret, s)
      | (ret, Some m) \<Rightarrow> (ret, s\<lparr>gidme_buff := m\<rparr>))"

definition idme_clean :: "mmc_env \<Rightarrow> idme_dev \<Rightarrow> int \<times> idme_dev" where
  "idme_clean env s =
     (if idme_check_magic_number (pidme_data s) \<noteq> 0 then (- 1, s)
      else
        case idme_write env (s\<lparr>gidme_buff := memset (gidme_buff s) 0 0 CONFIG_IDME_SIZE\<rparr>) of
          (err, s1) \<Rightarrow> (if err \<noteq> 0 then - 1 else 0, s1\<lparr>pidme_set := False\<rparr>))"

definition idme_atag_initialize :: "idme_dev \<Rightarrow> bytes option \<Rightarrow> nat \<Rightarrow> idme_stop + int \<times> bytes option" where
  "idme_atag_initialize s atag sz =
     (case atag of
        None \<Rightarrow> Inr (- 1, None)
      | Some a \<Rightarrow>
          if \<not> funcs_set s then Inr (- 1, Some a)
          else case idme_init_atag_v2p0 a (pidme_data s) sz of Inl e \<Rightarrow> Inl e | Inr (ret, a') \<Rightarrow> Inr (ret, Some a'))"

definition idme_update_var_ex :: "mmc_env \<Rightarrow> idme_dev \<Rightarrow> 8 word list option \<Rightarrow> bytes option \<Rightarrow> nat \<Rightarrow> int \<times> idme_dev" where
  "idme_update_var_ex env s name v len =
     (case (name, v) of
        (Some n, Some b) \<Rightarrow>
          if funcs_set s then
            (case update_var s n b len of
               (err, s1) \<Rightarrow>
                 if err \<noteq> 0 then (- 1, s1)
                 else case idme_write env s1 of (err2, s2) \<Rightarrow> (if err2 \<noteq> 0 then - 1 else 0, s2))
          else (- 1, s)
      | _ \<Rightarrow> (- 1, s))"

definition BOOTCOUNT :: "8 word list" where
  "BOOTCOUNT = [0x62, 0x6f, 0x6f, 0x74, 0x63, 0x6f, 0x75, 0x6e, 0x74]"

definition BOOTMODE :: "8 word list" where
  "BOOTMODE = [0x62, 0x6f, 0x6f, 0x74, 0x6d, 0x6f, 0x64, 0x65]"

definition BOARD_ID :: "8 word list" where
  "BOARD_ID = [0x62, 0x6f, 0x61, 0x72, 0x64, 0x5f, 0x69, 0x64]"

text \<open>The array \<^verbatim>\<open>boot_count_str\<close> has nine bytes; \<open>stack\<close> is what follows it in memory, which the update reads when the item is
  longer.\<close>

definition nine_bytes :: "8 word list \<Rightarrow> 8 word list" where
  "nine_bytes s = take 9 (s @ replicate 9 0)"

definition idme_boot_info :: "mmc_env \<Rightarrow> bytes \<Rightarrow> idme_dev \<Rightarrow> idme_dev" where
  "idme_boot_info env stack s =
     (if \<not> funcs_set s then s
      else
        case get_var s BOOTCOUNT 9 of
          (ret, copied) \<Rightarrow>
            if ret \<noteq> 0 then s
            else
              let v = atoui (nine_bytes copied) in
              if v = 99999999 then s
              else
                let str = nine_bytes (take 8 (decimal (nat (v + 1)))) in
                snd (idme_update_var_ex env s (Some BOOTCOUNT) (Some (\<lambda>i. if i < 9 then str ! i else stack i)) CONFIG_IDME_SIZE))"

definition idme_boot_mode :: "idme_dev \<Rightarrow> int" where
  "idme_boot_mode s =
     (if \<not> funcs_set s then - 1
      else
        case get_var s BOOTMODE 6 of
          (ret, copied) \<Rightarrow>
            if ret = 0 then
              let v = atoi (take 6 (copied @ replicate 6 0)) in if v < 0 then - 1 else v
            else - 1)"

definition idme_board_id :: "idme_dev \<Rightarrow> 8 word list \<Rightarrow> 8 word list option" where
  "idme_board_id s board_id =
     (if funcs_set s then
        case get_var s BOARD_ID 16 of
          (ret, copied) \<Rightarrow> if ret = 0 then Some (copied @ drop (length copied) board_id) else None
      else None)"

section \<open>Flags\<close>

text \<open>\<^verbatim>\<open>idme_utilities.c\<close>; the bootloader runs in 64-bit mode.\<close>

definition hexval :: "8 word \<Rightarrow> nat" where
  "hexval c =
     (if 0x30 \<le> c \<and> c \<le> 0x39 then unat c - 0x30
      else if 0x61 \<le> c \<and> c \<le> 0x66 then unat c - 0x61 + 10
      else if 0x41 \<le> c \<and> c \<le> 0x46 then unat c - 0x41 + 10
      else 0)"

definition isxdigit :: "8 word \<Rightarrow> bool" where
  "isxdigit c \<longleftrightarrow> is_digit c \<or> (0x61 \<le> c \<and> c \<le> 0x66) \<or> (0x41 \<le> c \<and> c \<le> 0x46)"

fun hex_loop :: "64 word \<Rightarrow> 8 word list \<Rightarrow> 64 word" where
  "hex_loop v [] = v"
| "hex_loop v (c # cs) = (if isxdigit c then hex_loop (v * 16 + of_nat (hexval c)) cs else v)"

fun decimal_loop :: "64 word \<Rightarrow> 8 word list \<Rightarrow> 64 word" where
  "decimal_loop v [] = v"
| "decimal_loop v (c # cs) = (if is_digit c then decimal_loop (v * 10 + ucast c - 0x30) cs else v)"

definition atoul :: "8 word list \<Rightarrow> 64 word" where
  "atoul num =
     (case num of
        a # b # cs \<Rightarrow> if a = 0x30 \<and> b = 0x78 then hex_loop 0 cs else decimal_loop 0 num
      | _ \<Rightarrow> decimal_loop 0 num)"

definition idme_is_flag_set :: "idme_dev \<Rightarrow> 8 word list \<Rightarrow> 64 word \<Rightarrow> bool" where
  "idme_is_flag_set s flagtype flags =
     (case idme_get_var_external s flagtype IDME_MAX_NAME_LEN of
        (ret, copied) \<Rightarrow>
          let idme_flags = (if ret = 0 then atoul ([0x30, 0x78] @ take 17 (copied @ replicate 17 0)) else 0)
          in idme_flags AND flags = flags)"

definition idme_is_fos_flag_set :: "idme_dev \<Rightarrow> 64 word \<Rightarrow> bool" where
  "idme_is_fos_flag_set s flags = idme_is_flag_set s (ascii ''fos_flags'') flags"

section \<open>Initialisation\<close>

definition IDME_VERSION_1P2 :: "8 word list" where "IDME_VERSION_1P2 = [0x31, 0x2e, 0x32]"
definition IDME_VERSION_3P0 :: "8 word list" where "IDME_VERSION_3P0 = [0x33, 0x2e, 0x30]"

datatype version_type = IDME_VER_1P2 | IDME_VER_2P0 | IDME_VER_2P1 | IDME_VER_3P0

definition idme_ver_table :: "(8 word list \<times> version_type) list" where
  "idme_ver_table = [(IDME_VERSION_1P2, IDME_VER_1P2), (IDME_VERSION_2P0, IDME_VER_2P0), (IDME_VERSION_2P1, IDME_VER_2P1),
     (IDME_VERSION_3P0, IDME_VER_3P0)]"

definition select_version :: "idme_dev \<Rightarrow> idme_dev" where
  "select_version s =
     (case find (\<lambda>(v, _). strncmp_eq v (gidme_buff s) VERSION_OFFSET (length v)) idme_ver_table of
        None \<Rightarrow> s
      | Some (_, t) \<Rightarrow>
          if t = IDME_VER_2P0 \<or> t = IDME_VER_2P1 then s\<lparr>funcs_set := True, dev_tree_set := True\<rparr>
          else s\<lparr>funcs_set := False\<rparr>)"

definition idme_initialize ::
  "idme_init_value list \<Rightarrow> bool \<Rightarrow> mmc_env \<Rightarrow> idme_dev \<Rightarrow> idme_stop + int \<times> idme_dev" where
  "idme_initialize defaults memory_ok env s =
     (if pidme_set s then Inr (0, s)
      else
        case idme_platform_read env (boot_block s) (memset (gidme_buff s) 0 0 CONFIG_IDME_SIZE) of
          (err, buf) \<Rightarrow>
            if err \<noteq> 0 then Inr (- 1, s\<lparr>gidme_buff := buf\<rparr>)
            else
              let magic = idme_check_magic_number (Some buf);
                  buf1 = (if magic = - 2
                          then memcpy (memcpy buf 0 (cstring IDME_MAGIC_NUMBER) 0 8) VERSION_OFFSET (cstring IDME_VERSION_2P1) 0 3
                          else buf);
                  s1 = select_version (s\<lparr>gidme_buff := buf1, pidme_set := True\<rparr>)
              in if magic = - 2 \<and> funcs_set s1 then
                   (case idme_init_var_v2p0 defaults (gidme_buff s1) of
                      Inl e \<Rightarrow> Inl e
                    | Inr m \<Rightarrow>
                        (case idme_write env (s1\<lparr>gidme_buff := m\<rparr>) of (err2, s2) \<Rightarrow> Inr (if err2 \<noteq> 0 then - 1 else 0, s2)))
                 else if funcs_set s1 then
                   (case idme_update_table_v2p0 defaults memory_ok (Some (gidme_buff s1)) of
                      Inl e \<Rightarrow> Inl e
                    | Inr (ret, m) \<Rightarrow>
                        let s2 = s1\<lparr>gidme_buff := the m\<rparr> in
                        if ret = 0 then
                          (case idme_write env s2 of (err2, s3) \<Rightarrow> Inr (if err2 \<noteq> 0 then - 1 else 0, s3))
                        else Inr (0, s2))
                 else Inr (0, s1))"

section \<open>The command\<close>

definition starts_with :: "8 word list \<Rightarrow> 8 word list \<Rightarrow> bool" where
  "starts_with s prefix \<longleftrightarrow> take (length prefix) s = prefix"

definition CLEAN :: "8 word list" where "CLEAN = [0x63, 0x6c, 0x65, 0x61, 0x6e]"
definition VERSION :: "8 word list" where "VERSION = [0x76, 0x65, 0x72, 0x73, 0x69, 0x6f, 0x6e]"
definition INIT :: "8 word list" where "INIT = [0x69, 0x6e, 0x69, 0x74]"

definition set_var :: "mmc_env \<Rightarrow> idme_dev \<Rightarrow> 8 word list \<Rightarrow> 8 word list \<Rightarrow> int \<times> idme_dev" where
  "set_var env s name v =
     (if \<not> funcs_set s then (- 1, s)
      else
        case update_var s name (cstring v) (length v) of
          (err, s1) \<Rightarrow>
            if err \<noteq> 0 then (- 1, s1)
            else case idme_write env s1 of (err2, s2) \<Rightarrow> (if err2 \<noteq> 0 then - 1 else 0, s2))"

definition set_version :: "mmc_env \<Rightarrow> idme_dev \<Rightarrow> 8 word list \<Rightarrow> idme_stop + int \<times> idme_dev" where
  "set_version env s v =
     (if \<not> (\<exists>(t, _) \<in> set idme_ver_table. starts_with t v) then Inr (- 1, s)
      else if \<not> pidme_set s then Inl NULL_POINTER
      else
        case idme_write env (s\<lparr>gidme_buff := memcpy (gidme_buff s) VERSION_OFFSET (cstring v) 0 (length v)\<rparr>) of
          (_, s1) \<Rightarrow> Inr (0, s1))"

definition do_idme ::
  "idme_init_value list \<Rightarrow> bool \<Rightarrow> mmc_env \<Rightarrow> idme_dev \<Rightarrow> 8 word list list \<Rightarrow> idme_stop + int \<times> idme_dev" where
  "do_idme defaults memory_ok env s argv =
     (let argc = length argv in
      if argc \<le> 0 then Inr (- 1, s)
      else if argc = 1 \<or> starts_with (argv ! 1) [0x3f] then
        if argc = 3 then
          Inr (if funcs_set s then if fst (get_var s (argv ! 2) (1024 - min 1023 (length (argv ! 2) + 2))) \<noteq> 0 then - 1 else 0
               else - 1, s)
        else if funcs_set s then Inr (if idme_check_magic_number (pidme_data s) \<noteq> 0 then - 1 else 0, s)
        else Inr (- 1, s)
      else if argc = 3 then
        if starts_with (argv ! 2) CLEAN then Inr (set_var env s (argv ! 1) [0x30])
        else if starts_with (argv ! 1) VERSION then set_version env s (argv ! 2)
        else Inr (set_var env s (argv ! 1) (argv ! 2))
      else if argc = 2 then
        if starts_with (argv ! 1) CLEAN then
          (case idme_clean env s of (err, s1) \<Rightarrow> Inr (if err \<noteq> 0 then - 1 else 0, s1))
        else if starts_with (argv ! 1) INIT then
          (case idme_initialize defaults memory_ok env s of
             Inl e \<Rightarrow> Inl e
           | Inr (err, s1) \<Rightarrow> Inr (if err \<noteq> 0 then - 1 else 0, s1))
        else Inr (- 1, s)
      else Inr (0, s))"

end
