(* ===== verification/Idme_Table.thy ===== *)
theory Idme_Table
  imports Idme_Cmd
begin

text \<open>
  The block of identification data as a list of items: what it means that a block holds a list, and that the operations on
  bytes implement the obvious ones on the list.
\<close>

section \<open>Lists of items\<close>

record item =
  it_name :: "8 word list"
  it_exportable :: nat
  it_permission :: nat
  it_data :: "8 word list"

definition good_name :: "8 word list \<Rightarrow> bool" where
  "good_name s \<longleftrightarrow> length s < 16 \<and> 0 \<notin> set s"

definition item_at :: "bytes \<Rightarrow> nat \<Rightarrow> item \<Rightarrow> bool" where
  "item_at m p it \<longleftrightarrow> good_name (it_name it) \<and> (\<forall>i < 16. m (p + i) = cstring (it_name it) i) \<and>
     item_size m p = length (it_data it) \<and> item_exportable m p = it_exportable it \<and>
     item_permission m p = it_permission it \<and> (\<forall>i < length (it_data it). m (p + 28 + i) = it_data it ! i)"

definition item_len :: "item \<Rightarrow> nat" where
  "item_len it = align_item (28 + length (it_data it))"

fun items_at :: "bytes \<Rightarrow> nat \<Rightarrow> item list \<Rightarrow> bool" where
  "items_at m p [] \<longleftrightarrow> True"
| "items_at m p (it # its) \<longleftrightarrow> item_at m p it \<and> items_at m (p + item_len it) its"

text \<open>The end of the last item, without the padding that would follow it.\<close>

fun items_end :: "nat \<Rightarrow> item list \<Rightarrow> nat" where
  "items_end p [] = p"
| "items_end p [it] = p + 28 + length (it_data it)"
| "items_end p (it # its) = items_end (p + item_len it) its"

definition table :: "bytes \<Rightarrow> item list \<Rightarrow> bool" where
  "table m its \<longleftrightarrow> (\<forall>i < 8. m i = IDME_MAGIC_NUMBER ! i) \<and> items_num m = length its \<and> items_at m 16 its \<and>
     items_end 16 its \<le> CONFIG_IDME_SIZE"

definition lookup :: "item list \<Rightarrow> 8 word list \<Rightarrow> item option" where
  "lookup its name = find (\<lambda>it. it_name it = name) its"

fun set_data :: "item list \<Rightarrow> 8 word list \<Rightarrow> (item \<Rightarrow> 8 word list) \<Rightarrow> item list" where
  "set_data [] name f = []"
| "set_data (it # its) name f = (if it_name it = name then it\<lparr>it_data := f it\<rparr> # its else it # set_data its name f)"

text \<open>\<open>n\<close> bytes of a C string, cut or filled up with zeros.\<close>

definition field :: "nat \<Rightarrow> bytes \<Rightarrow> nat \<Rightarrow> 8 word list" where
  "field n v len = map (\<lambda>i. if i < len then v i else 0) [0..<n]"

lemma field_length [simp]: "length (field n v len) = n"
  by (simp add: field_def)

lemma field_nth [simp]: "i < n \<Longrightarrow> field n v len ! i = (if i < len then v i else 0)"
  by (simp add: field_def)

section \<open>Words in memory\<close>

lemma load32_bytes:
  assumes "\<And>i. i < 4 \<Longrightarrow> m (p + i) = m' (q + i)"
  shows "load32 m p = load32 m' q"
  using assms [of 0] assms [of 1] assms [of 2] assms [of 3] by (simp add: load32_def)

lemma unat_byte: "unat (of_nat v :: 8 word) = v mod 256"
  by (simp add: unat_of_nat)

lemma four_bytes:
  fixes v :: nat
  assumes "v < 2 ^ 32"
  shows "v mod 256 + 256 * (v div 256 mod 256) + 65536 * (v div 65536 mod 256) + 16777216 * (v div 16777216 mod 256) = v"
proof -
  define a b c where "a = v div 256" and "b = a div 256" and "c = b div 256"
  have div: "v div 65536 = b" "v div 16777216 = c" by (simp_all add: a_def b_def c_def div_mult2_eq [symmetric])
  have "c < 256" using assms unfolding div(2) [symmetric] by (simp add: div_less_iff_less_mult)
  moreover have "v = v mod 256 + 256 * a" "a = a mod 256 + 256 * b" "b = b mod 256 + 256 * c"
    by (simp_all add: a_def b_def c_def)
  ultimately show ?thesis unfolding div a_def [symmetric] by simp
qed

lemma load32_store32 [simp]: "v < 2 ^ 32 \<Longrightarrow> load32 (store32 m p v) p = v"
  using four_bytes [of v] by (simp add: load32_def store32_def unat_byte)

lemma store32_other: "i < p \<or> p + 4 \<le> i \<Longrightarrow> store32 m p v i = m i"
  by (auto simp: store32_def)

lemma align_item_ge: "n \<le> align_item n"
  by (simp add: align_item_def IDME_ALIGN_SIZE_def)

section \<open>Items in memory\<close>

lemma item_at_frame:
  assumes "item_at m p it" and "\<And>i. p \<le> i \<Longrightarrow> i < p + 28 + length (it_data it) \<Longrightarrow> m' i = m i"
  shows "item_at m' p it"
proof -
  have "load32 m' (p + k) = load32 m (p + k)" if "k + 4 \<le> 28" for k
    using assms(2) that by (intro load32_bytes) auto
  then show ?thesis using assms by (auto simp: item_at_def item_size_def item_exportable_def item_permission_def)
qed

lemma item_len_ge: "28 + length (it_data it) \<le> item_len it"
  unfolding item_len_def by (rule align_item_ge)

lemma item_at_next: "item_at m p it \<Longrightarrow> IDME_ITEM_NEXT m p = p + item_len it"
  by (simp add: IDME_ITEM_NEXT_def item_len_def item_at_def DESC_SIZE_def)

lemma items_end_ge: "p \<le> items_end p its"
proof (induction p its rule: items_end.induct)
  case (3 p it v va)
  then show ?case using item_len_ge [of it] by simp
qed auto

lemma items_end_Cons: "p + 28 + length (it_data it) \<le> items_end p (it # its)"
proof (cases its)
  case (Cons it' its')
  then show ?thesis using items_end_ge [of "p + item_len it" its] item_len_ge [of it] by simp
qed simp

lemma items_at_frame:
  "items_at m p its \<Longrightarrow> (\<And>i. p \<le> i \<Longrightarrow> i < items_end p its \<Longrightarrow> m' i = m i) \<Longrightarrow> items_at m' p its"
proof (induction its arbitrary: p)
  case c: (Cons it its)
  have "m' i = m i" if "p \<le> i" "i < p + 28 + length (it_data it)" for i
    using c.prems(2) [of i] that items_end_Cons [of p it its] by linarith
  then have "item_at m' p it" using c.prems(1) item_at_frame [of m p it m'] by simp
  moreover have "items_at m' (p + item_len it) its"
  proof (cases its)
    case (Cons it' its')
    then show ?thesis using c.prems c.IH [of "p + item_len it"] by auto
  qed simp
  ultimately show ?case by simp
qed simp

lemma strcmp_item:
  assumes it: "item_at m p it" and n: "good_name name"
  shows "strcmp_eq name m p \<longleftrightarrow> it_name it = name"
proof
  assume eq: "strcmp_eq name m p"
  let ?t = "it_name it"
  have bytes: "\<And>i. i < length name \<Longrightarrow> cstring ?t i = name ! i" and stop: "cstring ?t (length name) = 0"
    using eq it n unfolding strcmp_eq_def item_at_def good_name_def by (metis less_trans, metis)
  have "length ?t \<le> length name"
    using stop it by (auto simp: cstring_def item_at_def good_name_def split: if_splits dest: nth_mem)
  moreover have "length name \<le> length ?t"
    using bytes [of "length ?t"] n nth_mem [of "length ?t" name] by (force simp: cstring_def good_name_def)
  ultimately show "it_name it = name" using bytes by (intro nth_equalityI) (auto simp: cstring_def)
next
  assume "it_name it = name"
  then show "strcmp_eq name m p" using it n by (auto simp: strcmp_eq_def item_at_def cstring_def good_name_def)
qed

section \<open>Finding an item\<close>

text \<open>The position of the first item with a name.\<close>

fun item_pos :: "nat \<Rightarrow> item list \<Rightarrow> 8 word list \<Rightarrow> nat option" where
  "item_pos p [] name = None"
| "item_pos p (it # its) name = (if it_name it = name then Some p else item_pos (p + item_len it) its name)"

lemma find_item_pos: "items_at m p its \<Longrightarrow> good_name name \<Longrightarrow> find_item name m (length its) p = item_pos p its name"
  by (induction its arbitrary: p) (auto simp: strcmp_item item_at_next)

lemma item_pos_None: "item_pos p its name = None \<longleftrightarrow> lookup its name = None"
  by (induction its arbitrary: p) (auto simp: lookup_def)

lemma item_pos_Some:
  assumes "item_pos p its name = Some q" and "items_at m p its"
  shows "\<exists>it. lookup its name = Some it \<and> item_at m q it \<and> p \<le> q \<and> q + 28 + length (it_data it) \<le> items_end p its"
  using assms
proof (induction its arbitrary: p)
  case (Cons it its)
  show ?case
  proof (cases "it_name it = name")
    case True
    then show ?thesis using Cons.prems items_end_Cons [of p it its] by (auto simp: lookup_def)
  next
    case False
    then obtain it' where it': "lookup its name = Some it'" "item_at m q it'" "p + item_len it \<le> q"
      "q + 28 + length (it_data it') \<le> items_end (p + item_len it) its"
      using Cons.IH [of "p + item_len it"] Cons.prems by auto
    then have "its \<noteq> []" by (auto simp: lookup_def)
    then have "items_end p (it # its) = items_end (p + item_len it) its" by (cases its) auto
    then show ?thesis using False it' by (auto simp: lookup_def)
  qed
qed simp

lemma table_magic: "table m its \<Longrightarrow> idme_check_magic_number (Some m) = 0"
  by (simp add: table_def idme_check_magic_number_def strncmp_eq_def IDME_MAGIC_NUMBER_def)

lemma table_find:
  assumes "table m its" and "good_name name"
  shows "find_item name m (items_num m) ITEM_DATA_OFFSET = item_pos 16 its name"
  using assms find_item_pos [of m 16 its name] by (simp add: table_def ITEM_DATA_OFFSET_def)

section \<open>Reading an item\<close>

lemma get_var_refines:
  assumes "table m its" and "good_name name"
  shows "idme_get_var_v2p0 name True len (Some m) =
    (case lookup its name of None \<Rightarrow> (- 1, []) | Some it \<Rightarrow> (0, take len (it_data it)))"
proof (cases "item_pos 16 its name")
  case None
  then show ?thesis
    using assms table_magic [OF assms(1)] table_find [OF assms] item_pos_None [of 16 its name]
    by (simp add: idme_get_var_v2p0_def)
next
  case (Some q)
  then obtain it where it: "lookup its name = Some it" "item_at m q it"
    using item_pos_Some [of 16 its name q m] assms(1) by (auto simp: table_def)
  have "map (\<lambda>i. m (q + 28 + i)) [0..<min (length (it_data it)) len] = take len (it_data it)"
    using it(2) by (intro nth_equalityI) (auto simp: item_at_def)
  then show ?thesis
    using Some it table_magic [OF assms(1)] table_find [OF assms]
    by (simp add: idme_get_var_v2p0_def item_at_def DESC_SIZE_def)
qed

section \<open>Changing an item\<close>

lemma item_at_set_data:
  assumes "item_at m p it" and "length d = length (it_data it)"
    and "\<And>i. i < 28 \<Longrightarrow> m' (p + i) = m (p + i)" and "\<And>i. i < length d \<Longrightarrow> m' (p + 28 + i) = d ! i"
  shows "item_at m' p (it\<lparr>it_data := d\<rparr>)"
proof -
  have "load32 m' (p + k) = load32 m (p + k)" if "k + 4 \<le> 28" for k
    using assms(3) that by (intro load32_bytes) (simp add: add.assoc)
  then show ?thesis using assms
    by (auto simp: item_at_def item_size_def item_exportable_def item_permission_def)
qed

lemma items_at_set_data:
  assumes "items_at m p its" and "item_pos p its name = Some q" and "lookup its name = Some it"
    and "length d = length (it_data it)"
    and "\<And>i. i < q + 28 \<or> q + 28 + length d \<le> i \<Longrightarrow> m' i = m i" and "\<And>i. i < length d \<Longrightarrow> m' (q + 28 + i) = d ! i"
  shows "items_at m' p (set_data its name (\<lambda>_. d))"
  using assms(1-4)
proof (induction its arbitrary: p)
  case (Cons it' its)
  show ?case
  proof (cases "it_name it' = name")
    case True
    then have q: "q = p" "it' = it" using Cons.prems by (simp_all add: lookup_def)
    have "item_at m' p (it\<lparr>it_data := d\<rparr>)"
      using Cons.prems q assms(5,6) by (intro item_at_set_data [of m]) auto
    moreover have "item_len (it\<lparr>it_data := d\<rparr>) = item_len it" using Cons.prems(4) by (simp add: item_len_def)
    moreover have "m' i = m i" if "p + item_len it \<le> i" for i
      using assms(5) [of i] that q item_len_ge [of it] Cons.prems(4) by linarith
    then have "items_at m' (p + item_len it) its" using Cons.prems(1) q items_at_frame [of m "p + item_len it" its m'] by simp
    ultimately show ?thesis using True q by simp
  next
    case False
    then have rest: "item_pos (p + item_len it') its name = Some q" "lookup its name = Some it"
      using Cons.prems by (auto simp: lookup_def)
    then obtain "p + item_len it' \<le> q" using item_pos_Some [of "p + item_len it'" its name q m] Cons.prems(1) by auto
    then have "m' i = m i" if "i < p + 28 + length (it_data it')" for i
      using assms(5) [of i] that item_len_ge [of it'] by linarith
    then have "item_at m' p it'" using Cons.prems(1) item_at_frame [of m p it' m'] by simp
    then show ?thesis using False Cons.IH [of "p + item_len it'"] rest Cons.prems by simp
  qed
qed simp

lemma set_data_length [simp]: "length (set_data its name f) = length its"
  by (induction its) auto

lemma items_end_lengths:
  "map (\<lambda>it. length (it_data it)) its' = map (\<lambda>it. length (it_data it)) its \<Longrightarrow> items_end p its' = items_end p its"
proof (induction p its arbitrary: its' rule: items_end.induct)
  case (3 p it v va)
  obtain it' v' va' where its': "its' = it' # v' # va'" using "3.prems" by (auto simp: map_eq_Cons_conv)
  then have "item_len it' = item_len it" using "3.prems" by (simp add: item_len_def)
  then show ?case using "3.IH" [of "v' # va'"] "3.prems" its' by simp
qed (auto simp: map_eq_Cons_conv)

lemma set_data_lengths:
  "lookup its name = Some it \<Longrightarrow> length d = length (it_data it) \<Longrightarrow>
   map (\<lambda>it. length (it_data it)) (set_data its name (\<lambda>_. d)) = map (\<lambda>it. length (it_data it)) its"
  by (induction its) (auto simp: lookup_def split: if_splits)

lemma update_var_refines:
  assumes tab: "table m its" and name: "good_name name"
  shows "case lookup its name of
      None \<Rightarrow> idme_update_var_v2p0 name (Some v) len (Some m) = (- 1, Some m)
    | Some it \<Rightarrow> \<exists>m'. idme_update_var_v2p0 name (Some v) len (Some m) = (0, Some m') \<and>
        table m' (set_data its name (\<lambda>_. field (length (it_data it)) v len)) \<and>
        (\<forall>i. i < 16 \<or> CONFIG_IDME_SIZE \<le> i \<longrightarrow> m' i = m i)"
proof (cases "item_pos 16 its name")
  case None
  then show ?thesis
    using assms table_magic [OF tab] table_find [OF assms] item_pos_None [of 16 its name]
    by (simp add: idme_update_var_v2p0_def)
next
  case (Some q)
  then obtain it where it: "lookup its name = Some it" "item_at m q it" "16 \<le> q" "q + 28 + length (it_data it) \<le> items_end 16 its"
    using item_pos_Some [of 16 its name q m] tab by (auto simp: table_def)
  let ?d = "field (length (it_data it)) v len"
  define m' where "m' = memcpy (memset m (q + 28) 0 (length (it_data it))) (q + 28) v 0 (min (length (it_data it)) len)"
  have run: "idme_update_var_v2p0 name (Some v) len (Some m) = (0, Some m')"
    using Some it(2) table_magic [OF tab] table_find [OF assms]
    by (simp add: idme_update_var_v2p0_def m'_def item_at_def DESC_SIZE_def)
  have out: "m' i = m i" if "i < q + 28 \<or> q + 28 + length ?d \<le> i" for i
    using that by (auto simp: m'_def memcpy_def memset_def)
  have "items_at m' 16 (set_data its name (\<lambda>_. ?d))"
    using tab Some it out by (intro items_at_set_data [of m _ its name q it]) (auto simp: table_def m'_def memcpy_def memset_def)
  moreover have "items_num m' = items_num m"
    unfolding items_num_def ITEMS_NUM_OFFSET_def using it(3) out by (intro load32_bytes) auto
  moreover have "\<forall>i < 8. m' i = m i" using it(3) out by auto
  moreover have "items_end 16 (set_data its name (\<lambda>_. ?d)) = items_end 16 its"
    by (rule items_end_lengths) (simp add: set_data_lengths [OF it(1)])
  ultimately have "table m' (set_data its name (\<lambda>_. ?d))" using tab by (simp add: table_def)
  moreover have "\<forall>i. i < 16 \<or> CONFIG_IDME_SIZE \<le> i \<longrightarrow> m' i = m i" using out it(3,4) tab by (auto simp: table_def)
  ultimately show ?thesis using it(1) run by auto
qed

section \<open>Writing a table\<close>

definition good_default :: "idme_init_value \<Rightarrow> bool" where
  "good_default d \<longleftrightarrow> good_name (iv_name d) \<and> iv_size d < 2 ^ 31 \<and> iv_exportable d < 2 ^ 32 \<and> iv_permission d < 2 ^ 32 \<and>
     iv_value d \<noteq> None"

definition default_data :: "idme_init_value \<Rightarrow> 8 word list" where
  "default_data d = field (iv_size d) (cstring (the (iv_value d))) (length (the (iv_value d)))"

definition item_of :: "idme_init_value \<Rightarrow> item" where
  "item_of d = \<lparr>it_name = iv_name d, it_exportable = iv_exportable d, it_permission = iv_permission d, it_data = default_data d\<rparr>"

lemma item_of_length [simp]: "length (it_data (item_of d)) = iv_size d"
  by (simp add: item_of_def default_data_def)

lemma load32_store32_other: "q + 4 \<le> p \<or> p + 4 \<le> q \<Longrightarrow> load32 (store32 m p v) q = load32 m q"
  by (rule load32_bytes) (rule store32_other, linarith)

lemma item_init_refines:
  assumes fits: "p + 28 + sz \<le> limit" and n: "good_name n" and name: "\<And>i. i < length n \<Longrightarrow> name i = n ! i" "nl = length n"
    and u32: "sz < 2 ^ 32" "ex < 2 ^ 32" "pm < 2 ^ 32"
  shows "\<exists>m'. IDME_ITEM_INIT m p limit name nl sz ex pm (Some v) = Inr m' \<and>
    item_at m' p \<lparr>it_name = n, it_exportable = ex, it_permission = pm, it_data = field sz (cstring v) (length v)\<rparr> \<and>
    (\<forall>i. i < p \<or> p + 28 + sz \<le> i \<longrightarrow> m' i = m i)"
proof -
  define m1 where "m1 = memcpy (memset m (p + 28) 0 sz) (p + 28) (cstring v) 0 (min sz (length v))"
  define m2 where "m2 = memcpy (memset m1 p 0 16) p name 0 (min 16 nl)"
  define m' where "m' = store32 (store32 (store32 m2 (p + 16) sz) (p + 20) ex) (p + 24) pm"
  have run: "IDME_ITEM_INIT m p limit name nl sz ex pm (Some v) = Inr m'"
    using fits by (simp add: IDME_ITEM_INIT_def write_desc_def DESC_SIZE_def IDME_MAX_NAME_LEN_def m1_def m2_def m'_def Let_def)
  have keep: "m' i = m2 i" if "i < p + 16 \<or> p + 28 \<le> i" for i
    using that unfolding m'_def by (subst store32_other, linarith)+ simp
  have nm: "m' (p + i) = cstring n i" if "i < 16" for i
    using that keep [of "p + i"] n name by (auto simp: m2_def memcpy_def memset_def cstring_def good_name_def)
  have data: "m' (p + 28 + i) = field sz (cstring v) (length v) ! i" if "i < sz" for i
    using that keep [of "p + 28 + i"] by (auto simp: m2_def m1_def memcpy_def memset_def cstring_def)
  have "load32 m' (p + 16) = sz" "load32 m' (p + 20) = ex" "load32 m' (p + 24) = pm"
    using u32 by (simp_all add: m'_def load32_store32_other)
  then have "item_at m' p \<lparr>it_name = n, it_exportable = ex, it_permission = pm, it_data = field sz (cstring v) (length v)\<rparr>"
    using n nm data by (simp add: item_at_def item_size_def item_exportable_def item_permission_def)
  moreover have "m' i = m i" if "i < p \<or> p + 28 + sz \<le> i" for i
    using that keep [of i] by (auto simp: m2_def m1_def memcpy_def memset_def)
  ultimately show ?thesis using run by blast
qed

lemma items_end_Cons_eq: "its \<noteq> [] \<Longrightarrow> items_end p (it # its) = items_end (p + item_len it) its"
  by (cases its) auto

lemma item_at_below:
  assumes "item_at m p it" and "\<forall>i < p + item_len it. m' i = m i"
  shows "item_at m' p it"
proof (rule item_at_frame [OF assms(1)])
  fix i
  assume "i < p + 28 + length (it_data it)"
  then have "i < p + item_len it" using item_len_ge [of it] by linarith
  then show "m' i = m i" using assms(2) by blast
qed

lemma init_loop_refines:
  assumes "\<forall>d \<in> set ds. good_default d" and "items_end p (map item_of ds) \<le> CONFIG_IDME_SIZE"
  shows "\<exists>m'. init_loop ds m p n = Inr (m', n + length ds) \<and> items_at m' p (map item_of ds) \<and> (\<forall>i < p. m' i = m i)"
  using assms
proof (induction ds arbitrary: m p n)
  case (Cons d ds)
  let ?it = "item_of d"
  have good: "good_default d" using Cons.prems(1) by simp
  obtain v where v: "iv_value d = Some v" using good by (auto simp: good_default_def)
  have "p + 28 + iv_size d \<le> CONFIG_IDME_SIZE"
    using items_end_Cons [of p ?it "map item_of ds"] Cons.prems(2) by simp
  then obtain m1 where m1: "IDME_ITEM_INIT m p CONFIG_IDME_SIZE (cstring (iv_name d)) (length (iv_name d)) (iv_size d)
      (iv_exportable d) (iv_permission d) (iv_value d) = Inr m1" "item_at m1 p ?it" "\<forall>i. i < p \<or> p + 28 + iv_size d \<le> i \<longrightarrow> m1 i = m i"
    using item_init_refines [of p "iv_size d" CONFIG_IDME_SIZE "iv_name d" "cstring (iv_name d)" _ "iv_exportable d"
        "iv_permission d" m v] good v
    by (auto simp: good_default_def cstring_def item_of_def default_data_def)
  show ?case
  proof (cases ds)
    case Nil
    then show ?thesis using m1 by auto
  next
    case ds: (Cons d' ds')
    have next_item: "IDME_ITEM_NEXT m1 p = p + item_len ?it" using m1(2) by (rule item_at_next)
    have "items_end (p + item_len ?it) (map item_of ds) \<le> CONFIG_IDME_SIZE"
      using Cons.prems(2) items_end_Cons_eq [of "map item_of ds" p ?it] ds by simp
    then obtain m2 where m2: "init_loop ds m1 (p + item_len ?it) (n + 1) = Inr (m2, n + 1 + length ds)"
      "items_at m2 (p + item_len ?it) (map item_of ds)" "\<forall>i < p + item_len ?it. m2 i = m1 i"
      using Cons.IH [of "p + item_len ?it" m1 "n + 1"] Cons.prems(1) by auto
    have "item_at m2 p ?it" using m1(2) m2(3) by (rule item_at_below)
    moreover have "\<forall>i < p. m2 i = m i" using m1(3) m2(3) by simp
    ultimately show ?thesis using m1(1) m2 next_item ds by simp
  qed
qed simp

lemma init_var_refines:
  assumes "\<forall>d \<in> set ds. good_default d" and "items_end 16 (map item_of ds) \<le> CONFIG_IDME_SIZE" and "length ds < 2 ^ 32"
  shows "\<exists>m'. idme_init_var_v2p0 ds m = Inr m' \<and> table m' (map item_of ds) \<and>
    strncmp_eq IDME_VERSION_2P1 m' VERSION_OFFSET (length IDME_VERSION_2P1)"
proof -
  define m3 where "m3 = memcpy (memcpy (memset m 0 0 CONFIG_IDME_SIZE) 0 (cstring IDME_MAGIC_NUMBER) 0 (length IDME_MAGIC_NUMBER))
    VERSION_OFFSET (cstring IDME_VERSION_2P1) 0 (length IDME_VERSION_2P1)"
  obtain m4 where m4: "init_loop ds m3 16 0 = Inr (m4, length ds)" "items_at m4 16 (map item_of ds)" "\<forall>i < 16. m4 i = m3 i"
    using init_loop_refines [OF assms(1,2), of m3 0] by auto
  define m' where "m' = store32 m4 12 (length ds)"
  have run: "idme_init_var_v2p0 ds m = Inr m'"
    using m4(1) by (simp add: idme_init_var_v2p0_def m3_def m'_def ITEM_DATA_OFFSET_def ITEMS_NUM_OFFSET_def Let_def)
  have low: "m' i = m3 i" if "i < 12" for i using that m4(3) by (simp add: m'_def store32_other)
  have "m3 i = IDME_MAGIC_NUMBER ! i" if "i < 8" for i
    using that by (auto simp: m3_def memcpy_def VERSION_OFFSET_def cstring_def IDME_MAGIC_NUMBER_def)
  then have "\<forall>i < 8. m' i = IDME_MAGIC_NUMBER ! i" using low by simp
  moreover have "items_num m' = length ds" using assms(3) by (simp add: items_num_def ITEMS_NUM_OFFSET_def m'_def)
  moreover have "items_at m' 16 (map item_of ds)" using m4(2) by (rule items_at_frame) (simp add: m'_def store32_other)
  ultimately have "table m' (map item_of ds)" using assms(2) by (simp add: table_def)
  moreover have "m' (8 + i) = IDME_VERSION_2P1 ! i" if "i < 3" for i
    using that low [of "8 + i"] by (auto simp: m3_def memcpy_def VERSION_OFFSET_def cstring_def IDME_VERSION_2P1_def)
  then have "strncmp_eq IDME_VERSION_2P1 m' VERSION_OFFSET (length IDME_VERSION_2P1)"
    by (simp add: strncmp_eq_def VERSION_OFFSET_def IDME_VERSION_2P1_def)
  ultimately show ?thesis using run by blast
qed

section \<open>Merging a table with new defaults\<close>

text \<open>
  The entry a default gives in the new table: an existing item keeps its attributes, and its bytes when the new field is not
  smaller; the bytes behind them are those of the default.
\<close>

definition merged :: "item list \<Rightarrow> idme_init_value \<Rightarrow> item" where
  "merged its d =
     (case lookup its (iv_name d) of
        None \<Rightarrow> item_of d
      | Some it \<Rightarrow> it\<lparr>it_data := if length (it_data it) \<le> iv_size d
                                then it_data it @ drop (length (it_data it)) (default_data d) else default_data d\<rparr>)"

definition added :: "item list \<Rightarrow> idme_init_value list \<Rightarrow> nat" where
  "added its ds = length (filter (\<lambda>d. lookup its (iv_name d) = None) ds)"

definition resized :: "item list \<Rightarrow> idme_init_value \<Rightarrow> bool" where
  "resized its d \<longleftrightarrow> (\<exists>it. lookup its (iv_name d) = Some it \<and> length (it_data it) \<noteq> iv_size d)"

lemma default_data_length [simp]: "length (default_data d) = iv_size d"
  by (simp add: default_data_def)

lemma merged_length [simp]: "length (it_data (merged its d)) = iv_size d"
  by (simp add: merged_def split: option.split)

lemma item_name_byte: "item_at m p it \<Longrightarrow> i < length (it_name it) \<Longrightarrow> m (p + i) = it_name it ! i"
  by (auto simp: item_at_def good_name_def cstring_def)

lemma item_name_length:
  assumes "item_at m p it"
  shows "name_length m p = length (it_name it)"
proof -
  let ?n = "length (it_name it)" and ?P = "\<lambda>i. m (p + i) \<noteq> 0"
  have n: "?n < 16" and z: "0 \<notin> set (it_name it)" using assms by (auto simp: item_at_def good_name_def)
  have split: "[0..<16] = [0..<?n] @ ?n # [Suc ?n..<16]"
    using n upt_add_eq_append [of 0 ?n "16 - ?n"] upt_conv_Cons [of ?n 16] by simp
  have "\<forall>i \<in> set [0..<?n]. ?P i" using assms z item_name_byte [OF assms] by (auto simp: in_set_conv_nth)
  moreover have "\<not> ?P ?n" using assms n by (simp add: item_at_def cstring_def)
  ultimately have "takeWhile ?P [0..<16] = [0..<?n]" unfolding split by (simp add: takeWhile_append)
  then show ?thesis by (simp add: name_length_def IDME_MAX_NAME_LEN_def)
qed

lemma strncmp_item:
  assumes "item_at m p it" and "good_name name"
  shows "strncmp_eq name m p 16 \<longleftrightarrow> it_name it = name"
  using strcmp_item [OF assms] assms(2) by (simp add: strncmp_eq_def good_name_def)

lemma find_existing_pos:
  "items_at m p its \<Longrightarrow> good_name name \<Longrightarrow> find_existing name m (length its) p = item_pos p its name"
  by (induction its arbitrary: p) (auto simp: strncmp_item item_at_next IDME_MAX_NAME_LEN_def)

lemma size_difference_int:
  "a < 2 ^ 31 \<Longrightarrow> b < 2 ^ 31 \<Longrightarrow> size_difference a b = int a - int b"
proof (cases "b \<le> a")
  case True
  assume "a < 2 ^ 31" "b < 2 ^ 31"
  then have "(int a - int b) mod 2 ^ 32 = int a - int b" using True by (intro mod_pos_pos_trivial) auto
  then show ?thesis using \<open>a < 2 ^ 31\<close> True by (simp add: size_difference_def)
next
  case False
  assume "a < 2 ^ 31" "b < 2 ^ 31"
  then have "(int a - int b) mod 2 ^ 32 = int a - int b + 2 ^ 32"
    using False mod_pos_pos_trivial [of "int a - int b + 2 ^ 32" "2 ^ 32"] by simp
  then show ?thesis using \<open>b < 2 ^ 31\<close> by (simp add: size_difference_def)
qed

lemma load32_bound: "load32 m p < 2 ^ 32"
proof -
  have "unat (m q) < 256" for q using unsigned_less [of "m q"] by simp
  from this [of p] this [of "p + 1"] this [of "p + 2"] this [of "p + 3"] show ?thesis by (simp add: load32_def)
qed

lemma update_entry_refines:
  assumes tab: "table old its" and d: "good_default d" and fits: "us_item st + 28 + iv_size d \<le> CONFIG_IDME_SIZE"
  shows "\<exists>m'. update_entry old d st =
      Inr \<lparr>us_new = m', us_item = us_item st + item_len (merged its d), us_num = us_num st + 1,
           us_added = us_added st + added its [d], us_differ = (us_differ st \<or> resized its d)\<rparr> \<and>
    item_at m' (us_item st) (merged its d) \<and> (\<forall>i < us_item st. m' i = us_new st i)"
proof -
  let ?p = "us_item st"
  obtain v where v: "iv_value d = Some v" using d by (auto simp: good_default_def)
  note init = item_init_refines [of ?p "iv_size d" CONFIG_IDME_SIZE _ _ _ _ _ "us_new st" v, OF fits]
  have found: "find_existing (iv_name d) old (items_num old) ITEM_DATA_OFFSET = item_pos 16 its (iv_name d)"
    using tab d find_existing_pos [of old 16 its] by (simp add: table_def good_default_def ITEM_DATA_OFFSET_def)
  show ?thesis
  proof (cases "item_pos 16 its (iv_name d)")
    case None
    then have none: "lookup its (iv_name d) = None" by (simp add: item_pos_None)
    obtain m1 where m1: "IDME_ITEM_INIT (us_new st) ?p CONFIG_IDME_SIZE (cstring (iv_name d)) (length (iv_name d)) (iv_size d)
        (iv_exportable d) (iv_permission d) (Some v) = Inr m1" "item_at m1 ?p (item_of d)"
      "\<forall>i. i < ?p \<or> ?p + 28 + iv_size d \<le> i \<longrightarrow> m1 i = us_new st i"
      using init [of "iv_name d" "cstring (iv_name d)" "length (iv_name d)" "iv_exportable d" "iv_permission d"] d v
      by (auto simp: good_default_def cstring_def item_of_def default_data_def)
    then show ?thesis
      using None none v item_at_next [OF m1(2)] by (cases st) (simp add: update_entry_def found merged_def added_def resized_def)
  next
    case (Some q)
    then obtain it where it: "lookup its (iv_name d) = Some it" "item_at old q it"
      and inside: "q + 28 + length (it_data it) \<le> items_end 16 its"
      using item_pos_Some [of 16 its "iv_name d" q old] tab by (auto simp: table_def)
    have name: "it_name it = iv_name d" using it(1) by (auto simp: lookup_def find_Some_iff)
    have sz: "item_size old q = length (it_data it)" "length (it_data it) < 2 ^ 31"
      using it(2) inside tab by (auto simp: item_at_def table_def CONFIG_IDME_SIZE_def)
    have attrs: "item_exportable old q = it_exportable it" "item_permission old q = it_permission it" "good_name (it_name it)"
      "it_exportable it < 2 ^ 32" "it_permission it < 2 ^ 32"
      using it(2) load32_bound [of old "q + 20"] load32_bound [of old "q + 24"]
      by (auto simp: item_at_def item_exportable_def item_permission_def)
    have same: "\<lparr>it_name = it_name it, it_exportable = it_exportable it, it_permission = it_permission it,
        it_data = field (iv_size d) (cstring v) (length v)\<rparr> = it\<lparr>it_data := default_data d\<rparr>"
      using v by (simp add: default_data_def)
    obtain m1 where m1: "IDME_ITEM_INIT (us_new st) ?p CONFIG_IDME_SIZE (\<lambda>i. old (q + i)) (name_length old q) (iv_size d)
        (item_exportable old q) (item_permission old q) (Some v) = Inr m1" "item_at m1 ?p (it\<lparr>it_data := default_data d\<rparr>)"
      "\<forall>i. i < ?p \<or> ?p + 28 + iv_size d \<le> i \<longrightarrow> m1 i = us_new st i"
      using init [of "it_name it" "\<lambda>i. old (q + i)" "name_length old q" "it_exportable it" "it_permission it"]
        d attrs item_name_byte [OF it(2)] item_name_length [OF it(2)]
      unfolding same by (auto simp: good_default_def)
    show ?thesis
    proof (cases "length (it_data it) \<le> iv_size d")
      case True
      define m2 where "m2 = memcpy m1 (?p + 28) old (q + 28) (length (it_data it))"
      have "m2 (?p + 28 + i) = (it_data it @ drop (length (it_data it)) (default_data d)) ! i" if "i < iv_size d" for i
        using that m1(2) it(2) by (auto simp: m2_def memcpy_def item_at_def nth_append)
      then have m2: "item_at m2 ?p (merged its d)"
        using item_at_set_data [OF m1(2), of "it_data it @ drop (length (it_data it)) (default_data d)" m2] True it(1)
        by (simp add: merged_def m2_def memcpy_def)
      moreover have "\<forall>i < ?p. m2 i = us_new st i" using m1(3) by (simp add: m2_def memcpy_def)
      ultimately show ?thesis
        using True Some v m1(1) it(1) sz d item_at_next [OF m2] size_difference_int [of "iv_size d" "length (it_data it)"]
        by (cases st) (auto simp: update_entry_def found added_def resized_def DESC_SIZE_def Let_def m2_def good_default_def)
    next
      case False
      have "item_at m1 ?p (merged its d)" using m1(2) it(1) False by (simp add: merged_def)
      then show ?thesis
        using False Some v m1 it(1) sz d item_at_next size_difference_int [of "iv_size d" "length (it_data it)"]
        by (cases st) (auto simp: update_entry_def found added_def resized_def DESC_SIZE_def Let_def good_default_def)
    qed
  qed
qed

lemma added_Cons: "added its (d # ds) = added its [d] + added its ds"
  by (simp add: added_def)

lemma items_end_head: "its \<noteq> [] \<Longrightarrow> items_end (p + item_len it) its = items_end p (it # its)"
  by (cases its) auto

lemma update_loop_refines:
  assumes "table old its" and "\<forall>d \<in> set ds. good_default d"
    and "ds \<noteq> [] \<Longrightarrow> items_end (us_item st) (map (merged its) ds) \<le> CONFIG_IDME_SIZE"
  shows "\<exists>st'. update_loop old ds st = Inr st' \<and> us_num st' = us_num st + length ds \<and>
    us_added st' = us_added st + added its ds \<and> us_differ st' = (us_differ st \<or> list_ex (resized its) ds) \<and>
    items_at (us_new st') (us_item st) (map (merged its) ds) \<and> (\<forall>i < us_item st. us_new st' i = us_new st i)"
  using assms(2,3)
proof (induction ds arbitrary: st)
  case Nil
  show ?case by (simp add: added_def)
next
  case (Cons d ds)
  let ?it = "merged its d"
  have fits: "items_end (us_item st) (?it # map (merged its) ds) \<le> CONFIG_IDME_SIZE" using Cons.prems(2) by simp
  then have "us_item st + 28 + iv_size d \<le> CONFIG_IDME_SIZE"
    using items_end_Cons [of "us_item st" ?it "map (merged its) ds"] by simp
  then obtain st1 where st1: "update_entry old d st = Inr st1" "us_item st1 = us_item st + item_len ?it"
    "us_num st1 = us_num st + 1" "us_added st1 = us_added st + added its [d]" "us_differ st1 = (us_differ st \<or> resized its d)"
    "item_at (us_new st1) (us_item st) ?it" "\<forall>i < us_item st. us_new st1 i = us_new st i"
    using update_entry_refines [OF assms(1), of d st] Cons.prems(1) by auto
  have "items_end (us_item st1) (map (merged its) ds) \<le> CONFIG_IDME_SIZE" if "ds \<noteq> []"
    using fits that items_end_head [of "map (merged its) ds" "us_item st" ?it] st1(2) by simp
  then obtain st' where st': "update_loop old ds st1 = Inr st'" "us_num st' = us_num st1 + length ds"
    "us_added st' = us_added st1 + added its ds" "us_differ st' = (us_differ st1 \<or> list_ex (resized its) ds)"
    "items_at (us_new st') (us_item st1) (map (merged its) ds)" "\<forall>i < us_item st1. us_new st' i = us_new st1 i"
    using Cons.IH [of st1] Cons.prems(1) by auto
  have "item_at (us_new st') (us_item st) ?it" using st1(6) st'(6) st1(2) by (intro item_at_below [OF st1(6)]) simp
  moreover have "\<forall>i < us_item st. us_new st' i = us_new st i" using st1(2,7) st'(6) by simp
  ultimately show ?case using st1 st' added_Cons [of its d ds] by simp
qed

text \<open>The table holds the version this code writes.\<close>

definition version_2p1 :: "bytes \<Rightarrow> bool" where
  "version_2p1 m \<longleftrightarrow> strncmp_eq IDME_VERSION_2P1 m VERSION_OFFSET (length IDME_VERSION_2P1)"

lemma update_table_refines:
  assumes tab: "table m its" and ver: "version_2p1 m" and good: "\<forall>d \<in> set ds. good_default d"
    and fits: "items_end 16 (map (merged its) ds) \<le> CONFIG_IDME_SIZE" and len: "length ds < 2 ^ 32"
  shows "if added its ds = 0 \<and> length ds = length its \<and> \<not> list_ex (resized its) ds
    then idme_update_table_v2p0 ds True (Some m) = Inr (- 2, Some m)
    else \<exists>m'. idme_update_table_v2p0 ds True (Some m) = Inr (0, Some m') \<and> table m' (map (merged its) ds) \<and> version_2p1 m'"
proof -
  define new0 where "new0 = memcpy (memset (\<lambda>_. 0) 0 0 CONFIG_IDME_SIZE) 0 m 0 12"
  define st0 where "st0 = \<lparr>us_new = new0, us_item = ITEM_DATA_OFFSET, us_num = 0, us_added = 0, us_differ = False\<rparr>"
  obtain st where st: "update_loop m ds st0 = Inr st" "us_num st = length ds" "us_added st = added its ds"
    "us_differ st = list_ex (resized its) ds" "items_at (us_new st) 16 (map (merged its) ds)" "\<forall>i < 16. us_new st i = new0 i"
    using update_loop_refines [OF tab good, of st0] fits by (auto simp: st0_def ITEM_DATA_OFFSET_def)
  have num: "items_num m = length its" using tab by (simp add: table_def)
  define m' where "m' = memcpy m 0 (store32 (us_new st) 12 (length ds)) 0 CONFIG_IDME_SIZE"
  have run: "idme_update_table_v2p0 ds True (Some m) =
      (if added its ds \<noteq> 0 \<or> length its + added its ds \<noteq> length ds \<or> list_ex (resized its) ds then Inr (0, Some m') else Inr (- 2, Some m))"
    using table_magic [OF tab] ver st num
    by (auto simp: idme_update_table_v2p0_def version_2p1_def new0_def [symmetric] st0_def [symmetric] m'_def ITEMS_NUM_OFFSET_def Let_def)
  have low: "m' i = m i" if "i < 12" for i
    using that st(6) by (simp add: m'_def memcpy_def CONFIG_IDME_SIZE_def store32_other new0_def)
  have "items_num m' = length ds"
    using len load32_bytes [of m' ITEMS_NUM_OFFSET "store32 (us_new st) 12 (length ds)" 12]
    by (simp add: items_num_def ITEMS_NUM_OFFSET_def m'_def memcpy_def CONFIG_IDME_SIZE_def)
  moreover have "items_at m' 16 (map (merged its) ds)"
    using st(5) by (rule items_at_frame) (use fits in \<open>simp add: m'_def memcpy_def store32_other\<close>)
  ultimately have "table m' (map (merged its) ds)" using tab low fits by (simp add: table_def)
  moreover have "version_2p1 m'"
    using ver low by (simp add: version_2p1_def strncmp_eq_def VERSION_OFFSET_def IDME_VERSION_2P1_def)
  ultimately show ?thesis using run by auto
qed

end
