(* ===== verification/Idme_Defaults.thy ===== *)
theory Idme_Defaults
  imports Idme_Table
begin

text \<open>
  The table of defaults of the product, \<^verbatim>\<open>features/idme/include/idme_default_table_lagunaf.h\<close>.  The permissions of all entries are
  \<^verbatim>\<open>0444\<close>.
\<close>

definition default_value :: "string \<Rightarrow> nat \<Rightarrow> nat \<Rightarrow> 8 word list option \<Rightarrow> idme_init_value" where
  "default_value name sz export v = \<lparr>iv_name = ascii name, iv_size = sz, iv_exportable = export, iv_permission = 292, iv_value = v\<rparr>"

definition idme_default_values :: "idme_init_value list" where
  "idme_default_values = [
     default_value ''board_id'' 16 1 (Some (ascii ''ffffff0000000000'')),
     default_value ''serial'' 16 1 (Some (ascii ''0'')),
     default_value ''mac_addr'' 16 1 (Some (ascii ''0'')),
     default_value ''mac_sec'' 32 1 (Some (ascii ''0'')),
     default_value ''bt_mac_addr'' 16 1 (Some (ascii ''0'')),
     default_value ''product_name'' 32 1 (Some (ascii ''0'')),
     default_value ''productid'' 32 1 (Some (ascii ''0'')),
     default_value ''productid2'' 32 1 (Some (ascii ''0'')),
     default_value ''bootmode'' 4 1 (Some (ascii ''1'')),
     default_value ''postmode'' 4 1 (Some (ascii ''0'')),
     default_value ''bootcount'' 8 1 (Some (ascii ''0'')),
     default_value ''manufacturing'' 512 1 (Some (ascii '''')),
     default_value ''eth_mac_addr'' 16 1 (Some (ascii ''0'')),
     default_value ''eth_ip_addr'' 16 1 (Some (ascii ''0'')),
     default_value ''device_type_id'' 32 1 (Some (ascii ''0'')),
     default_value ''unlock_code'' 1024 1 (Some (ascii '''')),
     default_value ''sensorcal'' 160 1 (Some (ascii ''0'')),
     default_value ''wifi_mfg'' 512 1 (Some (ascii ''0'')),
     default_value ''bt_mfg'' 128 1 (Some (ascii ''0'')),
     default_value ''fos_flags'' 8 1 (Some (ascii ''40'')),
     default_value ''dev_flags'' 8 1 (Some (ascii ''0'')),
     default_value ''usr_flags'' 8 1 (Some (ascii ''0'')),
     default_value ''model_name'' 256 1 (Some (ascii ''/config/model/Customer_1.ini'')),
     default_value ''keys'' 81920 0 None,
     default_value ''mfr_name'' 32 1 (Some (ascii ''0'')),
     default_value ''mfr_model'' 32 1 (Some (ascii ''0'')),
     default_value ''product_model'' 32 1 (Some (ascii ''0'')),
     default_value ''transition_done'' 4 1 (Some (ascii ''0'')),
     default_value ''region'' 32 1 (Some (ascii ''US''))]"

lemma ascii_Nil [simp]: "ascii [] = []"
  by (simp add: ascii_def)

lemma ascii_Cons [simp]: "ascii (c # s) = of_char c # ascii s"
  by (simp add: ascii_def)

lemma length_ascii [simp]: "length (ascii s) = length s"
  by (simp add: ascii_def)

lemma good_before_keys: "\<forall>d \<in> set (take 23 idme_default_values). good_default d"
  by (simp add: idme_default_values_def default_value_def good_default_def good_name_def)

lemma null_keys: "iv_value (idme_default_values ! 23) = None" "length idme_default_values = 29"
  by (simp_all add: idme_default_values_def default_value_def)

text \<open>A default without a value stops the initialisation and the update of a table, whatever precedes it.\<close>

lemma null_default_init:
  assumes "iv_value d = None"
  shows "\<forall>c \<in> set ds. good_default c \<Longrightarrow> items_end p (map item_of (ds @ [d])) \<le> CONFIG_IDME_SIZE \<Longrightarrow>
    init_loop (ds @ d # rest) m p n = Inl NULL_POINTER"
proof (induction ds arbitrary: m p n)
  case Nil
  then show ?case using assms by (simp add: IDME_ITEM_INIT_def DESC_SIZE_def)
next
  case (Cons c ds)
  let ?it = "item_of c"
  obtain v where v: "iv_value c = Some v" and good: "good_default c" using Cons.prems(1) by (auto simp: good_default_def)
  have "p + 28 + iv_size c \<le> CONFIG_IDME_SIZE"
    using items_end_Cons [of p ?it "map item_of (ds @ [d])"] Cons.prems(2) by simp
  then obtain m1 where m1: "IDME_ITEM_INIT m p CONFIG_IDME_SIZE (cstring (iv_name c)) (length (iv_name c)) (iv_size c)
      (iv_exportable c) (iv_permission c) (iv_value c) = Inr m1" "item_at m1 p ?it"
    using item_init_refines [of p "iv_size c" CONFIG_IDME_SIZE "iv_name c" "cstring (iv_name c)" _ "iv_exportable c"
        "iv_permission c" m v] good v
    by (auto simp: good_default_def cstring_def item_of_def default_data_def)
  have "items_end (p + item_len ?it) (map item_of (ds @ [d])) \<le> CONFIG_IDME_SIZE"
    using Cons.prems(2) items_end_head [of "map item_of (ds @ [d])" p ?it] by simp
  then show ?case using Cons.IH [of "p + item_len ?it" m1 "n + 1"] Cons.prems(1) m1(1) item_at_next [OF m1(2)] by simp
qed

lemma null_default_update:
  assumes "table old its" and "iv_value d = None"
  shows "\<forall>c \<in> set ds. good_default c \<Longrightarrow> items_end (us_item st) (map (merged its) (ds @ [d])) \<le> CONFIG_IDME_SIZE \<Longrightarrow>
    update_loop old (ds @ d # rest) st = Inl NULL_POINTER"
proof (induction ds arbitrary: st)
  case Nil
  then show ?case using assms(2) by (simp add: update_entry_def IDME_ITEM_INIT_def DESC_SIZE_def split: option.split)
next
  case (Cons c ds)
  let ?it = "merged its c"
  have "us_item st + 28 + iv_size c \<le> CONFIG_IDME_SIZE"
    using items_end_Cons [of "us_item st" ?it "map (merged its) (ds @ [d])"] Cons.prems(2) by simp
  then obtain st1 where st1: "update_entry old c st = Inr st1" "us_item st1 = us_item st + item_len ?it"
    using update_entry_refines [OF assms(1), of c st] Cons.prems(1) by auto
  have "items_end (us_item st1) (map (merged its) (ds @ [d])) \<le> CONFIG_IDME_SIZE"
    using Cons.prems(2) items_end_head [of "map (merged its) (ds @ [d])" "us_item st" ?it] st1(2) by simp
  then show ?case using Cons.IH [of st1] Cons.prems(1) st1(1) by simp
qed

lemma idme_default_values_split:
  "idme_default_values = take 23 idme_default_values @ idme_default_values ! 23 # drop 24 idme_default_values"
  using id_take_nth_drop [of 23 idme_default_values] null_keys(2) by simp

lemma keys_fit: "items_end 16 (map item_of (take 23 idme_default_values @ [idme_default_values ! 23])) \<le> CONFIG_IDME_SIZE"
  by (simp add: idme_default_values_def default_value_def item_len_def align_item_def IDME_ALIGN_SIZE_def CONFIG_IDME_SIZE_def)

lemma init_lagunaf: "idme_init_var_v2p0 idme_default_values m = Inl NULL_POINTER"
proof -
  have "init_loop idme_default_values m' 16 n = Inl NULL_POINTER" for m' n
    using null_default_init [OF null_keys(1) good_before_keys keys_fit] idme_default_values_split by metis
  then show ?thesis by (simp add: idme_init_var_v2p0_def ITEM_DATA_OFFSET_def Let_def)
qed

lemma update_lagunaf:
  assumes "table m its" and "version_2p1 m"
  shows "idme_update_table_v2p0 idme_default_values True (Some m) = Inl NULL_POINTER"
proof -
  let ?ds = "take 23 idme_default_values @ [idme_default_values ! 23]"
  have "items_end 16 (map (merged its) ?ds) = items_end 16 (map item_of ?ds)"
    by (rule items_end_lengths) simp
  then have fits: "items_end 16 (map (merged its) ?ds) \<le> CONFIG_IDME_SIZE" using keys_fit by simp
  have "update_loop m idme_default_values st = Inl NULL_POINTER" if "us_item st = 16" for st
    using null_default_update [OF assms(1) null_keys(1) good_before_keys, of st "drop 24 idme_default_values"] fits that
      idme_default_values_split by metis
  then show ?thesis
    using table_magic [OF assms(1)] assms(2)
    by (simp add: idme_update_table_v2p0_def version_2p1_def ITEM_DATA_OFFSET_def Let_def)
qed

end
