(* ===== verification/Idme_Props.thy ===== *)
theory Idme_Props
  imports Idme_Defaults
begin

text \<open>
  Properties of the identification data: the interface the version table selects, the value read after an update, the block
  after initialisation, the boot counter, and the default of the product that has no value.
\<close>

section \<open>The interface of a format\<close>

text \<open>
  \<^verbatim>\<open>cmd_idme.c\<close> reaches a format through the pointers \<^verbatim>\<open>idme_get_var_func\<close> and \<^verbatim>\<open>idme_update_var_func\<close>.  A format represents a list
  of items; reading and updating refine the operations on the list.
\<close>

locale idme_format =
  fixes holds :: "'b \<Rightarrow> item list \<Rightarrow> bool"
    and get_func :: "8 word list \<Rightarrow> nat \<Rightarrow> 'b \<Rightarrow> int \<times> 8 word list"
    and update_func :: "8 word list \<Rightarrow> bytes \<Rightarrow> nat \<Rightarrow> 'b \<Rightarrow> int \<times> 'b"
  assumes get_refines: "holds b its \<Longrightarrow> good_name name \<Longrightarrow>
      get_func name len b = (case lookup its name of None \<Rightarrow> (- 1, []) | Some it \<Rightarrow> (0, take len (it_data it)))"
    and update_refines: "holds b its \<Longrightarrow> good_name name \<Longrightarrow>
      (case lookup its name of
         None \<Rightarrow> update_func name v len b = (- 1, b)
       | Some it \<Rightarrow> \<exists>b'. update_func name v len b = (0, b') \<and>
           holds b' (set_data its name (\<lambda>_. field (length (it_data it)) v len)))"
begin

lemma lookup_set_data_same: "lookup its name = Some it \<Longrightarrow> lookup (set_data its name (\<lambda>_. d)) name = Some (it\<lparr>it_data := d\<rparr>)"
  by (induction its) (auto simp: lookup_def split: if_splits)

lemma lookup_set_data_other: "other \<noteq> name \<Longrightarrow> lookup (set_data its name f) other = lookup its other"
  by (induction its) (auto simp: lookup_def)

lemma read_after_update:
  assumes "holds b its" and "good_name name" and "lookup its name = Some it"
  shows "\<exists>b'. update_func name v len b = (0, b') \<and> holds b' (set_data its name (\<lambda>_. field (length (it_data it)) v len)) \<and>
    get_func name n b' = (0, take n (field (length (it_data it)) v len)) \<and>
    (\<forall>other. good_name other \<and> other \<noteq> name \<longrightarrow> get_func other n b' = get_func other n b)"
proof -
  let ?its = "set_data its name (\<lambda>_. field (length (it_data it)) v len)"
  obtain b' where b': "update_func name v len b = (0, b')" "holds b' ?its"
    using update_refines [OF assms(1,2), of v len] assms(3) by auto
  have "get_func name n b' = (0, take n (field (length (it_data it)) v len))"
    using get_refines [OF b'(2) assms(2), of n] lookup_set_data_same [OF assms(3)] by simp
  moreover have "get_func other n b' = get_func other n b" if "good_name other" "other \<noteq> name" for other
    using get_refines [OF b'(2) that(1)] get_refines [OF assms(1) that(1)] lookup_set_data_other [OF that(2)] by simp
  ultimately show ?thesis using b' by blast
qed

end

definition get_func_v2p0 :: "8 word list \<Rightarrow> nat \<Rightarrow> bytes \<Rightarrow> int \<times> 8 word list" where
  "get_func_v2p0 name len m = idme_get_var_v2p0 name True len (Some m)"

definition update_func_v2p0 :: "8 word list \<Rightarrow> bytes \<Rightarrow> nat \<Rightarrow> bytes \<Rightarrow> int \<times> bytes" where
  "update_func_v2p0 name v len m = (case idme_update_var_v2p0 name (Some v) len (Some m) of (r, m') \<Rightarrow> (r, the m'))"

interpretation v2p0: idme_format table get_func_v2p0 update_func_v2p0
proof
  fix b its name v len
  assume "table b its" "good_name name"
  then show "case lookup its name of
       None \<Rightarrow> update_func_v2p0 name v len b = (- 1, b)
     | Some it \<Rightarrow> \<exists>b'. update_func_v2p0 name v len b = (0, b') \<and>
         table b' (set_data its name (\<lambda>_. field (length (it_data it)) v len))"
    using update_var_refines [of b its name v len] by (auto simp: update_func_v2p0_def split: option.splits)
qed (simp add: get_func_v2p0_def get_var_refines)

section \<open>A block\<close>

text \<open>A block with one item, a boot counter of 41, for the instances below.\<close>

definition sample_bytes :: "8 word list" where
  "sample_bytes = IDME_MAGIC_NUMBER @ IDME_VERSION_2P1 @ [0, 1, 0, 0, 0] @ BOOTCOUNT @ [0, 0, 0, 0, 0, 0, 0] @
     [8, 0, 0, 0, 1, 0, 0, 0, 0x24, 1, 0, 0, 0x34, 0x31, 0, 0, 0, 0, 0, 0]"

definition sample_block :: bytes where
  "sample_block = cstring sample_bytes"

definition sample_item :: item where
  "sample_item = \<lparr>it_name = BOOTCOUNT, it_exportable = 1, it_permission = 292, it_data = [0x34, 0x31, 0, 0, 0, 0, 0, 0]\<rparr>"

lemma all_less_list: "(\<forall>i < n. P i) \<longleftrightarrow> list_all P [0..<n]"
  by (auto simp: list_all_iff)

lemmas sample_defs = sample_block_def sample_bytes_def sample_item_def IDME_MAGIC_NUMBER_def IDME_VERSION_2P1_def BOOTCOUNT_def
  VERSION_OFFSET_def ITEMS_NUM_OFFSET_def cstring_def

lemma sample_table: "table sample_block [sample_item]"
proof -
  have "\<forall>i < 8. sample_block i = IDME_MAGIC_NUMBER ! i" unfolding all_less_list by (simp add: sample_defs upt_rec)
  moreover have "items_num sample_block = 1" by (simp add: items_num_def load32_def sample_defs)
  moreover have "\<forall>i < 16. sample_block (16 + i) = cstring (it_name sample_item) i"
    unfolding all_less_list by (simp add: sample_defs upt_rec)
  moreover have "\<forall>i < 8. sample_block (16 + 28 + i) = it_data sample_item ! i"
    unfolding all_less_list by (simp add: sample_defs upt_rec)
  moreover have "load32 sample_block 32 = 8" "load32 sample_block 36 = 1" "load32 sample_block 40 = 292"
    by (simp_all add: load32_def sample_defs)
  moreover have "good_name BOOTCOUNT" by (simp add: good_name_def BOOTCOUNT_def)
  ultimately show ?thesis
    by (simp add: table_def CONFIG_IDME_SIZE_def item_at_def item_size_def item_exportable_def item_permission_def sample_item_def)
qed

lemma sample_version: "version_2p1 sample_block"
  unfolding version_2p1_def strncmp_eq_def all_less_list by (simp add: sample_defs upt_rec)

section \<open>Initialisation\<close>

definition mmc_ok :: "mmc_env \<Rightarrow> bool" where
  "mmc_ok env \<longleftrightarrow> mmc_found env \<and> switch_boot env = 0 \<and> switch_user env = 0 \<and> transfer env = 200"

definition same_block :: "bytes \<Rightarrow> bytes \<Rightarrow> bool" where
  "same_block m m' \<longleftrightarrow> (\<forall>i < CONFIG_IDME_SIZE. m i = m' i)"

lemma same_block_sym: "same_block m m' \<Longrightarrow> same_block m' m"
  by (simp add: same_block_def)

lemma table_same_block:
  assumes "table m its" and "same_block m m'"
  shows "table m' its"
proof -
  have low: "m' i = m i" if "i < 16" for i using assms(2) that by (simp add: same_block_def CONFIG_IDME_SIZE_def)
  have "items_num m' = items_num m" unfolding items_num_def ITEMS_NUM_OFFSET_def by (rule load32_bytes) (simp add: low)
  have at: "items_at m 16 its" and fits: "items_end 16 its \<le> CONFIG_IDME_SIZE" using assms(1) by (simp_all add: table_def)
  have "items_at m' 16 its"
  proof (rule items_at_frame [OF at])
    fix i
    assume "i < items_end 16 its"
    then have "i < CONFIG_IDME_SIZE" using fits by linarith
    then show "m' i = m i" using assms(2) by (simp add: same_block_def)
  qed
  then show ?thesis using \<open>items_num m' = items_num m\<close> assms(1) low by (simp add: table_def)
qed

lemma version_same_block: "version_2p1 m \<Longrightarrow> same_block m m' \<Longrightarrow> version_2p1 m'"
  by (auto simp: version_2p1_def strncmp_eq_def same_block_def VERSION_OFFSET_def IDME_VERSION_2P1_def CONFIG_IDME_SIZE_def)

lemma platform_read_ok:
  "mmc_ok env \<Longrightarrow> \<exists>buf'. idme_platform_read env block buf = (0, buf') \<and> same_block block buf'"
  by (simp add: mmc_ok_def idme_platform_read_def same_block_def memcpy_def CONFIG_IDME_SIZE_def)

lemma idme_write_ok:
  "mmc_ok env \<Longrightarrow> pidme_set s \<Longrightarrow>
   \<exists>block. idme_write env s = (0, s\<lparr>boot_block := block\<rparr>) \<and> same_block (gidme_buff s) block"
  by (intro exI [of _ "memcpy (boot_block s) 0 (gidme_buff s) 0 CONFIG_IDME_SIZE"])
    (simp add: mmc_ok_def idme_write_def pidme_data_def idme_platform_write_def same_block_def memcpy_def CONFIG_IDME_SIZE_def)

lemma version_byte: "version_2p1 m \<Longrightarrow> m 8 = 0x32 \<and> m 9 = 0x2e \<and> m 10 = 0x31"
  unfolding version_2p1_def strncmp_eq_def all_less_list by (simp add: IDME_VERSION_2P1_def VERSION_OFFSET_def upt_rec)

lemma select_version_2p1:
  assumes "version_2p1 (gidme_buff s)"
  shows "select_version s = s\<lparr>funcs_set := True, dev_tree_set := True\<rparr>"
proof -
  have "\<not> strncmp_eq IDME_VERSION_1P2 (gidme_buff s) VERSION_OFFSET (length IDME_VERSION_1P2)"
    "\<not> strncmp_eq IDME_VERSION_2P0 (gidme_buff s) VERSION_OFFSET (length IDME_VERSION_2P0)"
    using version_byte [OF assms] unfolding strncmp_eq_def all_less_list
    by (simp_all add: IDME_VERSION_1P2_def IDME_VERSION_2P0_def VERSION_OFFSET_def upt_rec)
  then show ?thesis using assms by (simp add: select_version_def idme_ver_table_def version_2p1_def)
qed

text \<open>The list of items the update of a table leaves.\<close>

definition updated :: "item list \<Rightarrow> idme_init_value list \<Rightarrow> item list" where
  "updated its ds =
     (if added its ds = 0 \<and> length ds = length its \<and> \<not> list_ex (resized its) ds then its else map (merged its) ds)"

definition initialized :: "idme_dev \<Rightarrow> item list \<Rightarrow> bool" where
  "initialized s its \<longleftrightarrow> pidme_set s \<and> funcs_set s \<and> table (gidme_buff s) its \<and> version_2p1 (gidme_buff s) \<and>
     table (boot_block s) its \<and> version_2p1 (boot_block s)"

lemma write_initialized:
  assumes "mmc_ok env" and "pidme_set s" and "funcs_set s" and "table (gidme_buff s) its" and "version_2p1 (gidme_buff s)"
  shows "\<exists>s'. idme_write env s = (0, s') \<and> initialized s' its \<and> gidme_buff s' = gidme_buff s"
proof -
  obtain block where block: "idme_write env s = (0, s\<lparr>boot_block := block\<rparr>)" "same_block (gidme_buff s) block"
    using idme_write_ok [OF assms(1,2)] by blast
  then have "initialized (s\<lparr>boot_block := block\<rparr>) its"
    using assms table_same_block version_same_block by (simp add: initialized_def)
  then show ?thesis using block(1) by simp
qed

definition selected :: "idme_dev \<Rightarrow> bytes \<Rightarrow> idme_dev" where
  "selected s buf = s\<lparr>gidme_buff := buf, pidme_set := True, funcs_set := True, dev_tree_set := True\<rparr>"

lemma selected_simps [simp]:
  "pidme_set (selected s buf)" "funcs_set (selected s buf)" "gidme_buff (selected s buf) = buf"
  "boot_block (selected s buf) = boot_block s" "(selected s buf)\<lparr>gidme_buff := buf'\<rparr> = selected s buf'"
  by (simp_all add: selected_def)

lemma select_version_selected:
  "version_2p1 buf \<Longrightarrow> select_version (s\<lparr>gidme_buff := buf, pidme_set := True\<rparr>) = selected s buf"
  using select_version_2p1 [of "s\<lparr>gidme_buff := buf, pidme_set := True\<rparr>"] by (simp add: selected_def)

text \<open>Initialisation with a table on the boot partition, and without one.\<close>

lemma initialize_table_run:
  assumes s: "\<not> pidme_set s" and env: "mmc_ok env" and tab: "table (boot_block s) its" and ver: "version_2p1 (boot_block s)"
  obtains buf where "table buf its" and "version_2p1 buf" and "idme_initialize ds True env s =
     (case idme_update_table_v2p0 ds True (Some buf) of
        Inl e \<Rightarrow> Inl e
      | Inr (ret, m) \<Rightarrow>
          if ret = 0 then
            (case idme_write env (selected s (the m)) of (err2, s3) \<Rightarrow> Inr (if err2 \<noteq> 0 then - 1 else 0, s3))
          else Inr (0, selected s (the m)))"
proof -
  obtain buf where buf: "idme_platform_read env (boot_block s) (memset (gidme_buff s) 0 0 CONFIG_IDME_SIZE) = (0, buf)"
    "same_block (boot_block s) buf" using platform_read_ok [OF env] by blast
  have tab': "table buf its" and ver': "version_2p1 buf" using table_same_block version_same_block tab ver buf(2) by blast+
  show thesis
    by (rule that [OF tab' ver'])
      (use s buf(1) table_magic [OF tab'] select_version_selected [OF ver', of s]
        in \<open>simp add: idme_initialize_def Let_def split: sum.split prod.split\<close>)
qed

lemma initialize_fresh_run:
  assumes s: "\<not> pidme_set s" and env: "mmc_ok env" and new: "idme_check_magic_number (Some (boot_block s)) = - 2"
  obtains buf where "idme_initialize ds memory_ok env s =
     (case idme_init_var_v2p0 ds buf of
        Inl e \<Rightarrow> Inl e
      | Inr m \<Rightarrow> (case idme_write env (selected s m) of (err2, s2) \<Rightarrow> Inr (if err2 \<noteq> 0 then - 1 else 0, s2)))"
proof -
  obtain buf where buf: "idme_platform_read env (boot_block s) (memset (gidme_buff s) 0 0 CONFIG_IDME_SIZE) = (0, buf)"
    "same_block (boot_block s) buf" using platform_read_ok [OF env] by blast
  have new': "idme_check_magic_number (Some buf) = - 2"
    using new buf(2)
    by (auto simp: idme_check_magic_number_def strncmp_eq_def same_block_def IDME_MAGIC_NUMBER_def CONFIG_IDME_SIZE_def split: if_splits)
  define buf1 where "buf1 = memcpy (memcpy buf 0 (cstring IDME_MAGIC_NUMBER) 0 8) VERSION_OFFSET (cstring IDME_VERSION_2P1) 0 3"
  have "version_2p1 buf1"
    unfolding version_2p1_def strncmp_eq_def all_less_list buf1_def
    by (simp add: IDME_VERSION_2P1_def VERSION_OFFSET_def memcpy_def cstring_def upt_rec)
  then show thesis
    by (intro that [of buf1])
      (use s buf(1) new' select_version_selected [of buf1 s]
        in \<open>simp add: idme_initialize_def Let_def buf1_def [symmetric] split: sum.split prod.split\<close>)
qed

lemma initialize_table:
  assumes s: "\<not> pidme_set s" and env: "mmc_ok env" and tab: "table (boot_block s) its" and ver: "version_2p1 (boot_block s)"
    and ds: "\<forall>d \<in> set ds. good_default d" "items_end 16 (map (merged its) ds) \<le> CONFIG_IDME_SIZE" "length ds < 2 ^ 32"
  shows "\<exists>s'. idme_initialize ds True env s = Inr (0, s') \<and> initialized s' (updated its ds)"
proof (rule initialize_table_run [OF s env tab ver, of ds])
  fix buf
  assume tab': "table buf its" and ver': "version_2p1 buf" and run: "idme_initialize ds True env s =
     (case idme_update_table_v2p0 ds True (Some buf) of
        Inl e \<Rightarrow> Inl e
      | Inr (ret, m) \<Rightarrow>
          if ret = 0 then
            (case idme_write env (selected s (the m)) of (err2, s3) \<Rightarrow> Inr (if err2 \<noteq> 0 then - 1 else 0, s3))
          else Inr (0, selected s (the m)))"
  note merge = update_table_refines [OF tab' ver' ds]
  show ?thesis
  proof (cases "added its ds = 0 \<and> length ds = length its \<and> \<not> list_ex (resized its) ds")
    case True
    then have "idme_update_table_v2p0 ds True (Some buf) = Inr (- 2, Some buf)" using merge by simp
    moreover have "initialized (selected s buf) (updated its ds)"
      using True tab tab' ver ver' by (simp add: initialized_def updated_def)
    ultimately show ?thesis using run by simp
  next
    case False
    then obtain m' where m': "idme_update_table_v2p0 ds True (Some buf) = Inr (0, Some m')"
      "table m' (map (merged its) ds)" "version_2p1 m'"
      using merge by auto
    obtain s' where "idme_write env (selected s m') = (0, s')" "initialized s' (map (merged its) ds)"
      using write_initialized [OF env, of "selected s m'"] m'(2,3) by auto
    moreover have "updated its ds = map (merged its) ds" unfolding updated_def using False by (rule if_not_P)
    ultimately show ?thesis using run m'(1) by simp
  qed
qed

lemma initialize_fresh:
  assumes s: "\<not> pidme_set s" and env: "mmc_ok env" and new: "idme_check_magic_number (Some (boot_block s)) = - 2"
    and ds: "\<forall>d \<in> set ds. good_default d" "items_end 16 (map item_of ds) \<le> CONFIG_IDME_SIZE" "length ds < 2 ^ 32"
  shows "\<exists>s'. idme_initialize ds memory_ok env s = Inr (0, s') \<and> initialized s' (map item_of ds)"
proof (rule initialize_fresh_run [OF s env new, of ds memory_ok])
  fix buf
  assume run: "idme_initialize ds memory_ok env s =
     (case idme_init_var_v2p0 ds buf of
        Inl e \<Rightarrow> Inl e
      | Inr m \<Rightarrow> (case idme_write env (selected s m) of (err2, s2) \<Rightarrow> Inr (if err2 \<noteq> 0 then - 1 else 0, s2)))"
  obtain m' where m': "idme_init_var_v2p0 ds buf = Inr m'" "table m' (map item_of ds)" "version_2p1 m'"
    using init_var_refines [OF ds, of buf] by (auto simp: version_2p1_def)
  obtain s' where "idme_write env (selected s m') = (0, s')" "initialized s' (map item_of ds)"
    using write_initialized [OF env, of "selected s m'"] m'(2,3) by auto
  then show ?thesis using run m'(1) by simp
qed

section \<open>The boot counter\<close>

text \<open>The item of eight bytes that holds a number.\<close>

definition counter :: "nat \<Rightarrow> 8 word list" where
  "counter n = field 8 (cstring (decimal n)) 8"

lemma digit_char: "d < 10 \<Longrightarrow> is_digit (0x30 + of_nat d) \<and> uint (0x30 + of_nat d :: 8 word) = 48 + int d"
proof -
  assume "d < 10"
  then have "d = 0 \<or> d = 1 \<or> d = 2 \<or> d = 3 \<or> d = 4 \<or> d = 5 \<or> d = 6 \<or> d = 7 \<or> d = 8 \<or> d = 9" by arith
  then show ?thesis by (elim disjE) (simp_all add: is_digit_def)
qed

lemma digits_loop_decimal: "digits_loop i (decimal n @ cs) = digits_loop (i * 10 ^ length (decimal n) + int n) cs"
proof (induction n arbitrary: i cs rule: decimal.induct)
  case (1 n)
  show ?case
  proof (cases "n < 10")
    case True
    then show ?thesis using digit_char [OF True] by (simp add: decimal.simps [of n])
  next
    case False
    have "int n = int (n div 10) * 10 + int (n mod 10)" by presburger
    then show ?thesis
      using False 1 [of i "(0x30 + of_nat (n mod 10)) # cs"] digit_char [of "n mod 10"]
      by (simp add: decimal.simps [of n] algebra_simps)
  qed
qed

lemma atoui_decimal: "atoui (decimal n @ replicate k 0) = int n"
  using digits_loop_decimal [of 0 n "replicate k 0"] by (cases k) (simp_all add: atoui_def is_digit_def)

lemma decimal_length: "n < 10 ^ Suc k \<Longrightarrow> length (decimal n) \<le> Suc k"
proof (induction k arbitrary: n)
  case 0
  then show ?case by (simp add: decimal.simps [of n])
next
  case (Suc k)
  then have "n div 10 < 10 ^ Suc k" by (simp add: less_mult_imp_div_less)
  then show ?case using Suc.IH [of "n div 10"] by (simp add: decimal.simps [of n])
qed

lemma counter_padded: "length (decimal n) \<le> 8 \<Longrightarrow> counter n = decimal n @ replicate (8 - length (decimal n)) 0"
  by (intro nth_equalityI) (auto simp: counter_def nth_append cstring_def)

lemma counter_value:
  assumes "length (decimal n) \<le> 8"
  shows "atoui (nine_bytes (counter n)) = int n"
proof -
  have "nine_bytes (counter n) = decimal n @ replicate (9 - length (decimal n)) 0"
    using assms by (simp add: counter_padded nine_bytes_def replicate_add [symmetric])
  then show ?thesis by (simp add: atoui_decimal)
qed

lemma boot_count_step:
  assumes s: "pidme_set s" "funcs_set s" and tab: "table (gidme_buff s) its" and it: "lookup its BOOTCOUNT = Some it"
    and n: "it_data it = counter n" "n < 99999999" and env: "mmc_ok env" and ver: "version_2p1 (gidme_buff s)"
  shows "initialized (idme_boot_info env stack s) (set_data its BOOTCOUNT (\<lambda>_. counter (Suc n)))"
proof -
  let ?v = "\<lambda>i. if i < 9 then nine_bytes (take 8 (decimal (Suc n))) ! i else stack i"
  have len: "length (decimal n) \<le> 8" "length (decimal (Suc n)) \<le> 8"
    using n(2) decimal_length [of n 7] decimal_length [of "Suc n" 7] by simp_all
  have name: "good_name BOOTCOUNT" by (simp add: good_name_def BOOTCOUNT_def)
  have get: "get_var s BOOTCOUNT 9 = (0, counter n)"
    using get_var_refines [OF tab name, of 9] it n(1) s(1) by (simp add: get_var_def pidme_data_def counter_def)
  have val: "atoui (nine_bytes (counter n)) = int n" using len(1) by (rule counter_value)
  have "field 8 ?v CONFIG_IDME_SIZE = counter (Suc n)"
    using len(2) by (intro nth_equalityI) (auto simp: counter_def nine_bytes_def CONFIG_IDME_SIZE_def cstring_def nth_append)
  then obtain m' where m': "idme_update_var_v2p0 BOOTCOUNT (Some ?v) CONFIG_IDME_SIZE (Some (gidme_buff s)) = (0, Some m')"
    "table m' (set_data its BOOTCOUNT (\<lambda>_. counter (Suc n)))" "\<forall>i < 16. m' i = gidme_buff s i"
    using update_var_refines [OF tab name, of ?v CONFIG_IDME_SIZE] it n(1) by (auto simp: counter_def)
  have "version_2p1 m'"
    using ver m'(3) by (simp add: version_2p1_def strncmp_eq_def VERSION_OFFSET_def IDME_VERSION_2P1_def)
  then obtain s' where "idme_write env (s\<lparr>gidme_buff := m'\<rparr>) = (0, s')" "initialized s' (set_data its BOOTCOUNT (\<lambda>_. counter (Suc n)))"
    using write_initialized [OF env, of "s\<lparr>gidme_buff := m'\<rparr>"] s m'(2) by auto
  moreover have "nat (int n + 1) = Suc n" by arith
  ultimately show ?thesis
    using s get val m'(1) n(2)
    by (simp add: idme_boot_info_def idme_update_var_ex_def update_var_def pidme_data_def)
qed

section \<open>Properties\<close>

definition sample_env :: mmc_env where
  "sample_env = \<lparr>mmc_found = True, switch_boot = 0, switch_user = 0, transfer = 200\<rparr>"

definition sample_dev :: "bytes \<Rightarrow> idme_dev" where
  "sample_dev block = \<lparr>gidme_buff = (\<lambda>_. 0), pidme_set = False, funcs_set = False, dev_tree_set = False, boot_block = block\<rparr>"

definition sample_defaults :: "idme_init_value list" where
  "sample_defaults = [default_value ''bootcount'' 12 1 (Some (ascii ''0'')), default_value ''region'' 32 1 (Some (ascii ''US''))]"

lemma sample_good: "\<forall>d \<in> set sample_defaults. good_default d" "length sample_defaults < 2 ^ 32"
  by (simp_all add: sample_defaults_def default_value_def good_default_def good_name_def)

lemma sample_env_ok: "mmc_ok sample_env"
  by (simp add: mmc_ok_def sample_env_def)

lemma sample_lookup: "good_name BOOTCOUNT" "lookup [sample_item] BOOTCOUNT = Some sample_item"
  by (simp_all add: good_name_def BOOTCOUNT_def lookup_def sample_item_def)

lemma sample_fits:
  "items_end 16 (map (merged its) sample_defaults) \<le> CONFIG_IDME_SIZE" "items_end 16 (map item_of sample_defaults) \<le> CONFIG_IDME_SIZE"
  by (simp_all add: sample_defaults_def default_value_def item_len_def align_item_def IDME_ALIGN_SIZE_def CONFIG_IDME_SIZE_def)

lemma sample_empty: "idme_check_magic_number (Some (\<lambda>_. 0)) = - 2"
  by (auto simp: idme_check_magic_number_def strncmp_eq_def IDME_MAGIC_NUMBER_def)

text \<open>C12 after an update of a variable that exists, a read gives the new value, cut or filled with zeros to the size of the item and
  cut to the length asked for; the block still holds a table, and reads of every other variable give what they gave.\<close>

theorem idme_read_after_update:
  assumes "table m its" and "good_name name" and "lookup its name = Some it"
  shows "\<exists>m'. idme_update_var_v2p0 name (Some v) len (Some m) = (0, Some m') \<and>
    table m' (set_data its name (\<lambda>_. field (length (it_data it)) v len)) \<and>
    idme_get_var_v2p0 name True n (Some m') = (0, take n (field (length (it_data it)) v len)) \<and>
    (\<forall>other. good_name other \<and> other \<noteq> name \<longrightarrow>
       idme_get_var_v2p0 other True n (Some m') = idme_get_var_v2p0 other True n (Some m))"
proof -
  obtain m' where m': "idme_update_var_v2p0 name (Some v) len (Some m) = (0, Some m')"
    using update_var_refines [OF assms(1,2), of v len] assms(3) by auto
  then show ?thesis
    using v2p0.read_after_update [OF assms, of v len n] by (simp add: update_func_v2p0_def get_func_v2p0_def)
qed

theorem idme_read_after_update_witness:
  "\<exists>m'. idme_update_var_v2p0 BOOTCOUNT (Some (cstring (ascii ''7''))) 1 (Some sample_block) = (0, Some m') \<and>
    idme_get_var_v2p0 BOOTCOUNT True 4 (Some m') = (0, [0x37, 0, 0, 0])"
  using idme_read_after_update [OF sample_table sample_lookup, of "cstring (ascii ''7'')" 1 4]
  by (auto simp: sample_item_def field_def upt_rec cstring_def)



text \<open>Initialisation on a device whose block has no magic number writes the table of defaults to the buffer and to the boot
  partition.\<close>

theorem idme_initialize_writes_defaults:
  assumes "\<not> pidme_set s" and "mmc_ok env" and "idme_check_magic_number (Some (boot_block s)) = - 2"
    and "\<forall>d \<in> set ds. good_default d" and "items_end 16 (map item_of ds) \<le> CONFIG_IDME_SIZE" and "length ds < 2 ^ 32"
  shows "\<exists>s'. idme_initialize ds memory_ok env s = Inr (0, s') \<and> initialized s' (map item_of ds)"
  using assms by (rule initialize_fresh)

theorem idme_initialize_writes_defaults_witness:
  "\<exists>s'. idme_initialize sample_defaults True sample_env (sample_dev (\<lambda>_. 0)) = Inr (0, s') \<and>
     initialized s' (map item_of sample_defaults)"
  using idme_initialize_writes_defaults [of "sample_dev (\<lambda>_. 0)" sample_env sample_defaults True]
    sample_env_ok sample_empty sample_good sample_fits
  by (simp add: sample_dev_def)

text \<open>C35 every boot increments the counter kept as a decimal text of eight bytes, in the buffer and on the boot partition, without
  a change of another item and whatever the stack holds behind the text; the counter stops at 99999999.\<close>

theorem idme_boot_count_increments:
  assumes "pidme_set s" and "funcs_set s" and "table (gidme_buff s) its" and "version_2p1 (gidme_buff s)"
    and "lookup its BOOTCOUNT = Some it" and "it_data it = counter n" and "mmc_ok env"
  shows "(n < 99999999 \<longrightarrow> initialized (idme_boot_info env stack s) (set_data its BOOTCOUNT (\<lambda>_. counter (n + 1)))) \<and>
    (n = 99999999 \<longrightarrow> idme_boot_info env stack s = s)"
proof -
  have "idme_boot_info env stack s = s" if n: "n = 99999999"
  proof -
    have "length (decimal n) \<le> 8" using n decimal_length [of n 7] by simp
    moreover have "get_var s BOOTCOUNT 9 = (0, counter n)"
      using get_var_refines [OF assms(3) sample_lookup(1), of 9] assms(1,5,6) by (simp add: get_var_def pidme_data_def counter_def)
    ultimately show ?thesis
      using assms(2) counter_value [of n] n by (simp add: idme_boot_info_def)
  qed
  then show ?thesis using boot_count_step [OF assms(1,2,3,5,6) _ assms(7,4), of stack] by simp
qed

theorem idme_boot_count_increments_witness:
  "initialized (idme_boot_info sample_env (\<lambda>_. 0x55) ((sample_dev sample_block)\<lparr>gidme_buff := sample_block, pidme_set := True, funcs_set := True\<rparr>))
     [sample_item\<lparr>it_data := [0x34, 0x32, 0, 0, 0, 0, 0, 0]\<rparr>]"
proof -
  have "counter 41 = it_data sample_item" "counter 42 = [0x34, 0x32, 0, 0, 0, 0, 0, 0]"
    by (simp_all add: counter_def field_def upt_rec cstring_def decimal.simps sample_item_def)
  then show ?thesis
    using idme_boot_count_increments [of "(sample_dev sample_block)\<lparr>gidme_buff := sample_block, pidme_set := True, funcs_set := True\<rparr>"
        "[sample_item]" sample_item 41 sample_env "\<lambda>_. 0x55"] sample_table sample_version sample_lookup sample_env_ok
    by (simp add: sample_item_def)
qed

text \<open>C38 with the table of defaults of the product, whose entry for the keys has a null pointer as its value, initialisation reaches
  \<^verbatim>\<open>strlen\<close> of that pointer on every device, with or without a table on the boot partition.\<close>

theorem idme_keys_default_null:
  assumes "\<not> pidme_set s" and "mmc_ok env"
    and "idme_check_magic_number (Some (boot_block s)) = - 2 \<or> (\<exists>its. table (boot_block s) its \<and> version_2p1 (boot_block s))"
  shows "idme_initialize idme_default_values True env s = Inl NULL_POINTER"
  using assms(3)
proof (elim disjE exE conjE)
  assume "idme_check_magic_number (Some (boot_block s)) = - 2"
  then show ?thesis
    by (rule initialize_fresh_run [OF assms(1,2), where ds = idme_default_values and memory_ok = True]) (simp add: init_lagunaf)
next
  fix its
  assume "table (boot_block s) its" "version_2p1 (boot_block s)"
  then show ?thesis
    by (rule initialize_table_run [OF assms(1,2), where ds = idme_default_values]) (simp add: update_lagunaf)
qed

theorem idme_keys_default_null_witness:
  "idme_initialize idme_default_values True sample_env (sample_dev sample_block) = Inl NULL_POINTER \<and>
   idme_initialize idme_default_values True sample_env (sample_dev (\<lambda>_. 0)) = Inl NULL_POINTER"
  using idme_keys_default_null [of "sample_dev sample_block" sample_env] idme_keys_default_null [of "sample_dev (\<lambda>_. 0)" sample_env]
    sample_env_ok sample_table sample_version sample_empty
  by (auto simp: sample_dev_def)

end
