(* ===== verification/Unlock.thy ===== *)
theory Unlock
  imports Idme_Cmd
begin

text \<open>
  Whether a device is unlocked: \<^verbatim>\<open>features/unlock\<close>, \<^verbatim>\<open>features/onetime_unlock\<close> and the board functions they call in
  \<^verbatim>\<open>board/amlogic/lagunaf/secure_boot.c\<close>.  The libraries and the hardware are arguments, gathered in the record \<open>board\<close>:
  libtomcrypt (import of a key, RSA-PSS verification, SHA-256, base64, the Fortuna generator), the SHA-256 engine, the chip
  identifier, the fuses and the timer.  A null pointer with its length is the empty list.  The decoder of base64 gives the bytes it wrote to its
  output, which is its input buffer here, and whether it succeeded.
\<close>

unbundle bit_operations_syntax

section \<open>Hardware and libraries\<close>

record 'k board =
  rsa_import :: "8 word list \<Rightarrow> 'k option"
  rsa_verify_hash :: "'k \<Rightarrow> 8 word list \<Rightarrow> 8 word list \<Rightarrow> int \<times> int"
  hash_memory :: "8 word list \<Rightarrow> 8 word list option"
  base64_decode :: "8 word list \<Rightarrow> nat \<Rightarrow> bool \<times> 8 word list"
  base64_encode :: "8 word list \<Rightarrow> nat \<Rightarrow> 8 word list option"
  fortuna :: "8 word list \<Rightarrow> nat \<Rightarrow> 8 word list option"
  plat_alloc :: bool
  hw_sha256 :: "8 word list \<Rightarrow> 8 word list"
  chip_id :: "8 word list option"
  cfg10 :: "32 word"
  timer :: "32 word"

text \<open>The table of hashes of libtomcrypt is part of the state: a hash is found only after it was registered.\<close>

record lock_state =
  idme :: idme_dev
  sha256_registered :: bool
  one_tu_cert :: "8 word list"
  signed_one_tu_code :: "8 word list"
  signed_code_available :: bool
  code_generated :: bool
  one_tu_code :: "8 word list"
  lockdown_commands :: bool

datatype unlock_stop = HASH_LOOP

definition UNLOCK_CODE_LEN :: nat where "UNLOCK_CODE_LEN = 32"
definition SIGNED_UNLOCK_CODE_LEN :: nat where "SIGNED_UNLOCK_CODE_LEN = 256"
definition RSA_2048_SIG_LEN :: nat where "RSA_2048_SIG_LEN = 256"
definition ONETIME_UNLOCK_CODE_LEN :: nat where "ONETIME_UNLOCK_CODE_LEN = 32"
definition DEVICE_META_SIZE :: nat where "DEVICE_META_SIZE = 32"
definition MAX_PUBKEY_LEN :: nat where "MAX_PUBKEY_LEN = 300"
definition SHA256_DIGEST_SIZE :: nat where "SHA256_DIGEST_SIZE = 32"

definition ERR_UNLOCK_BAD_ARGUMENT :: int where "ERR_UNLOCK_BAD_ARGUMENT = 1"
definition ERR_UNLOCK_NO_MEMORY :: int where "ERR_UNLOCK_NO_MEMORY = 2"
definition ERR_UNLOCK_BAD_KEY :: int where "ERR_UNLOCK_BAD_KEY = 3"
definition ERR_UNLOCK_RSA_VERIFY_FAIL :: int where "ERR_UNLOCK_RSA_VERIFY_FAIL = 4"
definition ERR_UNLOCK_GET_CODE_FAIL :: int where "ERR_UNLOCK_GET_CODE_FAIL = 6"

definition ERR_TEMP_UNLOCK_GENERAL_FAIL :: int where "ERR_TEMP_UNLOCK_GENERAL_FAIL = 1"
definition ERR_TEMP_UNLOCK_BAD_KEY :: int where "ERR_TEMP_UNLOCK_BAD_KEY = 4"
definition ERR_TEMP_UNLOCK_RSA_VERIFY_FAIL :: int where "ERR_TEMP_UNLOCK_RSA_VERIFY_FAIL = 5"
definition ERR_TEMP_UNLOCK_HASH_FAIL :: int where "ERR_TEMP_UNLOCK_HASH_FAIL = 6"
definition ERR_TEMP_UNLOCK_GET_CODE_FAIL :: int where "ERR_TEMP_UNLOCK_GET_CODE_FAIL = 7"
definition ERR_TEMP_UNLOCK_GET_CERT_FAIL :: int where "ERR_TEMP_UNLOCK_GET_CERT_FAIL = 8"
definition ERR_TEMP_UNLOCK_CERT_VERITY_FAIL :: int where "ERR_TEMP_UNLOCK_CERT_VERITY_FAIL = 9"
definition ERR_TEMP_UNLOCK_DEVICE_META_VERIFY_FAIL :: int where "ERR_TEMP_UNLOCK_DEVICE_META_VERIFY_FAIL = 10"
definition ERR_TEMP_UNLOCK_IN_BLACKLIST :: int where "ERR_TEMP_UNLOCK_IN_BLACKLIST = 12"

lemmas unlock_errors = ERR_UNLOCK_BAD_ARGUMENT_def ERR_UNLOCK_NO_MEMORY_def ERR_UNLOCK_BAD_KEY_def
  ERR_UNLOCK_RSA_VERIFY_FAIL_def ERR_UNLOCK_GET_CODE_FAIL_def ERR_TEMP_UNLOCK_GENERAL_FAIL_def ERR_TEMP_UNLOCK_BAD_KEY_def
  ERR_TEMP_UNLOCK_RSA_VERIFY_FAIL_def ERR_TEMP_UNLOCK_HASH_FAIL_def ERR_TEMP_UNLOCK_GET_CODE_FAIL_def
  ERR_TEMP_UNLOCK_GET_CERT_FAIL_def ERR_TEMP_UNLOCK_CERT_VERITY_FAIL_def ERR_TEMP_UNLOCK_DEVICE_META_VERIFY_FAIL_def
  ERR_TEMP_UNLOCK_IN_BLACKLIST_def

section \<open>Signatures\<close>

text \<open>\<^verbatim>\<open>amzn_verify_code_internal\<close>: the second component says that SHA-256 is registered afterwards.\<close>

definition amzn_verify_code_internal ::
  "'k board \<Rightarrow> 8 word list \<Rightarrow> 8 word list \<Rightarrow> 8 word list \<Rightarrow> bool \<Rightarrow> unlock_stop + int \<times> bool" where
  "amzn_verify_code_internal B data sig key reg =
     (if data = [] \<or> sig = [] \<or> key = [] then Inr (- ERR_UNLOCK_BAD_ARGUMENT, reg)
      else if \<not> plat_alloc B then Inr (- ERR_UNLOCK_NO_MEMORY, reg)
      else
        case rsa_import B key of
          None \<Rightarrow> Inr (- ERR_UNLOCK_BAD_KEY, reg)
        | Some rsa_pk \<Rightarrow>
            (case hash_memory B data of
               None \<Rightarrow> Inl HASH_LOOP
             | Some digest \<Rightarrow>
                 (case rsa_verify_hash B rsa_pk sig digest of
                    (ret, status) \<Rightarrow>
                      Inr (if ret = 0 \<and> status = 1 then 0 else - ERR_UNLOCK_RSA_VERIFY_FAIL, True))))"

section \<open>The unlock code of a device\<close>

definition hex_digit :: "nat \<Rightarrow> 8 word" where
  "hex_digit n = (if n < 10 then 0x30 + of_nat n else 0x57 + of_nat n)"

text \<open>The format \<^verbatim>\<open>%08x\<close>.\<close>

definition hex8 :: "32 word \<Rightarrow> 8 word list" where
  "hex8 w = map (\<lambda>i. hex_digit (unat (drop_bit (28 - 4 * i) w AND 0xf))) [0..<8]"

definition be32 :: "8 word list \<Rightarrow> nat \<Rightarrow> 32 word" where
  "be32 bs i = push_bit 24 (ucast (bs ! (4 * i))) OR push_bit 16 (ucast (bs ! (4 * i + 1))) OR
     push_bit 8 (ucast (bs ! (4 * i + 2))) OR ucast (bs ! (4 * i + 3))"

text \<open>\<^verbatim>\<open>amzn_get_unlock_code\<close>: the code, for a buffer of the given length.\<close>

definition amzn_get_unlock_code :: "'k board \<Rightarrow> nat \<Rightarrow> 8 word list option" where
  "amzn_get_unlock_code B len =
     (if len < 16 + 1 then None
      else
        case chip_id B of
          None \<Rightarrow> None
        | Some buff \<Rightarrow> let hash = hw_sha256 B buff in Some (hex8 (be32 hash 6) @ hex8 (be32 hash 7)))"

definition amzn_get_unlock_key :: "8 word list" where
  "amzn_get_unlock_key = [
     0x30, 0x82, 0x01, 0x22, 0x30, 0x0d, 0x06, 0x09, 0x2a, 0x86, 0x48, 0x86, 0xf7, 0x0d, 0x01, 0x01,
     0x01, 0x05, 0x00, 0x03, 0x82, 0x01, 0x0f, 0x00, 0x30, 0x82, 0x01, 0x0a, 0x02, 0x82, 0x01, 0x01,
     0x00, 0xd6, 0xe3, 0x46, 0x74, 0xc1, 0xbb, 0x33, 0xe8, 0x68, 0x6b, 0xed, 0xb3, 0xf2, 0x77, 0xe9,
     0x69, 0x32, 0x8f, 0xb7, 0xa7, 0x72, 0x1a, 0x14, 0x4a, 0xef, 0xfc, 0x30, 0x42, 0xb7, 0xfd, 0x49,
     0xfe, 0x9e, 0xe2, 0x73, 0xc2, 0x63, 0xea, 0xf8, 0xfd, 0x73, 0x77, 0xff, 0xca, 0x8c, 0x6a, 0x7c,
     0xec, 0x03, 0x9c, 0xe6, 0xd6, 0x9d, 0xd6, 0xa7, 0xd6, 0x7f, 0x33, 0x1e, 0x25, 0xbe, 0x81, 0x42,
     0xd8, 0xff, 0xa4, 0xdd, 0x78, 0x2a, 0xd1, 0x6f, 0xcb, 0x0f, 0xf2, 0x1c, 0x7b, 0xaa, 0xcf, 0xc4,
     0x56, 0x97, 0xc0, 0x6b, 0x41, 0xc3, 0x18, 0x4f, 0xa7, 0x6f, 0x56, 0x3e, 0xd6, 0xd7, 0x72, 0x6f,
     0xc6, 0x89, 0xe0, 0xb3, 0x18, 0xc3, 0x66, 0xe4, 0xf6, 0x8d, 0xc4, 0xad, 0x85, 0x09, 0xa3, 0xae,
     0xf4, 0x76, 0x73, 0xea, 0x6a, 0x34, 0xad, 0xaa, 0x52, 0x41, 0x93, 0x0e, 0xfe, 0x8d, 0x95, 0xba,
     0xcc, 0xf2, 0xfa, 0xab, 0xf3, 0xcc, 0xf7, 0x97, 0x32, 0xdf, 0x82, 0x82, 0x17, 0xe9, 0xe3, 0x0c,
     0x26, 0xa7, 0xee, 0x8a, 0x23, 0xc3, 0x1d, 0x2d, 0x16, 0x47, 0x97, 0xd1, 0x45, 0x01, 0x92, 0x80,
     0xd3, 0x2d, 0x3e, 0x99, 0x5b, 0xeb, 0x69, 0x76, 0x3a, 0xfe, 0xba, 0x80, 0xa6, 0x96, 0x70, 0x69,
     0xc8, 0x11, 0xc8, 0x66, 0x27, 0xec, 0x06, 0x44, 0x14, 0x7c, 0xec, 0x3b, 0xcf, 0x20, 0xc5, 0x64,
     0x1a, 0x8d, 0x10, 0xc2, 0x52, 0x47, 0x52, 0x22, 0xfb, 0xc4, 0xfb, 0x03, 0x4d, 0x01, 0x89, 0xa2,
     0x42, 0x1b, 0xb7, 0x3e, 0x90, 0x9d, 0xfc, 0x23, 0xba, 0xa4, 0xd6, 0x33, 0x15, 0x69, 0x56, 0x3c,
     0xb8, 0xcd, 0x2e, 0x0c, 0x1e, 0xd5, 0x1a, 0xc8, 0xa8, 0x70, 0x0b, 0x10, 0x27, 0xf6, 0xac, 0x5e,
     0xb4, 0xac, 0x6b, 0x02, 0x9d, 0x7a, 0x47, 0x45, 0x40, 0xe8, 0x42, 0x27, 0x33, 0xcd, 0xd9, 0xdf,
     0x31, 0x02, 0x03, 0x01, 0x00, 0x01]"

definition amzn_verify_unlock :: "'k board \<Rightarrow> 8 word list \<Rightarrow> bool \<Rightarrow> unlock_stop + int \<times> bool" where
  "amzn_verify_unlock B sig reg =
     (if amzn_get_unlock_key = [] then Inr (- ERR_UNLOCK_BAD_KEY, reg)
      else
        case amzn_get_unlock_code B UNLOCK_CODE_LEN of
          None \<Rightarrow> Inr (- ERR_UNLOCK_GET_CODE_FAIL, reg)
        | Some code_bytes \<Rightarrow> amzn_verify_code_internal B code_bytes sig amzn_get_unlock_key reg)"

text \<open>
  \<^verbatim>\<open>amzn_verify_limited_unlock\<close>: the loop over the counters with the length of the code, which the first call changes, and with
  a budget of turns, since the loop does not end when the last counter is the largest number.
\<close>

definition amzn_get_limited_unlock_code :: "'k board \<Rightarrow> nat \<Rightarrow> 32 word \<Rightarrow> 8 word list option" where
  "amzn_get_limited_unlock_code B len ctr = amzn_get_unlock_code B len"

primrec limited_loop ::
  "nat \<Rightarrow> 'k board \<Rightarrow> 8 word list \<Rightarrow> 32 word \<Rightarrow> 32 word \<Rightarrow> nat \<Rightarrow> int \<Rightarrow> bool \<Rightarrow> (unlock_stop + int \<times> bool) option" where
  "limited_loop 0 B sig ctr ctr_max code_len ret reg = None"
| "limited_loop (Suc k) B sig ctr ctr_max code_len ret reg =
     (if \<not> ctr \<le> ctr_max then Some (Inr (ret, reg))
      else
        case amzn_get_limited_unlock_code B code_len ctr of
          None \<Rightarrow> Some (Inr (- ERR_UNLOCK_GET_CODE_FAIL, reg))
        | Some code_bytes \<Rightarrow>
            (case amzn_verify_code_internal B code_bytes sig amzn_get_unlock_key reg of
               Inl e \<Rightarrow> Some (Inl e)
             | Inr (ret', reg') \<Rightarrow>
                 if ret' = 0 then Some (Inr (0, reg'))
                 else limited_loop k B sig (ctr + 1) ctr_max (length code_bytes) ret' reg'))"

definition amzn_verify_limited_unlock ::
  "nat \<Rightarrow> 'k board \<Rightarrow> 8 word list \<Rightarrow> 32 word \<Rightarrow> 32 word \<Rightarrow> bool \<Rightarrow> (unlock_stop + int \<times> bool) option" where
  "amzn_verify_limited_unlock k B sig ctr_min ctr_max reg =
     (if amzn_get_unlock_key = [] then Some (Inr (- ERR_UNLOCK_BAD_KEY, reg))
      else limited_loop k B sig ctr_min ctr_max UNLOCK_CODE_LEN 0 reg)"

definition UNLOCK_CODE :: "8 word list" where "UNLOCK_CODE = ascii ''unlock_code''"

definition amzn_target_is_unlocked :: "'k board \<Rightarrow> lock_state \<Rightarrow> unlock_stop + bool \<times> lock_state" where
  "amzn_target_is_unlocked B s =
     (case idme_get_var_external (idme s) UNLOCK_CODE SIGNED_UNLOCK_CODE_LEN of
        (ret, copied) \<Rightarrow>
          if ret \<noteq> 0 then Inr (False, s)
          else
            let signed_code = take SIGNED_UNLOCK_CODE_LEN (copied @ replicate SIGNED_UNLOCK_CODE_LEN 0) in
            case amzn_verify_unlock B signed_code (sha256_registered s) of
              Inl e \<Rightarrow> Inl e
            | Inr (ret', reg) \<Rightarrow> Inr (ret' = 0, s\<lparr>sha256_registered := reg\<rparr>))"

section \<open>One-time unlock\<close>

text \<open>The certificate is kept as the bytes of its packed structure.\<close>

definition CERT_SIZE :: nat where "CERT_SIZE = DEVICE_META_SIZE + 4 + MAX_PUBKEY_LEN + RSA_2048_SIG_LEN"

definition device_meta :: "8 word list \<Rightarrow> 8 word list" where
  "device_meta cert = take DEVICE_META_SIZE cert"

definition pk_len :: "8 word list \<Rightarrow> nat" where
  "pk_len cert = unat (cert ! 32) + 256 * unat (cert ! 33) + 65536 * unat (cert ! 34) + 16777216 * unat (cert ! 35)"

text \<open>The \<^verbatim>\<open>pk_len\<close> bytes from the field \<^verbatim>\<open>pubkey\<close> on; a length beyond the end of the structure is cut there.\<close>

definition pubkey :: "8 word list \<Rightarrow> 8 word list" where
  "pubkey cert = take (pk_len cert) (drop (DEVICE_META_SIZE + 4) cert)"

definition cert_body :: "8 word list \<Rightarrow> 8 word list" where
  "cert_body cert = take (CERT_SIZE - RSA_2048_SIG_LEN) cert"

definition cert_signature :: "8 word list \<Rightarrow> 8 word list" where
  "cert_signature cert = take RSA_2048_SIG_LEN (drop (CERT_SIZE - RSA_2048_SIG_LEN) cert)"

text \<open>A string literal as an array: the terminating zero is part of it.\<close>

definition amzn_get_onetime_unlock_root_pubkey :: "8 word list" where
  "amzn_get_onetime_unlock_root_pubkey = [
     0x30, 0x82, 0x01, 0x22, 0x30, 0x0d, 0x06, 0x09, 0x2a, 0x86, 0x48, 0x86, 0xf7, 0x0d, 0x01, 0x01,
     0x01, 0x05, 0x00, 0x03, 0x82, 0x01, 0x0f, 0x00, 0x30, 0x82, 0x01, 0x0a, 0x02, 0x82, 0x01, 0x01,
     0x00, 0xf3, 0x74, 0x59, 0x90, 0xd4, 0x06, 0x4c, 0xb2, 0xbd, 0x69, 0x8e, 0x38, 0x1e, 0x90, 0x55,
     0x4f, 0x8b, 0x95, 0x88, 0x6b, 0x98, 0x98, 0x16, 0xcb, 0x0f, 0xd9, 0xe7, 0x63, 0x6e, 0xcf, 0xd8,
     0x42, 0x76, 0xb8, 0xf3, 0x56, 0x4c, 0x0c, 0x4e, 0x5d, 0x19, 0xeb, 0x7e, 0xfc, 0x1b, 0xd3, 0x51,
     0x10, 0x70, 0x18, 0xa3, 0x00, 0xb6, 0xdc, 0x02, 0x29, 0x8d, 0x15, 0xea, 0xee, 0xd4, 0x45, 0xe8,
     0xf5, 0xfe, 0x76, 0x1e, 0xc8, 0xbc, 0xec, 0x49, 0x4f, 0x7a, 0x0b, 0x65, 0x1b, 0x2e, 0x4b, 0x20,
     0xf8, 0x1a, 0xbe, 0xe7, 0x7f, 0x3b, 0x9d, 0x90, 0x3c, 0x3f, 0xf2, 0x31, 0x06, 0x48, 0xee, 0xc7,
     0x91, 0xa9, 0x35, 0x08, 0x93, 0xf2, 0xb9, 0xf5, 0xe2, 0x90, 0x19, 0x19, 0x8c, 0x91, 0xe0, 0xab,
     0xf1, 0x9e, 0x82, 0x52, 0xe4, 0x62, 0xe2, 0x70, 0xb3, 0x29, 0x99, 0x3d, 0x1e, 0xd0, 0x16, 0x48,
     0x7c, 0x66, 0x28, 0x21, 0x3c, 0xf0, 0xf2, 0xea, 0xb2, 0xf0, 0x8e, 0x10, 0x5c, 0x11, 0xd2, 0xf6,
     0xd8, 0xd7, 0xd8, 0x29, 0x6b, 0xdb, 0x94, 0x5a, 0x09, 0xf0, 0x07, 0xed, 0xfd, 0x47, 0x07, 0xa3,
     0x24, 0x84, 0xa0, 0x7b, 0x43, 0x00, 0xec, 0xba, 0x9e, 0xa7, 0x20, 0xdc, 0xb6, 0x7a, 0xbe, 0xe9,
     0x11, 0x1a, 0x1a, 0x27, 0xd2, 0x11, 0xf2, 0xde, 0x65, 0x0f, 0x8c, 0x36, 0xe2, 0x5a, 0x54, 0x6b,
     0xd5, 0x09, 0x90, 0x6f, 0x40, 0xb4, 0x7c, 0xd8, 0xcc, 0xc8, 0x80, 0x39, 0xae, 0x45, 0xae, 0xa2,
     0x94, 0x95, 0x96, 0x8b, 0x54, 0xe8, 0xe4, 0x2e, 0xea, 0x43, 0xf5, 0xd8, 0xba, 0xc4, 0xb0, 0x44,
     0x9a, 0x82, 0xfc, 0x65, 0xbd, 0x89, 0x0f, 0x79, 0x28, 0x92, 0x13, 0x5f, 0xf7, 0x43, 0x5c, 0xb6,
     0xe2, 0x8e, 0xc7, 0xa6, 0x6a, 0x34, 0x58, 0x42, 0xd3, 0x8c, 0xf6, 0xb6, 0x0c, 0xaf, 0xca, 0x24,
     0x6f, 0x02, 0x03, 0x01, 0x00, 0x01, 0x00]"

definition amzn_verify_device_meta :: "8 word list \<Rightarrow> int" where
  "amzn_verify_device_meta data = 0"

text \<open>The board has no list of revoked keys; a list is a buffer of digests.\<close>

definition amzn_get_onetime_unlock_pk_blacklist :: "8 word list list option" where
  "amzn_get_onetime_unlock_pk_blacklist = None"

fun in_blacklist :: "8 word list list \<Rightarrow> 8 word list \<Rightarrow> bool" where
  "in_blacklist [] digest = False"
| "in_blacklist (d # ds) digest = (d = digest \<or> in_blacklist ds digest)"

text \<open>\<^verbatim>\<open>amzn_verify_onetime_unlock_cert\<close>: the index of SHA-256 is looked up on entry, before the first registration may happen.\<close>

definition amzn_verify_onetime_unlock_cert :: "'k board \<Rightarrow> 8 word list \<Rightarrow> bool \<Rightarrow> unlock_stop + int \<times> bool" where
  "amzn_verify_onetime_unlock_cert B cert reg =
     (let sha256_found = reg in
      if cert = [] then Inr (- ERR_TEMP_UNLOCK_GET_CERT_FAIL, reg)
      else if amzn_get_onetime_unlock_root_pubkey = [] then Inr (- ERR_TEMP_UNLOCK_BAD_KEY, reg)
      else
        case amzn_verify_code_internal B (cert_body cert) (cert_signature cert) amzn_get_onetime_unlock_root_pubkey reg of
          Inl e \<Rightarrow> Inl e
        | Inr (ret, reg1) \<Rightarrow>
            if ret \<noteq> 0 then Inr (- ERR_TEMP_UNLOCK_RSA_VERIFY_FAIL, reg1)
            else if amzn_verify_device_meta (device_meta cert) \<noteq> 0 then Inr (- ERR_TEMP_UNLOCK_DEVICE_META_VERIFY_FAIL, reg1)
            else
              (case (if sha256_found then hash_memory B (pubkey cert) else None) of
                 None \<Rightarrow> Inr (- ERR_TEMP_UNLOCK_HASH_FAIL, True)
               | Some digest \<Rightarrow>
                   (case amzn_get_onetime_unlock_pk_blacklist of
                      Some bl \<Rightarrow> Inr (if in_blacklist bl digest then - ERR_TEMP_UNLOCK_IN_BLACKLIST else 0, True)
                    | None \<Rightarrow> Inr (0, True))))"

definition amzn_get_onetime_random_number :: "'k board \<Rightarrow> 8 word list \<Rightarrow> nat \<Rightarrow> 8 word list option" where
  "amzn_get_onetime_random_number B entropy n =
     (if entropy = [] then None
      else case fortuna B entropy n of None \<Rightarrow> None | Some out \<Rightarrow> if length out \<noteq> n then None else Some out)"

definition amzn_onetime_unlock_b64_encode :: "'k board \<Rightarrow> 8 word list \<Rightarrow> nat \<Rightarrow> 8 word list option" where
  "amzn_onetime_unlock_b64_encode B bs outlen = base64_encode B bs outlen"

definition amzn_onetime_unlock_b64_decode :: "'k board \<Rightarrow> 8 word list \<Rightarrow> nat \<Rightarrow> bool \<times> 8 word list" where
  "amzn_onetime_unlock_b64_decode B bs outlen = base64_decode B bs outlen"

text \<open>\<^verbatim>\<open>amzn_get_one_tu_code\<close>: the code is made once and kept.\<close>

definition amzn_get_one_tu_code :: "'k board \<Rightarrow> lock_state \<Rightarrow> nat \<Rightarrow> (8 word list \<times> lock_state) option" where
  "amzn_get_one_tu_code B s len =
     (if len < ONETIME_UNLOCK_CODE_LEN then None
      else if code_generated s then Some (take ONETIME_UNLOCK_CODE_LEN (one_tu_code s), s)
      else
        case amzn_get_unlock_code B UNLOCK_CODE_LEN of
          None \<Rightarrow> None
        | Some entropy \<Rightarrow>
            (case amzn_get_onetime_random_number B (entropy @ hex8 (timer B)) 24 of
               None \<Rightarrow> None
             | Some random_bytes \<Rightarrow>
                 (case amzn_onetime_unlock_b64_encode B random_bytes (ONETIME_UNLOCK_CODE_LEN + 1) of
                    None \<Rightarrow> None
                  | Some out \<Rightarrow> Some (take ONETIME_UNLOCK_CODE_LEN out, s\<lparr>code_generated := True, one_tu_code := out\<rparr>))))"

text \<open>The certificate and the signed code arrive encoded and are decoded in place: the second component is what was written to the buffer.\<close>

definition amzn_set_onetime_unlock_cert :: "'k board \<Rightarrow> 8 word list \<Rightarrow> lock_state \<Rightarrow> int \<times> 8 word list \<times> lock_state" where
  "amzn_set_onetime_unlock_cert B buf s =
     (case amzn_onetime_unlock_b64_decode B buf (length buf) of
        (ok, b64) \<Rightarrow>
          if \<not> ok then (- 1, b64, s)
          else if length b64 \<noteq> CERT_SIZE then (- 1, b64, s)
          else (0, b64, s\<lparr>one_tu_cert := b64\<rparr>))"

definition amzn_set_onetime_unlock_code :: "'k board \<Rightarrow> 8 word list \<Rightarrow> lock_state \<Rightarrow> int \<times> 8 word list \<times> lock_state" where
  "amzn_set_onetime_unlock_code B buf s =
     (case amzn_onetime_unlock_b64_decode B buf (length buf) of
        (ok, b64) \<Rightarrow>
          if \<not> ok then (- 1, b64, s)
          else if length b64 \<noteq> RSA_2048_SIG_LEN then (- 1, b64, s)
          else (0, b64, s\<lparr>signed_one_tu_code := b64, signed_code_available := True\<rparr>))"

definition amzn_verify_onetime_unlock_code :: "'k board \<Rightarrow> 8 word list \<Rightarrow> lock_state \<Rightarrow> unlock_stop + int \<times> lock_state" where
  "amzn_verify_onetime_unlock_code B sig s =
     (if length sig \<noteq> RSA_2048_SIG_LEN then Inr (- ERR_TEMP_UNLOCK_GENERAL_FAIL, s)
      else
        let cert = one_tu_cert s in
        case amzn_verify_onetime_unlock_cert B cert (sha256_registered s) of
          Inl e \<Rightarrow> Inl e
        | Inr (ret, reg) \<Rightarrow>
            let s1 = s\<lparr>sha256_registered := reg\<rparr> in
            if ret \<noteq> 0 then Inr (- ERR_TEMP_UNLOCK_CERT_VERITY_FAIL, s1)
            else
              (case amzn_get_one_tu_code B s1 (ONETIME_UNLOCK_CODE_LEN + 1) of
                 None \<Rightarrow> Inr (- ERR_TEMP_UNLOCK_GET_CODE_FAIL, s1)
               | Some (code_bytes, s2) \<Rightarrow>
                   (case amzn_verify_code_internal B code_bytes sig (pubkey cert) (sha256_registered s2) of
                      Inl e \<Rightarrow> Inl e
                    | Inr (ret', reg') \<Rightarrow>
                        Inr (if ret' = 0 then 0 else - ERR_TEMP_UNLOCK_GENERAL_FAIL, s2\<lparr>sha256_registered := reg'\<rparr>))))"

definition amzn_target_is_onetime_unlocked :: "'k board \<Rightarrow> lock_state \<Rightarrow> unlock_stop + bool \<times> lock_state" where
  "amzn_target_is_onetime_unlocked B s =
     (if \<not> signed_code_available s then Inr (False, s)
      else
        case amzn_verify_onetime_unlock_code B (signed_one_tu_code s) s of
          Inl e \<Rightarrow> Inl e
        | Inr (ret, s') \<Rightarrow> Inr (ret = 0, s'))"

section \<open>Locked devices\<close>

datatype device_type = AMZN_ENGINEERING_DEVICE | AMZN_PRODUCTION_DEVICE | AMZN_INVALID_DEVICE

definition anti_rollback_enabled :: "'k board \<Rightarrow> bool" where
  "anti_rollback_enabled B = bit (cfg10 B) 25"

definition amzn_target_device_type :: "'k board \<Rightarrow> device_type" where
  "amzn_target_device_type B = (if anti_rollback_enabled B then AMZN_PRODUCTION_DEVICE else AMZN_ENGINEERING_DEVICE)"

definition is_locked_production_device :: "'k board \<Rightarrow> lock_state \<Rightarrow> unlock_stop + bool \<times> lock_state" where
  "is_locked_production_device B s =
     (if amzn_target_device_type B \<noteq> AMZN_PRODUCTION_DEVICE then Inr (False, s)
      else
        case amzn_target_is_unlocked B s of
          Inl e \<Rightarrow> Inl e
        | Inr (u, s1) \<Rightarrow>
            if u then Inr (False, s1)
            else
              (case amzn_target_is_onetime_unlocked B s1 of
                 Inl e \<Rightarrow> Inl e
               | Inr (o1, s2) \<Rightarrow> Inr (\<not> o1, s2)))"

definition amzn_target_is_lockdown :: "'k board \<Rightarrow> lock_state \<Rightarrow> unlock_stop + bool \<times> lock_state" where
  "amzn_target_is_lockdown B s =
     (let eng = amzn_target_device_type B = AMZN_ENGINEERING_DEVICE in
      case amzn_target_is_unlocked B s of
        Inl e \<Rightarrow> Inl e
      | Inr (u, s1) \<Rightarrow>
          (case amzn_target_is_onetime_unlocked B s1 of
             Inl e \<Rightarrow> Inl e
           | Inr (o1, s2) \<Rightarrow> Inr (\<not> eng \<and> \<not> u \<and> \<not> o1, s2)))"

text \<open>The prompt of the boot loader: \<^verbatim>\<open>common/amzn_lockdown.c\<close>.\<close>

definition whitelisted_commands :: "string list" where
  "whitelisted_commands = [''fastboot'', ''reset'', ''onetimeunlock'', ''reboot'']"

definition amzn_block_commands :: "lock_state \<Rightarrow> lock_state" where
  "amzn_block_commands s = s\<lparr>lockdown_commands := True\<rparr>"

definition amzn_is_command_blocked :: "'k board \<Rightarrow> lock_state \<Rightarrow> string \<Rightarrow> unlock_stop + bool \<times> lock_state" where
  "amzn_is_command_blocked B s cmd =
     (if \<not> lockdown_commands s then Inr (False, s)
      else if amzn_target_device_type B = AMZN_ENGINEERING_DEVICE then Inr (False, s)
      else
        case amzn_target_is_unlocked B s of
          Inl e \<Rightarrow> Inl e
        | Inr (u, s1) \<Rightarrow>
            if u then Inr (False, s1)
            else
              (case amzn_target_is_onetime_unlocked B s1 of
                 Inl e \<Rightarrow> Inl e
               | Inr (o1, s2) \<Rightarrow> Inr (\<not> o1 \<and> cmd \<notin> set whitelisted_commands, s2)))"

end
