(* ===== verification/Fastboot.thy ===== *)
theory Fastboot
  imports Unlock
begin

text \<open>
  The fastboot commands that bear on the lock: \<^verbatim>\<open>features/fastboot_lockdown/amzn_fastboot_lockdown.c\<close> and, of
  \<^verbatim>\<open>drivers/usb/gadget/f_fastboot.c\<close>, the dispatcher and the handlers that read or write the identification data.  A command is the
  list of its bytes; the memory at the download address is a function from offsets to bytes.  The answers of the MMC driver
  to the accesses of one command are a function from their number.
\<close>

unbundle bit_operations_syntax

section \<open>Restricted commands\<close>

definition whitelist :: "8 word list list" where
  "whitelist = map ascii [''oem relock'', ''oem flags'', ''flash:unlock'', ''flash:otucert'', ''flash:otucode'']"

definition blacklist :: "8 word list list" where
  "blacklist = map ascii [''verify'', ''dump'', ''boot'', ''env'', ''signature'', ''oem'', ''flash'', ''erase'']"

definition amzn_extends_fastboot_whitelist :: "8 word list list" where
  "amzn_extends_fastboot_whitelist = []"

definition amzn_extends_fastboot_blacklist :: "8 word list list" where
  "amzn_extends_fastboot_blacklist = []"

definition is_restricted_command_on_locked_hw :: "'k board \<Rightarrow> lock_state \<Rightarrow> 8 word list \<Rightarrow> unlock_stop + bool \<times> lock_state" where
  "is_restricted_command_on_locked_hw B s buffer =
     (case is_locked_production_device B s of
        Inl e \<Rightarrow> Inl e
      | Inr (l, s1) \<Rightarrow>
          Inr (if \<not> l then False
               else if list_ex (starts_with buffer) whitelist then False
               else if list_ex (starts_with buffer) amzn_extends_fastboot_whitelist then False
               else if list_ex (starts_with buffer) blacklist then True
               else if list_ex (starts_with buffer) amzn_extends_fastboot_blacklist then True
               else False, s1))"

section \<open>Dispatch\<close>

datatype callback = CB_REBOOT | CB_GETVAR | CB_DOWNLOAD | CB_BOOT | CB_CONTINUE | CB_FLASHING | CB_FLASH | CB_FLASHALL | CB_ERASE
  | CB_DEVICES | CB_OEM_IDME | CMD_OEM_BOOTMODE | CMD_OEM_FLAGS | CB_OEM_RELOCK

definition cmd_dispatch_info :: "(8 word list \<times> callback) list" where
  "cmd_dispatch_info = map (\<lambda>(c, cb). (ascii c, cb))
     [(''reboot'', CB_REBOOT), (''getvar:'', CB_GETVAR), (''download:'', CB_DOWNLOAD), (''boot'', CB_BOOT),
      (''continue'', CB_CONTINUE), (''flashing'', CB_FLASHING), (''flash'', CB_FLASH), (''update'', CB_DOWNLOAD),
      (''flashall'', CB_FLASHALL), (''erase'', CB_ERASE), (''devices'', CB_DEVICES), (''reboot-bootloader'', CB_REBOOT),
      (''oem idme'', CB_OEM_IDME), (''oem bootmode'', CMD_OEM_BOOTMODE), (''oem flags'', CMD_OEM_FLAGS),
      (''oem relock'', CB_OEM_RELOCK)]"

definition dispatch :: "8 word list \<Rightarrow> callback option" where
  "dispatch cmdbuf = map_option snd (find (\<lambda>(c, _). starts_with cmdbuf c) cmd_dispatch_info)"

datatype rx_action = Unknown_Command | Blocked_Command | Buffer_Overflow | Run callback "8 word list"

text \<open>The text in a buffer ends at the first zero byte.\<close>

definition c_text :: "8 word list \<Rightarrow> 8 word list" where
  "c_text bs = takeWhile (\<lambda>c. c \<noteq> 0) bs"

text \<open>
  \<^verbatim>\<open>rx_handler_command\<close>: the request has received \<open>actual\<close> bytes into its buffer of \<open>len\<close> bytes; the bytes behind them are those of earlier
  requests.  The command is looked up and checked before the zero byte is stored behind the received bytes, and it is run afterwards.
\<close>

definition rx_handler_command :: "'k board \<Rightarrow> lock_state \<Rightarrow> 8 word list \<Rightarrow> nat \<Rightarrow> nat \<Rightarrow> unlock_stop + rx_action \<times> lock_state" where
  "rx_handler_command B s buf actual len =
     (let cmdbuf = c_text buf in
      case dispatch cmdbuf of
        None \<Rightarrow> Inr (Unknown_Command, s)
      | Some cb \<Rightarrow>
          (case is_restricted_command_on_locked_hw B s cmdbuf of
             Inl e \<Rightarrow> Inl e
           | Inr (r, s1) \<Rightarrow>
               Inr (if r then Blocked_Command
                    else if actual < len then Run cb (c_text (buf[actual := 0]))
                    else Buffer_Overflow, s1)))"

section \<open>Numbers\<close>

text \<open>\<^verbatim>\<open>simple_strtoul\<close> with base 16, of \<^verbatim>\<open>lib/vsprintf.c\<close>.\<close>

definition simple_strtoul :: "8 word list \<Rightarrow> 64 word" where
  "simple_strtoul cp =
     (case cp of
        [] \<Rightarrow> 0
      | c # cs \<Rightarrow>
          if c = 0x30 then
            (case cs of
               x # d # ds \<Rightarrow> if x = 0x78 \<and> isxdigit d then hex_loop 0 (d # ds) else hex_loop 0 cs
             | _ \<Rightarrow> hex_loop 0 cs)
          else hex_loop 0 cp)"

text \<open>The format \<^verbatim>\<open>%llx\<close>.\<close>

fun hex_text :: "nat \<Rightarrow> 8 word list" where
  "hex_text n = (if n < 16 then [hex_digit n] else hex_text (n div 16) @ [hex_digit (n mod 16)])"

declare hex_text.simps [simp del]

definition llx :: "64 word \<Rightarrow> 8 word list" where
  "llx w = hex_text (unat w)"

text \<open>\<^verbatim>\<open>atoull\<close> of \<^verbatim>\<open>f_fastboot.c\<close>, and a number of a flags command with an upper case prefix.\<close>

definition atoull :: "8 word list \<Rightarrow> 64 word" where
  "atoull num = atoul num"

definition ishexprefix :: "8 word list \<Rightarrow> bool" where
  "ishexprefix s = (case s of a # b # _ \<Rightarrow> a = 0x30 \<and> (b = 0x78 \<or> b = 0x58) | _ \<Rightarrow> False)"

definition getnumval :: "8 word list \<Rightarrow> 64 word" where
  "getnumval s = (if s = [] then 0 else atoull (if ishexprefix s then s[1 := 0x78] else s))"

definition issymprefix :: "8 word list \<Rightarrow> bool" where
  "issymprefix s \<longleftrightarrow> starts_with s (ascii ''FOS_FLAGS_'') \<or> starts_with s (ascii ''DEV_FLAGS_'') \<or> starts_with s (ascii ''USR_FLAGS_'')"

definition getsymval :: "8 word list \<Rightarrow> 64 word" where
  "getsymval s = 0"

section \<open>Flags after a change of the lock\<close>

definition FOS_FLAGS :: "8 word list" where "FOS_FLAGS = ascii ''fos_flags''"
definition DEV_FLAGS :: "8 word list" where "DEV_FLAGS = ascii ''dev_flags''"
definition USR_FLAGS :: "8 word list" where "USR_FLAGS = ascii ''usr_flags''"

definition FOS_FLAGS_ADB_ON :: "64 word" where "FOS_FLAGS_ADB_ON = 1"
definition FOS_FLAGS_ADB_ROOT :: "64 word" where "FOS_FLAGS_ADB_ROOT = 2"
definition DEV_FLAGS_ADB_USB_ON :: "64 word" where "DEV_FLAGS_ADB_USB_ON = 0x1000"

text \<open>The text a string buffer of 19 bytes holds, up to its first zero byte, after bytes were copied to its start.\<close>

definition buffer_text :: "8 word list \<Rightarrow> 8 word list \<Rightarrow> 8 word list" where
  "buffer_text copied old = takeWhile (\<lambda>c. c \<noteq> 0) (take 19 (copied @ drop (length copied) (old @ replicate 19 0)))"

text \<open>One of the two updates: the value is read into the buffer, changed, and written as a text of at most 18 bytes.\<close>

definition change_flags ::
  "mmc_env \<Rightarrow> 8 word list \<Rightarrow> (64 word \<Rightarrow> 64 word) \<Rightarrow> 8 word list \<Rightarrow> idme_dev \<Rightarrow> int \<times> 8 word list \<times> idme_dev" where
  "change_flags env name f old dev =
     (case idme_get_var_external dev name 16 of
        (ret, copied) \<Rightarrow>
          if ret \<noteq> 0 then (- 1, old, dev)
          else
            let flags_str = take 18 (llx (f (simple_strtoul (buffer_text copied old)))) in
            case idme_update_var_ex env dev (Some name) (Some (cstring flags_str)) 18 of
              (ret2, dev2) \<Rightarrow> (if ret2 \<noteq> 0 then - 1 else 0, flags_str, dev2))"

definition idme_auto_set_after_unlock :: "mmc_env \<Rightarrow> mmc_env \<Rightarrow> idme_dev \<Rightarrow> int \<times> idme_dev" where
  "idme_auto_set_after_unlock env1 env2 dev =
     (case change_flags env1 FOS_FLAGS (\<lambda>fl. fl OR (FOS_FLAGS_ADB_ON OR FOS_FLAGS_ADB_ROOT)) [] dev of
        (ret, str, dev1) \<Rightarrow>
          if ret \<noteq> 0 then (- 1, dev1)
          else
            case change_flags env2 DEV_FLAGS (\<lambda>fl. fl OR DEV_FLAGS_ADB_USB_ON) str dev1 of
              (ret2, _, dev2) \<Rightarrow> (if ret2 \<noteq> 0 then - 1 else 0, dev2))"

definition idme_auto_clean_before_relock :: "mmc_env \<Rightarrow> mmc_env \<Rightarrow> idme_dev \<Rightarrow> int \<times> idme_dev" where
  "idme_auto_clean_before_relock env1 env2 dev =
     (case change_flags env1 FOS_FLAGS (\<lambda>fl. fl AND NOT (FOS_FLAGS_ADB_ON OR FOS_FLAGS_ADB_ROOT)) [] dev of
        (ret, str, dev1) \<Rightarrow>
          if ret \<noteq> 0 then (- 1, dev1)
          else
            case change_flags env2 DEV_FLAGS (\<lambda>fl. fl AND NOT DEV_FLAGS_ADB_USB_ON) str dev1 of
              (ret2, _, dev2) \<Rightarrow> (if ret2 \<noteq> 0 then - 1 else 0, dev2))"

section \<open>Handlers\<close>

text \<open>What the flash handler asks of the storage: the table of the MMC device, if there is one, and the names in it.\<close>

datatype part_type = PART_TYPE_UNKNOWN | PART_TYPE_MAC | PART_TYPE_DOS | PART_TYPE_ISO | PART_TYPE_AMIGA | PART_TYPE_EFI | PART_TYPE_AML

record storage =
  dynamic_partition :: bool
  is_mainstorage_emmc :: bool
  mmc_dev :: "part_type option"
  partition_names :: "8 word list list"

record fb_state =
  fb_lock :: lock_state
  fb_storage :: storage
  fb_buf :: bytes
  download_size :: nat
  download_bytes :: nat

text \<open>What a handler ends with: an answer, the write of a partition, which is not part of the model, or the use of a null pointer.\<close>

datatype cb_result = Replied bool | Partition_Write "8 word list" | Null_Argument

definition set_idme :: "fb_state \<Rightarrow> idme_dev \<Rightarrow> fb_state" where
  "set_idme s dev = s\<lparr>fb_lock := (fb_lock s)\<lparr>idme := dev\<rparr>\<rparr>"

definition set_registered :: "fb_state \<Rightarrow> bool \<Rightarrow> fb_state" where
  "set_registered s reg = s\<lparr>fb_lock := (fb_lock s)\<lparr>sha256_registered := reg\<rparr>\<rparr>"

definition downloaded :: "fb_state \<Rightarrow> 8 word list" where
  "downloaded s = map (fb_buf s) [0..<download_bytes s]"

text \<open>The memory at the download address after bytes were written to its start.\<close>

definition overwrite :: "8 word list \<Rightarrow> fb_state \<Rightarrow> fb_state" where
  "overwrite out s = s\<lparr>fb_buf := memcpy (fb_buf s) 0 (cstring out) 0 (length out)\<rparr>"

text \<open>The rest of a command behind the first separator, \<^verbatim>\<open>strsep\<close>.\<close>

definition behind :: "8 word \<Rightarrow> 8 word list \<Rightarrow> 8 word list option" where
  "behind c cmd = (case dropWhile (\<lambda>x. x \<noteq> c) cmd of [] \<Rightarrow> None | _ # rest \<Rightarrow> Some rest)"

text \<open>\<^verbatim>\<open>fb_mmc_flash_write\<close> up to the write: the name is the table itself or one of its entries.\<close>

definition fb_mmc_target :: "storage \<Rightarrow> 8 word list \<Rightarrow> bool" where
  "fb_mmc_target st part =
     (case mmc_dev st of
        None \<Rightarrow> False
      | Some pt \<Rightarrow>
          if pt = PART_TYPE_EFI \<and> part \<noteq> ascii ''gpt'' \<and> part \<notin> set (partition_names st) then False
          else if (pt = PART_TYPE_AML \<or> pt = PART_TYPE_DOS) \<and> part \<noteq> ascii ''mbr'' \<and> part \<notin> set (partition_names st) then False
          else True)"

definition flash_partition :: "storage \<Rightarrow> 8 word list \<Rightarrow> cb_result" where
  "flash_partition st part =
     (if dynamic_partition st \<and> part \<in> set (map ascii [''system'', ''vendor'', ''odm'', ''product'']) then Replied False
      else
        let part1 = (if part = ascii ''userdata'' then ascii ''data'' else part);
            part2 = (if part1 = ascii ''dts'' then ascii ''dtb'' else part1)
        in if is_mainstorage_emmc st \<and> fb_mmc_target st part2 then Partition_Write part2 else Replied False)"

definition cb_flash :: "'k board \<Rightarrow> (nat \<Rightarrow> mmc_env) \<Rightarrow> 8 word list \<Rightarrow> fb_state \<Rightarrow> unlock_stop + cb_result \<times> fb_state" where
  "cb_flash B envs cmd s =
     (case behind 0x3a cmd of
        None \<Rightarrow> Inr (Replied False, s)
      | Some part \<Rightarrow>
          if starts_with part (ascii ''unlock'') then
            (case amzn_verify_unlock B (downloaded s) (sha256_registered (fb_lock s)) of
               Inl e \<Rightarrow> Inl e
             | Inr (ret, reg) \<Rightarrow>
                 let s1 = set_registered s reg in
                 if ret \<noteq> 0 then Inr (Replied False, s1)
                 else
                   case idme_update_var_ex (envs 0) (idme (fb_lock s1)) (Some UNLOCK_CODE) (Some (fb_buf s1)) SIGNED_UNLOCK_CODE_LEN of
                     (ret2, dev) \<Rightarrow>
                       if ret2 \<noteq> 0 then Inr (Replied False, set_idme s1 dev)
                       else Inr (Replied True, set_idme s1 (snd (idme_auto_set_after_unlock (envs 1) (envs 2) dev))))
          else if starts_with part (ascii ''otucert'') then
            (case amzn_set_onetime_unlock_cert B (downloaded s) (fb_lock s) of
               (ret, out, l) \<Rightarrow> Inr (Replied (ret = 0), overwrite out (s\<lparr>fb_lock := l\<rparr>)))
          else if starts_with part (ascii ''otucode'') then
            (case amzn_set_onetime_unlock_code B (downloaded s) (fb_lock s) of
               (ret, out, l) \<Rightarrow> Inr (Replied (ret = 0), overwrite out (s\<lparr>fb_lock := l\<rparr>)))
          else Inr (flash_partition (fb_storage s) part, s))"

definition cb_oem_relock :: "(nat \<Rightarrow> mmc_env) \<Rightarrow> fb_state \<Rightarrow> cb_result \<times> fb_state" where
  "cb_oem_relock envs s =
     (case idme_update_var_ex (envs 0) (idme (fb_lock s)) (Some UNLOCK_CODE) (Some (\<lambda>_. 0)) SIGNED_UNLOCK_CODE_LEN of
        (ret, dev) \<Rightarrow>
          if ret \<noteq> 0 then (Replied False, set_idme s dev)
          else (Replied True, set_idme s (snd (idme_auto_clean_before_relock (envs 1) (envs 2) dev))))"

text \<open>The arguments behind the name of a command; a command that was cut has no name.\<close>

fun strstr :: "8 word list \<Rightarrow> 8 word list \<Rightarrow> 8 word list option" where
  "strstr s2 [] = (if s2 = [] then Some [] else None)"
| "strstr s2 (c # cs) = (if starts_with (c # cs) s2 then Some (c # cs) else strstr s2 cs)"

definition arguments :: "string \<Rightarrow> 8 word list \<Rightarrow> 8 word list option" where
  "arguments name cmd = map_option (dropWhile (\<lambda>c. c \<noteq> 0x20)) (strstr (ascii name) cmd)"

definition is_blank :: "8 word \<Rightarrow> bool" where
  "is_blank c \<longleftrightarrow> c = 0x20 \<or> c = 0x09"

definition IDME_BOOTMODE_MAX :: nat where "IDME_BOOTMODE_MAX = 10"

definition cmd_oem_bootmode :: "(nat \<Rightarrow> mmc_env) \<Rightarrow> 8 word list \<Rightarrow> fb_state \<Rightarrow> cb_result \<times> fb_state" where
  "cmd_oem_bootmode envs cmd s =
     (case arguments ''bootmode'' cmd of
        None \<Rightarrow> (Null_Argument, s)
      | Some [] \<Rightarrow> (Replied False, s)
      | Some arg0 \<Rightarrow>
          let arg = dropWhile is_blank arg0;
              c = (case arg of [] \<Rightarrow> 0 | c # _ \<Rightarrow> c);
              bootmode_int = (ucast c - 0x30 :: 32 word)
          in if unat bootmode_int > IDME_BOOTMODE_MAX then (Replied False, s)
             else
               case idme_update_var_ex (envs 0) (idme (fb_lock s)) (Some BOOTMODE) (Some (cstring arg)) 1 of
                 (ret, dev) \<Rightarrow> (Replied (ret = 0), set_idme s dev))"

text \<open>\<^verbatim>\<open>cb_download\<close>: the command \<^verbatim>\<open>update\<close> may have no colon; \<open>room\<close> is the memory behind the download address.\<close>

definition cb_download :: "nat \<Rightarrow> 8 word list \<Rightarrow> fb_state \<Rightarrow> cb_result \<times> fb_state" where
  "cb_download room cmd s =
     (case behind 0x3a cmd of
        None \<Rightarrow> (Null_Argument, s)
      | Some arg \<Rightarrow>
          let sz = unat (ucast (simple_strtoul arg) :: 32 word);
              s1 = s\<lparr>download_size := sz, download_bytes := 0\<rparr>
          in if sz = 0 then (Replied False, s1)
             else if sz > room then (Replied False, s1\<lparr>download_size := 0\<rparr>)
             else (Replied True, s1))"

text \<open>\<^verbatim>\<open>rx_handler_dl_image\<close>: one packet of a download.\<close>

definition rx_handler_dl_image :: "8 word list \<Rightarrow> fb_state \<Rightarrow> fb_state" where
  "rx_handler_dl_image buffer s =
     (let transfer_size = min (download_size s - download_bytes s) (length buffer);
          n = download_bytes s + transfer_size
      in s\<lparr>fb_buf := memcpy (fb_buf s) (download_bytes s) (cstring buffer) 0 transfer_size, download_bytes := n,
           download_size := if n \<ge> download_size s then 0 else download_size s\<rparr>)"

section \<open>The flags command\<close>

datatype flags_cmd = FLAGS_CMD_HELP | FLAGS_CMD_PRINT | FLAGS_CMD_SET
datatype flags_type = FLAGS_TYPE_NONE | FLAGS_TYPE_FOS | FLAGS_TYPE_DEV | FLAGS_TYPE_USR
datatype flags_modifier = FLAGS_MOD_NONE | FLAGS_MOD_SET | FLAGS_MOD_ADD | FLAGS_MOD_REMOVE

record flags_request =
  rq_cmd :: flags_cmd
  rq_modifier :: flags_modifier
  rq_type :: flags_type
  rq_flags :: "64 word"

definition find_type :: "8 word list \<Rightarrow> flags_type \<times> 8 word list" where
  "find_type arg =
     (if starts_with arg (ascii ''f:'') then (FLAGS_TYPE_FOS, drop 2 arg)
      else if starts_with arg (ascii ''fos:'') then (FLAGS_TYPE_FOS, drop 4 arg)
      else if starts_with arg (ascii ''fos_flags:'') then (FLAGS_TYPE_FOS, drop 10 arg)
      else if starts_with arg (ascii ''d:'') then (FLAGS_TYPE_DEV, drop 2 arg)
      else if starts_with arg (ascii ''dev:'') then (FLAGS_TYPE_DEV, drop 4 arg)
      else if starts_with arg (ascii ''dev_flags:'') then (FLAGS_TYPE_DEV, drop 10 arg)
      else if starts_with arg (ascii ''u:'') then (FLAGS_TYPE_USR, drop 2 arg)
      else if starts_with arg (ascii ''usr:'') then (FLAGS_TYPE_USR, drop 4 arg)
      else if starts_with arg (ascii ''usr_flags:'') then (FLAGS_TYPE_USR, drop 10 arg)
      else (FLAGS_TYPE_NONE, arg))"

definition find_modifier :: "8 word list \<Rightarrow> flags_modifier \<times> 8 word list" where
  "find_modifier arg =
     (case arg of
        [] \<Rightarrow> (FLAGS_MOD_SET, [])
      | c # cs \<Rightarrow>
          if c = 0x2b then (FLAGS_MOD_ADD, cs)
          else if c = 0x2d then (FLAGS_MOD_REMOVE, cs)
          else if c = 0x3d then (FLAGS_MOD_SET, cs)
          else (FLAGS_MOD_SET, arg))"

text \<open>The values, joined by bars or blanks; every turn takes at least one byte.\<close>

definition next_value :: "8 word list \<Rightarrow> 8 word list" where
  "next_value rest = (case rest of [] \<Rightarrow> [] | _ # r \<Rightarrow> dropWhile (\<lambda>c. is_blank c \<or> c = 0x7c) r)"

lemma next_value_shorter: "rest \<noteq> [] \<Longrightarrow> length (next_value rest) < length rest"
  by (cases rest) (simp_all add: next_value_def less_Suc_eq_le length_dropWhile_le)

function values_loop :: "64 word \<Rightarrow> 8 word list \<Rightarrow> 64 word" where
  "values_loop v arg =
     (if arg = [] then v
      else
        let a1 = dropWhile is_blank arg;
            cur = takeWhile (\<lambda>c. c \<noteq> 0x7c \<and> \<not> is_blank c) a1;
            rest = dropWhile (\<lambda>c. c \<noteq> 0x7c \<and> \<not> is_blank c) a1
        in values_loop (v OR (if issymprefix cur then getsymval cur else getnumval cur)) (next_value rest))"
  by pat_completeness auto

termination
proof (relation "measure (\<lambda>(v, arg). length arg)")
  fix v :: "64 word" and arg a1 cur rest :: "8 word list"
  assume arg: "arg \<noteq> []" and a1: "a1 = dropWhile is_blank arg" and rest: "rest = dropWhile (\<lambda>c. c \<noteq> 0x7c \<and> \<not> is_blank c) a1"
  have "length rest \<le> length arg"
    unfolding rest a1 by (rule order_trans [OF length_dropWhile_le length_dropWhile_le])
  moreover have "length (next_value rest) < length rest \<or> next_value rest = []"
    using next_value_shorter [of rest] by (cases rest) (auto simp: next_value_def)
  ultimately show "((v OR (if issymprefix cur then getsymval cur else getnumval cur), next_value rest), v, arg) \<in> measure (\<lambda>(v, arg). length arg)"
    using arg by auto
qed simp

declare values_loop.simps [simp del]

text \<open>
  The command line behind the name.  Without arguments, and for a print, whether the device is locked decides which flags
  are shown.
\<close>

definition parse_value :: "'k board \<Rightarrow> lock_state \<Rightarrow> flags_type \<Rightarrow> flags_modifier \<Rightarrow> 8 word list \<Rightarrow> unlock_stop + flags_request \<times> lock_state" where
  "parse_value B l ty md arg =
     (if starts_with arg (ascii ''print'') \<or> starts_with arg (ascii ''PRINT'') then
        (case is_locked_production_device B l of
           Inl e \<Rightarrow> Inl e
         | Inr (locked, l1) \<Rightarrow>
             let c = (case dropWhile is_blank (drop 5 arg) of [] \<Rightarrow> 0 | c # _ \<Rightarrow> c);
                 ty0 = (if ty = FLAGS_TYPE_NONE then FLAGS_TYPE_FOS else ty);
                 ty1 = (if locked \<or> c = 0x75 \<or> c = 0x55 then FLAGS_TYPE_USR
                        else if c = 0x66 \<or> c = 0x46 then FLAGS_TYPE_FOS
                        else if c = 0x64 \<or> c = 0x44 then FLAGS_TYPE_DEV
                        else ty0)
             in Inr (\<lparr>rq_cmd = FLAGS_CMD_PRINT, rq_modifier = FLAGS_MOD_NONE, rq_type = ty1, rq_flags = 0\<rparr>, l1))
      else if arg = ascii ''help'' \<or> arg = ascii ''HELP'' \<or> arg = ascii ''?'' then
        Inr (\<lparr>rq_cmd = FLAGS_CMD_HELP, rq_modifier = FLAGS_MOD_NONE, rq_type = FLAGS_TYPE_NONE, rq_flags = 0\<rparr>, l)
      else Inr (\<lparr>rq_cmd = FLAGS_CMD_SET, rq_modifier = md, rq_type = ty, rq_flags = values_loop 0 arg\<rparr>, l))"

definition parse_flags :: "'k board \<Rightarrow> lock_state \<Rightarrow> 8 word list \<Rightarrow> unlock_stop + flags_request \<times> lock_state" where
  "parse_flags B l args =
     (case args of
        [] \<Rightarrow>
          (case is_locked_production_device B l of
             Inl e \<Rightarrow> Inl e
           | Inr (locked, l1) \<Rightarrow>
               Inr (\<lparr>rq_cmd = FLAGS_CMD_PRINT, rq_modifier = FLAGS_MOD_NONE,
                     rq_type = if locked then FLAGS_TYPE_USR else FLAGS_TYPE_FOS, rq_flags = 0\<rparr>, l1))
      | arg0 \<Rightarrow>
          let arg1 = dropWhile is_blank arg0 in
          if arg1 = [] then Inr (\<lparr>rq_cmd = FLAGS_CMD_PRINT, rq_modifier = FLAGS_MOD_SET, rq_type = FLAGS_TYPE_NONE, rq_flags = 0\<rparr>, l)
          else
            case find_type arg1 of
              (ty, arg2) \<Rightarrow>
                let arg3 = dropWhile is_blank arg2 in
                if arg3 = [] then Inr (\<lparr>rq_cmd = FLAGS_CMD_PRINT, rq_modifier = FLAGS_MOD_SET, rq_type = ty, rq_flags = 0\<rparr>, l)
                else
                  case find_modifier arg3 of
                    (md, arg4) \<Rightarrow>
                      let arg5 = dropWhile is_blank arg4 in
                      if arg5 = [] then Inr (\<lparr>rq_cmd = FLAGS_CMD_PRINT, rq_modifier = md, rq_type = ty, rq_flags = 0\<rparr>, l)
                      else parse_value B l ty md arg5)"

definition target_flags :: "flags_request \<Rightarrow> 8 word list" where
  "target_flags rq =
     (let ty = (if rq_cmd rq = FLAGS_CMD_SET \<and> rq_type rq = FLAGS_TYPE_NONE then FLAGS_TYPE_FOS else rq_type rq) in
      if ty = FLAGS_TYPE_DEV then DEV_FLAGS else if ty = FLAGS_TYPE_USR then USR_FLAGS else FOS_FLAGS)"

definition apply_flags :: "mmc_env \<Rightarrow> flags_request \<Rightarrow> idme_dev \<Rightarrow> cb_result \<times> idme_dev" where
  "apply_flags env rq dev =
     (case idme_get_var_external dev (target_flags rq) 16 of
        (ret, copied) \<Rightarrow>
          let cur_flags = atoull ([0x30, 0x78] @ buffer_text (if ret = 0 then copied else []) []) in
          if rq_cmd rq = FLAGS_CMD_PRINT then (Replied True, dev)
          else if rq_cmd rq = FLAGS_CMD_SET then
            let new_flags = (case rq_modifier rq of
                               FLAGS_MOD_ADD \<Rightarrow> cur_flags OR rq_flags rq
                             | FLAGS_MOD_REMOVE \<Rightarrow> cur_flags AND NOT (rq_flags rq)
                             | _ \<Rightarrow> rq_flags rq)
            in case idme_update_var_ex env dev (Some (target_flags rq)) (Some (cstring (take 18 (llx new_flags)))) 18 of
                 (ret2, dev2) \<Rightarrow> (Replied (ret2 = 0), dev2)
          else (Replied False, dev))"

definition cmd_oem_flags :: "'k board \<Rightarrow> (nat \<Rightarrow> mmc_env) \<Rightarrow> 8 word list \<Rightarrow> fb_state \<Rightarrow> unlock_stop + cb_result \<times> fb_state" where
  "cmd_oem_flags B envs cmd s =
     (case arguments ''flags'' cmd of
        None \<Rightarrow> Inr (Null_Argument, s)
      | Some args \<Rightarrow>
          (case parse_flags B (fb_lock s) args of
             Inl e \<Rightarrow> Inl e
           | Inr (rq, l1) \<Rightarrow>
               (case is_locked_production_device B l1 of
                  Inl e \<Rightarrow> Inl e
                | Inr (locked, l2) \<Rightarrow>
                    let s2 = s\<lparr>fb_lock := l2\<rparr> in
                    if locked \<and> rq_cmd rq = FLAGS_CMD_SET then Inr (Replied False, s2)
                    else
                      case apply_flags (envs 0) rq (idme l2) of
                        (r, dev) \<Rightarrow> Inr (r, set_idme s2 dev))))"

section \<open>Sequences of commands\<close>

text \<open>
  What a handler may do.  The handlers that only answer, or that leave fastboot when the answer is sent, keep the state.  The
  handlers that are not modelled, and the write of a partition, may do anything.  A handler that uses a null pointer has no step.
\<close>

inductive callback_step :: "'k board \<Rightarrow> callback \<Rightarrow> 8 word list \<Rightarrow> fb_state \<Rightarrow> fb_state \<Rightarrow> bool" for B where
  flash: "cb_flash B envs cmd s = Inr (Replied r, s') \<Longrightarrow> callback_step B CB_FLASH cmd s s'"
| partition: "cb_flash B envs cmd s = Inr (Partition_Write part, s1) \<Longrightarrow> callback_step B CB_FLASH cmd s s'"
| relock: "cb_oem_relock envs s = (r, s') \<Longrightarrow> callback_step B CB_OEM_RELOCK cmd s s'"
| flags: "cmd_oem_flags B envs cmd s = Inr (Replied r, s') \<Longrightarrow> callback_step B CMD_OEM_FLAGS cmd s s'"
| bootmode: "cmd_oem_bootmode envs cmd s = (Replied r, s') \<Longrightarrow> callback_step B CMD_OEM_BOOTMODE cmd s s'"
| download: "cb_download room cmd s = (Replied r, s') \<Longrightarrow> callback_step B CB_DOWNLOAD cmd s s'"
| quiet: "cb \<in> {CB_REBOOT, CB_GETVAR, CB_CONTINUE, CB_DEVICES} \<Longrightarrow> callback_step B cb cmd s s"
| other: "cb \<in> {CB_BOOT, CB_FLASHING, CB_FLASHALL, CB_ERASE, CB_OEM_IDME} \<Longrightarrow> callback_step B cb cmd s s'"

text \<open>A request is a packet of the download while one is under way, and a command otherwise.\<close>

inductive fb_step :: "'k board \<Rightarrow> fb_state \<Rightarrow> fb_state \<Rightarrow> bool" for B where
  packet: "0 < download_size s \<Longrightarrow> fb_step B s (rx_handler_dl_image buffer s)"
| answer: "download_size s = 0 \<Longrightarrow> rx_handler_command B (fb_lock s) buf actual len = Inr (act, l) \<Longrightarrow>
    act \<in> {Unknown_Command, Blocked_Command, Buffer_Overflow} \<Longrightarrow> fb_step B s (s\<lparr>fb_lock := l\<rparr>)"
| run: "download_size s = 0 \<Longrightarrow> rx_handler_command B (fb_lock s) buf actual len = Inr (Run cb cmd, l) \<Longrightarrow>
    callback_step B cb cmd (s\<lparr>fb_lock := l\<rparr>) s' \<Longrightarrow> fb_step B s s'"

text \<open>A session, with the states it went through.\<close>

inductive fb_run :: "'k board \<Rightarrow> fb_state \<Rightarrow> fb_state list \<Rightarrow> fb_state \<Rightarrow> bool" for B s0 where
  start: "fb_run B s0 [] s0"
| more: "fb_run B s0 ts s \<Longrightarrow> fb_step B s s' \<Longrightarrow> fb_run B s0 (s # ts) s'"

inductive_cases callback_stepE: "callback_step B cb cmd s s'"
inductive_cases fb_stepE: "fb_step B s s'"

end
