(* ===== verification/Lock_Safety.thy ===== *)
theory Lock_Safety
  imports Fastboot Idme_Props
begin

text \<open>
  What the lock protects: when a device counts as unlocked, what the handlers leave of the stored code, and which fastboot
  commands a locked device runs.
\<close>

section \<open>Signatures\<close>

definition verifies :: "'k board \<Rightarrow> 8 word list \<Rightarrow> 8 word list \<Rightarrow> 8 word list \<Rightarrow> bool" where
  "verifies B data sig key \<longleftrightarrow> data \<noteq> [] \<and> sig \<noteq> [] \<and> key \<noteq> [] \<and> plat_alloc B \<and>
     (\<exists>k digest. rsa_import B key = Some k \<and> hash_memory B data = Some digest \<and> rsa_verify_hash B k sig digest = (0, 1))"

lemma verify_code_Inr:
  "amzn_verify_code_internal B data sig key reg = Inr (ret, reg') \<Longrightarrow> (ret = 0 \<longleftrightarrow> verifies B data sig key) \<and> (reg \<longrightarrow> reg')"
  by (auto simp: amzn_verify_code_internal_def verifies_def unlock_errors split: if_splits option.splits prod.splits)

definition unlock_signed :: "'k board \<Rightarrow> 8 word list \<Rightarrow> bool" where
  "unlock_signed B sig \<longleftrightarrow> (\<exists>c. amzn_get_unlock_code B UNLOCK_CODE_LEN = Some c \<and> verifies B c sig amzn_get_unlock_key)"

lemma unlock_key_nonempty [simp]: "amzn_get_unlock_key \<noteq> []" "amzn_get_onetime_unlock_root_pubkey \<noteq> []"
  by (simp_all add: amzn_get_unlock_key_def amzn_get_onetime_unlock_root_pubkey_def)

lemma verify_unlock_Inr:
  assumes "amzn_verify_unlock B sig reg = Inr (ret, reg')"
  shows "(ret = 0 \<longleftrightarrow> unlock_signed B sig) \<and> (reg \<longrightarrow> reg')"
proof (cases "amzn_get_unlock_code B UNLOCK_CODE_LEN")
  case None
  then show ?thesis using assms by (auto simp: amzn_verify_unlock_def unlock_signed_def unlock_errors)
next
  case (Some c)
  then show ?thesis
    using assms verify_code_Inr [of B c sig amzn_get_unlock_key reg ret reg'] by (simp add: amzn_verify_unlock_def unlock_signed_def)
qed

section \<open>Unlocked devices\<close>

definition stored_code :: "idme_dev \<Rightarrow> 8 word list option" where
  "stored_code dev =
     (case idme_get_var_external dev UNLOCK_CODE SIGNED_UNLOCK_CODE_LEN of
        (ret, copied) \<Rightarrow>
          if ret = 0 then Some (take SIGNED_UNLOCK_CODE_LEN (copied @ replicate SIGNED_UNLOCK_CODE_LEN 0)) else None)"

definition stored_signed :: "'k board \<Rightarrow> lock_state \<Rightarrow> bool" where
  "stored_signed B s \<longleftrightarrow> (\<exists>c. stored_code (idme s) = Some c \<and> unlock_signed B c)"

text \<open>The code a one-time unlock signs is made once.\<close>

definition made_code :: "'k board \<Rightarrow> 8 word list option" where
  "made_code B =
     (case amzn_get_unlock_code B UNLOCK_CODE_LEN of
        None \<Rightarrow> None
      | Some entropy \<Rightarrow>
          (case amzn_get_onetime_random_number B (entropy @ hex8 (timer B)) 24 of
             None \<Rightarrow> None
           | Some random_bytes \<Rightarrow> amzn_onetime_unlock_b64_encode B random_bytes (ONETIME_UNLOCK_CODE_LEN + 1)))"

definition code_kept :: "'k board \<Rightarrow> lock_state \<Rightarrow> bool" where
  "code_kept B s \<longleftrightarrow> (code_generated s \<longrightarrow> made_code B = Some (one_tu_code s))"

text \<open>A check of the lock leaves everything but the registered hash and the code it made.\<close>

definition same_lock :: "'k board \<Rightarrow> lock_state \<Rightarrow> lock_state \<Rightarrow> bool" where
  "same_lock B s s' \<longleftrightarrow> idme s' = idme s \<and> one_tu_cert s' = one_tu_cert s \<and> signed_one_tu_code s' = signed_one_tu_code s \<and>
     signed_code_available s' = signed_code_available s \<and> (code_kept B s \<longrightarrow> code_kept B s')"

lemma same_lock_refl [simp]: "same_lock B s s"
  by (simp add: same_lock_def)

lemma same_lock_trans: "same_lock B s t \<Longrightarrow> same_lock B t u \<Longrightarrow> same_lock B s u"
  by (simp add: same_lock_def)

lemma same_lock_registered [simp]: "same_lock B s (s\<lparr>sha256_registered := reg\<rparr>)"
  by (simp add: same_lock_def code_kept_def)

lemma is_unlocked_Inr:
  "amzn_target_is_unlocked B s = Inr (u, s') \<Longrightarrow> (u \<longleftrightarrow> stored_signed B s) \<and> same_lock B s s'"
  by (auto simp: amzn_target_is_unlocked_def stored_signed_def stored_code_def Let_def dest!: verify_unlock_Inr
      split: prod.splits if_splits sum.splits)

definition onetime_signed :: "'k board \<Rightarrow> 8 word list \<Rightarrow> 8 word list \<Rightarrow> bool" where
  "onetime_signed B cert sig \<longleftrightarrow>
     verifies B (cert_body cert) (cert_signature cert) amzn_get_onetime_unlock_root_pubkey \<and>
     (\<exists>c. made_code B = Some c \<and> verifies B (take ONETIME_UNLOCK_CODE_LEN c) sig (pubkey cert))"

lemma one_tu_code_Some:
  "amzn_get_one_tu_code B s len = Some (c, s') \<Longrightarrow> code_kept B s \<Longrightarrow>
   \<exists>out. made_code B = Some out \<and> c = take ONETIME_UNLOCK_CODE_LEN out \<and> s' = s\<lparr>code_generated := True, one_tu_code := out\<rparr>"
  by (auto simp: amzn_get_one_tu_code_def made_code_def code_kept_def split: if_splits option.splits)

lemma onetime_cert_Inr:
  assumes "amzn_verify_onetime_unlock_cert B cert reg = Inr (ret, reg')"
  shows "ret = 0 \<Longrightarrow> verifies B (cert_body cert) (cert_signature cert) amzn_get_onetime_unlock_root_pubkey" "reg \<Longrightarrow> reg'"
  using assms
  by (auto simp: amzn_verify_onetime_unlock_cert_def amzn_get_onetime_unlock_pk_blacklist_def amzn_verify_device_meta_def Let_def
      unlock_errors dest!: verify_code_Inr split: if_splits sum.splits prod.splits option.splits)

lemma onetime_Inr:
  assumes "amzn_target_is_onetime_unlocked B s = Inr (u, s')" and "code_kept B s"
  shows "(u \<longrightarrow> signed_code_available s \<and> onetime_signed B (one_tu_cert s) (signed_one_tu_code s)) \<and> same_lock B s s'"
proof (cases "signed_code_available s \<and> length (signed_one_tu_code s) = RSA_2048_SIG_LEN")
  case False
  then show ?thesis
    using assms(1)
    by (auto simp: amzn_target_is_onetime_unlocked_def amzn_verify_onetime_unlock_code_def unlock_errors split: if_splits)
next
  case True
  let ?cert = "one_tu_cert s" and ?sig = "signed_one_tu_code s"
  have avail: "signed_code_available s" and len: "length ?sig = RSA_2048_SIG_LEN" using True by blast+
  obtain ret where code: "amzn_verify_onetime_unlock_code B ?sig s = Inr (ret, s')" and u: "u \<longleftrightarrow> ret = 0"
    using assms(1) avail by (auto simp: amzn_target_is_onetime_unlocked_def split: sum.splits)
  obtain ret1 reg where cert: "amzn_verify_onetime_unlock_cert B ?cert (sha256_registered s) = Inr (ret1, reg)"
    using code len by (auto simp: amzn_verify_onetime_unlock_code_def Let_def split: sum.splits)
  let ?s1 = "s\<lparr>sha256_registered := reg\<rparr>"
  have kept: "code_kept B ?s1" using assms(2) by (simp add: code_kept_def)
  show ?thesis
  proof (cases "ret1 = 0 \<and> amzn_get_one_tu_code B ?s1 (ONETIME_UNLOCK_CODE_LEN + 1) \<noteq> None")
    case False
    then have "ret \<noteq> 0 \<and> s' = ?s1"
      using code len cert
      by (auto simp: amzn_verify_onetime_unlock_code_def Let_def unlock_errors split: if_splits option.splits)
    then show ?thesis using u by simp
  next
    case True
    then obtain c s2 where c: "amzn_get_one_tu_code B ?s1 (ONETIME_UNLOCK_CODE_LEN + 1) = Some (c, s2)" and r: "ret1 = 0" by auto
    obtain out where out: "made_code B = Some out" "c = take ONETIME_UNLOCK_CODE_LEN out"
      "s2 = ?s1\<lparr>code_generated := True, one_tu_code := out\<rparr>"
      using one_tu_code_Some [OF c kept] by blast
    obtain ret2 reg2 where v: "amzn_verify_code_internal B c ?sig (pubkey ?cert) (sha256_registered s2) = Inr (ret2, reg2)"
      "ret = (if ret2 = 0 then 0 else - ERR_TEMP_UNLOCK_GENERAL_FAIL)" "s' = s2\<lparr>sha256_registered := reg2\<rparr>"
      using code len cert c r by (auto simp: amzn_verify_onetime_unlock_code_def Let_def split: sum.splits)
    have "same_lock B s s'" using v(3) out(1,3) by (simp add: same_lock_def code_kept_def)
    moreover have "onetime_signed B ?cert ?sig" if u
      using that u v(2) verify_code_Inr [OF v(1)] onetime_cert_Inr(1) [OF cert r] out(1,2)
      by (auto simp: onetime_signed_def unlock_errors split: if_splits)
    ultimately show ?thesis using avail by blast
  qed
qed

definition unlocked :: "'k board \<Rightarrow> lock_state \<Rightarrow> bool" where
  "unlocked B s \<longleftrightarrow> (\<exists>s'. is_locked_production_device B s = Inr (False, s'))"

lemma is_locked_Inr:
  assumes "is_locked_production_device B s = Inr (l, s')" and "code_kept B s"
  shows "same_lock B s s' \<and> (l \<longrightarrow> amzn_target_device_type B = AMZN_PRODUCTION_DEVICE \<and> \<not> stored_signed B s) \<and>
    (\<not> l \<longrightarrow> amzn_target_device_type B \<noteq> AMZN_PRODUCTION_DEVICE \<or> stored_signed B s \<or>
      (signed_code_available s \<and> onetime_signed B (one_tu_cert s) (signed_one_tu_code s)))"
proof (cases "amzn_target_device_type B = AMZN_PRODUCTION_DEVICE")
  case False
  then show ?thesis using assms(1) by (auto simp: is_locked_production_device_def)
next
  case True
  then obtain u s1 where u: "amzn_target_is_unlocked B s = Inr (u, s1)"
    using assms(1) by (auto simp: is_locked_production_device_def split: sum.splits)
  have s1: "(u \<longleftrightarrow> stored_signed B s) \<and> same_lock B s s1" using u by (rule is_unlocked_Inr)
  show ?thesis
  proof (cases u)
    case True
    then show ?thesis using u s1 assms(1) \<open>amzn_target_device_type B = AMZN_PRODUCTION_DEVICE\<close>
      by (auto simp: is_locked_production_device_def)
  next
    case False
    then obtain o1 where o1: "amzn_target_is_onetime_unlocked B s1 = Inr (o1, s')" "l \<longleftrightarrow> \<not> o1"
      using u assms(1) True by (auto simp: is_locked_production_device_def split: sum.splits)
    have "code_kept B s1" using s1 assms(2) by (simp add: same_lock_def)
    then show ?thesis
      using onetime_Inr [OF o1(1)] s1 o1(2) False True same_lock_trans [of B s s1 s'] by (auto simp: same_lock_def)
  qed
qed

section \<open>The stored code\<close>

definition dev_ok :: "idme_dev \<Rightarrow> bool" where
  "dev_ok dev \<longleftrightarrow> pidme_set dev \<and> funcs_set dev \<and> (\<exists>its. table (gidme_buff dev) its)"

lemma get_external: "dev_ok dev \<Longrightarrow> idme_get_var_external dev name len = get_func_v2p0 name len (gidme_buff dev)"
  by (simp add: dev_ok_def idme_get_var_external_def get_var_def pidme_data_def get_func_v2p0_def)

lemma update_ex_buffer:
  assumes "dev_ok dev" and "idme_update_var_ex env dev (Some name) (Some v) len = (ret, dev')"
  shows "pidme_set dev' \<and> funcs_set dev' \<and> gidme_buff dev' = snd (update_func_v2p0 name v len (gidme_buff dev))"
proof -
  obtain r m' where u: "idme_update_var_v2p0 name (Some v) len (Some (gidme_buff dev)) = (r, Some m')"
    by (cases "idme_update_var_v2p0 name (Some v) len (Some (gidme_buff dev))")
      (auto simp: idme_update_var_v2p0_def Let_def split: if_splits option.splits)
  then show ?thesis
    using assms
    by (auto simp: dev_ok_def idme_update_var_ex_def update_var_def pidme_data_def update_func_v2p0_def idme_write_def
        split: if_splits prod.splits)
qed

lemma UNLOCK_CODE_good [simp]: "good_name UNLOCK_CODE"
  by (simp add: UNLOCK_CODE_def good_name_def)

lemma flag_names [simp]:
  "good_name FOS_FLAGS" "good_name DEV_FLAGS" "good_name USR_FLAGS"
  "FOS_FLAGS \<noteq> UNLOCK_CODE" "DEV_FLAGS \<noteq> UNLOCK_CODE" "USR_FLAGS \<noteq> UNLOCK_CODE"
  by (simp_all add: FOS_FLAGS_def DEV_FLAGS_def USR_FLAGS_def UNLOCK_CODE_def good_name_def)

lemma update_ex_other:
  assumes ok: "dev_ok dev" and name: "good_name name" "name \<noteq> UNLOCK_CODE"
    and u: "idme_update_var_ex env dev (Some name) (Some v) len = (ret, dev')"
  shows "dev_ok dev' \<and> stored_code dev' = stored_code dev"
proof -
  obtain its where tab: "table (gidme_buff dev) its" using ok by (auto simp: dev_ok_def)
  note buf = update_ex_buffer [OF ok u]
  have "\<exists>its'. table (gidme_buff dev') its' \<and>
      get_func_v2p0 UNLOCK_CODE SIGNED_UNLOCK_CODE_LEN (gidme_buff dev') = get_func_v2p0 UNLOCK_CODE SIGNED_UNLOCK_CODE_LEN (gidme_buff dev)"
  proof (cases "lookup its name")
    case None
    then have "gidme_buff dev' = gidme_buff dev" using v2p0.update_refines [OF tab name(1), of v len] buf by simp
    then show ?thesis using tab by auto
  next
    case (Some it)
    then show ?thesis
      using v2p0.read_after_update [OF tab name(1) Some, of v len SIGNED_UNLOCK_CODE_LEN] buf name(2) by auto
  qed
  then have "dev_ok dev'" using buf by (auto simp: dev_ok_def)
  then show ?thesis
    using \<open>\<exists>its'. _\<close> get_external [OF \<open>dev_ok dev'\<close>] get_external [OF ok] by (auto simp: stored_code_def)
qed

lemma update_ex_relock:
  assumes ok: "dev_ok dev" and u: "idme_update_var_ex env dev (Some UNLOCK_CODE) (Some (\<lambda>_. 0)) len = (ret, dev')"
  shows "dev_ok dev' \<and> (stored_code dev' = None \<or> stored_code dev' = Some (replicate SIGNED_UNLOCK_CODE_LEN 0))"
proof -
  obtain its where tab: "table (gidme_buff dev) its" using ok by (auto simp: dev_ok_def)
  note buf = update_ex_buffer [OF ok u]
  let ?n = SIGNED_UNLOCK_CODE_LEN
  show ?thesis
  proof (cases "lookup its UNLOCK_CODE")
    case None
    then have same: "gidme_buff dev' = gidme_buff dev" using v2p0.update_refines [OF tab UNLOCK_CODE_good, of "\<lambda>_. 0" len] buf by simp
    then have ok': "dev_ok dev'" using buf tab by (auto simp: dev_ok_def)
    then show ?thesis
      using get_external [OF ok'] v2p0.get_refines [OF tab UNLOCK_CODE_good] None same by (simp add: stored_code_def)
  next
    case (Some it)
    let ?d = "field (length (it_data it)) (\<lambda>_. 0) len"
    have m': "table (gidme_buff dev') (set_data its UNLOCK_CODE (\<lambda>_. ?d))" "get_func_v2p0 UNLOCK_CODE ?n (gidme_buff dev') = (0, take ?n ?d)"
      using v2p0.read_after_update [OF tab UNLOCK_CODE_good Some, of "\<lambda>_. 0" len ?n] buf by auto
    then have ok': "dev_ok dev'" using buf by (auto simp: dev_ok_def)
    have "take ?n (take ?n ?d @ replicate ?n 0) = replicate ?n 0"
      by (intro nth_equalityI) (auto simp: nth_append)
    then show ?thesis using get_external [OF ok'] m'(2) ok' by (simp add: stored_code_def)
  qed
qed

lemma change_flags_keeps:
  assumes ok: "dev_ok dev" and name: "good_name name" "name \<noteq> UNLOCK_CODE" and c: "change_flags env name f old dev = (ret, str, dev')"
  shows "dev_ok dev' \<and> stored_code dev' = stored_code dev"
proof (cases "fst (idme_get_var_external dev name 16) = 0")
  case False
  then show ?thesis using c ok by (auto simp: change_flags_def split: prod.splits)
next
  case True
  then show ?thesis using c update_ex_other [OF ok name] by (fastforce simp: change_flags_def Let_def split: prod.splits)
qed

lemma auto_clean_keeps:
  assumes ok: "dev_ok dev"
  shows "dev_ok (snd (idme_auto_clean_before_relock env1 env2 dev)) \<and>
    stored_code (snd (idme_auto_clean_before_relock env1 env2 dev)) = stored_code dev"
proof -
  obtain ret str dev1 where c1: "change_flags env1 FOS_FLAGS (\<lambda>fl. fl AND NOT (FOS_FLAGS_ADB_ON OR FOS_FLAGS_ADB_ROOT)) [] dev = (ret, str, dev1)"
    by (metis prod_cases3)
  obtain ret2 str2 dev2 where c2: "change_flags env2 DEV_FLAGS (\<lambda>fl. fl AND NOT DEV_FLAGS_ADB_USB_ON) str dev1 = (ret2, str2, dev2)"
    by (metis prod_cases3)
  have d1: "dev_ok dev1 \<and> stored_code dev1 = stored_code dev" using change_flags_keeps [OF ok _ _ c1] by simp
  then have "dev_ok dev2 \<and> stored_code dev2 = stored_code dev" using change_flags_keeps [OF _ _ _ c2] by simp
  then show ?thesis using d1 c1 c2 by (simp add: idme_auto_clean_before_relock_def)
qed

lemma relock_keeps:
  assumes ok: "dev_ok (idme (fb_lock s))" and r: "cb_oem_relock envs s = (r, s')"
  shows "dev_ok (idme (fb_lock s')) \<and>
    (stored_code (idme (fb_lock s')) = None \<or> stored_code (idme (fb_lock s')) = Some (replicate SIGNED_UNLOCK_CODE_LEN 0)) \<and>
    (\<exists>dev. s' = set_idme s dev)"
proof -
  obtain ret dev where u: "idme_update_var_ex (envs 0) (idme (fb_lock s)) (Some UNLOCK_CODE) (Some (\<lambda>_. 0)) SIGNED_UNLOCK_CODE_LEN = (ret, dev)"
    by fastforce
  note dev = update_ex_relock [OF ok u]
  then show ?thesis
    using r u auto_clean_keeps [of dev "envs 1" "envs 2"] by (auto simp: cb_oem_relock_def set_idme_def split: if_splits)
qed

section \<open>Commands of a locked device\<close>

lemma starts_with_iff: "starts_with s p \<longleftrightarrow> (\<exists>r. s = p @ r)"
  by (metis append_eq_conv_conj starts_with_def)

definition blocked :: "8 word list \<Rightarrow> bool" where
  "blocked cmd \<longleftrightarrow> \<not> list_ex (starts_with cmd) whitelist \<and> list_ex (starts_with cmd) blacklist"

lemma restricted_Inr:
  assumes "is_restricted_command_on_locked_hw B s cmd = Inr (r, s')"
  shows "\<exists>l. is_locked_production_device B s = Inr (l, s') \<and> (r \<longleftrightarrow> l \<and> blocked cmd)"
proof (cases "is_locked_production_device B s")
  case (Inr x)
  obtain l s1 where x: "x = (l, s1)" by fastforce
  have "is_restricted_command_on_locked_hw B s cmd = Inr (l \<and> blocked cmd, s1)"
    unfolding is_restricted_command_on_locked_hw_def Inr x blocked_def amzn_extends_fastboot_whitelist_def
      amzn_extends_fastboot_blacklist_def by simp
  then show ?thesis using assms Inr x by simp
qed (use assms in \<open>simp add: is_restricted_command_on_locked_hw_def\<close>)

definition harmless :: "callback set" where
  "harmless = {CB_REBOOT, CB_GETVAR, CB_DOWNLOAD, CB_CONTINUE, CB_DEVICES, CMD_OEM_FLAGS, CB_OEM_RELOCK}"

text \<open>A request of the flash handler that was checked as an unlock request, and the names it may have been cut to.\<close>

definition unlock_names :: "8 word list list" where
  "unlock_names = map ascii [''unlock'', ''otucert'', ''otucode'']"

definition cut_name :: "8 word list \<Rightarrow> bool" where
  "cut_name part \<longleftrightarrow> (\<exists>w \<in> set unlock_names. length part < length w \<and> part = take (length part) w)"

definition unlock_request :: "8 word list \<Rightarrow> bool" where
  "unlock_request cmd \<longleftrightarrow> behind 0x3a cmd = None \<or>
     (\<exists>part. behind 0x3a cmd = Some part \<and> (list_ex (starts_with part) unlock_names \<or> cut_name part))"

lemma flash_not_blocked:
  assumes "starts_with cmd (ascii ''flash'')" and "\<not> blocked cmd"
  shows "\<exists>w \<in> set unlock_names. starts_with cmd (ascii ''flash:'' @ w)"
proof -
  obtain r where cmd: "cmd = ascii ''flash'' @ r" using assms(1) by (auto simp: starts_with_iff)
  then have "list_ex (starts_with cmd) whitelist" using assms(2) by (simp add: blocked_def blacklist_def starts_with_def)
  then have "starts_with cmd (ascii ''flash:unlock'') \<or> starts_with cmd (ascii ''flash:otucert'') \<or> starts_with cmd (ascii ''flash:otucode'')"
    using cmd by (simp add: whitelist_def starts_with_def)
  then show ?thesis by (auto simp: unlock_names_def)
qed

lemma behind_None: "c \<notin> set cmd \<Longrightarrow> behind c cmd = None"
proof -
  assume "c \<notin> set cmd"
  then have "dropWhile (\<lambda>x. x \<noteq> c) cmd = []" by auto
  then show ?thesis unfolding behind_def by (simp only: list.case)
qed

lemma unlock_request_cut:
  assumes "starts_with cmd (ascii ''flash:'' @ w)" and "w \<in> set unlock_names"
  shows "unlock_request (take n cmd)"
proof (cases "n < 6")
  case True
  obtain r where "cmd = ascii ''flash'' @ ascii '':'' @ w @ r" using assms(1) unfolding starts_with_iff by auto
  then have "take n cmd = take n (ascii ''flash'')" using True by (simp only: take_append) simp
  moreover have "0x3a \<notin> set (take n (ascii ''flash''))" by (rule notI, drule in_set_takeD) simp
  ultimately show ?thesis using behind_None unfolding unlock_request_def by metis
next
  case False
  obtain r where cmd: "cmd = ascii ''flash:'' @ w @ r" using assms(1) by (auto simp: starts_with_iff)
  define part where "part = take (n - 6) (w @ r)"
  have "length (ascii ''flash:'') = 6" by simp
  then have "take n cmd = ascii ''flash:'' @ part" using False unfolding cmd part_def by (metis append_take_drop_id take_all take_append not_less)
  then have "behind 0x3a (take n cmd) = Some part" by (simp add: behind_def)
  moreover have "starts_with part w \<or> cut_name part"
  proof (cases "n - 6 < length w")
    case True
    then have "part = take (n - 6) w \<and> length part = n - 6" by (simp add: part_def)
    then have "cut_name part" using True assms(2) unfolding cut_name_def by (metis)
    then show ?thesis by simp
  qed (simp add: part_def starts_with_iff)
  ultimately show ?thesis using assms(2) by (auto simp: unlock_request_def list_ex_iff)
qed

lemma dispatch_not_blocked:
  assumes "dispatch cmd = Some cb" and "\<not> blocked cmd"
  shows "cb \<in> harmless \<or> (cb = CB_FLASH \<and> (\<exists>w \<in> set unlock_names. starts_with cmd (ascii ''flash:'' @ w)))"
proof -
  have no: "\<not> starts_with cmd (ascii p)" if "p \<in> {''boot'', ''erase'', ''oem idme'', ''oem bootmode''}" for p
  proof
    assume "starts_with cmd (ascii p)"
    then obtain r where "cmd = ascii p @ r" by (auto simp: starts_with_iff)
    then have "blocked cmd" using that by (auto simp: blocked_def whitelist_def blacklist_def starts_with_def)
    then show False using assms(2) by simp
  qed
  have flashing: "\<not> starts_with cmd (ascii ''flashing'')"
  proof
    assume "starts_with cmd (ascii ''flashing'')"
    then obtain r where "cmd = ascii ''flashing'' @ r" by (auto simp: starts_with_iff)
    then have "blocked cmd" by (auto simp: blocked_def whitelist_def blacklist_def starts_with_def)
    then show False using assms(2) by simp
  qed
  have all: "\<not> starts_with cmd (ascii ''flashall'') \<or> starts_with cmd (ascii ''flash'')" by (auto simp: starts_with_iff)
  show ?thesis
    using assms(1) no [of "''boot''"] no [of "''erase''"] no [of "''oem idme''"] no [of "''oem bootmode''"] flashing all
      flash_not_blocked [OF _ assms(2)]
    by (auto simp: dispatch_def cmd_dispatch_info_def harmless_def split: if_splits)
qed

text \<open>The command that runs is a prefix of the command that was checked.\<close>

lemma c_text_cut: "\<exists>m. c_text (buf[n := 0]) = take m (c_text buf)"
proof (induction buf arbitrary: n)
  case (Cons b bs)
  show ?case
  proof (cases n)
    case 0
    then show ?thesis by (auto simp: c_text_def intro: exI [of _ 0])
  next
    case (Suc k)
    obtain m where "c_text (bs[k := 0]) = take m (c_text bs)" using Cons by blast
    then show ?thesis using Suc by (auto simp: c_text_def intro: exI [of _ "Suc m"])
  qed
qed (simp add: c_text_def)

text \<open>The partition table is of a kind the flash handler looks names up in, and no name in it is one that an unlock request may be cut to.\<close>

definition storage_ok :: "storage \<Rightarrow> bool" where
  "storage_ok st \<longleftrightarrow> mmc_dev st \<in> {None, Some PART_TYPE_EFI, Some PART_TYPE_AML, Some PART_TYPE_DOS} \<and> list_all (\<lambda>p. \<not> cut_name p) (partition_names st)"

lemma cut_name_other [simp]: "\<not> cut_name (ascii ''gpt'')" "\<not> cut_name (ascii ''mbr'')" "\<not> cut_name (ascii ''userdata'')" "\<not> cut_name (ascii ''dts'')"
  by (simp_all add: cut_name_def unlock_names_def)

lemma cut_not_written: "storage_ok st \<Longrightarrow> cut_name part \<Longrightarrow> flash_partition st part = Replied False"
proof -
  assume ok: "storage_ok st" and cut: "cut_name part"
  have "part \<noteq> ascii ''gpt''" "part \<noteq> ascii ''mbr''" "part \<noteq> ascii ''userdata''" "part \<noteq> ascii ''dts''" using cut cut_name_other by metis+
  moreover have "part \<notin> set (partition_names st)" using ok cut by (auto simp: storage_ok_def list_all_iff)
  ultimately have "flash_partition st part = Replied False \<or> fb_mmc_target st part" by (simp only: flash_partition_def Let_def if_False) auto
  moreover have "\<not> fb_mmc_target st part"
  proof (cases "mmc_dev st")
    case (Some pt)
    then show ?thesis
      using \<open>part \<noteq> ascii ''gpt''\<close> \<open>part \<noteq> ascii ''mbr''\<close> \<open>part \<notin> _\<close> ok unfolding fb_mmc_target_def Some storage_ok_def by (cases pt) simp_all
  qed (simp add: fb_mmc_target_def)
  ultimately show ?thesis by blast
qed

end
