(* ===== verification/Lock_Runs.thy ===== *)
theory Lock_Runs
  imports Lock_Safety
begin

text \<open>
  Sequences of fastboot commands on a locked device: none of them unlocks it before a signature was downloaded.
\<close>

section \<open>No unlock without a signature\<close>

definition decoded :: "'k board \<Rightarrow> fb_state \<Rightarrow> 8 word list option" where
  "decoded B t = (case base64_decode B (downloaded t) (length (downloaded t)) of (ok, out) \<Rightarrow> if ok then Some out else None)"

definition cert_from :: "'k board \<Rightarrow> 8 word list \<Rightarrow> fb_state list \<Rightarrow> 8 word list \<Rightarrow> bool" where
  "cert_from B c0 ts cert \<longleftrightarrow> cert = c0 \<or> (\<exists>t \<in> set ts. decoded B t = Some cert)"

text \<open>A download during the session was a signature of the unlock code, or of the one-time code under a certified key.\<close>

definition signature_shown :: "'k board \<Rightarrow> 8 word list \<Rightarrow> fb_state list \<Rightarrow> bool" where
  "signature_shown B c0 ts \<longleftrightarrow> (\<exists>t \<in> set ts. unlock_signed B (downloaded t)) \<or>
     (\<exists>t \<in> set ts. \<exists>sig cert. decoded B t = Some sig \<and> cert_from B c0 ts cert \<and> onetime_signed B cert sig)"

definition still_locked :: "'k board \<Rightarrow> 8 word list \<Rightarrow> fb_state list \<Rightarrow> lock_state \<Rightarrow> bool" where
  "still_locked B c0 ts l \<longleftrightarrow> dev_ok (idme l) \<and> \<not> stored_signed B l \<and> code_kept B l \<and> cert_from B c0 ts (one_tu_cert l) \<and>
     (signed_code_available l \<longrightarrow> (\<exists>t \<in> set ts. decoded B t = Some (signed_one_tu_code l)))"

lemma still_locked_mono: "still_locked B c0 ts l \<Longrightarrow> still_locked B c0 (t # ts) l"
  by (auto simp: still_locked_def cert_from_def)

lemma cert_from_mono: "cert_from B c0 ts cert \<Longrightarrow> cert_from B c0 (t # ts) cert"
  by (auto simp: cert_from_def)

lemma signature_shown_mono: "signature_shown B c0 ts \<Longrightarrow> signature_shown B c0 (t # ts)"
  unfolding signature_shown_def using cert_from_mono [of B c0 ts _ t] by (metis list.set_intros(2))

lemma still_locked_same: "still_locked B c0 ts l \<Longrightarrow> same_lock B l l' \<Longrightarrow> still_locked B c0 ts l'"
  by (simp add: still_locked_def same_lock_def stored_signed_def)

lemma still_locked_checks:
  assumes "still_locked B c0 ts l" and "\<not> signature_shown B c0 ts" and "amzn_target_device_type B = AMZN_PRODUCTION_DEVICE"
    and "is_locked_production_device B l = Inr (locked, l')"
  shows "locked \<and> still_locked B c0 ts l'"
proof -
  have "code_kept B l" using assms(1) by (simp add: still_locked_def)
  note r = is_locked_Inr [OF assms(4) this]
  have "\<not> (signed_code_available l \<and> onetime_signed B (one_tu_cert l) (signed_one_tu_code l))"
    using assms(1,2) by (auto simp: still_locked_def signature_shown_def)
  moreover have "\<not> stored_signed B l" using assms(1) by (simp add: still_locked_def)
  ultimately show ?thesis using r assms(3) still_locked_same [OF assms(1)] by blast
qed

lemma locked_flash_unlock:
  assumes l: "still_locked B c0 ts (fb_lock s)" and part: "behind 0x3a cmd = Some part" "starts_with part (ascii ''unlock'')"
    and f: "cb_flash B envs cmd s = Inr (r, s')"
  shows "(\<forall>part. r \<noteq> Partition_Write part) \<and> (signature_shown B c0 (s # ts) \<or> still_locked B c0 (s # ts) (fb_lock s'))"
proof -
  obtain ret reg where v: "amzn_verify_unlock B (downloaded s) (sha256_registered (fb_lock s)) = Inr (ret, reg)"
    using f part by (auto simp: cb_flash_def split: sum.splits)
  show ?thesis
  proof (cases "ret = 0")
    case True
    then have "signature_shown B c0 (s # ts)" using verify_unlock_Inr [OF v] by (auto simp: signature_shown_def)
    then show ?thesis using f part v by (auto simp: cb_flash_def Let_def split: prod.splits if_splits)
  next
    case False
    then have "s' = set_registered s reg \<and> r = Replied False" using f part v by (simp add: cb_flash_def Let_def)
    moreover have "still_locked B c0 ts (fb_lock (set_registered s reg))"
      using still_locked_same [OF l same_lock_registered] by (simp add: set_registered_def)
    then have "still_locked B c0 (s # ts) (fb_lock (set_registered s reg))" by (rule still_locked_mono)
    ultimately show ?thesis by simp
  qed
qed

lemma still_locked_cert:
  assumes "still_locked B c0 ts l" and "decoded B s = Some c"
  shows "still_locked B c0 (s # ts) (l\<lparr>one_tu_cert := c\<rparr>)"
  using assms by (auto simp: still_locked_def cert_from_def stored_signed_def code_kept_def)

lemma still_locked_code:
  assumes "still_locked B c0 ts l" and "decoded B s = Some c"
  shows "still_locked B c0 (s # ts) (l\<lparr>signed_one_tu_code := c, signed_code_available := True\<rparr>)"
  using assms by (auto simp: still_locked_def cert_from_def stored_signed_def code_kept_def)

lemma still_locked_stored:
  assumes "still_locked B c0 ts l" and "dev_ok dev" and "\<forall>c. stored_code dev = Some c \<longrightarrow> \<not> unlock_signed B c"
  shows "still_locked B c0 ts (l\<lparr>idme := dev\<rparr>)"
  using assms by (simp add: still_locked_def cert_from_def stored_signed_def code_kept_def)

lemma locked_flash_onetime:
  assumes l: "still_locked B c0 ts (fb_lock s)" and part: "behind 0x3a cmd = Some part" "\<not> starts_with part (ascii ''unlock'')"
    "starts_with part (ascii ''otucert'') \<or> starts_with part (ascii ''otucode'')"
    and f: "cb_flash B envs cmd s = Inr (r, s')"
  shows "(\<forall>part. r \<noteq> Partition_Write part) \<and> still_locked B c0 (s # ts) (fb_lock s')"
proof -
  have mono: "still_locked B c0 (s # ts) (fb_lock s)" using l by (rule still_locked_mono)
  have "r \<in> range Replied \<and> (fb_lock s' = fb_lock s \<or>
      (\<exists>c. decoded B s = Some c \<and> (fb_lock s' = (fb_lock s)\<lparr>one_tu_cert := c\<rparr> \<or>
         fb_lock s' = (fb_lock s)\<lparr>signed_one_tu_code := c, signed_code_available := True\<rparr>)))"
  proof (cases "starts_with part (ascii ''otucert'')")
    case True
    then show ?thesis
      using f part(1,2)
      by (auto simp: cb_flash_def amzn_set_onetime_unlock_cert_def amzn_onetime_unlock_b64_decode_def decoded_def overwrite_def
          split: prod.splits if_splits)
  next
    case False
    then show ?thesis
      using f part
      by (auto simp: cb_flash_def amzn_set_onetime_unlock_code_def amzn_onetime_unlock_b64_decode_def decoded_def overwrite_def
          split: prod.splits if_splits)
  qed
  then show ?thesis using mono still_locked_cert [OF l] still_locked_code [OF l] by fastforce
qed

lemma locked_flash:
  assumes l: "still_locked B c0 ts (fb_lock s)" and st: "storage_ok (fb_storage s)" and req: "unlock_request cmd"
    and f: "cb_flash B envs cmd s = Inr (r, s')"
  shows "(\<forall>part. r \<noteq> Partition_Write part) \<and> (signature_shown B c0 (s # ts) \<or> still_locked B c0 (s # ts) (fb_lock s'))"
proof (cases "behind 0x3a cmd")
  case None
  then show ?thesis using f still_locked_mono [OF l] by (auto simp: cb_flash_def)
next
  case (Some part)
  then have part: "list_ex (starts_with part) unlock_names \<or> cut_name part"
    using req by (auto simp: unlock_request_def)
  show ?thesis
  proof (cases "list_ex (starts_with part) unlock_names")
    case True
    then show ?thesis
      using locked_flash_unlock [OF l Some _ f] locked_flash_onetime [OF l Some _ _ f] by (auto simp: unlock_names_def)
  next
    case False
    then have "flash_partition (fb_storage s) part = Replied False" using part cut_not_written [OF st] by blast
    then have "r = Replied False \<and> s' = s"
      using f Some False unfolding cb_flash_def unlock_names_def by simp
    then show ?thesis using still_locked_mono [OF l] by simp
  qed
qed

lemma flash_storage: "cb_flash B envs cmd s = Inr (r, s') \<Longrightarrow> fb_storage s' = fb_storage s"
  by (auto simp: cb_flash_def set_registered_def set_idme_def overwrite_def Let_def split: option.splits sum.splits prod.splits if_splits)

lemma flags_storage: "cmd_oem_flags B envs cmd s = Inr (r, s') \<Longrightarrow> fb_storage s' = fb_storage s"
  by (auto simp: cmd_oem_flags_def set_idme_def Let_def split: option.splits sum.splits prod.splits if_splits)

lemma parse_value_same:
  assumes "parse_value B l ty md arg = Inr (rq, l')" and "code_kept B l"
  shows "same_lock B l l'"
proof (cases "starts_with arg (ascii ''print'') \<or> starts_with arg (ascii ''PRINT'')")
  case True
  then obtain k where "is_locked_production_device B l = Inr (k, l')"
    using assms(1) by (cases "is_locked_production_device B l") (auto simp: parse_value_def Let_def)
  then show ?thesis using is_locked_Inr [OF _ assms(2)] by blast
next
  case False
  then have "l' = l" using assms(1) unfolding parse_value_def by (simp split: if_splits)
  then show ?thesis by simp
qed

lemma parse_flags_same:
  assumes "parse_flags B l args = Inr (rq, l')" and "code_kept B l"
  shows "same_lock B l l'"
proof (cases args)
  case Nil
  obtain k where "is_locked_production_device B l = Inr (k, l')"
    using assms(1) unfolding parse_flags_def Nil by (cases "is_locked_production_device B l") auto
  then show ?thesis using is_locked_Inr [OF _ assms(2)] by blast
next
  case (Cons c cs)
  have "l' = l \<or> (\<exists>ty md arg. parse_value B l ty md arg = Inr (rq, l'))"
    using assms(1) unfolding parse_flags_def Cons Let_def by (auto split: prod.splits if_splits)
  then show ?thesis using parse_value_same [OF _ assms(2)] by auto
qed

lemma locked_flags:
  assumes l: "still_locked B c0 ts (fb_lock s)" and no: "\<not> signature_shown B c0 ts"
    and prod: "amzn_target_device_type B = AMZN_PRODUCTION_DEVICE" and f: "cmd_oem_flags B envs cmd s = Inr (r, s')"
  shows "still_locked B c0 ts (fb_lock s')"
proof (cases "arguments ''flags'' cmd")
  case None
  then show ?thesis using f l by (simp add: cmd_oem_flags_def)
next
  case (Some args)
  then obtain rq l1 where p: "parse_flags B (fb_lock s) args = Inr (rq, l1)"
    using f by (auto simp: cmd_oem_flags_def split: sum.splits)
  have kept: "code_kept B (fb_lock s)" using l by (simp add: still_locked_def)
  have l1: "still_locked B c0 ts l1" using still_locked_same [OF l parse_flags_same [OF p kept]] .
  obtain k l2 where k: "is_locked_production_device B l1 = Inr (k, l2)"
    using f p Some by (auto simp: cmd_oem_flags_def split: sum.splits)
  have l2: "k \<and> still_locked B c0 ts l2" using still_locked_checks [OF l1 no prod k] .
  have "snd (apply_flags env rq dev) = dev" if "rq_cmd rq \<noteq> FLAGS_CMD_SET" for env dev
    using that by (auto simp: apply_flags_def Let_def split: prod.splits)
  then have "apply_flags (envs 0) rq (idme l2) = (r', dev) \<Longrightarrow> rq_cmd rq \<noteq> FLAGS_CMD_SET \<Longrightarrow> dev = idme l2" for r' dev
    by (metis snd_conv)
  then have "fb_lock s' = l2"
    using f p k l2 Some by (cases l2) (auto simp: cmd_oem_flags_def set_idme_def Let_def split: if_splits prod.splits)
  then show ?thesis using l2 by simp
qed

lemma rx_handler_Inr:
  assumes l: "still_locked B c0 ts l" and no: "\<not> signature_shown B c0 ts"
    and prod: "amzn_target_device_type B = AMZN_PRODUCTION_DEVICE" and r: "rx_handler_command B l buf actual len = Inr (act, l')"
  shows "still_locked B c0 ts l' \<and> (\<forall>cb cmd. act = Run cb cmd \<longrightarrow> cb \<in> harmless \<or> (cb = CB_FLASH \<and> unlock_request cmd))"
proof (cases "dispatch (c_text buf)")
  case None
  then show ?thesis using r l by (auto simp: rx_handler_command_def)
next
  case (Some cb)
  then obtain q where q: "is_restricted_command_on_locked_hw B l (c_text buf) = Inr (q, l')"
    "act = (if q then Blocked_Command else if actual < len then Run cb (c_text (buf[actual := 0])) else Buffer_Overflow)"
    using r by (auto simp: rx_handler_command_def split: sum.splits)
  obtain k where k: "is_locked_production_device B l = Inr (k, l')" "q \<longleftrightarrow> k \<and> blocked (c_text buf)"
    using restricted_Inr [OF q(1)] by blast
  obtain m where "c_text (buf[actual := 0]) = take m (c_text buf)" using c_text_cut by blast
  then have "cb \<in> harmless \<or> (cb = CB_FLASH \<and> unlock_request (c_text (buf[actual := 0])))" if "\<not> blocked (c_text buf)"
    using dispatch_not_blocked [OF Some that] unlock_request_cut by metis
  then show ?thesis
    using still_locked_checks [OF l no prod k(1)] q(2) k(2) by (auto split: if_splits)
qed

lemma locked_step:
  assumes l: "still_locked B c0 ts (fb_lock s)" and no: "\<not> signature_shown B c0 ts" and st: "storage_ok (fb_storage s)"
    and prod: "amzn_target_device_type B = AMZN_PRODUCTION_DEVICE" and zeros: "\<not> unlock_signed B (replicate SIGNED_UNLOCK_CODE_LEN 0)"
    and step: "fb_step B s s'"
  shows "(signature_shown B c0 (s # ts) \<or> still_locked B c0 (s # ts) (fb_lock s')) \<and> fb_storage s' = fb_storage s"
  using step
proof cases
  case (packet buffer)
  then show ?thesis using still_locked_mono [OF l] by (simp add: rx_handler_dl_image_def Let_def)
next
  case (answer buf actual len act l')
  then show ?thesis using rx_handler_Inr [OF l no prod answer(3)] still_locked_mono by fastforce
next
  case (run buf actual len cb cmd l')
  let ?s1 = "s\<lparr>fb_lock := l'\<rparr>"
  have l1: "still_locked B c0 ts (fb_lock ?s1)" and cb: "cb \<in> harmless \<or> (cb = CB_FLASH \<and> unlock_request cmd)"
    using rx_handler_Inr [OF l no prod run(2)] by auto
  have st1: "storage_ok (fb_storage ?s1)" using st by simp
  have shown: "signature_shown B c0 (?s1 # ts) = signature_shown B c0 (s # ts)"
    "still_locked B c0 (?s1 # ts) x = still_locked B c0 (s # ts) x" for x
    by (simp_all add: signature_shown_def still_locked_def cert_from_def decoded_def downloaded_def)
  from run(3) show ?thesis
  proof cases
    case (flash envs r)
    then show ?thesis using locked_flash [OF l1 st1 _ flash(2)] cb shown flash_storage [OF flash(2)] by (auto simp: harmless_def)
  next
    case (partition envs part s1)
    then show ?thesis using locked_flash [OF l1 st1 _ partition(2)] cb by (auto simp: harmless_def)
  next
    case (relock envs r)
    have ok: "dev_ok (idme (fb_lock ?s1))" using l1 by (simp add: still_locked_def)
    obtain dev where s': "s' = set_idme ?s1 dev" using relock_keeps [OF ok relock(2)] by blast
    have "still_locked B c0 ts (fb_lock s')"
      using relock_keeps [OF ok relock(2)] still_locked_stored [OF l1, of dev] zeros by (auto simp: s' set_idme_def)
    then show ?thesis using still_locked_mono [of B c0 ts "fb_lock s'" s] s' by (simp add: set_idme_def)
  next
    case (flags envs r)
    show ?thesis using still_locked_mono [OF locked_flags [OF l1 no prod flags(2)]] flags_storage [OF flags(2)] by simp
  next
    case (download room r)
    then have "fb_lock s' = fb_lock ?s1 \<and> fb_storage s' = fb_storage s"
      by (auto simp: cb_download_def Let_def split: option.splits if_splits)
    then show ?thesis using still_locked_mono [OF l1] by simp
  next
    case quiet
    then show ?thesis using still_locked_mono [OF l1] by simp
  qed (use cb in \<open>auto simp: harmless_def\<close>)
qed

lemma locked_run:
  assumes "fb_run B s0 ts s" and "amzn_target_device_type B = AMZN_PRODUCTION_DEVICE" and "storage_ok (fb_storage s0)"
    and "\<not> unlock_signed B (replicate SIGNED_UNLOCK_CODE_LEN 0)" and "still_locked B c0 [] (fb_lock s0)"
  shows "signature_shown B c0 ts \<or> (still_locked B c0 ts (fb_lock s) \<and> fb_storage s = fb_storage s0)"
  using assms(1)
proof induction
  case start
  then show ?case using assms(5) by simp
next
  case (more ts s s')
  then show ?case
    using locked_step [of B c0 ts s s'] assms(2-4) signature_shown_mono [of B c0 ts s] by metis
qed

end
