(* ===== verification/Unlock_Session.thy ===== *)
theory Unlock_Session
  imports Lock_Runs
begin

text \<open>
  The other direction: the holder of a signature of the unlock code unlocks the device, with a download, its data and a flash
  command.
\<close>

section \<open>Checks end\<close>

definition hash_total :: "'k board \<Rightarrow> bool" where
  "hash_total B \<longleftrightarrow> (\<forall>data. hash_memory B data \<noteq> None)"

lemma verify_code_total:
  assumes "hash_total B"
  shows "\<exists>ret reg'. amzn_verify_code_internal B data sig key reg = Inr (ret, reg')"
proof -
  obtain digest where "hash_memory B data = Some digest" using assms by (auto simp: hash_total_def)
  then show ?thesis by (auto simp: amzn_verify_code_internal_def split: option.split prod.split)
qed

lemma is_unlocked_total:
  assumes "hash_total B"
  shows "\<exists>u s'. amzn_target_is_unlocked B s = Inr (u, s')"
proof -
  obtain ret copied where g: "idme_get_var_external (idme s) UNLOCK_CODE SIGNED_UNLOCK_CODE_LEN = (ret, copied)" by fastforce
  have "\<exists>ret reg'. amzn_verify_unlock B sig reg = Inr (ret, reg')" for sig reg
    using verify_code_total [OF assms] by (auto simp: amzn_verify_unlock_def split: option.split)
  then obtain ret2 reg2 where "amzn_verify_unlock B (take SIGNED_UNLOCK_CODE_LEN (copied @ replicate SIGNED_UNLOCK_CODE_LEN 0))
      (sha256_registered s) = Inr (ret2, reg2)" by blast
  then have "amzn_target_is_unlocked B s = Inr (if ret \<noteq> 0 then (False, s) else (ret2 = 0, s\<lparr>sha256_registered := reg2\<rparr>))"
    using g by (simp add: amzn_target_is_unlocked_def Let_def)
  then show ?thesis by (metis surj_pair)
qed

lemma onetime_cert_total:
  assumes "hash_total B"
  shows "\<exists>ret reg'. amzn_verify_onetime_unlock_cert B cert reg = Inr (ret, reg')"
proof -
  obtain ret reg' where
    "amzn_verify_code_internal B (cert_body cert) (cert_signature cert) amzn_get_onetime_unlock_root_pubkey reg = Inr (ret, reg')"
    using verify_code_total [OF assms] by blast
  then show ?thesis
    by (auto simp: amzn_verify_onetime_unlock_cert_def amzn_get_onetime_unlock_pk_blacklist_def Let_def split: option.splits)
qed

lemma is_onetime_total:
  assumes "hash_total B"
  shows "\<exists>u s'. amzn_target_is_onetime_unlocked B s = Inr (u, s')"
proof -
  obtain ret reg where c: "amzn_verify_onetime_unlock_cert B (one_tu_cert s) (sha256_registered s) = Inr (ret, reg)"
    using onetime_cert_total [OF assms] by blast
  have "\<exists>ret s'. amzn_verify_onetime_unlock_code B (signed_one_tu_code s) s = Inr (ret, s')"
  proof (cases "amzn_get_one_tu_code B (s\<lparr>sha256_registered := reg\<rparr>) (ONETIME_UNLOCK_CODE_LEN + 1)")
    case None
    then show ?thesis using c by (simp add: amzn_verify_onetime_unlock_code_def Let_def)
  next
    case (Some x)
    obtain code s2 where x: "x = (code, s2)" by fastforce
    obtain ret2 reg2 where "amzn_verify_code_internal B code (signed_one_tu_code s) (pubkey (one_tu_cert s)) (sha256_registered s2) = Inr (ret2, reg2)"
      using verify_code_total [OF assms] by blast
    then show ?thesis using c Some x by (simp add: amzn_verify_onetime_unlock_code_def Let_def)
  qed
  then show ?thesis by (auto simp: amzn_target_is_onetime_unlocked_def)
qed

lemma is_locked_total:
  assumes "hash_total B"
  shows "\<exists>l s'. is_locked_production_device B s = Inr (l, s')"
proof -
  obtain u s1 where u: "amzn_target_is_unlocked B s = Inr (u, s1)" using is_unlocked_total [OF assms] by blast
  obtain o1 s2 where "amzn_target_is_onetime_unlocked B s1 = Inr (o1, s2)" using is_onetime_total [OF assms] by blast
  then show ?thesis using u by (auto simp: is_locked_production_device_def)
qed

section \<open>A signature is accepted and stored\<close>

lemma verify_unlock_signed: "unlock_signed B sig \<Longrightarrow> amzn_verify_unlock B sig reg = Inr (0, True)"
  by (auto simp: unlock_signed_def verifies_def amzn_verify_unlock_def amzn_verify_code_internal_def)

lemma stored_unlocked:
  assumes "stored_signed B s"
  shows "unlocked B s"
proof -
  obtain c where c: "stored_code (idme s) = Some c" "unlock_signed B c" using assms by (auto simp: stored_signed_def)
  then have "amzn_target_is_unlocked B s = Inr (True, s\<lparr>sha256_registered := True\<rparr>)"
    using verify_unlock_signed [OF c(2)]
    by (auto simp: amzn_target_is_unlocked_def stored_code_def Let_def split: prod.splits if_splits)
  then show ?thesis by (auto simp: unlocked_def is_locked_production_device_def)
qed

lemma auto_set_keeps:
  assumes ok: "dev_ok dev"
  shows "stored_code (snd (idme_auto_set_after_unlock env1 env2 dev)) = stored_code dev"
proof -
  obtain ret str dev1 where c1: "change_flags env1 FOS_FLAGS (\<lambda>fl. fl OR (FOS_FLAGS_ADB_ON OR FOS_FLAGS_ADB_ROOT)) [] dev = (ret, str, dev1)"
    by (metis prod_cases3)
  obtain ret2 str2 dev2 where c2: "change_flags env2 DEV_FLAGS (\<lambda>fl. fl OR DEV_FLAGS_ADB_USB_ON) str dev1 = (ret2, str2, dev2)"
    by (metis prod_cases3)
  have d1: "dev_ok dev1 \<and> stored_code dev1 = stored_code dev" using change_flags_keeps [OF ok _ _ c1] by simp
  then have "stored_code dev2 = stored_code dev" using change_flags_keeps [OF _ _ _ c2] by simp
  then show ?thesis using d1 c1 c2 by (simp add: idme_auto_set_after_unlock_def)
qed

definition has_code_item :: "idme_dev \<Rightarrow> bool" where
  "has_code_item dev \<longleftrightarrow> pidme_set dev \<and> funcs_set dev \<and>
     (\<exists>its it. table (gidme_buff dev) its \<and> lookup its UNLOCK_CODE = Some it \<and> length (it_data it) = SIGNED_UNLOCK_CODE_LEN)"

lemma update_ex_code:
  assumes dev: "has_code_item dev" and u: "idme_update_var_ex env dev (Some UNLOCK_CODE) (Some v) SIGNED_UNLOCK_CODE_LEN = (ret, dev')"
  shows "dev_ok dev' \<and> stored_code dev' = Some (map v [0..<SIGNED_UNLOCK_CODE_LEN])"
proof -
  let ?n = SIGNED_UNLOCK_CODE_LEN
  obtain its it where tab: "table (gidme_buff dev) its" and it: "lookup its UNLOCK_CODE = Some it" "length (it_data it) = ?n"
    using dev by (auto simp: has_code_item_def)
  have ok: "dev_ok dev" using dev by (auto simp: has_code_item_def dev_ok_def)
  note buf = update_ex_buffer [OF ok u]
  have m': "table (gidme_buff dev') (set_data its UNLOCK_CODE (\<lambda>_. field ?n v ?n))"
    "get_func_v2p0 UNLOCK_CODE ?n (gidme_buff dev') = (0, take ?n (field ?n v ?n))"
    using v2p0.read_after_update [OF tab UNLOCK_CODE_good it(1), of v ?n ?n] buf it(2) by auto
  then have ok': "dev_ok dev'" using buf by (auto simp: dev_ok_def)
  moreover have "field ?n v ?n = map v [0..<?n]" by (auto simp: field_def)
  ultimately show ?thesis using get_external [OF ok'] m'(2) by (simp add: stored_code_def)
qed

lemma flash_unlock_stores:
  assumes dev: "has_code_item (idme (fb_lock s))" and len: "download_bytes s = SIGNED_UNLOCK_CODE_LEN"
    and sig: "unlock_signed B (downloaded s)"
  shows "\<exists>r s'. cb_flash B envs (ascii ''flash:unlock'') s = Inr (Replied r, s') \<and> unlocked B (fb_lock s')"
proof -
  let ?s1 = "set_registered s True"
  obtain ret dev' where u: "idme_update_var_ex (envs 0) (idme (fb_lock s)) (Some UNLOCK_CODE) (Some (fb_buf s)) SIGNED_UNLOCK_CODE_LEN = (ret, dev')"
    by fastforce
  note dev' = update_ex_code [OF dev u]
  define d where "d = (if ret \<noteq> 0 then dev' else snd (idme_auto_set_after_unlock (envs 1) (envs 2) dev'))"
  have "stored_code d = Some (downloaded s)"
    using dev' auto_set_keeps [of dev' "envs 1" "envs 2"] len by (simp add: d_def downloaded_def)
  then have "unlocked B (fb_lock (set_idme ?s1 d))"
    using sig by (intro stored_unlocked) (simp add: stored_signed_def set_idme_def)
  moreover have "cb_flash B envs (ascii ''flash:unlock'') s = Inr (Replied (ret = 0), set_idme ?s1 d)"
    using u verify_unlock_signed [OF sig] by (simp add: cb_flash_def behind_def starts_with_def set_registered_def d_def)
  ultimately show ?thesis by blast
qed

section \<open>The session\<close>

text \<open>A command that is not restricted runs, on a locked device too; the buffer holds the command and a zero byte.\<close>

lemma command_runs:
  assumes "hash_total B" and "code_kept B l" and "dispatch cmd = Some cb" and "\<not> blocked cmd" and "0 \<notin> set cmd" and "length cmd < len"
  shows "\<exists>l'. rx_handler_command B l (cmd @ [0]) (length cmd) len = Inr (Run cb cmd, l') \<and> same_lock B l l'"
proof -
  have cmd: "c_text (cmd @ [0]) = cmd" "c_text ((cmd @ [0])[length cmd := 0]) = cmd"
    using assms(5) by (auto simp: c_text_def takeWhile_append intro!: takeWhile_eq_all_conv [THEN iffD2])
  obtain k l' where k: "is_locked_production_device B l = Inr (k, l')" using is_locked_total [OF assms(1)] by blast
  then have "is_restricted_command_on_locked_hw B l cmd = Inr (k \<and> blocked cmd, l')"
    by (simp add: is_restricted_command_on_locked_hw_def blocked_def amzn_extends_fastboot_whitelist_def amzn_extends_fastboot_blacklist_def)
  then have "rx_handler_command B l (cmd @ [0]) (length cmd) len = Inr (Run cb cmd, l')"
    using assms(3,4,6) unfolding rx_handler_command_def cmd Let_def by simp
  then show ?thesis using is_locked_Inr [OF k assms(2)] by blast
qed

definition download_command :: "8 word list" where
  "download_command = ascii ''download:00000100''"

lemma download_command_facts:
  "dispatch download_command = Some CB_DOWNLOAD" "\<not> blocked download_command" "0 \<notin> set download_command" "length download_command = 17"
  "cb_download 256 download_command s = (Replied True, s\<lparr>download_size := 256, download_bytes := 0\<rparr>)"
  by (simp_all add: download_command_def dispatch_def cmd_dispatch_info_def starts_with_def blocked_def blacklist_def
      cb_download_def behind_def simple_strtoul_def isxdigit_def is_digit_def hexval_def)

lemma unlock_command_facts:
  "dispatch (ascii ''flash:unlock'') = Some CB_FLASH" "\<not> blocked (ascii ''flash:unlock'')" "0 \<notin> set (ascii ''flash:unlock'')"
  "length (ascii ''flash:unlock'') = 12"
  by (simp_all add: dispatch_def cmd_dispatch_info_def starts_with_def blocked_def whitelist_def)

lemma packet_downloads:
  assumes "download_size s = length sig" and "download_bytes s = 0"
  shows "downloaded (rx_handler_dl_image sig s) = sig" "download_bytes (rx_handler_dl_image sig s) = length sig"
    "download_size (rx_handler_dl_image sig s) = 0" "fb_lock (rx_handler_dl_image sig s) = fb_lock s"
proof -
  have dl: "rx_handler_dl_image sig s =
      s\<lparr>fb_buf := memcpy (fb_buf s) 0 (cstring sig) 0 (length sig), download_bytes := length sig, download_size := 0\<rparr>"
    using assms by (simp add: rx_handler_dl_image_def Let_def)
  show "downloaded (rx_handler_dl_image sig s) = sig"
    unfolding dl downloaded_def by (intro nth_equalityI) (simp_all add: memcpy_def cstring_def)
qed (use assms in \<open>simp_all add: rx_handler_dl_image_def Let_def\<close>)

lemma unlock_run:
  assumes hash: "hash_total B" and kept: "code_kept B (fb_lock s0)" and dev: "has_code_item (idme (fb_lock s0))"
    and idle: "download_size s0 = 0" and len: "length sig = SIGNED_UNLOCK_CODE_LEN" and sig: "unlock_signed B sig"
  shows "\<exists>s1 s2 s3. fb_run B s0 [s2, s1, s0] s3 \<and> downloaded s2 = sig \<and> unlocked B (fb_lock s3)"
proof -
  obtain l1 where l1: "rx_handler_command B (fb_lock s0) (download_command @ [0]) (length download_command) 4096 = Inr (Run CB_DOWNLOAD download_command, l1)"
    "same_lock B (fb_lock s0) l1"
    using command_runs [OF hash kept download_command_facts(1-3), of 4096] by (auto simp: download_command_facts(4))
  define s1 where "s1 = s0\<lparr>fb_lock := l1, download_size := 256, download_bytes := 0\<rparr>"
  have "callback_step B CB_DOWNLOAD download_command (s0\<lparr>fb_lock := l1\<rparr>) s1"
    using callback_step.download [OF download_command_facts(5)] by (simp add: s1_def)
  then have step1: "fb_step B s0 s1" by (rule fb_step.run [OF idle l1(1)])
  define s2 where "s2 = rx_handler_dl_image sig s1"
  have step2: "fb_step B s1 s2" unfolding s2_def by (rule fb_step.packet) (simp add: s1_def)
  have s2: "downloaded s2 = sig" "download_bytes s2 = SIGNED_UNLOCK_CODE_LEN" "download_size s2 = 0" "fb_lock s2 = l1"
    using packet_downloads [of s1 sig] len by (simp_all add: s2_def s1_def SIGNED_UNLOCK_CODE_LEN_def)
  have "code_kept B (fb_lock s2)" using kept l1(2) s2(4) by (simp add: same_lock_def)
  then obtain l2 where l2: "rx_handler_command B (fb_lock s2) (ascii ''flash:unlock'' @ [0]) (length (ascii ''flash:unlock'')) 4096 =
      Inr (Run CB_FLASH (ascii ''flash:unlock''), l2)" "same_lock B (fb_lock s2) l2"
    using command_runs [OF hash _ unlock_command_facts(1-3), of "fb_lock s2" 4096] unfolding unlock_command_facts(4) by auto
  let ?s2 = "s2\<lparr>fb_lock := l2\<rparr>"
  have "idme (fb_lock ?s2) = idme (fb_lock s0)" using l1(2) l2(2) s2(4) by (simp add: same_lock_def)
  moreover have "downloaded ?s2 = downloaded s2" by (simp add: downloaded_def)
  ultimately obtain r s3 where s3: "cb_flash B undefined (ascii ''flash:unlock'') ?s2 = Inr (Replied r, s3)" "unlocked B (fb_lock s3)"
    using flash_unlock_stores [of ?s2 B undefined] dev s2(1,2) sig by auto
  have "fb_step B s2 s3" using fb_step.run [OF s2(3) l2(1)] callback_step.flash [OF s3(1)] by blast
  then have "fb_run B s0 [s2, s1, s0] s3" using step1 step2 by (intro fb_run.intros)
  then show ?thesis using s2(1) s3(2) by blast
qed

end
