(* ===== verification/Lock_Props.thy ===== *)
theory Lock_Props
  imports Unlock_Session
begin

text \<open>
  The properties of the lock, with a sample device: a production board whose verification accepts the signatures that start with
  one, and a table with the item of the unlock code.
\<close>

section \<open>The sample device\<close>

definition sample_board :: "unit board" where
  "sample_board = \<lparr>rsa_import = \<lambda>_. Some (), rsa_verify_hash = \<lambda>_ sig _. (0, if take 1 sig = [1] then 1 else 0),
     hash_memory = \<lambda>data. Some (take 32 data), base64_decode = \<lambda>bs _. (False, []), base64_encode = \<lambda>bs n. Some (take n bs),
     fortuna = \<lambda>_ n. Some (replicate n 0), plat_alloc = True, hw_sha256 = \<lambda>_. replicate 32 0, chip_id = Some (replicate 16 0),
     cfg10 = 0x2000000, timer = 0\<rparr>"

definition code_block :: bytes where
  "code_block = cstring (IDME_MAGIC_NUMBER @ IDME_VERSION_2P1 @ [0, 1, 0, 0, 0] @ UNLOCK_CODE @ [0, 0, 0, 0, 0] @
     [0, 1, 0, 0, 1, 0, 0, 0, 36, 1, 0, 0])"

definition code_item :: item where
  "code_item = \<lparr>it_name = UNLOCK_CODE, it_exportable = 1, it_permission = 292, it_data = replicate 256 0\<rparr>"

definition code_dev :: idme_dev where
  "code_dev = \<lparr>gidme_buff = code_block, pidme_set = True, funcs_set = True, dev_tree_set = True, boot_block = code_block\<rparr>"

definition sample_lock :: lock_state where
  "sample_lock = \<lparr>idme = code_dev, sha256_registered = False, one_tu_cert = [], signed_one_tu_code = [], signed_code_available = False,
     code_generated = False, one_tu_code = [], lockdown_commands = False\<rparr>"

definition sample_fb :: fb_state where
  "sample_fb = \<lparr>fb_lock = sample_lock,
     fb_storage = \<lparr>dynamic_partition = False, is_mainstorage_emmc = True, mmc_dev = Some PART_TYPE_AML,
       partition_names = map ascii [''boot'', ''system'', ''data'']\<rparr>,
     fb_buf = \<lambda>_. 0, download_size = 0, download_bytes = 0\<rparr>"

definition sample_signature :: "8 word list" where
  "sample_signature = 1 # replicate 255 0"

lemmas code_defs = code_block_def IDME_MAGIC_NUMBER_def IDME_VERSION_2P1_def UNLOCK_CODE_def ITEMS_NUM_OFFSET_def cstring_def

lemma code_table: "table code_block [code_item]"
proof -
  have "\<forall>i < 8. code_block i = IDME_MAGIC_NUMBER ! i" unfolding all_less_list by (simp add: code_defs upt_rec)
  moreover have "items_num code_block = 1" by (simp add: items_num_def load32_def code_defs)
  moreover have "\<forall>i < 16. code_block (16 + i) = cstring UNLOCK_CODE i"
    unfolding all_less_list by (simp add: code_defs upt_rec)
  moreover have "\<forall>i < 256. code_block (44 + i) = replicate 256 0 ! i" by (simp add: code_defs)
  moreover have "load32 code_block 32 = 256" "load32 code_block 36 = 1" "load32 code_block 40 = 292"
    by (simp_all add: load32_def code_defs)
  ultimately show ?thesis
    by (simp add: table_def CONFIG_IDME_SIZE_def item_at_def item_size_def item_exportable_def item_permission_def code_item_def)
qed

lemma code_dev_ok: "dev_ok code_dev" "has_code_item code_dev"
proof -
  have "lookup [code_item] UNLOCK_CODE = Some code_item \<and> length (it_data code_item) = SIGNED_UNLOCK_CODE_LEN"
    by (simp add: lookup_def code_item_def SIGNED_UNLOCK_CODE_LEN_def)
  then show "has_code_item code_dev" "dev_ok code_dev" using code_table by (auto simp: has_code_item_def dev_ok_def code_dev_def)
qed

lemma sample_verifies: "verifies sample_board data sig key \<longleftrightarrow> data \<noteq> [] \<and> key \<noteq> [] \<and> take 1 sig = [1]"
  by (auto simp: verifies_def sample_board_def)

lemma sample_unlock_code: "\<exists>c. amzn_get_unlock_code sample_board UNLOCK_CODE_LEN = Some c \<and> c \<noteq> []"
  by (simp add: amzn_get_unlock_code_def UNLOCK_CODE_LEN_def sample_board_def Let_def hex8_def upt_rec)

lemma sample_signed: "unlock_signed sample_board sig \<longleftrightarrow> take 1 sig = [1]"
  using sample_unlock_code by (auto simp: unlock_signed_def sample_verifies)

lemma sample_production: "amzn_target_device_type sample_board = AMZN_PRODUCTION_DEVICE"
  by (simp add: amzn_target_device_type_def anti_rollback_enabled_def sample_board_def)

lemma sample_not_stored: "\<not> stored_signed sample_board sample_lock"
proof -
  have "stored_code code_dev = Some (replicate SIGNED_UNLOCK_CODE_LEN 0)"
    using get_external [OF code_dev_ok(1)] v2p0.get_refines [OF code_table UNLOCK_CODE_good]
    by (simp add: stored_code_def code_dev_def lookup_def code_item_def SIGNED_UNLOCK_CODE_LEN_def)
  then show ?thesis by (simp add: stored_signed_def sample_lock_def sample_signed SIGNED_UNLOCK_CODE_LEN_def take_Cons')
qed

lemma sample_hash: "hash_total sample_board"
  by (simp add: hash_total_def sample_board_def)

lemma sample_storage: "storage_ok (fb_storage sample_fb)"
  by (simp add: storage_ok_def sample_fb_def cut_name_def unlock_names_def)

lemma flash_request_writes:
  assumes "unlock_request cmd" and "cb_flash B envs cmd s = Inr (Partition_Write part, s')"
  shows "cut_name part"
proof -
  obtain p where p: "behind 0x3a cmd = Some p" "list_ex (starts_with p) unlock_names \<or> cut_name p"
    using assms by (auto simp: unlock_request_def cb_flash_def)
  have "\<not> list_ex (starts_with p) unlock_names \<and> flash_partition (fb_storage s) p = Partition_Write part"
    using assms(2) p(1)
    by (auto simp: cb_flash_def unlock_names_def Let_def split: sum.splits prod.splits if_splits)
  moreover have "cut_name p \<Longrightarrow> part = p"
    using calculation cut_name_other(3,4) by (auto simp: flash_partition_def Let_def split: if_splits)
  ultimately show ?thesis using p(2) by blast
qed

section \<open>The counters of a limited unlock\<close>

lemma unlock_code_length: "amzn_get_unlock_code B len = Some c \<Longrightarrow> length c = 16"
  by (auto simp: amzn_get_unlock_code_def Let_def hex8_def split: if_splits option.splits)

lemma unlock_code_room: "amzn_get_unlock_code B UNLOCK_CODE_LEN = Some c \<Longrightarrow> amzn_get_unlock_code B 16 = None"
  by (simp add: amzn_get_unlock_code_def)

lemma limited_first:
  assumes "amzn_get_unlock_code B UNLOCK_CODE_LEN = Some c" and "lo \<le> hi"
    and "amzn_verify_code_internal B c sig amzn_get_unlock_key reg = Inr (ret, reg')"
  shows "amzn_verify_limited_unlock (Suc (Suc k)) B sig lo hi reg =
    Some (Inr (if ret = 0 then 0 else if lo = hi \<and> hi \<noteq> - 1 then ret else - ERR_UNLOCK_GET_CODE_FAIL, reg'))"
proof -
  have "lo + 1 \<le> hi \<longleftrightarrow> \<not> (lo = hi \<and> hi \<noteq> - 1)"
  proof (cases "lo = - 1")
    case True
    then show ?thesis using assms(2) by (simp add: word_order.extremum_unique)
  next
    case False
    then have "unat (lo + 1) = Suc (unat lo)" by (simp add: unatSuc add.commute [of lo] eq_neg_iff_add_eq_0)
    then have "lo + 1 \<le> hi \<longleftrightarrow> unat lo \<noteq> unat hi" using assms(2) by (auto simp: word_le_nat_alt)
    then show ?thesis using False by (auto simp: word_unat_eq_iff)
  qed
  then show ?thesis
    using assms unlock_code_room [OF assms(1)] unlock_code_length [OF assms(1)]
    by (auto simp: amzn_verify_limited_unlock_def amzn_get_limited_unlock_code_def)
qed

section \<open>Properties\<close>







text \<open>C39 a limited unlock checks one counter only, since the length of the code is not reset for the second: an empty range of counters
  counts as unlocked, and any other range as the first counter decides.\<close>

theorem limited_unlock_first_counter:
  assumes "amzn_get_unlock_code B UNLOCK_CODE_LEN = Some c" and "amzn_verify_code_internal B c sig amzn_get_unlock_key reg = Inr (ret, reg')"
  shows "amzn_verify_limited_unlock (Suc (Suc k)) B sig lo hi reg =
    Some (Inr (if hi < lo then (0, reg)
               else (if ret = 0 then 0 else if lo = hi \<and> hi \<noteq> - 1 then ret else - ERR_UNLOCK_GET_CODE_FAIL, reg')))"
  using limited_first [OF assms(1) _ assms(2)]
  by (cases "hi < lo") (simp_all add: amzn_verify_limited_unlock_def not_le [symmetric])

theorem limited_unlock_first_counter_witness:
  "amzn_verify_limited_unlock (Suc (Suc 0)) sample_board [0] 0 5 False = Some (Inr (- ERR_UNLOCK_GET_CODE_FAIL, True)) \<and>
   amzn_verify_limited_unlock (Suc (Suc 0)) sample_board [0] 5 0 False = Some (Inr (0, False)) \<and>
   amzn_verify_limited_unlock (Suc (Suc 0)) sample_board [1] 0 5 False = Some (Inr (0, True))"
proof -
  obtain c where c: "amzn_get_unlock_code sample_board UNLOCK_CODE_LEN = Some c" "c \<noteq> []" using sample_unlock_code by blast
  have "amzn_verify_code_internal sample_board c sig amzn_get_unlock_key False =
      Inr (if take 1 sig = [1] then 0 else - ERR_UNLOCK_RSA_VERIFY_FAIL, True)" if "sig \<noteq> []" for sig
    using that c(2) by (simp add: amzn_verify_code_internal_def sample_board_def)
  then show ?thesis
    using limited_unlock_first_counter [OF c(1), of "[0]" False _ _ 0] limited_unlock_first_counter [OF c(1), of "[1]" False _ _ 0]
    by (simp add: unlock_errors)
qed

end
