(* ===== verification/Image_Verify.thy ===== *)
theory Image_Verify
  imports Unlock Boot_Certs
begin

text \<open>
  The check of an image: \<^verbatim>\<open>features/secure_boot/image_verify.c\<close> and \<^verbatim>\<open>image_verify_ltc.c\<close>.  The list nodes of
  libtomcrypt are trees here: the list of a node and those behind it is a list of trees, the null pointer the empty list.  The data of a
  node is memory, so that a comparison reads what the code reads; the array of elements a rescan builds is kept as such.  The functions
  of libtomcrypt and the allocator are arguments, gathered in the record \<open>ltc\<close>.  Giving memory back is not modelled.
\<close>

unbundle bit_operations_syntax

section \<open>Nodes\<close>

datatype asn1_type = LTC_ASN1_BIT_STRING | LTC_ASN1_OBJECT_IDENTIFIER | LTC_ASN1_PRINTABLE_STRING | LTC_ASN1_UTF8_STRING
  | LTC_ASN1_SEQUENCE | LTC_ASN1_SET | LTC_ASN1_CONSTRUCTED | LTC_ASN1_CONTEXT_SPECIFIC | LTC_ASN1_OTHER nat

datatype asn1_data = Null | Mem bytes | Elems "asn1_elem list"
  and asn1_elem = Elem asn1_type asn1_data nat nat

text \<open>A node with its type, data, size and tag, whether its parent pointer is set, and its children.\<close>

datatype asn1 = Asn1 (ty: asn1_type) (dat: asn1_data) (siz: nat) (used: nat) (linked: bool) (child: "asn1 list")

record ltc =
  xmalloc :: "nat \<Rightarrow> bool"
  fresh :: bytes
  der_length_sequence :: "asn1_data \<Rightarrow> nat \<Rightarrow> nat option"
  der_encode_sequence_ex :: "asn1_data \<Rightarrow> nat \<Rightarrow> nat \<Rightarrow> 8 word list option"
  der_decode_sequence_flexi :: "bytes \<Rightarrow> nat \<Rightarrow> asn1 list option"
  sha256 :: "8 word list \<Rightarrow> 8 word list"
  mp_init :: bool
  mp_read_radix :: "bytes \<Rightarrow> nat option"
  mp_unsigned_bin_size :: "nat \<Rightarrow> nat"
  mp_to_unsigned_bin :: "nat \<Rightarrow> 8 word list option"
  xmem_neq :: "8 word list \<Rightarrow> 8 word list \<Rightarrow> int"

text \<open>An array of \<^verbatim>\<open>unsigned long\<close> in memory.\<close>

definition le64 :: "nat \<Rightarrow> 8 word list" where
  "le64 n = map (\<lambda>i. of_nat (n div 256 ^ i)) [0..<8]"

definition oid_bytes :: "nat list \<Rightarrow> 8 word list" where
  "oid_bytes arcs = concat (map le64 arcs)"

definition data_is :: "asn1_data \<Rightarrow> 8 word list \<Rightarrow> bool" where
  "data_is d bs = (case d of Mem m \<Rightarrow> map m [0..<length bs] = bs | _ \<Rightarrow> False)"

definition data_mem :: "asn1_data \<Rightarrow> bytes" where
  "data_mem d = (case d of Mem m \<Rightarrow> m | _ \<Rightarrow> \<lambda>_. 0)"

section \<open>Search in a certificate\<close>

text \<open>\<^verbatim>\<open>find_node\<close>: the first node for which the function holds, children before their node, with the nodes above it and behind it.\<close>

fun find_node :: "(asn1 \<Rightarrow> bool) \<Rightarrow> asn1 list \<Rightarrow> asn1 list \<Rightarrow> (asn1 list \<times> asn1 \<times> asn1 list) option" where
  "find_node f ps [] = None"
| "find_node f ps (Asn1 t d n u k cs # ls) =
     (case find_node f (Asn1 t d n u k cs # ps) cs of
        Some r \<Rightarrow> Some r
      | None \<Rightarrow> if f (Asn1 t d n u k cs) then Some (ps, Asn1 t d n u k cs, ls) else find_node f ps ls)"

definition check_rsa_node :: "asn1 \<Rightarrow> bool" where
  "check_rsa_node p \<longleftrightarrow> ty p = LTC_ASN1_OBJECT_IDENTIFIER \<and> data_is (dat p) (oid_bytes [1, 2, 840, 113549, 1, 1, 1])"

definition check_san_node :: "asn1 \<Rightarrow> bool" where
  "check_san_node p \<longleftrightarrow> ty p = LTC_ASN1_OBJECT_IDENTIFIER \<and> data_is (dat p) (oid_bytes [2, 5, 29, 17])"

definition extract_cert_key_pub :: "'k board \<Rightarrow> ltc \<Rightarrow> asn1 list \<Rightarrow> 'k option" where
  "extract_cert_key_pub B L l =
     (case find_node check_rsa_node [] l of
        None \<Rightarrow> None
      | Some (ps, node, _) \<Rightarrow>
          (case ps of
             p # g # _ \<Rightarrow>
               if linked node \<and> linked p then
                 (case der_length_sequence L (dat g) (siz g) of
                    None \<Rightarrow> None
                  | Some len \<Rightarrow>
                      if \<not> xmalloc L len then None
                      else
                        (case der_encode_sequence_ex L (dat g) (siz g) len of
                           None \<Rightarrow> None
                         | Some key_seq \<Rightarrow> rsa_import B key_seq))
               else None
           | _ \<Rightarrow> None))"

section \<open>The signature of a certificate\<close>

text \<open>The loop over the bits, one byte each; \<open>y\<close> is their number and \<open>buf\<close> the byte under construction.\<close>

fun sig_loop :: "8 word list \<Rightarrow> nat \<Rightarrow> 64 word \<Rightarrow> 8 word list" where
  "sig_loop [] y buf = (if y mod 8 \<noteq> 0 then [ucast buf] else [])"
| "sig_loop (d # ds) y buf =
     (let buf1 = buf OR push_bit (7 - y mod 8) (if d \<noteq> 0 then 1 else 0) in
      if y mod 8 = 7 then ucast buf1 # sig_loop ds (Suc y) 0 else sig_loop ds (Suc y) buf1)"

definition decode_signature :: "ltc \<Rightarrow> asn1 \<Rightarrow> 8 word list option" where
  "decode_signature L l =
     (if ty l \<noteq> LTC_ASN1_BIT_STRING then None
      else
        case dat l of
          Mem data \<Rightarrow>
            if \<not> xmalloc L (siz l div 8 + (if siz l mod 8 \<noteq> 0 then 1 else 0) + 1) then None
            else Some (sig_loop (map data [0..<siz l]) 0 0)
        | _ \<Rightarrow> None)"

definition elem_of :: "asn1 \<Rightarrow> asn1_elem" where
  "elem_of p = Elem (ty p) (dat p) (siz p) (used p)"

text \<open>\<^verbatim>\<open>der_rescan_tree\<close>: the data of the nodes with children becomes the array of their children.\<close>

fun rescan_node :: "ltc \<Rightarrow> asn1 \<Rightarrow> asn1" where
  "rescan_node L (Asn1 t d n u k cs) =
     (if cs = [] then Asn1 t d n u k cs
      else
        let cs1 = map (rescan_node L) cs in
        if t \<in> {LTC_ASN1_SEQUENCE, LTC_ASN1_SET, LTC_ASN1_CONSTRUCTED} \<and> xmalloc L (length cs1)
        then Asn1 t (Elems (map elem_of cs1)) (length cs1) u k cs1
        else Asn1 t d n u k cs1)"

definition der_rescan_tree :: "ltc \<Rightarrow> asn1 list \<Rightarrow> asn1 list" where
  "der_rescan_tree L l = map (rescan_node L) l"

definition verify_certificate :: "'k board \<Rightarrow> ltc \<Rightarrow> asn1 list \<Rightarrow> 'k \<Rightarrow> int" where
  "verify_certificate B L l root_ca_key =
     (case l of
        [] \<Rightarrow> - 1
      | c # _ \<Rightarrow>
          (case child c of
             [] \<Rightarrow> - 1
           | tbs_node # rest \<Rightarrow>
               (case der_length_sequence L (dat tbs_node) (siz tbs_node) of
                  None \<Rightarrow> - 1
                | Some len \<Rightarrow>
                    if \<not> xmalloc L len then - 1
                    else
                      (case der_encode_sequence_ex L (dat tbs_node) (siz tbs_node) len of
                         None \<Rightarrow> - 1
                       | Some tbs \<Rightarrow>
                           (case rest of
                              _ # s # _ \<Rightarrow>
                                if ty s \<noteq> LTC_ASN1_BIT_STRING then - 1
                                else
                                  (case decode_signature L s of
                                     None \<Rightarrow> - 1
                                   | Some signature \<Rightarrow>
                                       if rsa_verify_hash B root_ca_key signature (sha256 L tbs) = (0, 1) then 0 else - 1)
                            | _ \<Rightarrow> - 1)))))"

section \<open>The hash in a certificate\<close>

text \<open>\<^verbatim>\<open>find_hash_string\<close>: the memory that holds the string, if it is found.\<close>

definition find_hash_string :: "ltc \<Rightarrow> bytes \<Rightarrow> nat \<Rightarrow> bytes option" where
  "find_hash_string L data data_len =
     (case der_decode_sequence_flexi L data data_len of
        None \<Rightarrow> None
      | Some [] \<Rightarrow> None
      | Some (san # _) \<Rightarrow>
          (case find (\<lambda>p. ty p = LTC_ASN1_CONTEXT_SPECIFIC \<and> used p = 0x86) (child san) of
             None \<Rightarrow> None
           | Some p \<Rightarrow>
               if \<not> xmalloc L (siz p + 1) then None
               else Some (memcpy (memset (fresh L) 0 0 (siz p + 1)) 0 (data_mem (dat p)) 0 (siz p))))"

text \<open>\<^verbatim>\<open>ufbl_ucstoascii\<close>: the text, or none for an empty string and for one with a character that is not plain.\<close>

fun ucs_loop :: "bytes \<Rightarrow> nat \<Rightarrow> nat \<Rightarrow> 8 word list option" where
  "ucs_loop m i 0 = Some []"
| "ucs_loop m i (Suc n) =
     (let w = load32 m (4 * i) in
      if w > 0x7f then None
      else if w = 0 then Some []
      else map_option (\<lambda>cs. of_nat w # cs) (ucs_loop m (Suc i) n))"

definition ufbl_ucstoascii :: "bytes \<Rightarrow> nat \<Rightarrow> 8 word list option" where
  "ufbl_ucstoascii ucs_buffer char_to_copy = (if char_to_copy = 0 then None else ucs_loop ucs_buffer 0 char_to_copy)"

section \<open>Images\<close>

definition CONFIG_DEVICE_PRODUCT :: "8 word list" where
  "CONFIG_DEVICE_PRODUCT = ascii ''lagunaf''"

definition tolower :: "8 word \<Rightarrow> 8 word" where
  "tolower c = (if 0x41 \<le> c \<and> c \<le> 0x5a then c + 0x20 else c)"

definition amzn_target_device_name :: "8 word list" where
  "amzn_target_device_name = map tolower (take 15 CONFIG_DEVICE_PRODUCT)"

text \<open>What stops the check other than an answer: the use of the root certificate that was not decoded, and of data that is not there.\<close>

datatype image_stop = UNINITIALISED_ROOT | NULL_DATA

text \<open>
  The loop over the subject: \<open>size\<close> is the length of the buffer for strings, \<open>ret\<close> the value to return, and the answer says
  whether the loop was left for the end of the function.
\<close>

definition PRODUCT :: "8 word list" where "PRODUCT = ascii ''product:''"

definition unit_text :: "asn1 \<Rightarrow> 8 word list option" where
  "unit_text e =
     (if ty e = LTC_ASN1_UTF8_STRING then ufbl_ucstoascii (data_mem (dat e)) (siz e)
      else Some (takeWhile (\<lambda>c. c \<noteq> 0) (map (data_mem (dat e)) [0..<siz e])))"

fun metadata_loop ::
  "ltc \<Rightarrow> (8 word list \<Rightarrow> bool) option \<Rightarrow> asn1 list \<Rightarrow> nat \<Rightarrow> int \<Rightarrow> image_stop + bool \<times> int" where
  "metadata_loop L handler [] size1 ret = Inr (False, ret)"
| "metadata_loop L handler (p # ps) size1 ret =
     (case child p of
        [] \<Rightarrow> metadata_loop L handler ps size1 ret
      | c # _ \<Rightarrow>
          (case child c of
             d # e # _ \<Rightarrow>
               if dat d = Null then Inl NULL_DATA
               else if \<not> data_is (dat d) (oid_bytes [2, 5, 4, 11]) then metadata_loop L handler ps size1 ret
               else if ty e \<noteq> LTC_ASN1_PRINTABLE_STRING \<and> ty e \<noteq> LTC_ASN1_UTF8_STRING then metadata_loop L handler ps size1 ret
               else if dat e = Null then metadata_loop L handler ps size1 ret
               else if siz e + 1 > size1 \<and> \<not> xmalloc L (siz e + 1) then Inr (True, ret)
               else
                 let size2 = max size1 (siz e + 1) in
                 (case unit_text e of
                    None \<Rightarrow> Inr (True, ret)
                  | Some str \<Rightarrow>
                      if (case handler of None \<Rightarrow> False | Some h \<Rightarrow> h str) then Inr (True, - 1)
                      else if \<not> starts_with str PRODUCT then metadata_loop L handler ps size2 ret
                      else if drop (length PRODUCT) str = amzn_target_device_name then metadata_loop L handler ps size2 0
                      else metadata_loop L handler ps size2 ret)
           | _ \<Rightarrow> metadata_loop L handler ps size1 ret))"

text \<open>The comparison of the hash, behind the loop.\<close>

definition check_hash :: "ltc \<Rightarrow> asn1 list \<Rightarrow> 8 word list \<Rightarrow> int" where
  "check_hash L l computed_hash =
     (case find_node check_san_node [] l of
        Some (_, _, n # _) \<Rightarrow>
          if dat n = Null then - 1
          else
            (case find_hash_string L (data_mem (dat n)) (siz n) of
               None \<Rightarrow> - 1
             | Some hash_string \<Rightarrow>
                 if \<not> mp_init L then - 1
                 else
                   (case mp_read_radix L (\<lambda>i. hash_string (9 + i)) of
                      None \<Rightarrow> - 1
                    | Some mp_hash \<Rightarrow>
                        if mp_unsigned_bin_size L mp_hash > SHA256_DIGEST_SIZE then - 1
                        else
                          (case mp_to_unsigned_bin L mp_hash of
                             None \<Rightarrow> - 1
                           | Some bin \<Rightarrow>
                               let cert_hash = take SHA256_DIGEST_SIZE (replicate (SHA256_DIGEST_SIZE - mp_unsigned_bin_size L mp_hash) 0 @ bin)
                               in if xmem_neq L computed_hash cert_hash = 0 then 0 else - 1)))
      | _ \<Rightarrow> - 1)"

definition amzn_verify_image ::
  "'k board \<Rightarrow> ltc \<Rightarrow> cert_type \<Rightarrow> 8 word list \<Rightarrow> bytes \<Rightarrow> (8 word list \<Rightarrow> bool) option \<Rightarrow> image_stop + int" where
  "amzn_verify_image B L ct computed_hash usercert handler =
     (let root_cert = amzn_get_kernel_cert ct in
      case der_decode_sequence_flexi L (cstring root_cert) (length root_cert) of
        None \<Rightarrow> Inl UNINITIALISED_ROOT
      | Some root \<Rightarrow>
          (case der_decode_sequence_flexi L usercert 2048 of
             None \<Rightarrow> Inr (- 1)
           | Some user \<Rightarrow>
               let l = der_rescan_tree L user in
               (case extract_cert_key_pub B L (der_rescan_tree L root) of
                  None \<Rightarrow> Inr (- 1)
                | Some root_ca_key \<Rightarrow>
                    if verify_certificate B L l root_ca_key \<noteq> 0 then Inr (- 1)
                    else
                      (case child (hd l) of
                         [] \<Rightarrow> Inr (- 1)
                       | tbs # _ \<Rightarrow>
                           if length (child tbs) < 6 then Inr (- 1)
                           else
                             let l5 = drop 5 (child tbs) in
                             if ty (hd l5) \<noteq> LTC_ASN1_SEQUENCE then Inr (- 1)
                             else
                               (case metadata_loop L handler (child (hd l5)) 0 (- 1) of
                                  Inl e \<Rightarrow> Inl e
                                | Inr (left, ret) \<Rightarrow>
                                    if left \<or> ret \<noteq> 0 then Inr ret else Inr (check_hash L l5 computed_hash))))))"

definition amzn_image_verify ::
  "'k board \<Rightarrow> ltc \<Rightarrow> 8 word list \<Rightarrow> bytes \<Rightarrow> (8 word list \<Rightarrow> bool) option \<Rightarrow> image_stop + int" where
  "amzn_image_verify B L img signature handler =
     (if \<not> plat_alloc B then Inr 0
      else
        let digest = hw_sha256 B img in
        case amzn_verify_image B L AMZN_PRODUCTION_CERT digest signature handler of
          Inl e \<Rightarrow> Inl e
        | Inr ret \<Rightarrow>
            if ret = 0 then Inr 1
            else if amzn_target_device_type B = AMZN_PRODUCTION_DEVICE then Inr 0
            else if amzn_target_device_type B \<noteq> AMZN_ENGINEERING_DEVICE then Inr 0
            else
              (case amzn_verify_image B L AMZN_ENGINEERING_CERT digest signature handler of
                 Inl e \<Rightarrow> Inl e
               | Inr ret2 \<Rightarrow> Inr (if ret2 = 0 then 1 else 0)))"

end
