(* ===== verification/Boot_Gate.thy ===== *)
theory Boot_Gate
  imports Image_Verify Fastboot
begin

text \<open>
  The command \<^verbatim>\<open>bootm\<close> up to its decision to boot: \<^verbatim>\<open>common/cmd_bootm.c\<close>, with the recognition of an image in
  \<^verbatim>\<open>common/image.c\<close>, \<^verbatim>\<open>common/image-android.c\<close> and \<^verbatim>\<open>lib/libfdt/fdt.c\<close>.  The memory is a function from
  addresses to bytes.
\<close>

unbundle bit_operations_syntax

section \<open>Formats\<close>

definition be32_at :: "bytes \<Rightarrow> nat \<Rightarrow> 32 word" where
  "be32_at m p = push_bit 24 (ucast (m p)) OR push_bit 16 (ucast (m (p + 1))) OR push_bit 8 (ucast (m (p + 2))) OR ucast (m (p + 3))"

definition IH_MAGIC :: "32 word" where "IH_MAGIC = 0x27051956"
definition FDT_MAGIC :: "32 word" where "FDT_MAGIC = 0xd00dfeed"
definition FDT_SW_MAGIC :: "32 word" where "FDT_SW_MAGIC = NOT FDT_MAGIC"
definition FDT_FIRST_SUPPORTED_VERSION :: "32 word" where "FDT_FIRST_SUPPORTED_VERSION = 0x10"
definition FDT_LAST_SUPPORTED_VERSION :: "32 word" where "FDT_LAST_SUPPORTED_VERSION = 0x11"

text \<open>The answer is whether the header is good; the fields are the words of the header.\<close>

definition fdt_check_header :: "bytes \<Rightarrow> bool" where
  "fdt_check_header m =
     (if be32_at m 0 = FDT_MAGIC then
        if be32_at m 20 < FDT_FIRST_SUPPORTED_VERSION then False
        else if be32_at m 24 > FDT_LAST_SUPPORTED_VERSION then False
        else True
      else if be32_at m 0 = FDT_SW_MAGIC then be32_at m 36 \<noteq> 0
      else False)"

datatype image_format = IMAGE_FORMAT_INVALID | IMAGE_FORMAT_LEGACY | IMAGE_FORMAT_FIT | IMAGE_FORMAT_ANDROID

definition ANDR_BOOT_MAGIC :: "8 word list" where "ANDR_BOOT_MAGIC = ascii ''ANDROID!''"

definition android_image_check_header :: "bytes \<Rightarrow> bool" where
  "android_image_check_header m \<longleftrightarrow> map m [0..<8] = ANDR_BOOT_MAGIC"

definition genimg_get_format :: "bytes \<Rightarrow> image_format" where
  "genimg_get_format m =
     (if be32_at m 0 = IH_MAGIC then IMAGE_FORMAT_LEGACY
      else if fdt_check_header m then IMAGE_FORMAT_FIT
      else if android_image_check_header m then IMAGE_FORMAT_ANDROID
      else IMAGE_FORMAT_INVALID)"

section \<open>Android images\<close>

definition hdr_field :: "bytes \<Rightarrow> nat \<Rightarrow> 32 word" where
  "hdr_field m p = of_nat (load32 m p)"

definition kernel_size :: "bytes \<Rightarrow> 32 word" where "kernel_size m = hdr_field m 8"
definition ramdisk_size :: "bytes \<Rightarrow> 32 word" where "ramdisk_size m = hdr_field m 16"
definition second_size :: "bytes \<Rightarrow> 32 word" where "second_size m = hdr_field m 24"
definition page_size :: "bytes \<Rightarrow> 32 word" where "page_size m = hdr_field m 36"

definition ALIGN :: "32 word \<Rightarrow> 32 word \<Rightarrow> 32 word" where
  "ALIGN x a = (x + (a - 1)) AND NOT (a - 1)"

text \<open>\<^verbatim>\<open>android_image_get_end\<close>: the end, counted from the start of the header.\<close>

definition android_image_get_end :: "bytes \<Rightarrow> 64 word" where
  "android_image_get_end m = ucast (page_size m) + ucast (ALIGN (kernel_size m) (page_size m)) +
     ucast (ALIGN (ramdisk_size m) (page_size m)) + ucast (ALIGN (second_size m) (page_size m))"

text \<open>\<^verbatim>\<open>image_verify\<close>: the certificate follows the image; the length of the image is passed as an \<^verbatim>\<open>unsigned int\<close>.\<close>

definition image_verify :: "'k board \<Rightarrow> ltc \<Rightarrow> bytes \<Rightarrow> nat \<Rightarrow> image_stop + int" where
  "image_verify B L mem addr =
     (let m = (\<lambda>i. mem (addr + i)) in
      if addr = 0 then Inr (- 1)
      else if genimg_get_format m \<noteq> IMAGE_FORMAT_ANDROID then Inr (- 1)
      else
        let imgsize = android_image_get_end m in
        case amzn_image_verify B L (map m [0..<unat (ucast imgsize :: 32 word)]) (\<lambda>i. m (unat imgsize + i)) None of
          Inl e \<Rightarrow> Inl e
        | Inr ret \<Rightarrow> Inr (if ret = 1 then 0 else - 1))"

text \<open>The check of a certificate registers SHA-256; it is reached for an Android image when there is memory for the digest.\<close>

definition registers_hash :: "'k board \<Rightarrow> bytes \<Rightarrow> nat \<Rightarrow> bool" where
  "registers_hash B mem addr \<longleftrightarrow> addr \<noteq> 0 \<and> genimg_get_format (\<lambda>i. mem (addr + i)) = IMAGE_FORMAT_ANDROID \<and> plat_alloc B"

section \<open>The command\<close>

text \<open>The text behind the number \<^verbatim>\<open>simple_strtoul\<close> reads.\<close>

definition strtoul_end :: "8 word list \<Rightarrow> 8 word list" where
  "strtoul_end cp =
     (case cp of
        [] \<Rightarrow> []
      | c # cs \<Rightarrow>
          if c = 0x30 then
            (case cs of
               x # d # ds \<Rightarrow> if x = 0x78 \<and> isxdigit d then dropWhile isxdigit (d # ds) else dropWhile isxdigit cs
             | _ \<Rightarrow> dropWhile isxdigit cs)
          else dropWhile isxdigit cp)"

datatype bootm_action = Sub_Command | Sig_Check int | Boot nat

datatype bootm_stop = Unlock_Stop unlock_stop | Image_Stop image_stop

definition GXB_IMG_LOAD_ADDR :: nat where "GXB_IMG_LOAD_ADDR = 0x1080000"

text \<open>\<^verbatim>\<open>do_bootm\<close> up to the signature check; \<open>args\<close> are the arguments behind the name of the command.\<close>

definition do_bootm :: "'k board \<Rightarrow> ltc \<Rightarrow> bytes \<Rightarrow> 8 word list list \<Rightarrow> lock_state \<Rightarrow> bootm_stop + bootm_action \<times> lock_state" where
  "do_bootm B L mem args s =
     (if (case args of
            [] \<Rightarrow> False
          | a # _ \<Rightarrow> strtoul_end a \<noteq> [] \<and> hd (strtoul_end a) \<noteq> 0x3a \<and> hd (strtoul_end a) \<noteq> 0x23)
      then Inr (Sub_Command, s)
      else
        let nLoadAddr = (case args of [] \<Rightarrow> GXB_IMG_LOAD_ADDR | a # _ \<Rightarrow> unat (ucast (simple_strtoul a) :: 32 word)) in
        case amzn_target_is_unlocked B s of
          Inl e \<Rightarrow> Inl (Unlock_Stop e)
        | Inr (u, s1) \<Rightarrow>
            (case amzn_target_is_onetime_unlocked B s1 of
               Inl e \<Rightarrow> Inl (Unlock_Stop e)
             | Inr (o1, s2) \<Rightarrow>
                 if u \<or> o1 then Inr (Boot nLoadAddr, s2)
                 else
                   (case image_verify B L mem nLoadAddr of
                      Inl e \<Rightarrow> Inl (Image_Stop e)
                    | Inr nRet \<Rightarrow>
                        let s3 = (if registers_hash B mem nLoadAddr then s2\<lparr>sha256_registered := True\<rparr> else s2)
                        in Inr (if nRet \<noteq> 0 then Sig_Check nRet else Boot nLoadAddr, s3))))"

end
