(* ===== verification/Boot_Safety.thy ===== *)
theory Boot_Safety
  imports Boot_Gate "HOL-Library.Monad_Syntax"
begin

text \<open>
  What an accepted image carries: a certificate that the root signed, whose subject names the product and whose alternative name is
  the hash of the image.
\<close>

section \<open>The certificate\<close>

definition root_key :: "'k board \<Rightarrow> ltc \<Rightarrow> cert_type \<Rightarrow> 'k option" where
  "root_key B L ct =
     (case der_decode_sequence_flexi L (cstring (amzn_get_kernel_cert ct)) (length (amzn_get_kernel_cert ct)) of
        None \<Rightarrow> None
      | Some root \<Rightarrow> extract_cert_key_pub B L (der_rescan_tree L root))"

text \<open>The third child of a certificate is a signature of the encoding of the first.\<close>

definition tbs_signed :: "'k board \<Rightarrow> ltc \<Rightarrow> 'k \<Rightarrow> asn1 \<Rightarrow> bool" where
  "tbs_signed B L key c \<longleftrightarrow> (\<exists>t a s rest len tbs sig. child c = t # a # s # rest \<and> der_length_sequence L (dat t) (siz t) = Some len \<and>
     xmalloc L len \<and> der_encode_sequence_ex L (dat t) (siz t) len = Some tbs \<and> decode_signature L s = Some sig \<and>
     rsa_verify_hash B key sig (sha256 L tbs) = (0, 1))"

lemma decode_signature_type: "decode_signature L s = Some sig \<Longrightarrow> ty s = LTC_ASN1_BIT_STRING"
  by (auto simp: decode_signature_def split: if_splits)

lemma verify_certificate_0: "verify_certificate B L l key = 0 \<longleftrightarrow> (\<exists>c cs. l = c # cs \<and> tbs_signed B L key c)"
  using decode_signature_type
  by (auto simp: verify_certificate_def tbs_signed_def split: list.splits option.splits if_splits)

definition signed_cert :: "'k board \<Rightarrow> ltc \<Rightarrow> cert_type \<Rightarrow> bytes \<Rightarrow> bool" where
  "signed_cert B L ct cert \<longleftrightarrow> (\<exists>user key c cs. der_decode_sequence_flexi L cert 2048 = Some user \<and> root_key B L ct = Some key \<and>
     der_rescan_tree L user = c # cs \<and> tbs_signed B L key c)"

text \<open>The subject and the fields behind it: the sixth child of the first child of the certificate.\<close>

definition subject_fields :: "ltc \<Rightarrow> bytes \<Rightarrow> asn1 list option" where
  "subject_fields L cert =
     (case der_decode_sequence_flexi L cert 2048 of
        None \<Rightarrow> None
      | Some user \<Rightarrow>
          let fields = child (hd (child (hd (der_rescan_tree L user)))) in
          if length fields < 6 \<or> ty (fields ! 5) \<noteq> LTC_ASN1_SEQUENCE then None else Some (drop 5 fields))"

lemma verify_image_eq:
  assumes "der_decode_sequence_flexi L (cstring (amzn_get_kernel_cert ct)) (length (amzn_get_kernel_cert ct)) = Some root"
  shows "amzn_verify_image B L ct h cert handler =
    (if signed_cert B L ct cert then
       case subject_fields L cert of
         None \<Rightarrow> Inr (- 1)
       | Some l5 \<Rightarrow>
           (case metadata_loop L handler (child (hd l5)) 0 (- 1) of
              Inl e \<Rightarrow> Inl e
            | Inr (left, ret) \<Rightarrow> if left \<or> ret \<noteq> 0 then Inr ret else Inr (check_hash L l5 h))
     else Inr (- 1))"
proof (cases "signed_cert B L ct cert")
  case True
  then obtain user key c cs where u: "der_decode_sequence_flexi L cert 2048 = Some user" "root_key B L ct = Some key"
    "der_rescan_tree L user = c # cs" "tbs_signed B L key c" by (auto simp: signed_cert_def)
  obtain t rest where t: "child c = t # rest" using u(4) by (auto simp: tbs_signed_def)
  have "extract_cert_key_pub B L (der_rescan_tree L root) = Some key" using u(2) assms by (simp add: root_key_def)
  moreover have "verify_certificate B L (c # cs) key = 0" using u(4) by (simp add: verify_certificate_0)
  moreover have "\<not> length (child t) < 6 \<Longrightarrow> hd (drop 5 (child t)) = child t ! 5" by (simp add: hd_drop_conv_nth)
  ultimately show ?thesis
    using True assms u(1,3) t unfolding amzn_verify_image_def subject_fields_def by (simp add: Let_def)
next
  case False
  then have "extract_cert_key_pub B L (der_rescan_tree L root) = Some key \<Longrightarrow> der_decode_sequence_flexi L cert 2048 = Some user \<Longrightarrow>
      verify_certificate B L (der_rescan_tree L user) key \<noteq> 0" for key user
    using assms by (auto simp: signed_cert_def root_key_def verify_certificate_0)
  then show ?thesis
    using False assms unfolding amzn_verify_image_def by (auto simp: Let_def split: option.split)
qed

section \<open>The subject\<close>

text \<open>An organisational unit of the subject and its text.\<close>

definition unit_node :: "asn1 \<Rightarrow> asn1 \<Rightarrow> bool" where
  "unit_node p e \<longleftrightarrow> (\<exists>c cs d rest. child p = c # cs \<and> child c = d # e # rest \<and> data_is (dat d) (oid_bytes [2, 5, 4, 11]) \<and>
     (ty e = LTC_ASN1_PRINTABLE_STRING \<or> ty e = LTC_ASN1_UTF8_STRING) \<and> dat e \<noteq> Null)"

lemma unit_node_unique: "unit_node p e \<Longrightarrow> unit_node p e' \<Longrightarrow> e' = e"
  by (auto simp: unit_node_def)

definition names_product :: "asn1 \<Rightarrow> bool" where
  "names_product p \<longleftrightarrow> (\<exists>e. unit_node p e \<and> unit_text e = Some (PRODUCT @ amzn_target_device_name))"

text \<open>A unit whose text cannot be made.\<close>

definition bad_unit :: "ltc \<Rightarrow> asn1 \<Rightarrow> bool" where
  "bad_unit L p \<longleftrightarrow> (\<exists>e. unit_node p e \<and> (unit_text e = None \<or> \<not> xmalloc L (siz e + 1)))"

lemma product_text: "str = PRODUCT @ name \<longleftrightarrow> starts_with str PRODUCT \<and> drop (length PRODUCT) str = name"
  by (metis append_eq_conv_conj starts_with_def)

lemma metadata_loop_other:
  "\<nexists>e. unit_node p e \<Longrightarrow> metadata_loop L handler (p # ps) n ret = Inl NULL_DATA \<or>
   metadata_loop L handler (p # ps) n ret = metadata_loop L handler ps n ret"
  by (auto simp: unit_node_def split: list.splits)

lemma metadata_loop_unit:
  "unit_node p e \<Longrightarrow> metadata_loop L handler (p # ps) n ret =
   (if n < siz e + 1 \<and> \<not> xmalloc L (siz e + 1) then Inr (True, ret)
    else
      case unit_text e of
        None \<Rightarrow> Inr (True, ret)
      | Some str \<Rightarrow>
          if (case handler of None \<Rightarrow> False | Some h \<Rightarrow> h str) then Inr (True, - 1)
          else metadata_loop L handler ps (max n (siz e + 1)) (if str = PRODUCT @ amzn_target_device_name then 0 else ret))"
proof -
  assume "unit_node p e"
  then obtain c cs d rest where p: "child p = c # cs" "child c = d # e # rest" "data_is (dat d) (oid_bytes [2, 5, 4, 11])"
    "\<not> (ty e \<noteq> LTC_ASN1_PRINTABLE_STRING \<and> ty e \<noteq> LTC_ASN1_UTF8_STRING)" "dat e \<noteq> Null" by (auto simp: unit_node_def)
  have "dat d \<noteq> Null" using p(3) by (auto simp: data_is_def)
  then show ?thesis
    unfolding metadata_loop.simps(2) product_text using p
    by (cases "ty e = LTC_ASN1_UTF8_STRING"; cases "unit_text e") (simp_all add: Let_def)
qed

declare metadata_loop.simps(2) [simp del]

lemma metadata_loop_sound:
  "metadata_loop L handler ps n ret = Inr (left, 0) \<Longrightarrow>
   (ret = 0 \<or> (\<exists>p \<in> set ps. names_product p)) \<and> (left \<longrightarrow> (\<exists>p \<in> set ps. bad_unit L p))"
proof (induction ps arbitrary: n ret)
  case (Cons p ps)
  show ?case
  proof (cases "\<exists>e. unit_node p e")
    case False
    then show ?thesis using metadata_loop_other [OF False, of L handler ps n ret] Cons by auto
  next
    case True
    then obtain e where e: "unit_node p e" by blast
    show ?thesis
    proof (cases "(n < siz e + 1 \<and> \<not> xmalloc L (siz e + 1)) \<or> unit_text e = None")
      case True
      then have "ret = 0 \<and> left" using Cons.prems metadata_loop_unit [OF e, of L handler ps n ret] by (auto split: if_splits)
      then show ?thesis using e True by (auto simp: bad_unit_def)
    next
      case False
      then obtain str where str: "unit_text e = Some str" by auto
      then have "metadata_loop L handler ps (max n (siz e + 1)) (if str = PRODUCT @ amzn_target_device_name then 0 else ret) = Inr (left, 0)"
        using Cons.prems metadata_loop_unit [OF e, of L handler ps n ret] False by (auto split: if_splits)
      then show ?thesis using Cons.IH str e by (fastforce simp: names_product_def split: if_splits)
    qed
  qed
qed simp

text \<open>The loop runs to its end when every unit has a text the handler accepts.\<close>

definition accepts :: "(8 word list \<Rightarrow> bool) option \<Rightarrow> asn1 \<Rightarrow> bool" where
  "accepts handler p \<longleftrightarrow> (\<forall>e str h. unit_node p e \<longrightarrow> unit_text e = Some str \<longrightarrow> handler = Some h \<longrightarrow> \<not> h str)"

lemma accepts_None [simp]: "accepts None p"
  by (simp add: accepts_def)

lemma metadata_loop_complete:
  assumes "\<forall>p \<in> set ps. \<not> bad_unit L p" and "metadata_loop L handler ps n ret = Inr (left, r)"
    and "\<forall>p \<in> set ps. accepts handler p"
  shows "\<not> left \<and> r = (if \<exists>p \<in> set ps. names_product p then 0 else ret)"
  using assms
proof (induction ps arbitrary: n ret)
  case (Cons p ps)
  show ?case
  proof (cases "\<exists>e. unit_node p e")
    case False
    then have "\<not> names_product p" by (auto simp: names_product_def)
    then show ?thesis using metadata_loop_other [OF False, of L handler ps n ret] Cons by auto
  next
    case True
    then obtain e where e: "unit_node p e" by blast
    then have ok: "xmalloc L (siz e + 1)" "unit_text e \<noteq> None" using Cons.prems(1) by (auto simp: bad_unit_def)
    then obtain str where str: "unit_text e = Some str" by auto
    have "\<not> (case handler of None \<Rightarrow> False | Some h \<Rightarrow> h str)" using Cons.prems(3) e str by (cases handler) (auto simp: accepts_def)
    then have "metadata_loop L handler ps (max n (siz e + 1)) (if str = PRODUCT @ amzn_target_device_name then 0 else ret) = Inr (left, r)"
      using Cons.prems(2) metadata_loop_unit [OF e, of L handler ps n ret] ok str by simp
    then have "\<not> left \<and> r = (if \<exists>p \<in> set ps. names_product p then 0 else if str = PRODUCT @ amzn_target_device_name then 0 else ret)"
      using Cons.prems(1,3) by (intro Cons.IH) simp_all
    moreover have "names_product p \<longleftrightarrow> str = PRODUCT @ amzn_target_device_name"
      using unit_node_unique [OF e] str e unfolding names_product_def by (metis option.inject)
    ultimately show ?thesis by simp
  qed
qed simp

section \<open>The hash\<close>

text \<open>The hash the alternative name of a certificate holds, as the 32 bytes of the number behind the first nine characters.\<close>

definition san_hash :: "ltc \<Rightarrow> asn1 list \<Rightarrow> 8 word list option" where
  "san_hash L l =
     (case find_node check_san_node [] l of
        Some (_, _, n # _) \<Rightarrow>
          if dat n = Null \<or> \<not> mp_init L then None
          else
            do {
              str \<leftarrow> find_hash_string L (data_mem (dat n)) (siz n);
              v \<leftarrow> mp_read_radix L (\<lambda>i. str (9 + i));
              bin \<leftarrow> mp_to_unsigned_bin L v;
              if mp_unsigned_bin_size L v > SHA256_DIGEST_SIZE then None
              else Some (take SHA256_DIGEST_SIZE (replicate (SHA256_DIGEST_SIZE - mp_unsigned_bin_size L v) 0 @ bin))
            }
      | _ \<Rightarrow> None)"

text \<open>The documented behaviour of the comparison in constant time.\<close>

definition compare_law :: "ltc \<Rightarrow> bool" where
  "compare_law L \<longleftrightarrow> (\<forall>a b. xmem_neq L a b = 0 \<longleftrightarrow> a = b)"

lemma check_hash_0: "compare_law L \<Longrightarrow> check_hash L l h = 0 \<longleftrightarrow> san_hash L l = Some h"
  by (auto simp: check_hash_def san_hash_def compare_law_def Let_def split: option.splits list.splits if_splits)

section \<open>Accepted images\<close>

definition authentic :: "'k board \<Rightarrow> ltc \<Rightarrow> cert_type \<Rightarrow> 8 word list \<Rightarrow> bytes \<Rightarrow> bool" where
  "authentic B L ct h cert \<longleftrightarrow> signed_cert B L ct cert \<and>
     (\<exists>l5. subject_fields L cert = Some l5 \<and> (\<exists>p \<in> set (child (hd l5)). names_product p) \<and> san_hash L l5 = Some h)"

text \<open>A certificate of the product with a unit whose text cannot be made.\<close>

definition half_read :: "'k board \<Rightarrow> ltc \<Rightarrow> cert_type \<Rightarrow> bytes \<Rightarrow> bool" where
  "half_read B L ct cert \<longleftrightarrow> signed_cert B L ct cert \<and>
     (\<exists>l5. subject_fields L cert = Some l5 \<and> (\<exists>p \<in> set (child (hd l5)). names_product p) \<and> (\<exists>p \<in> set (child (hd l5)). bad_unit L p))"

definition root_decoded :: "ltc \<Rightarrow> cert_type \<Rightarrow> bool" where
  "root_decoded L ct \<longleftrightarrow>
     der_decode_sequence_flexi L (cstring (amzn_get_kernel_cert ct)) (length (amzn_get_kernel_cert ct)) \<noteq> None"

lemma verify_image_sound:
  assumes "compare_law L" and "amzn_verify_image B L ct h cert handler = Inr 0"
  shows "authentic B L ct h cert \<or> half_read B L ct cert"
proof -
  obtain root where root: "der_decode_sequence_flexi L (cstring (amzn_get_kernel_cert ct)) (length (amzn_get_kernel_cert ct)) = Some root"
    using assms(2) by (cases "der_decode_sequence_flexi L (cstring (amzn_get_kernel_cert ct)) (length (amzn_get_kernel_cert ct))")
      (simp_all add: amzn_verify_image_def)
  note eq = assms(2) [unfolded verify_image_eq [OF root]]
  obtain l5 left ret where l5: "signed_cert B L ct cert" "subject_fields L cert = Some l5"
    and loop: "metadata_loop L handler (child (hd l5)) 0 (- 1) = Inr (left, ret)"
    using eq by (auto split: if_splits option.splits sum.splits)
  have "ret = 0 \<and> (left \<or> check_hash L l5 h = 0)" using eq l5 loop by (auto split: if_splits)
  then show ?thesis
    using metadata_loop_sound [of L handler "child (hd l5)" 0 "- 1" left] loop l5 check_hash_0 [OF assms(1)]
    by (auto simp: authentic_def half_read_def)
qed

lemma verify_image_complete:
  assumes "compare_law L" and "root_decoded L ct" and "authentic B L ct h cert" and "\<not> half_read B L ct cert"
    and "\<And>l5 p. subject_fields L cert = Some l5 \<Longrightarrow> p \<in> set (child (hd l5)) \<Longrightarrow> accepts handler p"
    and "amzn_verify_image B L ct h cert handler = Inr r"
  shows "r = 0"
proof -
  obtain root where root: "der_decode_sequence_flexi L (cstring (amzn_get_kernel_cert ct)) (length (amzn_get_kernel_cert ct)) = Some root"
    using assms(2) by (auto simp: root_decoded_def)
  note eq = assms(6) [unfolded verify_image_eq [OF root]]
  obtain l5 where l5: "signed_cert B L ct cert" "subject_fields L cert = Some l5" "\<exists>p \<in> set (child (hd l5)). names_product p"
    "san_hash L l5 = Some h" using assms(3) by (auto simp: authentic_def)
  then have good: "\<forall>p \<in> set (child (hd l5)). \<not> bad_unit L p" using assms(4) by (auto simp: half_read_def)
  obtain left ret where loop: "metadata_loop L handler (child (hd l5)) 0 (- 1) = Inr (left, ret)"
    using eq l5 by (auto split: sum.splits)
  then have "\<not> left \<and> ret = 0" using metadata_loop_complete [OF good loop] assms(5) [OF l5(2)] l5(3) by simp
  then show ?thesis using eq l5 loop check_hash_0 [OF assms(1), of l5 h] by simp
qed

section \<open>Images in memory\<close>

definition image_bytes :: "bytes \<Rightarrow> nat \<Rightarrow> 8 word list" where
  "image_bytes mem addr =
     map (\<lambda>i. mem (addr + i)) [0..<unat (ucast (android_image_get_end (\<lambda>i. mem (addr + i))) :: 32 word)]"

definition image_cert :: "bytes \<Rightarrow> nat \<Rightarrow> bytes" where
  "image_cert mem addr = (\<lambda>i. mem (addr + (unat (android_image_get_end (\<lambda>i. mem (addr + i))) + i)))"

text \<open>What a production device asks of an image: the magic number, and a certificate behind it that accepts its hash.\<close>

definition production_image :: "'k board \<Rightarrow> ltc \<Rightarrow> bytes \<Rightarrow> nat \<Rightarrow> bool" where
  "production_image B L mem addr \<longleftrightarrow> android_image_check_header (\<lambda>i. mem (addr + i)) \<and>
     (authentic B L AMZN_PRODUCTION_CERT (hw_sha256 B (image_bytes mem addr)) (image_cert mem addr) \<or>
      half_read B L AMZN_PRODUCTION_CERT (image_cert mem addr))"

lemma image_verify_sound:
  assumes "compare_law L" and "amzn_target_device_type B = AMZN_PRODUCTION_DEVICE" and "image_verify B L mem addr = Inr 0"
  shows "production_image B L mem addr"
proof -
  let ?h = "hw_sha256 B (image_bytes mem addr)"
  have fmt: "genimg_get_format (\<lambda>i. mem (addr + i)) = IMAGE_FORMAT_ANDROID"
    and v: "amzn_image_verify B L (image_bytes mem addr) (image_cert mem addr) None = Inr 1"
    using assms(3) by (auto simp: image_verify_def image_bytes_def image_cert_def Let_def split: if_splits sum.splits)
  have "android_image_check_header (\<lambda>i. mem (addr + i))" using fmt by (auto simp: genimg_get_format_def split: if_splits)
  moreover have "amzn_verify_image B L AMZN_PRODUCTION_CERT ?h (image_cert mem addr) None = Inr 0"
    using v assms(2) by (auto simp: amzn_image_verify_def Let_def split: if_splits sum.splits)
  ultimately show ?thesis unfolding production_image_def using verify_image_sound [OF assms(1)] by blast
qed

lemma image_verify_complete:
  assumes "compare_law L" and "addr \<noteq> 0" and "genimg_get_format (\<lambda>i. mem (addr + i)) = IMAGE_FORMAT_ANDROID" and "plat_alloc B"
    and "amzn_verify_image B L AMZN_PRODUCTION_CERT (hw_sha256 B (image_bytes mem addr)) (image_cert mem addr) None = Inr 0"
  shows "image_verify B L mem addr = Inr 0"
  using assms by (simp add: image_verify_def amzn_image_verify_def image_bytes_def image_cert_def Let_def)

end
