(* ===== verification/Boot_Props.thy ===== *)
theory Boot_Props
  imports Boot_Safety Lock_Props
begin

text \<open>
  The properties of the image check, with a sample certificate: the root signs it, its subject names the product and its alternative
  name holds the hash zero.
\<close>

unbundle bit_operations_syntax

section \<open>Bit strings\<close>

definition bits_of :: "8 word \<Rightarrow> 8 word list" where
  "bits_of b = map (\<lambda>i. if bit b (7 - i) then 1 else 0) [0..<8]"

lemma bits_of_eq: "bits_of b = [if bit b 7 then 1 else 0, if bit b 6 then 1 else 0, if bit b 5 then 1 else 0, if bit b 4 then 1 else 0,
    if bit b 3 then 1 else 0, if bit b 2 then 1 else 0, if bit b 1 then 1 else 0, if bit b 0 then 1 else 0]"
  by (simp add: bits_of_def upt_rec)

lemma sig_byte:
  fixes b :: "8 word"
  shows "(ucast (push_bit 7 (of_bool (bit b 7)) OR push_bit 6 (of_bool (bit b 6)) OR push_bit 5 (of_bool (bit b 5)) OR
     push_bit 4 (of_bool (bit b 4)) OR push_bit 3 (of_bool (bit b 3)) OR push_bit 2 (of_bool (bit b 2)) OR
     push_bit 1 (of_bool (bit b 1)) OR of_bool (bit b 0) :: 64 word) :: 8 word) = b"
proof (rule bit_word_eqI)
  fix n
  assume "n < LENGTH(8)"
  then have "n = 0 \<or> n = 1 \<or> n = 2 \<or> n = 3 \<or> n = 4 \<or> n = 5 \<or> n = 6 \<or> n = 7" by simp arith
  then show "bit (ucast (push_bit 7 (of_bool (bit b 7)) OR push_bit 6 (of_bool (bit b 6)) OR push_bit 5 (of_bool (bit b 5)) OR
     push_bit 4 (of_bool (bit b 4)) OR push_bit 3 (of_bool (bit b 3)) OR push_bit 2 (of_bool (bit b 2)) OR
     push_bit 1 (of_bool (bit b 1)) OR of_bool (bit b 0) :: 64 word) :: 8 word) n \<longleftrightarrow> bit b n"
    by (elim disjE) (simp_all add: bit_simps)
qed

lemma sig_loop_bit:
  assumes "y mod 8 = k" and "k < 7"
  shows "sig_loop ((if P then 1 else 0) # ds) y buf = sig_loop ds (Suc y) (buf OR push_bit (7 - k) (of_bool P))"
  using assms by (simp add: of_bool_def)

lemma sig_loop_last:
  assumes "y mod 8 = 7"
  shows "sig_loop ((if P then 1 else 0) # ds) y buf = ucast (buf OR of_bool P) # sig_loop ds (Suc y) 0"
  using assms by (simp add: of_bool_def)

lemma sig_loop_byte:
  assumes "y mod 8 = 0"
  shows "sig_loop (bits_of b @ ds) y 0 = b # sig_loop ds (y + 8) 0"
proof -
  have m: "Suc y mod 8 = 1" "Suc (Suc y) mod 8 = 2" "Suc (Suc (Suc y)) mod 8 = 3" "Suc (Suc (Suc (Suc y))) mod 8 = 4"
    "Suc (Suc (Suc (Suc (Suc y)))) mod 8 = 5" "Suc (Suc (Suc (Suc (Suc (Suc y))))) mod 8 = 6" "Suc (Suc (Suc (Suc (Suc (Suc (Suc y)))))) mod 8 = 7"
    using assms by presburger+
  have "y + 8 = Suc (Suc (Suc (Suc (Suc (Suc (Suc (Suc y)))))))" by simp
  then show ?thesis
    using sig_byte [of b]
    by (simp only: bits_of_eq append_Cons append_Nil sig_loop_bit [OF assms] sig_loop_bit [OF m(1)] sig_loop_bit [OF m(2)] sig_loop_bit [OF m(3)]
        sig_loop_bit [OF m(4)] sig_loop_bit [OF m(5)] sig_loop_bit [OF m(6)] sig_loop_last [OF m(7)]) (simp add: or.assoc)
qed

lemma sig_loop_bits: "y mod 8 = 0 \<Longrightarrow> sig_loop (concat (map bits_of bs)) y 0 = bs"
proof (induction bs arbitrary: y)
  case (Cons b bs)
  have "(y + 8) mod 8 = 0" using Cons.prems by simp
  then show ?case using sig_loop_byte [OF Cons.prems, of b "concat (map bits_of bs)"] Cons.IH by simp
qed simp

section \<open>The sample certificate\<close>

definition leaf :: "asn1_type \<Rightarrow> 8 word list \<Rightarrow> nat \<Rightarrow> asn1" where
  "leaf t bs n = Asn1 t (Mem (cstring bs)) n 0 True []"

definition node :: "asn1 list \<Rightarrow> asn1" where
  "node cs = Asn1 LTC_ASN1_SEQUENCE (Elems []) 0 0 True cs"

definition unit_rdn :: "asn1_type \<Rightarrow> 8 word list \<Rightarrow> nat \<Rightarrow> asn1" where
  "unit_rdn t bs n = node [node [leaf LTC_ASN1_OBJECT_IDENTIFIER (oid_bytes [2, 5, 4, 11]) 4, leaf t bs n]]"

definition product_rdn :: asn1 where
  "product_rdn = unit_rdn LTC_ASN1_PRINTABLE_STRING (PRODUCT @ CONFIG_DEVICE_PRODUCT) 15"

definition empty_rdn :: asn1 where
  "empty_rdn = unit_rdn LTC_ASN1_UTF8_STRING [0] 0"

definition cert_forest :: "asn1 list \<Rightarrow> asn1 list" where
  "cert_forest rdns = [node [node [leaf (LTC_ASN1_OTHER 1) [] 0, leaf (LTC_ASN1_OTHER 2) [] 0, leaf (LTC_ASN1_OTHER 3) [] 0,
       leaf (LTC_ASN1_OTHER 4) [] 0, leaf (LTC_ASN1_OTHER 5) [] 0, node rdns,
       leaf LTC_ASN1_OBJECT_IDENTIFIER (oid_bytes [2, 5, 29, 17]) 4, leaf (LTC_ASN1_OTHER 6) [2] 1],
     leaf (LTC_ASN1_OTHER 7) [] 0, leaf LTC_ASN1_BIT_STRING [0, 0, 0, 0, 0, 0, 0, 1] 8]]"

definition root_forest :: "asn1 list" where
  "root_forest = [node [node [leaf LTC_ASN1_OBJECT_IDENTIFIER (oid_bytes [1, 2, 840, 113549, 1, 1, 1]) 7]]]"

definition sample_ltc :: "asn1 list \<Rightarrow> ltc" where
  "sample_ltc rdns = \<lparr>xmalloc = \<lambda>_. True, fresh = \<lambda>_. 0, der_length_sequence = \<lambda>_ _. Some 1, der_encode_sequence_ex = \<lambda>_ _ _. Some [0],
     der_decode_sequence_flexi = \<lambda>m n. if m 0 = 0x30 then Some root_forest else if m 0 = 2 then Some [node [Asn1 LTC_ASN1_CONTEXT_SPECIFIC
       (Mem (\<lambda>_. 0)) 1 0x86 True []]] else Some (cert_forest rdns),
     sha256 = \<lambda>_. replicate 32 0, mp_init = True, mp_read_radix = \<lambda>_. Some 0, mp_unsigned_bin_size = \<lambda>_. 0,
     mp_to_unsigned_bin = \<lambda>_. Some [], xmem_neq = \<lambda>a b. if a = b then 0 else 1\<rparr>"

lemma cstring_bytes: "map (cstring a) [0..<length a] = a"
  by (intro nth_equalityI) (simp_all add: cstring_def)

lemma data_is_cstring: "length a = length b \<Longrightarrow> data_is (Mem (cstring a)) b \<longleftrightarrow> a = b"
  using cstring_bytes [of a] by (simp add: data_is_def)

lemma oid_length: "length (oid_bytes arcs) = 8 * length arcs"
  by (induction arcs) (simp_all add: oid_bytes_def le64_def)

lemma le64_small:
  assumes "n < 256"
  shows "le64 n = of_nat n # replicate 7 0"
proof (rule nth_equalityI)
  fix i
  assume "i < length (le64 n)"
  then have i: "i < 8" by (simp add: le64_def)
  have "(256 :: nat) ^ 1 \<le> 256 ^ i" if "i \<noteq> 0" using that by (intro power_increasing) simp_all
  then have "n div 256 ^ i = 0" if "i \<noteq> 0" using that assms by simp
  then show "le64 n ! i = (of_nat n # replicate 7 0) ! i" using i by (cases i) (simp_all add: le64_def)
qed (simp add: le64_def)

lemma oid_neq: "oid_bytes [2, 5, 4, 11] \<noteq> oid_bytes [2, 5, 29, 17]"
  by (simp add: oid_bytes_def le64_small)

lemma sample_root: "root_decoded (sample_ltc rdns) ct" "root_key sample_board (sample_ltc rdns) ct = Some ()"
proof -
  have "cstring (amzn_get_kernel_cert ct) 0 = 0x30"
    by (cases ct) (simp_all add: cstring_def amzn_get_kernel_cert_def production_cacert_def engineering_cacert_def)
  moreover have "data_is (Mem (cstring (oid_bytes [1, 2, 840, 113549, 1, 1, 1]))) (oid_bytes [1, 2, 840, 113549, 1, 1, 1])"
    by (simp add: data_is_cstring)
  ultimately show "root_decoded (sample_ltc rdns) ct" "root_key sample_board (sample_ltc rdns) ct = Some ()"
    by (simp_all add: root_decoded_def root_key_def sample_ltc_def der_rescan_tree_def root_forest_def node_def leaf_def
        extract_cert_key_pub_def check_rsa_node_def sample_board_def)
qed

lemma sample_signed_cert:
  assumes "cert 0 = 1"
  shows "signed_cert sample_board (sample_ltc rdns) ct cert"
proof -
  have "decode_signature (sample_ltc rdns) (leaf LTC_ASN1_BIT_STRING [0, 0, 0, 0, 0, 0, 0, 1] 8) = Some [1]"
    by (simp add: decode_signature_def leaf_def sample_ltc_def cstring_def upt_rec)
  then show ?thesis
    using assms sample_root(2) [of rdns ct]
    by (simp add: signed_cert_def tbs_signed_def) (simp add: sample_ltc_def der_rescan_tree_def cert_forest_def node_def leaf_def sample_board_def)
qed

lemma unit_rdn_node:
  "t = LTC_ASN1_PRINTABLE_STRING \<or> t = LTC_ASN1_UTF8_STRING \<Longrightarrow> unit_node (rescan_node L (unit_rdn t bs n)) (leaf t bs n)"
  by (auto simp: unit_node_def unit_rdn_def node_def leaf_def data_is_cstring Let_def)

lemma sample_product: "names_product (rescan_node L product_rdn)"
proof -
  have "unit_text (leaf LTC_ASN1_PRINTABLE_STRING (PRODUCT @ CONFIG_DEVICE_PRODUCT) 15) = Some (PRODUCT @ amzn_target_device_name)"
    by (simp add: unit_text_def leaf_def data_mem_def cstring_def PRODUCT_def CONFIG_DEVICE_PRODUCT_def amzn_target_device_name_def
        tolower_def upt_rec)
  then show ?thesis unfolding names_product_def product_rdn_def using unit_rdn_node by blast
qed

definition sample_fields :: "asn1 list \<Rightarrow> asn1 list" where
  "sample_fields rdns = [rescan_node (sample_ltc rdns) (node rdns), leaf LTC_ASN1_OBJECT_IDENTIFIER (oid_bytes [2, 5, 29, 17]) 4,
     leaf (LTC_ASN1_OTHER 6) [2] 1]"

lemma sample_subject: "cert 0 = 1 \<Longrightarrow> rdns \<noteq> [] \<Longrightarrow> subject_fields (sample_ltc rdns) cert = Some (sample_fields rdns)"
  by (simp add: subject_fields_def sample_ltc_def der_rescan_tree_def cert_forest_def node_def leaf_def sample_fields_def Let_def)

lemma sample_subject_child: "rdns \<noteq> [] \<Longrightarrow> child (hd (sample_fields rdns)) = map (rescan_node (sample_ltc rdns)) rdns"
  by (simp add: sample_fields_def node_def Let_def)

lemma sample_san: "san_hash (sample_ltc [product_rdn]) (sample_fields [product_rdn]) = Some (replicate 32 0)"
proof -
  have "\<not> check_san_node (leaf LTC_ASN1_OBJECT_IDENTIFIER (oid_bytes [2, 5, 4, 11]) n)"
    "check_san_node (leaf LTC_ASN1_OBJECT_IDENTIFIER (oid_bytes [2, 5, 29, 17]) n)"
    "t \<noteq> LTC_ASN1_OBJECT_IDENTIFIER \<Longrightarrow> \<not> check_san_node (Asn1 t d k u b cs)" for n t d k u b cs
    using oid_neq by (auto simp: check_san_node_def leaf_def data_is_cstring oid_length)
  then have "find_node check_san_node [] (sample_fields [product_rdn]) =
      Some ([], leaf LTC_ASN1_OBJECT_IDENTIFIER (oid_bytes [2, 5, 29, 17]) 4, [leaf (LTC_ASN1_OTHER 6) [2] 1])"
    by (simp add: sample_fields_def node_def leaf_def product_rdn_def unit_rdn_def Let_def)
  then show ?thesis
    by (simp add: san_hash_def leaf_def data_mem_def cstring_def)
      (simp add: find_hash_string_def sample_ltc_def node_def SHA256_DIGEST_SIZE_def cstring_def)
qed

lemma product_not_bad: "xmalloc L = (\<lambda>_. True) \<Longrightarrow> \<not> bad_unit L (rescan_node L' product_rdn)"
proof -
  assume "xmalloc L = (\<lambda>_. True)"
  moreover have "unit_node (rescan_node L' product_rdn) e \<Longrightarrow> e = leaf LTC_ASN1_PRINTABLE_STRING (PRODUCT @ CONFIG_DEVICE_PRODUCT) 15" for e
    unfolding product_rdn_def by (rule unit_node_unique [OF unit_rdn_node]) simp_all
  moreover have "unit_text (leaf LTC_ASN1_PRINTABLE_STRING (PRODUCT @ CONFIG_DEVICE_PRODUCT) 15) \<noteq> None"
    by (simp add: unit_text_def leaf_def)
  ultimately show ?thesis unfolding bad_unit_def by metis
qed

lemma sample_verify_runs:
  assumes "cert 0 = 1"
  shows "\<exists>r. amzn_verify_image sample_board (sample_ltc [product_rdn]) ct h cert None = Inr r \<and> (r = 0 \<or> r = - 1)"
proof -
  let ?L = "sample_ltc [product_rdn]"
  obtain root where root: "der_decode_sequence_flexi ?L (cstring (amzn_get_kernel_cert ct)) (length (amzn_get_kernel_cert ct)) = Some root"
    using sample_root(1) [of "[product_rdn]" ct] by (auto simp: root_decoded_def)
  obtain e where e: "unit_node (rescan_node ?L product_rdn) e" "unit_text e = Some (PRODUCT @ amzn_target_device_name)"
    using sample_product by (auto simp: names_product_def)
  have "metadata_loop ?L None (child (hd (sample_fields [product_rdn]))) 0 (- 1) = Inr (False, 0)"
    using metadata_loop_unit [OF e(1), of ?L None "[]" 0 "- 1"] e(2) by (simp add: sample_subject_child) (simp add: sample_ltc_def)
  moreover have "check_hash ?L l h = 0 \<or> check_hash ?L l h = - 1" for l
    by (auto simp: check_hash_def Let_def split: option.splits list.splits)
  ultimately show ?thesis
    using verify_image_eq [OF root, of sample_board h cert None] sample_signed_cert [of cert, OF assms]
      sample_subject [of cert "[product_rdn]", OF assms] by simp
qed

lemma sample_authentic:
  assumes "cert 0 = 1"
  shows "authentic sample_board (sample_ltc [product_rdn]) ct (replicate 32 0) cert"
    "\<not> half_read sample_board (sample_ltc [product_rdn]) ct cert"
proof -
  show "authentic sample_board (sample_ltc [product_rdn]) ct (replicate 32 0) cert"
    using sample_signed_cert [of cert, OF assms] sample_subject [of cert "[product_rdn]", OF assms] sample_san sample_product
    by (auto simp: authentic_def sample_subject_child)
  have "\<not> bad_unit (sample_ltc [product_rdn]) (rescan_node L product_rdn)" for L
    using product_not_bad by (simp add: sample_ltc_def)
  then show "\<not> half_read sample_board (sample_ltc [product_rdn]) ct cert"
    using sample_subject [of cert "[product_rdn]", OF assms] by (auto simp: half_read_def sample_subject_child)
qed

lemma sample_compare: "compare_law (sample_ltc rdns)"
  by (simp add: compare_law_def sample_ltc_def)

section \<open>Booting a locked device\<close>

lemma locked_bootm:
  assumes l: "still_locked B c0 ts l" and no: "\<not> signature_shown B c0 ts" and prod: "amzn_target_device_type B = AMZN_PRODUCTION_DEVICE"
    and "compare_law L" and boot: "do_bootm B L mem args l = Inr (Boot addr, l')"
  shows "production_image B L mem addr"
proof -
  obtain u s1 where u: "amzn_target_is_unlocked B l = Inr (u, s1)"
    using boot by (auto simp: do_bootm_def Let_def split: if_splits sum.splits)
  then obtain o1 s2 where o1: "amzn_target_is_onetime_unlocked B s1 = Inr (o1, s2)"
    using boot by (auto simp: do_bootm_def Let_def split: if_splits sum.splits)
  have "\<not> u" and s1: "still_locked B c0 ts s1"
    using is_unlocked_Inr [OF u] l still_locked_same [OF l] by (auto simp: still_locked_def)
  moreover have "\<not> o1"
    using onetime_Inr [OF o1] s1 no by (auto simp: still_locked_def signature_shown_def)
  ultimately have "image_verify B L mem addr = Inr 0"
    using boot u o1 by (auto simp: do_bootm_def Let_def split: if_splits sum.splits)
  then show ?thesis using image_verify_sound assms by blast
qed

text \<open>A memory with an image of one page at 0x1000 and the sample certificate behind it.\<close>

definition sample_memory :: bytes where
  "sample_memory = (\<lambda>a. if a < 0x1000 then 0
     else cstring (ANDR_BOOT_MAGIC @ replicate 28 0 @ [64, 0, 0, 0] @ replicate 24 0 @ [1]) (a - 0x1000))"

lemma sample_image:
  "genimg_get_format (\<lambda>i. sample_memory (0x1000 + i)) = IMAGE_FORMAT_ANDROID"
  "android_image_get_end (\<lambda>i. sample_memory (0x1000 + i)) = 64"
  "image_cert sample_memory 0x1000 0 = 1"
proof -
  have "be32_at (\<lambda>i. sample_memory (0x1000 + i)) 0 = 0x414e4452"
    by (simp add: be32_at_def sample_memory_def ANDR_BOOT_MAGIC_def cstring_def)
  moreover have "android_image_check_header (\<lambda>i. sample_memory (0x1000 + i))"
    by (simp add: android_image_check_header_def sample_memory_def ANDR_BOOT_MAGIC_def cstring_def upt_rec)
  ultimately show "genimg_get_format (\<lambda>i. sample_memory (0x1000 + i)) = IMAGE_FORMAT_ANDROID"
    by (simp add: genimg_get_format_def fdt_check_header_def IH_MAGIC_def FDT_MAGIC_def FDT_SW_MAGIC_def)
  show e: "android_image_get_end (\<lambda>i. sample_memory (0x1000 + i)) = 64"
    by (simp add: android_image_get_end_def page_size_def kernel_size_def ramdisk_size_def second_size_def hdr_field_def load32_def
        sample_memory_def ANDR_BOOT_MAGIC_def cstring_def ALIGN_def nth_append)
  show "image_cert sample_memory 0x1000 0 = 1"
    unfolding image_cert_def e by (simp add: sample_memory_def ANDR_BOOT_MAGIC_def cstring_def nth_append)
qed

lemma sample_boots:
  "\<exists>l'. do_bootm sample_board (sample_ltc [product_rdn]) sample_memory [ascii ''1000''] sample_lock = Inr (Boot 0x1000, l')"
proof -
  let ?L = "sample_ltc [product_rdn]"
  obtain u s1 where u: "amzn_target_is_unlocked sample_board sample_lock = Inr (u, s1)" using is_unlocked_total [OF sample_hash] by blast
  obtain o1 s2 where o1: "amzn_target_is_onetime_unlocked sample_board s1 = Inr (o1, s2)" using is_onetime_total [OF sample_hash] by blast
  note cert = sample_authentic [of "image_cert sample_memory 0x1000" AMZN_PRODUCTION_CERT, OF sample_image(3)]
  obtain r where r: "amzn_verify_image sample_board ?L AMZN_PRODUCTION_CERT (replicate 32 0) (image_cert sample_memory 0x1000) None = Inr r"
    using sample_verify_runs [of "image_cert sample_memory 0x1000", OF sample_image(3)] by blast
  have "r = 0" by (rule verify_image_complete [OF sample_compare sample_root(1) cert _ r]) simp
  moreover have "hw_sha256 sample_board bs = replicate 32 0" "plat_alloc sample_board" for bs by (simp_all add: sample_board_def)
  ultimately have "image_verify sample_board ?L sample_memory 0x1000 = Inr 0"
    using r by (intro image_verify_complete [OF sample_compare _ sample_image(1)]) simp_all
  moreover have "strtoul_end (ascii ''1000'') = []" "unat (ucast (simple_strtoul (ascii ''1000'')) :: 32 word) = 0x1000"
    by (simp_all add: strtoul_end_def simple_strtoul_def isxdigit_def is_digit_def hexval_def)
  ultimately show ?thesis using u o1 unfolding do_bootm_def by (auto simp: Let_def)
qed

section \<open>Properties\<close>

text \<open>C10 the check of an image accepts exactly the authentic ones, whose certificate is signed by the root, names the product and holds the
  hash, unless the certificate names the product and has a unit whose text cannot be made.\<close>

theorem amzn_verify_image_exact:
  assumes "compare_law L" and "\<not> half_read B L ct cert" and "amzn_verify_image B L ct h cert None = Inr r"
  shows "r = 0 \<longleftrightarrow> authentic B L ct h cert"
proof
  assume "r = 0"
  then show "authentic B L ct h cert" using verify_image_sound [OF assms(1)] assms(2,3) by blast
next
  assume "authentic B L ct h cert"
  moreover have "root_decoded L ct" using assms(3) by (auto simp: root_decoded_def amzn_verify_image_def Let_def split: option.splits)
  ultimately show "r = 0" using verify_image_complete [OF assms(1) _ _ assms(2) _ assms(3)] by simp
qed

theorem amzn_verify_image_exact_witness:
  "amzn_verify_image sample_board (sample_ltc [product_rdn]) AMZN_PRODUCTION_CERT (replicate 32 0) (\<lambda>_. 1) None = Inr 0 \<and>
   amzn_verify_image sample_board (sample_ltc [product_rdn]) AMZN_PRODUCTION_CERT (replicate 32 1) (\<lambda>_. 1) None = Inr (- 1)"
proof -
  let ?L = "sample_ltc [product_rdn]" and ?cert = "\<lambda>_. 1 :: 8 word"
  have run: "\<exists>r. amzn_verify_image sample_board ?L AMZN_PRODUCTION_CERT h ?cert None = Inr r \<and> (r = 0 \<or> r = - 1)" for h
    using sample_verify_runs [of ?cert] by simp
  have "r = 0 \<longleftrightarrow> authentic sample_board ?L AMZN_PRODUCTION_CERT h ?cert"
    if "amzn_verify_image sample_board ?L AMZN_PRODUCTION_CERT h ?cert None = Inr r" for h r
    using amzn_verify_image_exact [OF sample_compare sample_authentic(2) that] by simp
  moreover have "\<not> authentic sample_board ?L AMZN_PRODUCTION_CERT (replicate 32 1) ?cert"
    using sample_subject [of ?cert "[product_rdn]"] sample_san by (simp add: authentic_def)
  moreover have "authentic sample_board ?L AMZN_PRODUCTION_CERT (replicate 32 0) ?cert" by (rule sample_authentic(1)) simp
  ultimately show ?thesis using run [of "replicate 32 0"] run [of "replicate 32 1"] by auto
qed



text \<open>The signature of a certificate is read from its bit string, one byte for each bit, as the bytes it was written from.\<close>

theorem decode_signature_roundtrip:
  assumes "ty l = LTC_ASN1_BIT_STRING" and "dat l = Mem m" and "siz l = 8 * length bs" and "map m [0..<siz l] = concat (map bits_of bs)"
    and "xmalloc L (length bs + 1)"
  shows "decode_signature L l = Some bs"
  using assms sig_loop_bits [of 0 bs] by (simp add: decode_signature_def)

theorem decode_signature_roundtrip_witness:
  "decode_signature (sample_ltc []) (leaf LTC_ASN1_BIT_STRING (bits_of 0xa5 @ bits_of 0x01) 16) = Some [0xa5, 0x01]"
proof -
  let ?bits = "bits_of 0xa5 @ bits_of 0x01"
  have len: "length ?bits = 16" by (simp add: bits_of_eq)
  have "map (cstring ?bits) [0..<16] = concat (map bits_of [0xa5, 0x01])" using cstring_bytes [of ?bits] unfolding len by simp
  then show ?thesis by (intro decode_signature_roundtrip) (simp_all add: leaf_def sample_ltc_def)
qed

end
